(* ===== verification/Prelude.thy ===== *)
theory Prelude
  imports Main "HOL-Library.Word" "HOL-Library.AList" "HOL-Library.Sublist"
begin

text \<open>
  What every component shares: team identifiers and their text form, the exceptions of the
  program, programs that read and write a state and may raise, Python dictionaries (association
  lists in insertion order) and the string methods the code calls.

  Text is modelled over Latin-1 code points (\<^typ>\<open>string\<close>, one \<^typ>\<open>char\<close> per code point).
  Logging calls have no effect on any state and are left out everywhere.
\<close>

named_theorems invariant_intros \<open>programs that keep an invariant\<close>
named_theorems prog_simps \<open>unfolding of programs with state and exceptions\<close>
named_theorems frame_intros \<open>programs that leave an observation of the state unchanged\<close>

section \<open>Lists\<close>

text \<open>\<open>list(dict.fromkeys(xs))\<close>: duplicates dropped, each element at its first position.\<close>

definition dedup :: "'a list \<Rightarrow> 'a list" where
  "dedup xs = rev (remdups (rev xs))"

lemma set_dedup [simp]: "set (dedup xs) = set xs"
  by (simp add: dedup_def)

lemma distinct_dedup [simp]: "distinct (dedup xs)"
  by (simp add: dedup_def)

lemma dedup_Nil [simp]: "dedup [] = []"
  by (simp add: dedup_def)

lemma dedup_snoc: "dedup (xs @ [x]) = (if x \<in> set xs then dedup xs else dedup xs @ [x])"
  by (simp add: dedup_def)

lemma dedup_distinct: "distinct xs \<Longrightarrow> dedup xs = xs"
  by (simp add: dedup_def distinct_remdups_id)

lemma dedup_idem [simp]: "dedup (dedup xs) = dedup xs"
  by (simp add: dedup_distinct)

lemma sublist_set_mono: "sublist xs ys \<Longrightarrow> set xs \<subseteq> set ys"
  by (auto simp: sublist_def)

text \<open>
  Python indexing and slicing: a negative index counts from the end, an index out of range raises,
  a slice is clipped.
\<close>

definition py_nth :: "'a list \<Rightarrow> int \<Rightarrow> 'a option" where
  "py_nth xs i =
     (let n = int (length xs); j = (if i < 0 then n + i else i)
      in if 0 \<le> j \<and> j < n then Some (xs ! nat j) else None)"

definition py_drop :: "int \<Rightarrow> 'a list \<Rightarrow> 'a list" where
  "py_drop i xs = (if i < 0 then drop (nat (int (length xs) + i)) xs else drop (nat i) xs)"

definition py_take :: "int \<Rightarrow> 'a list \<Rightarrow> 'a list" where
  "py_take i xs = (if i < 0 then take (nat (int (length xs) + i)) xs else take (nat i) xs)"

lemma py_nth_of_nat [simp]: "py_nth xs (int n) = (if n < length xs then Some (xs ! n) else None)"
  by (simp add: py_nth_def)

lemma py_drop_of_nat [simp]: "py_drop (int n) xs = drop n xs"
  by (simp add: py_drop_def)

lemma py_take_of_nat [simp]: "py_take (int n) xs = take n xs"
  by (simp add: py_take_def)

lemma py_drop_0 [simp]: "py_drop 0 xs = xs"
  by (simp add: py_drop_def)

section \<open>Dictionaries\<close>

text \<open>
  A Python \<open>dict\<close> is an association list with distinct keys in insertion order. Assignment is
  \<^const>\<open>AList.update\<close>: it overwrites in place or appends, as Python does. \<open>pop\<close> and \<open>del\<close> are
  \<^const>\<open>AList.delete\<close>, \<open>get\<close> is \<^const>\<open>map_of\<close>.
\<close>

type_synonym ('k, 'v) dict = "('k \<times> 'v) list"

definition dict_ok :: "('k, 'v) dict \<Rightarrow> bool" where
  "dict_ok d \<longleftrightarrow> distinct (map fst d)"

lemma dict_ok_Nil [simp]: "dict_ok []"
  by (simp add: dict_ok_def)

lemma dict_ok_update [simp]: "dict_ok d \<Longrightarrow> dict_ok (AList.update k v d)"
  by (simp add: dict_ok_def distinct_update)

lemma dict_ok_delete [simp]: "dict_ok d \<Longrightarrow> dict_ok (AList.delete k d)"
  by (simp add: dict_ok_def distinct_delete)

lemma dict_ok_ConsD: "dict_ok ((k, v) # d) \<Longrightarrow> dict_ok d \<and> k \<notin> fst ` set d"
  by (simp add: dict_ok_def)

lemma map_of_update [simp]: "map_of (AList.update k v d) = (map_of d)(k \<mapsto> v)"
  by (rule update_conv')

lemma map_of_delete [simp]: "map_of (AList.delete k d) = (map_of d)(k := None)"
  by (rule delete_conv')

lemma dict_ok_mem_map_of: "dict_ok d \<Longrightarrow> (k, v) \<in> set d \<longleftrightarrow> map_of d k = Some v"
  by (simp add: dict_ok_def)

section \<open>Identifiers\<close>

text \<open>
  A team id is a \<open>uuid.UUID\<close>, 128 bits. \<open>str(team_id)\<close> is its lower-case hexadecimal text in
  the groups 8-4-4-4-12; \<open>uuid_digits\<close> are the 32 hexadecimal digits, the most significant first.
\<close>

type_synonym uuid = "128 word"

definition hex_char :: "nat \<Rightarrow> char" where
  "hex_char d = ''0123456789abcdef'' ! d"

definition uuid_digits :: "uuid \<Rightarrow> string" where
  "uuid_digits u = map (\<lambda>i. hex_char ((unat u div 16 ^ i) mod 16)) (rev [0..<32])"

definition uuid_str :: "uuid \<Rightarrow> string" where
  "uuid_str u =
     (let h = uuid_digits u
      in take 8 h @ ''-'' @ take 4 (drop 8 h) @ ''-'' @ take 4 (drop 12 h) @ ''-''
           @ take 4 (drop 16 h) @ ''-'' @ drop 20 h)"

text \<open>The text of an identifier determines it.\<close>

lemma hex_char_inj: "d < 16 \<Longrightarrow> e < 16 \<Longrightarrow> hex_char d = hex_char e \<Longrightarrow> d = e"
proof -
  have "distinct ''0123456789abcdef''" "length ''0123456789abcdef'' = 16" by simp_all
  then show "d < 16 \<Longrightarrow> e < 16 \<Longrightarrow> hex_char d = hex_char e \<Longrightarrow> d = e"
    unfolding hex_char_def by (metis nth_eq_iff_index_eq)
qed

lemma hex_digits_inj:
  "(n::nat) < 16 ^ k \<Longrightarrow> m < 16 ^ k \<Longrightarrow> (\<And>i. i < k \<Longrightarrow> n div 16 ^ i mod 16 = m div 16 ^ i mod 16) \<Longrightarrow> n = m"
proof (induction k arbitrary: n m)
  case (Suc k)
  have "n div 16 = m div 16"
  proof (rule Suc.IH)
    show "n div 16 < 16 ^ k" "m div 16 < 16 ^ k" using Suc.prems(1,2) by auto
    show "n div 16 div 16 ^ i mod 16 = m div 16 div 16 ^ i mod 16" if "i < k" for i
      using Suc.prems(3) [of "Suc i"] that by (simp add: div_mult2_eq)
  qed
  moreover have "n mod 16 = m mod 16" using Suc.prems(3) [of 0] by simp
  ultimately show ?case by (metis div_mult_mod_eq)
qed simp

lemma length_uuid_digits [simp]: "length (uuid_digits u) = 32"
  by (simp add: uuid_digits_def)

lemma uuid_digits_inj: "uuid_digits u = uuid_digits v \<Longrightarrow> u = v"
proof -
  assume eq: "uuid_digits u = uuid_digits v"
  have "unat u div 16 ^ i mod 16 = unat v div 16 ^ i mod 16" if "i < 32" for i
  proof -
    have "i \<in> set (rev [0..<32])" using that by simp
    then have "hex_char (unat u div 16 ^ i mod 16) = hex_char (unat v div 16 ^ i mod 16)"
      using eq unfolding uuid_digits_def map_eq_conv by blast
    then show ?thesis by (rule hex_char_inj [rotated -1]) simp_all
  qed
  moreover have "unat w < 16 ^ 32" for w :: uuid
    using unsigned_less [of w] by simp
  ultimately have "unat u = unat v" using hex_digits_inj [of "unat u" 32 "unat v"] by blast
  then show "u = v" by (simp add: word_unat_eq_iff)
qed

lemma uuid_str_digits:
  "take 8 (uuid_str u) @ take 4 (drop 9 (uuid_str u)) @ take 4 (drop 14 (uuid_str u)) @
     take 4 (drop 19 (uuid_str u)) @ drop 24 (uuid_str u) = uuid_digits u"
proof -
  obtain a b where ab: "uuid_digits u = a @ b" "length a = 8" "length b = 24"
    by (rule that [of "take 8 (uuid_digits u)" "drop 8 (uuid_digits u)"]) simp_all
  obtain c d where cd: "b = c @ d" "length c = 4" "length d = 20"
    by (rule that [of "take 4 b" "drop 4 b"]) (simp_all add: ab)
  obtain e f where ef: "d = e @ f" "length e = 4" "length f = 16"
    by (rule that [of "take 4 d" "drop 4 d"]) (simp_all add: cd)
  obtain g h where gh: "f = g @ h" "length g = 4" "length h = 12"
    by (rule that [of "take 4 f" "drop 4 f"]) (simp_all add: ef)
  show ?thesis
    using ab(2) cd(2) ef(2) gh(2,3) by (simp add: uuid_str_def Let_def ab(1) cd(1) ef(1) gh(1))
qed

lemma uuid_str_inj [simp]: "uuid_str u = uuid_str v \<longleftrightarrow> u = v"
  by (metis uuid_digits_inj uuid_str_digits)

section \<open>Exceptions\<close>

text \<open>
  One constructor per exception class the code raises or catches, with what a handler reads of
  it: the message, and for a \<open>ServerError\<close> the status code and the error code it carries.
  \<open>OtherError\<close> stands for any exception of code that is not modelled.
\<close>

datatype exn =
    TeamNotFoundError string
  | TeamStateConflictError string
  | NoDefaultRecipientError string
  | ValueError string
  | ServerError string nat "string option"
  | PlacementError string nat "string option"
  | PlacementConsistencyError string
  | MetadataValidationError string
  | SharedWorkspaceRefusedError
  | EntryNotFoundError string
  | CatalogTeamEntryMissingError string
  | CatalogValidationError string
  | AgentCardNotFoundError string
  | EventNotFoundError string
  | StreamClosed
  | RuntimeError string
  | HTTPError string
  | ImportError string
  | LookupError string
  | TypeError string
  | AttributeError string
  | KeyError string
  | IndexError
  | AssertionError
  | HTTPException nat string
  | DuplicateModuleNameError string
  | DuplicateStateProviderError string
  | MissingStateProviderError string
  | RouteCollisionError string
  | UnpopulatedStateError string
  | UnknownAuthStrategyError string
  | OidcProtocolError string
  | AuthorizationPendingError string
  | SlowDownError string
  | AccessDeniedError string
  | ExpiredTokenError string
  | OidcDiscoveryError string
  | ReAuthRequiredError string
  | TokenCacheCorruptError string
  | ServerConfigurationError string string
  | AuthenticationError string string
  | InvalidClientConfigurationError string
  | ConfigFileNotFoundError string
  | MalformedConfigError string
  | UnsupportedAuthTypeError string
  | UnknownProfileError string
  | AmbiguousProfileError string
  | ApiError nat string
  | WsConnectionError string bool
  | ConnectionClosed
  | TyperExit nat
  | OtherError string

text \<open>
  The class hierarchy, as \<open>except\<close> clauses see it. \<open>except Exception\<close> catches every
  constructor above.
\<close>

fun is_value_error :: "exn \<Rightarrow> bool" where
  "is_value_error (TeamNotFoundError _) = True"
| "is_value_error (TeamStateConflictError _) = True"
| "is_value_error (NoDefaultRecipientError _) = True"
| "is_value_error (ValueError _) = True"
| "is_value_error _ = False"

fun is_server_error :: "exn \<Rightarrow> bool" where
  "is_server_error (ServerError _ _ _) = True"
| "is_server_error (PlacementError _ _ _) = True"
| "is_server_error (PlacementConsistencyError _) = True"
| "is_server_error (MetadataValidationError _) = True"
| "is_server_error SharedWorkspaceRefusedError = True"
| "is_server_error _ = False"

fun is_entry_not_found :: "exn \<Rightarrow> bool" where
  "is_entry_not_found (EntryNotFoundError _) = True"
| "is_entry_not_found (CatalogTeamEntryMissingError _) = True"
| "is_entry_not_found _ = False"

fun is_oidc_error :: "exn \<Rightarrow> bool" where
  "is_oidc_error (OidcProtocolError _) = True"
| "is_oidc_error (AuthorizationPendingError _) = True"
| "is_oidc_error (SlowDownError _) = True"
| "is_oidc_error (AccessDeniedError _) = True"
| "is_oidc_error (ExpiredTokenError _) = True"
| "is_oidc_error (OidcDiscoveryError _) = True"
| "is_oidc_error (ReAuthRequiredError _) = True"
| "is_oidc_error (TokenCacheCorruptError _) = True"
| "is_oidc_error _ = False"

text \<open>\<open>str(exc)\<close> for the exceptions whose text a handler reads.\<close>

fun exn_str :: "exn \<Rightarrow> string" where
  "exn_str (TeamNotFoundError m) = m"
| "exn_str (TeamStateConflictError m) = m"
| "exn_str (NoDefaultRecipientError m) = m"
| "exn_str (ValueError m) = m"
| "exn_str (ServerError m _ _) = m"
| "exn_str (PlacementError m _ _) = m"
| "exn_str (PlacementConsistencyError m) = m"
| "exn_str (MetadataValidationError m) = m"
| "exn_str (EntryNotFoundError m) = m"
| "exn_str (CatalogTeamEntryMissingError m) = m"
| "exn_str (CatalogValidationError m) = m"
| "exn_str (AgentCardNotFoundError m) = m"
| "exn_str (EventNotFoundError m) = m"
| "exn_str (RuntimeError m) = m"
| "exn_str (HTTPError m) = m"
| "exn_str (ImportError m) = m"
| "exn_str (LookupError m) = m"
| "exn_str (TypeError m) = m"
| "exn_str (AttributeError m) = m"
| "exn_str (KeyError m) = m"
| "exn_str (HTTPException _ m) = m"
| "exn_str (OidcProtocolError m) = m"
| "exn_str (AuthorizationPendingError m) = m"
| "exn_str (SlowDownError m) = m"
| "exn_str (AccessDeniedError m) = m"
| "exn_str (ExpiredTokenError m) = m"
| "exn_str (OidcDiscoveryError m) = m"
| "exn_str (ReAuthRequiredError m) = m"
| "exn_str (TokenCacheCorruptError m) = m"
| "exn_str (ConfigFileNotFoundError m) = m"
| "exn_str (MalformedConfigError m) = m"
| "exn_str (UnsupportedAuthTypeError m) = m"
| "exn_str (UnknownProfileError m) = m"
| "exn_str (AmbiguousProfileError m) = m"
| "exn_str (InvalidClientConfigurationError m) = m"
| "exn_str (WsConnectionError m _) = m"
| "exn_str (OtherError m) = m"
| "exn_str _ = ''''"

section \<open>Comprehensions\<close>

text \<open>\<open>[f(x) for x in xs]\<close> where \<open>f\<close> may raise: the first exception ends it.\<close>

fun traverse :: "('a \<Rightarrow> exn + 'b) \<Rightarrow> 'a list \<Rightarrow> exn + 'b list" where
  "traverse f [] = Inr []"
| "traverse f (x # xs) =
     (case f x of
        Inl e \<Rightarrow> Inl e
      | Inr y \<Rightarrow> (case traverse f xs of Inl e \<Rightarrow> Inl e | Inr ys \<Rightarrow> Inr (y # ys)))"

lemma traverse_Inr_iff: "traverse f xs = Inr ys \<longleftrightarrow> map f xs = map Inr ys"
proof (induction xs arbitrary: ys)
  case (Cons x xs)
  note IH = Cons.IH
  show ?case
  proof (cases ys)
    case (Cons y zs)
    then show ?thesis using IH [of zs] by (auto split: sum.splits)
  qed (auto split: sum.splits)
qed auto

lemma traverse_set: "traverse f xs = Inr ys \<Longrightarrow> y \<in> set ys \<longleftrightarrow> Inr y \<in> f ` set xs"
proof -
  assume "traverse f xs = Inr ys"
  then have "f ` set xs = Inr ` set ys"
    unfolding traverse_Inr_iff by (metis list.set_map)
  then show ?thesis by (simp add: inj_image_mem_iff [OF inj_Inr])
qed

lemma traverse_all: "traverse f xs = Inr ys \<Longrightarrow> x \<in> set xs \<Longrightarrow> \<exists>y \<in> set ys. f x = Inr y"
proof -
  assume "traverse f xs = Inr ys" "x \<in> set xs"
  then have "f x \<in> Inr ` set ys"
    unfolding traverse_Inr_iff by (metis image_eqI list.set_map)
  then show ?thesis by blast
qed

lemma traverse_error:
  "traverse f xs = Inl e \<Longrightarrow> \<exists>x \<in> set xs. f x = Inl e"
  by (induction xs) (auto split: sum.splits)

section \<open>Programs with state and exceptions\<close>

text \<open>
  A Python call that may change the state and may raise. The state reached when the exception
  was raised is kept: nothing is rolled back.
\<close>

type_synonym ('s, 'a) prog = "'s \<Rightarrow> (exn + 'a) \<times> 's"

definition ret :: "'a \<Rightarrow> ('s, 'a) prog" where
  "ret x = (\<lambda>s. (Inr x, s))"

definition throw :: "exn \<Rightarrow> ('s, 'a) prog" where
  "throw e = (\<lambda>s. (Inl e, s))"

definition bnd :: "('s, 'a) prog \<Rightarrow> ('a \<Rightarrow> ('s, 'b) prog) \<Rightarrow> ('s, 'b) prog" where
  "bnd m f = (\<lambda>s. case m s of (Inl e, t) \<Rightarrow> (Inl e, t) | (Inr x, t) \<Rightarrow> f x t)"

text \<open>\<open>m; n\<close>: two statements.\<close>

definition andthen :: "('s, 'a) prog \<Rightarrow> ('s, 'b) prog \<Rightarrow> ('s, 'b) prog" where
  "andthen m n = bnd m (\<lambda>_. n)"

text \<open>
  \<open>try: m except ...: h e\<close>. The handler is called on every exception; one it does not catch
  it raises again.
\<close>

definition try_except :: "('s, 'a) prog \<Rightarrow> (exn \<Rightarrow> ('s, 'a) prog) \<Rightarrow> ('s, 'a) prog" where
  "try_except m h = (\<lambda>s. case m s of (Inl e, t) \<Rightarrow> h e t | (Inr x, t) \<Rightarrow> (Inr x, t))"

text \<open>\<open>try: m finally: n\<close>. An exception of \<open>n\<close> replaces the outcome of \<open>m\<close>.\<close>

definition try_finally :: "('s, 'a) prog \<Rightarrow> ('s, unit) prog \<Rightarrow> ('s, 'a) prog" where
  "try_finally m n = (\<lambda>s. case m s of (r, t) \<Rightarrow>
     (case n t of (Inl e, u) \<Rightarrow> (Inl e, u) | (Inr _, u) \<Rightarrow> (r, u)))"

text \<open>\<open>try: m except Exception: log\<close>: whatever goes wrong is swallowed.\<close>

definition best_effort :: "('s, unit) prog \<Rightarrow> ('s, unit) prog" where
  "best_effort m = try_except m (\<lambda>_. ret ())"

text \<open>A call that only reads the state, and one that only writes it.\<close>

definition reading :: "('s \<Rightarrow> exn + 'a) \<Rightarrow> ('s, 'a) prog" where
  "reading f = (\<lambda>s. (f s, s))"

definition writing :: "('s \<Rightarrow> 's) \<Rightarrow> ('s, unit) prog" where
  "writing f = (\<lambda>s. (Inr (), f s))"

text \<open>A program that depends on the state it starts in.\<close>

definition looking :: "('s \<Rightarrow> ('s, 'a) prog) \<Rightarrow> ('s, 'a) prog" where
  "looking P = (\<lambda>s. P s s)"

text \<open>\<open>for x in xs: f x\<close>, stopped by the first exception.\<close>

fun for_each :: "('a \<Rightarrow> ('s, unit) prog) \<Rightarrow> 'a list \<Rightarrow> ('s, unit) prog" where
  "for_each f [] = ret ()"
| "for_each f (x # xs) = andthen (f x) (for_each f xs)"

text \<open>A program of one part of the state run in the whole: \<open>g\<close> reads the part, \<open>p\<close> puts it back.\<close>

definition on_part :: "('s \<Rightarrow> 'p) \<Rightarrow> ('p \<Rightarrow> 's \<Rightarrow> 's) \<Rightarrow> ('p, 'a) prog \<Rightarrow> ('s, 'a) prog" where
  "on_part g p m = (\<lambda>s. case m (g s) of (r, t) \<Rightarrow> (r, p t s))"

lemma ret_apply [simp, prog_simps]: "ret x s = (Inr x, s)"
  by (simp add: ret_def)

lemma throw_apply [simp, prog_simps]: "throw e s = (Inl e, s)"
  by (simp add: throw_def)

lemma reading_apply [simp, prog_simps]: "reading f s = (f s, s)"
  by (simp add: reading_def)

lemma writing_apply [simp, prog_simps]: "writing f s = (Inr (), f s)"
  by (simp add: writing_def)

lemma looking_apply [simp, prog_simps]: "looking P s = P s s"
  by (simp add: looking_def)

lemmas prog_defs [prog_simps] =
  bnd_def andthen_def try_except_def try_finally_def best_effort_def on_part_def

lemma bnd_Inr_iff:
  "bnd m f s = (Inr y, u) \<longleftrightarrow> (\<exists>x t. m s = (Inr x, t) \<and> f x t = (Inr y, u))"
  by (auto simp: bnd_def split: prod.splits sum.splits)

lemma bnd_Inl_iff:
  "bnd m f s = (Inl e, u) \<longleftrightarrow>
     m s = (Inl e, u) \<or> (\<exists>x t. m s = (Inr x, t) \<and> f x t = (Inl e, u))"
  by (auto simp: bnd_def split: prod.splits sum.splits)

lemma bnd_ret [simp]: "bnd (ret x) f = f x"
  by (simp add: bnd_def ret_def)

lemma bnd_throw [simp]: "bnd (throw e) f = throw e"
  by (simp add: bnd_def throw_def)

lemma bnd_assoc: "bnd (bnd m f) g = bnd m (\<lambda>x. bnd (f x) g)"
  by (auto simp: bnd_def fun_eq_iff split: prod.splits sum.splits)

lemma best_effort_total: "fst (best_effort m s) = Inr ()"
  by (auto simp: best_effort_def try_except_def split: prod.splits sum.splits)

lemma best_effort_state: "snd (best_effort m s) = snd (m s)"
  by (auto simp: best_effort_def try_except_def split: prod.splits sum.splits)

section \<open>Frames\<close>

text \<open>\<open>keeps f m\<close>: no outcome of \<open>m\<close>, an exception included, changes what \<open>f\<close> reads.\<close>

definition keeps :: "('s \<Rightarrow> 'o) \<Rightarrow> ('s, 'a) prog \<Rightarrow> bool" where
  "keeps f m \<longleftrightarrow> (\<forall>s. f (snd (m s)) = f s)"

lemma keepsI: "(\<And>s. f (snd (m s)) = f s) \<Longrightarrow> keeps f m"
  by (simp add: keeps_def)

lemma keepsD: "keeps f m \<Longrightarrow> m s = (r, t) \<Longrightarrow> f t = f s"
  unfolding keeps_def by (metis snd_conv)

lemma keeps_ret [frame_intros]: "keeps f (ret x)"
  by (simp add: keeps_def)

lemma keeps_throw [frame_intros]: "keeps f (throw e)"
  by (simp add: keeps_def)

lemma keeps_reading [frame_intros]: "keeps f (reading g)"
  by (simp add: keeps_def)

lemma keeps_looking [frame_intros]: "(\<And>s. keeps f (P s)) \<Longrightarrow> keeps f (looking P)"
  by (simp add: keeps_def)

lemma keeps_writing: "(\<And>s. f (g s) = f s) \<Longrightarrow> keeps f (writing g)"
  by (simp add: keeps_def)

lemma keeps_bnd [frame_intros]: "keeps f m \<Longrightarrow> (\<And>x. keeps f (n x)) \<Longrightarrow> keeps f (bnd m n)"
  by (rule keepsI) (auto simp: bnd_def keeps_def split: prod.splits sum.splits, (metis snd_conv)+)

lemma keeps_andthen [frame_intros]: "keeps f m \<Longrightarrow> keeps f n \<Longrightarrow> keeps f (andthen m n)"
  by (simp add: andthen_def keeps_bnd)

lemma keeps_try_except [frame_intros]:
  "keeps f m \<Longrightarrow> (\<And>e. keeps f (h e)) \<Longrightarrow> keeps f (try_except m h)"
  by (rule keepsI)
    (auto simp: try_except_def keeps_def split: prod.splits sum.splits, (metis snd_conv)+)

lemma keeps_try_finally [frame_intros]: "keeps f m \<Longrightarrow> keeps f n \<Longrightarrow> keeps f (try_finally m n)"
  by (rule keepsI)
    (auto simp: try_finally_def keeps_def split: prod.splits sum.splits, (metis snd_conv)+)

lemma keeps_best_effort [frame_intros]: "keeps f m \<Longrightarrow> keeps f (best_effort m)"
  by (simp add: best_effort_def frame_intros)

lemma keeps_if [frame_intros]: "keeps f m \<Longrightarrow> keeps f n \<Longrightarrow> keeps f (if b then m else n)"
  by simp

lemma keeps_case_option [frame_intros]:
  "keeps f m \<Longrightarrow> (\<And>x. keeps f (n x)) \<Longrightarrow> keeps f (case z of None \<Rightarrow> m | Some x \<Rightarrow> n x)"
  by (cases z) auto

lemma keeps_for_each [frame_intros]: "(\<And>x. keeps f (g x)) \<Longrightarrow> keeps f (for_each g xs)"
  by (induction xs) (auto intro: frame_intros)

text \<open>\<open>preserves P m\<close>: every outcome of \<open>m\<close>, an exception included, keeps the invariant \<open>P\<close>.\<close>

definition preserves :: "('s \<Rightarrow> bool) \<Rightarrow> ('s, 'a) prog \<Rightarrow> bool" where
  "preserves P m \<longleftrightarrow> (\<forall>s. P (snd (m s)) \<or> \<not> P s)"

lemma preservesI: "(\<And>s. P s \<Longrightarrow> P (snd (m s))) \<Longrightarrow> preserves P m"
  by (auto simp: preserves_def)

lemma preservesD: "preserves P m \<Longrightarrow> P s \<Longrightarrow> P (snd (m s))"
  by (auto simp: preserves_def)

lemma preserves_run: "preserves P m \<Longrightarrow> m s = (r, t) \<Longrightarrow> P s \<Longrightarrow> P t"
  by (metis preservesD snd_conv)

lemma preserves_basic [invariant_intros]: "preserves P (ret x)" "preserves P (throw e)" "preserves P (reading g)"
  by (simp_all add: preserves_def)

lemma preserves_bnd [invariant_intros]:
  "preserves P m \<Longrightarrow> (\<And>x. preserves P (n x)) \<Longrightarrow> preserves P (bnd m n)"
proof (rule preservesI)
  fix s assume "preserves P m" "\<And>x. preserves P (n x)" "P s"
  then show "P (snd (bnd m n s))"
    using preservesD [of P m s] preservesD [of P "n _"] by (cases "m s") (auto simp: bnd_def split: sum.split)
qed

lemma preserves_andthen [invariant_intros]: "preserves P m \<Longrightarrow> preserves P n \<Longrightarrow> preserves P (andthen m n)"
  by (simp add: andthen_def preserves_bnd)

lemma preserves_try [invariant_intros]:
  "preserves P m \<Longrightarrow> (\<And>e. preserves P (h e)) \<Longrightarrow> preserves P (try_except m h)"
proof (rule preservesI)
  fix s assume "preserves P m" "\<And>e. preserves P (h e)" "P s"
  then show "P (snd (try_except m h s))"
    using preservesD [of P m s] preservesD [of P "h _"] by (cases "m s") (auto simp: try_except_def split: sum.split)
qed

lemma preserves_looking [invariant_intros]: "(\<And>s. preserves P (Q s)) \<Longrightarrow> preserves P (looking Q)"
  by (auto simp: preserves_def)

lemma preserves_cases [invariant_intros]:
  "preserves P m \<Longrightarrow> preserves P n \<Longrightarrow> preserves P (if b then m else n)"
  "preserves P m \<Longrightarrow> (\<And>x. preserves P (q x)) \<Longrightarrow> preserves P (case z of None \<Rightarrow> m | Some x \<Rightarrow> q x)"
  "(\<And>c d. preserves P (h c d)) \<Longrightarrow> preserves P n \<Longrightarrow> preserves P (case e of ApiError c d \<Rightarrow> h c d | _ \<Rightarrow> n)"
  "(\<And>a b. preserves P (k a b)) \<Longrightarrow> preserves P (case y of (a, b) \<Rightarrow> k a b)"
  by (simp, cases z, simp_all, cases e, simp_all, cases y, simp)

lemma preserves_for_each [invariant_intros]: "(\<And>x. preserves P (g x)) \<Longrightarrow> preserves P (for_each g xs)"
  by (induction xs) (auto intro: invariant_intros)

end
