(* ===== verification/EventStream.thy ===== *)
theory EventStream
  imports Prelude
begin

text \<open>
  \<open>adapters/community/local_event_stream.py\<close>: the in-memory event stream, its readers, and the
  interface \<open>protocols/event_stream.py\<close> states, as the locale \<open>event_stream\<close>. Calls here run one
  at a time; \<open>EventStreamConc\<close> interleaves the steps of concurrent readers and writers.

  A \<open>_TeamStream\<close> is an object that readers keep a reference to after the team's entry is gone, so
  stream objects live in a store \<open>objs\<close> and the dictionary maps a team to a reference. A
  \<open>threading.Event\<close> is a number, and \<open>flags\<close> says which are set.
\<close>

section \<open>State\<close>

record 'm team_stream =
  ts_events :: "'m list"
  ts_signals :: "nat set"
  ts_closed :: bool

definition empty_stream :: "'m team_stream" where
  "empty_stream = \<lparr>ts_events = [], ts_signals = {}, ts_closed = False\<rparr>"

record 'm local_streams =
  streams :: "(uuid, nat) dict"
  objs :: "nat \<Rightarrow> 'm team_stream"
  next_obj :: nat
  flags :: "nat \<Rightarrow> bool"
  next_sig :: nat

definition init_streams :: "'m local_streams" where
  "init_streams = \<lparr>streams = [], objs = (\<lambda>_. empty_stream), next_obj = 0,
     flags = (\<lambda>_. False), next_sig = 0\<rparr>"

record stream_reader =
  rd_stream :: nat
  rd_signal :: nat
  rd_cursor :: int
  rd_closed :: bool

section \<open>LocalEventStream\<close>

text \<open>\<open>self._streams.get(team_id)\<close>, creating the stream where there is none.\<close>

definition ensure_stream :: "uuid \<Rightarrow> 'm local_streams \<Rightarrow> nat \<times> 'm local_streams" where
  "ensure_stream i s =
     (case map_of (streams s) i of
        Some r \<Rightarrow> (r, s)
      | None \<Rightarrow> (next_obj s,
          s\<lparr>streams := AList.update i (next_obj s) (streams s),
            objs := (objs s)(next_obj s := empty_stream),
            next_obj := Suc (next_obj s)\<rparr>))"

definition set_signals :: "nat set \<Rightarrow> (nat \<Rightarrow> bool) \<Rightarrow> (nat \<Rightarrow> bool)" where
  "set_signals S f = (\<lambda>g. g \<in> S \<or> f g)"

definition stream_append :: "uuid \<Rightarrow> 'm \<Rightarrow> ('m local_streams, int) prog" where
  "stream_append i event s0 =
     (let (r, s) = ensure_stream i s0; ts = objs s r
      in if ts_closed ts then (Inr (- 1), s)
         else let ts' = ts\<lparr>ts_events := ts_events ts @ [event]\<rparr>
              in (Inr (int (length (ts_events ts'))),
                  s\<lparr>objs := (objs s)(r := ts'), flags := set_signals (ts_signals ts') (flags s)\<rparr>))"

definition stream_read_from :: "uuid \<Rightarrow> int \<Rightarrow> 'm local_streams \<Rightarrow> 'm list" where
  "stream_read_from i cursor s =
     (case map_of (streams s) i of
        None \<Rightarrow> []
      | Some r \<Rightarrow> py_drop cursor (ts_events (objs s r)))"

definition stream_subscribe :: "uuid \<Rightarrow> int \<Rightarrow> ('m local_streams, stream_reader) prog" where
  "stream_subscribe i cursor s0 =
     (let (r, s) = ensure_stream i s0; sig = next_sig s; ts = objs s r
      in if ts_closed ts then
           (Inl StreamClosed, s\<lparr>flags := (flags s)(sig := False), next_sig := Suc sig\<rparr>)
         else
           (Inr \<lparr>rd_stream = r, rd_signal = sig, rd_cursor = cursor, rd_closed = False\<rparr>,
            s\<lparr>objs := (objs s)(r := ts\<lparr>ts_signals := insert sig (ts_signals ts)\<rparr>),
              flags := (flags s)(sig := False), next_sig := Suc sig\<rparr>))"

definition stream_remove :: "uuid \<Rightarrow> ('m local_streams, unit) prog" where
  "stream_remove i s =
     (case map_of (streams s) i of
        None \<Rightarrow> (Inr (), s)
      | Some r \<Rightarrow>
          (let ts = objs s r
           in (Inr (), s\<lparr>streams := AList.delete i (streams s),
                         objs := (objs s)(r := ts\<lparr>ts_closed := True\<rparr>),
                         flags := set_signals (ts_signals ts) (flags s)\<rparr>)))"

section \<open>LocalStreamReader\<close>

text \<open>
  The reader's methods over the stream object it holds. A negative cursor past the start of the
  list raises, as indexing does; the code only ever subscribes at a cursor of 0 or more.
\<close>

definition reader_advance :: "'m team_stream \<Rightarrow> stream_reader \<Rightarrow> (exn + 'm option) \<times> stream_reader" where
  "reader_advance ts rd =
     (if rd_cursor rd < int (length (ts_events ts)) then
        (case py_nth (ts_events ts) (rd_cursor rd) of
           None \<Rightarrow> (Inl IndexError, rd)
         | Some e \<Rightarrow> (Inr (Some e), rd\<lparr>rd_cursor := rd_cursor rd + 1\<rparr>))
      else (Inr None, rd))"

definition reader_drain_or_raise ::
    "'m team_stream \<Rightarrow> stream_reader \<Rightarrow> (exn + 'm option) \<times> stream_reader" where
  "reader_drain_or_raise ts rd =
     (if rd_closed rd then (Inl StreamClosed, rd)
      else case reader_advance ts rd of
        (Inl e, rd1) \<Rightarrow> (Inl e, rd1)
      | (Inr (Some e), rd1) \<Rightarrow> (Inr (Some e), rd1)
      | (Inr None, rd1) \<Rightarrow>
          (if ts_closed ts then
             (case reader_advance ts rd1 of
                (Inl e, rd2) \<Rightarrow> (Inl e, rd2)
              | (Inr (Some e), rd2) \<Rightarrow> (Inr (Some e), rd2)
              | (Inr None, rd2) \<Rightarrow> (Inl StreamClosed, rd2))
           else (Inr None, rd1)))"

text \<open>
  \<open>reader_read_next\<close>: drain, clear the signal, drain again, wait, drain once more. With no other thread
  running, the wait changes nothing.
\<close>

definition reader_read_next ::
    "stream_reader \<Rightarrow> 'm local_streams \<Rightarrow> (exn + 'm option) \<times> stream_reader \<times> 'm local_streams" where
  "reader_read_next rd s =
     (case reader_drain_or_raise (objs s (rd_stream rd)) rd of
        (Inl e, rd1) \<Rightarrow> (Inl e, rd1, s)
      | (Inr (Some e), rd1) \<Rightarrow> (Inr (Some e), rd1, s)
      | (Inr None, rd1) \<Rightarrow>
          (let s1 = s\<lparr>flags := (flags s)(rd_signal rd1 := False)\<rparr>
           in case reader_drain_or_raise (objs s1 (rd_stream rd1)) rd1 of
                (Inl e, rd2) \<Rightarrow> (Inl e, rd2, s1)
              | (Inr (Some e), rd2) \<Rightarrow> (Inr (Some e), rd2, s1)
              | (Inr None, rd2) \<Rightarrow>
                  (case reader_drain_or_raise (objs s1 (rd_stream rd2)) rd2 of
                     (r, rd3) \<Rightarrow> (r, rd3, s1))))"

definition reader_close :: "stream_reader \<Rightarrow> 'm local_streams \<Rightarrow> stream_reader \<times> 'm local_streams" where
  "reader_close rd s =
     (if rd_closed rd then (rd, s)
      else let ts = objs s (rd_stream rd)
           in (rd\<lparr>rd_closed := True\<rparr>,
               s\<lparr>objs := (objs s)(rd_stream rd :=
                   ts\<lparr>ts_signals := ts_signals ts - {rd_signal rd}\<rparr>)\<rparr>))"

text \<open>A consumer that reads \<open>n\<close> times, keeping the events and the first exception.\<close>

fun read_many ::
    "nat \<Rightarrow> stream_reader \<Rightarrow> 'm local_streams \<Rightarrow> 'm list \<times> exn option \<times> stream_reader" where
  "read_many 0 rd s = ([], None, rd)"
| "read_many (Suc n) rd s =
     (case reader_read_next rd s of
        (Inl e, rd', s') \<Rightarrow> ([], Some e, rd')
      | (Inr None, rd', s') \<Rightarrow> read_many n rd' s'
      | (Inr (Some m), rd', s') \<Rightarrow>
          (case read_many n rd' s' of (ms, x, rd'') \<Rightarrow> (m # ms, x, rd'')))"

section \<open>The invariant\<close>

text \<open>
  The dictionary has no duplicate keys, references are allocated, no two teams share a stream
  object, and a stream that is still in the dictionary is open.
\<close>

definition es_inv :: "'m local_streams \<Rightarrow> bool" where
  "es_inv s \<longleftrightarrow>
     dict_ok (streams s) \<and>
     (\<forall>i r. map_of (streams s) i = Some r \<longrightarrow> r < next_obj s \<and> \<not> ts_closed (objs s r)) \<and>
     inj_on (map_of (streams s)) (dom (map_of (streams s)))"

lemma es_inv_init [simp]: "es_inv init_streams"
  by (simp add: es_inv_def init_streams_def)

lemma es_invD:
  assumes "es_inv s" "map_of (streams s) i = Some r"
  shows "r < next_obj s" "\<not> ts_closed (objs s r)" "map_of (streams s) j = Some r \<longleftrightarrow> j = i"
  using assms unfolding es_inv_def by (blast, blast, metis domI inj_onD)

lemma inj_on_fresh:
  assumes "inj_on m (dom m)" "Some r \<notin> range m"
  shows "inj_on (m(i \<mapsto> r)) (dom (m(i \<mapsto> r)))"
  using assms by (auto simp: inj_on_def) (metis rangeI)+

lemma inj_on_del: "inj_on m (dom m) \<Longrightarrow> inj_on (m(i := None)) (dom (m(i := None)))"
  by (auto simp: inj_on_def)

lemma es_inv_ensure:
  assumes "es_inv s"
  shows "es_inv (snd (ensure_stream i s))"
proof -
  have "Some (next_obj s) \<notin> range (map_of (streams s))"
    using es_invD(1) [OF assms] by (metis less_irrefl rangeE)
  then show ?thesis
    using assms inj_on_fresh [of "map_of (streams s)" "next_obj s" i]
    by (auto simp: es_inv_def ensure_stream_def empty_stream_def less_Suc_eq
        split: option.splits if_splits)
qed

lemma ensure_stream_result:
  assumes "es_inv s" "ensure_stream i s = (r, t)"
  shows "map_of (streams t) i = Some r" "\<not> ts_closed (objs t r)" "es_inv t"
  using assms es_inv_ensure [of s i]
  by (auto simp: es_inv_def ensure_stream_def empty_stream_def split: option.splits)

lemma es_inv_update_obj:
  "es_inv s \<Longrightarrow> \<not> ts_closed ts \<Longrightarrow>
   es_inv (s\<lparr>objs := (objs s)(r := ts), flags := f, next_sig := n\<rparr>)"
  by (auto simp: es_inv_def)

section \<open>Contents\<close>

text \<open>What a team's stream holds: the abstract state every call is specified over.\<close>

definition contents :: "'m local_streams \<Rightarrow> uuid \<Rightarrow> 'm list" where
  "contents s i = (case map_of (streams s) i of None \<Rightarrow> [] | Some r \<Rightarrow> ts_events (objs s r))"

lemma contents_init [simp]: "contents init_streams = (\<lambda>_. [])"
  by (simp add: contents_def init_streams_def fun_eq_iff)

lemma read_from_contents: "stream_read_from i c s = py_drop c (contents s i)"
  by (simp add: stream_read_from_def contents_def py_drop_def split: option.split)

lemma contents_ensure:
  assumes "es_inv s"
  shows "contents (snd (ensure_stream i s)) = contents s"
  using es_invD [OF assms]
  by (fastforce simp: contents_def ensure_stream_def empty_stream_def fun_eq_iff split: option.splits)

lemma contents_update_obj:
  assumes "es_inv s" "map_of (streams s) i = Some r"
  shows "contents (s\<lparr>objs := (objs s)(r := ts), flags := f, next_sig := n\<rparr>)
       = (contents s)(i := ts_events ts)"
proof
  fix j
  show "contents (s\<lparr>objs := (objs s)(r := ts), flags := f, next_sig := n\<rparr>) j
      = ((contents s)(i := ts_events ts)) j"
    using es_invD(3) [OF assms, of j] assms(2) by (auto simp: contents_def split: option.split)
qed

text \<open>
  \<open>stream_append\<close> on a reachable state: it never meets a closed stream, so its result is the position of
  the event, and the event is at the end of that team's stream and of no other.
\<close>

lemma stream_append_correct:
  assumes "es_inv s"
  shows "fst (stream_append i e s) = Inr (int (length (contents s i)) + 1)"
    and "contents (snd (stream_append i e s)) = (contents s)(i := contents s i @ [e])"
    and "es_inv (snd (stream_append i e s))"
proof -
  obtain r t where t: "ensure_stream i s = (r, t)" by force
  note res = ensure_stream_result [OF assms t]
  let ?ts = "objs t r\<lparr>ts_events := ts_events (objs t r) @ [e]\<rparr>"
  let ?u = "t\<lparr>objs := (objs t)(r := ?ts), flags := set_signals (ts_signals ?ts) (flags t)\<rparr>"
  have c: "contents t = contents s" using contents_ensure [OF assms, of i] t by simp
  then have ev: "ts_events (objs t r) = contents s i"
    using res(1) by (metis contents_def option.simps(5))
  have app: "stream_append i e s = (Inr (int (length (contents s i)) + 1), ?u)"
    using res(2) ev by (simp add: stream_append_def t Let_def)
  show "fst (stream_append i e s) = Inr (int (length (contents s i)) + 1)" by (simp add: app)
  show "contents (snd (stream_append i e s)) = (contents s)(i := contents s i @ [e])"
    using contents_update_obj [OF res(3,1), where ts = ?ts and n = "next_sig t"] ev c by (simp add: app)
  show "es_inv (snd (stream_append i e s))"
    using es_inv_update_obj [OF res(3), where ts = ?ts and n = "next_sig t"] res(2) by (simp add: app)
qed

lemma stream_remove_correct:
  assumes "es_inv s"
  shows "fst (stream_remove i s) = Inr ()"
    and "contents (snd (stream_remove i s)) = (contents s)(i := [])"
    and "es_inv (snd (stream_remove i s))"
proof -
  show "fst (stream_remove i s) = Inr ()"
    by (simp add: stream_remove_def Let_def split: option.split)
  show "contents (snd (stream_remove i s)) = (contents s)(i := [])"
    by (rule ext)
      (auto simp: contents_def stream_remove_def Let_def es_invD(3) [OF assms] split: option.split)
  show "es_inv (snd (stream_remove i s))"
  proof (cases "map_of (streams s) i")
    case (Some r)
    have "inj_on ((map_of (streams s))(i := None)) (dom ((map_of (streams s))(i := None)))"
      using assms unfolding es_inv_def by (intro inj_on_del) blast
    moreover have "dict_ok (streams s)" "\<And>j r'. map_of (streams s) j = Some r' \<Longrightarrow>
        r' < next_obj s \<and> \<not> ts_closed (objs s r')"
      using assms by (auto simp: es_inv_def)
    moreover have "\<And>j r'. map_of (streams s) j = Some r' \<Longrightarrow> j \<noteq> i \<Longrightarrow> r' \<noteq> r"
      using es_invD(3) [OF assms Some] by blast
    moreover have "snd (stream_remove i s) = s\<lparr>streams := AList.delete i (streams s),
        objs := (objs s)(r := (objs s r)\<lparr>ts_closed := True\<rparr>),
        flags := set_signals (ts_signals (objs s r)) (flags s)\<rparr>"
      using Some by (simp add: stream_remove_def Let_def)
    ultimately show ?thesis by (auto simp: es_inv_def)
  qed (use assms in \<open>simp add: stream_remove_def\<close>)
qed

lemma stream_subscribe_correct:
  assumes "es_inv s"
  shows "\<exists>rd t. stream_subscribe i c s = (Inr rd, t) \<and> contents t = contents s \<and> es_inv t \<and>
           map_of (streams t) i = Some (rd_stream rd) \<and> rd_cursor rd = c \<and> \<not> rd_closed rd \<and>
           rd_signal rd \<in> ts_signals (objs t (rd_stream rd))"
proof -
  obtain r t where t: "ensure_stream i s = (r, t)" by force
  note res = ensure_stream_result [OF assms t]
  let ?ts = "objs t r\<lparr>ts_signals := insert (next_sig t) (ts_signals (objs t r))\<rparr>"
  have c: "contents t = contents s" using contents_ensure [OF assms, of i] t by simp
  then have ev: "ts_events (objs t r) = contents s i"
    using res(1) by (metis contents_def option.simps(5))
  show ?thesis
    using contents_update_obj [OF res(3,1), where ts = ?ts and n = "Suc (next_sig t)"]
      es_inv_update_obj [OF res(3), where ts = ?ts and r = r and n = "Suc (next_sig t)"]
      res(1,2) c ev
    by (simp add: stream_subscribe_def t Let_def)
qed

section \<open>Readers\<close>

lemma reader_advance_cases:
  assumes "0 \<le> rd_cursor rd"
  shows "reader_advance ts rd =
     (if nat (rd_cursor rd) < length (ts_events ts)
      then (Inr (Some (ts_events ts ! nat (rd_cursor rd))), rd\<lparr>rd_cursor := rd_cursor rd + 1\<rparr>)
      else (Inr None, rd))"
  using assms by (auto simp: reader_advance_def py_nth_def nat_less_iff zless_nat_eq_int_zless)

lemma reader_drain_cases:
  assumes "0 \<le> rd_cursor rd" "\<not> rd_closed rd"
  shows "reader_drain_or_raise ts rd =
     (if nat (rd_cursor rd) < length (ts_events ts)
      then (Inr (Some (ts_events ts ! nat (rd_cursor rd))), rd\<lparr>rd_cursor := rd_cursor rd + 1\<rparr>)
      else if ts_closed ts then (Inl StreamClosed, rd) else (Inr None, rd))"
  using assms by (auto simp: reader_drain_or_raise_def reader_advance_cases)

lemma reader_read_next_cases:
  assumes "0 \<le> rd_cursor rd" "\<not> rd_closed rd"
  shows "reader_read_next rd s =
     (let ts = objs s (rd_stream rd)
      in if nat (rd_cursor rd) < length (ts_events ts)
         then (Inr (Some (ts_events ts ! nat (rd_cursor rd))), rd\<lparr>rd_cursor := rd_cursor rd + 1\<rparr>, s)
         else if ts_closed ts then (Inl StreamClosed, rd, s)
         else (Inr None, rd, s\<lparr>flags := (flags s)(rd_signal rd := False)\<rparr>))"
  using assms by (auto simp: reader_read_next_def reader_drain_cases Let_def)

text \<open>A self-closed reader raises at once, whatever is left to read.\<close>

lemma reader_read_next_self_closed: "rd_closed rd \<Longrightarrow> reader_read_next rd s = (Inl StreamClosed, rd, s)"
  by (simp add: reader_read_next_def reader_drain_or_raise_def)

text \<open>On a closed stream the events ahead of the cursor are drained before the exception.\<close>

lemma read_many_drains:
  assumes "\<not> rd_closed rd" "0 \<le> rd_cursor rd" "ts_closed (objs s (rd_stream rd))"
    and "es = drop (nat (rd_cursor rd)) (ts_events (objs s (rd_stream rd)))"
  shows "\<exists>rd'. read_many (Suc (length es)) rd s = (es, Some StreamClosed, rd')"
  using assms
proof (induction es arbitrary: rd)
  case Nil
  then show ?case by (simp add: reader_read_next_cases Let_def)
next
  case (Cons e es)
  let ?ev = "ts_events (objs s (rd_stream rd))" and ?rd = "rd\<lparr>rd_cursor := rd_cursor rd + 1\<rparr>"
  have lt: "nat (rd_cursor rd) < length ?ev"
    using Cons.prems(4) by (metis drop_all list.distinct(1) not_less)
  have "?ev ! nat (rd_cursor rd) = e" and es: "drop (nat (rd_cursor rd + 1)) ?ev = es"
    using Cons.prems(2,4) lt by (simp_all add: Cons_nth_drop_Suc [symmetric] Suc_nat_eq_nat_zadd1 add.commute)
  then have "reader_read_next rd s = (Inr (Some e), ?rd, s)"
    using Cons.prems lt by (simp add: reader_read_next_cases Let_def)
  moreover obtain rd' where "read_many (Suc (length es)) ?rd s = (es, Some StreamClosed, rd')"
    using Cons.IH [of ?rd] Cons.prems es by auto
  ultimately show ?case by (simp del: read_many.simps(2) add: read_many.simps(2) [of "Suc (length es)"])
qed

section \<open>The interface\<close>

text \<open>
  What \<open>protocols/event_stream.py\<close> promises of a stream that records: an append returns the
  position of the event and adds it to that team's stream only, a removal empties it.
\<close>

locale event_stream =
  fixes append :: "uuid \<Rightarrow> 'm \<Rightarrow> ('e, int) prog"
    and read_from :: "uuid \<Rightarrow> int \<Rightarrow> 'e \<Rightarrow> 'm list"
    and remove :: "uuid \<Rightarrow> ('e, unit) prog"
    and inv :: "'e \<Rightarrow> bool"
  assumes append_result: "inv s \<Longrightarrow> fst (append i e s) = Inr (int (length (read_from i 0 s)) + 1)"
    and append_read: "inv s \<Longrightarrow> read_from j c (snd (append i e s)) =
          (if j = i then py_drop c (read_from i 0 s @ [e]) else read_from j c s)"
    and append_inv: "inv s \<Longrightarrow> inv (snd (append i e s))"
    and remove_result: "inv s \<Longrightarrow> fst (remove i s) = Inr ()"
    and remove_read: "inv s \<Longrightarrow> read_from j c (snd (remove i s)) =
          (if j = i then [] else read_from j c s)"
    and remove_inv: "inv s \<Longrightarrow> inv (snd (remove i s))"
begin

text \<open>Removing twice is removing once, as far as any reader of the interface can tell.\<close>

lemma remove_twice:
  "inv s \<Longrightarrow> read_from j c (snd (remove i (snd (remove i s)))) = read_from j c (snd (remove i s))"
  by (simp add: remove_read remove_inv)

text \<open>Appending after a removal starts a new stream: the sequence numbers begin again.\<close>

lemma append_after_remove:
  assumes "inv s"
  shows "fst (append i e (snd (remove i s))) = Inr 1"
  using assms by (simp add: append_result remove_read remove_inv)

end

interpretation local_stream: event_stream stream_append stream_read_from stream_remove es_inv
  by unfold_locales
    (auto simp: stream_append_correct stream_remove_correct read_from_contents py_drop_def)

section \<open>Sequences of calls\<close>

text \<open>
  The specification: a team's stream is a list, an append adds to it, a removal empties it, a
  subscription always succeeds. Any sequence of calls on the implementation, from the state the
  constructor makes, answers as the specification does.
\<close>

datatype 'm stream_call = Append uuid 'm | ReadFrom uuid int | Subscribe uuid int | Remove uuid

datatype 'm stream_reply = Seq int | Events "'m list" | Reading int | Removed | Raised exn

fun stream_step :: "'m stream_call \<Rightarrow> 'm local_streams \<Rightarrow> 'm stream_reply \<times> 'm local_streams" where
  "stream_step (Append i e) s =
     (case stream_append i e s of (Inl x, t) \<Rightarrow> (Raised x, t) | (Inr n, t) \<Rightarrow> (Seq n, t))"
| "stream_step (ReadFrom i c) s = (Events (stream_read_from i c s), s)"
| "stream_step (Subscribe i c) s =
     (case stream_subscribe i c s of
        (Inl x, t) \<Rightarrow> (Raised x, t) | (Inr rd, t) \<Rightarrow> (Reading (rd_cursor rd), t))"
| "stream_step (Remove i) s =
     (case stream_remove i s of (Inl x, t) \<Rightarrow> (Raised x, t) | (Inr _, t) \<Rightarrow> (Removed, t))"

fun spec_step :: "'m stream_call \<Rightarrow> (uuid \<Rightarrow> 'm list) \<Rightarrow> 'm stream_reply \<times> (uuid \<Rightarrow> 'm list)" where
  "spec_step (Append i e) c = (Seq (int (length (c i)) + 1), c(i := c i @ [e]))"
| "spec_step (ReadFrom i k) c = (Events (py_drop k (c i)), c)"
| "spec_step (Subscribe i k) c = (Reading k, c)"
| "spec_step (Remove i) c = (Removed, c(i := []))"

fun run_calls :: "('c \<Rightarrow> 's \<Rightarrow> 'r \<times> 's) \<Rightarrow> 'c list \<Rightarrow> 's \<Rightarrow> 'r list \<times> 's" where
  "run_calls f [] s = ([], s)"
| "run_calls f (c # cs) s =
     (case f c s of (r, t) \<Rightarrow> (case run_calls f cs t of (rs, u) \<Rightarrow> (r # rs, u)))"

lemma stream_step_refines:
  assumes "es_inv s"
  shows "spec_step c (contents s) = (fst (stream_step c s), contents (snd (stream_step c s)))
       \<and> es_inv (snd (stream_step c s))"
proof (cases c)
  case (Append i e)
  then show ?thesis
    using stream_append_correct [OF assms, of i e] by (cases "stream_append i e s") auto
next
  case (ReadFrom i k)
  then show ?thesis using assms by (simp add: read_from_contents)
next
  case (Subscribe i k)
  then show ?thesis using stream_subscribe_correct [OF assms, of i k] by auto
next
  case (Remove i)
  then show ?thesis
    using stream_remove_correct [OF assms, of i] by (cases "stream_remove i s") auto
qed

lemma run_calls_refines:
  "es_inv s \<Longrightarrow> run_calls stream_step cs s = (rs, t) \<Longrightarrow>
   run_calls spec_step cs (contents s) = (rs, contents t) \<and> es_inv t"
proof (induction cs arbitrary: s rs)
  case (Cons c cs)
  obtain r s' where step: "stream_step c s = (r, s')" by force
  obtain rs' where run: "run_calls stream_step cs s' = (rs', t)" and rs: "rs = r # rs'"
    using Cons.prems(2) step by (auto split: prod.splits)
  have "spec_step c (contents s) = (r, contents s')" "es_inv s'"
    using stream_step_refines [OF Cons.prems(1), of c] step by simp_all
  then show ?case using Cons.IH [OF _ run] by (simp add: rs)
qed simp

text \<open>
  C16. Any sequence of \<open>append\<close>, \<open>read_from\<close>, \<open>subscribe\<close> and \<open>remove\<close> calls on a fresh
  \<open>LocalEventStream\<close> answers as the specification over one list per team: sequence numbers count
  the team's events since its last removal, reads are slices of them, a subscription never raises,
  and no append answers -1.
\<close>

theorem event_stream_refines_spec:
  "fst (run_calls stream_step cs (init_streams :: 'm local_streams))
     = fst (run_calls spec_step cs (\<lambda>_. []))"
  using run_calls_refines [OF es_inv_init, of cs]
  by (cases "run_calls stream_step cs (init_streams :: 'm local_streams)") simp

lemma appends_contents:
  assumes "es_inv s" "run_calls stream_step (map (Append i) es) s = (rs, t)"
  shows "contents t i = contents s i @ es \<and> es_inv t \<and>
         (\<forall>r. map_of (streams s) i = Some r \<longrightarrow> map_of (streams t) i = Some r)"
  using assms
proof (induction es arbitrary: s rs)
  case (Cons e es)
  obtain x u where u: "stream_append i e s = (x, u)" by force
  note ok = stream_append_correct [OF Cons.prems(1), of i e, unfolded u, simplified]
  obtain rs' where run: "run_calls stream_step (map (Append i) es) u = (rs', t)"
    using Cons.prems(2) u ok(1) by (auto split: prod.splits)
  have "map_of (streams s) i = Some r \<Longrightarrow> map_of (streams u) i = Some r" for r
    using u es_invD(2) [OF Cons.prems(1), of i r]
    by (auto simp: stream_append_def ensure_stream_def Let_def split: if_splits)
  then show ?case using Cons.IH [OF ok(3) run] ok(2) by auto
qed simp

text \<open>
  A reader that subscribed before a stream was removed still receives every event written to
  it, from its cursor to the last one in order, and only then \<open>StreamClosed\<close>, however many events
  were appended in between.
\<close>

theorem reader_drains_before_close:
  assumes "es_inv s" and "stream_subscribe i c s = (Inr rd, t)"
    and "0 \<le> c" and "c \<le> int (length (contents s i))"
    and "run_calls stream_step (map (Append i) es) t = (rs, u)"
    and "stream_remove i u = (r, v)"
  shows "\<exists>rd'. read_many (Suc (length (drop (nat c) (contents s i @ es)))) rd v
           = (drop (nat c) (contents s i @ es), Some StreamClosed, rd')"
proof -
  have sub: "contents t = contents s" "es_inv t" "map_of (streams t) i = Some (rd_stream rd)"
    "rd_cursor rd = c" "\<not> rd_closed rd"
    using stream_subscribe_correct [OF assms(1), of i c] assms(2) by auto
  have app: "contents u i = contents s i @ es" "map_of (streams u) i = Some (rd_stream rd)"
    using appends_contents [OF sub(2) assms(5)] sub(1,3) by auto
  have "ts_closed (objs v (rd_stream rd))"
    and "ts_events (objs v (rd_stream rd)) = contents s i @ es"
    using assms(6) app by (auto simp: stream_remove_def contents_def Let_def)
  then show ?thesis
    using read_many_drains [of rd v] sub(4,5) assms(3) by simp
qed

definition sample_streams :: "nat local_streams" where
  "sample_streams = snd (stream_append 7 10 init_streams)"

theorem reader_drains_before_close_witness:
  "\<exists>rd t rs u r v rd'. stream_subscribe 7 0 sample_streams = (Inr rd, t) \<and>
     run_calls stream_step (map (Append 7) [20, 30]) t = (rs, u) \<and> stream_remove 7 u = (r, v) \<and>
     read_many 4 rd v = ([10, 20, 30], Some StreamClosed, rd')"
proof -
  have inv: "es_inv sample_streams" and c: "contents sample_streams 7 = [10]"
    using stream_append_correct [OF es_inv_init, of 7 "10::nat"] by (simp_all add: sample_streams_def)
  obtain rd t where t: "stream_subscribe 7 0 sample_streams = (Inr rd, t)"
    using stream_subscribe_correct [OF inv] by blast
  obtain rs u where u: "run_calls stream_step (map (Append 7) [20, 30]) t = (rs, u)" by force
  obtain r v where v: "stream_remove 7 u = (r, v)" by force
  have "\<exists>rd'. read_many (Suc (length (drop (nat 0) (contents sample_streams 7 @ [20, 30])))) rd v
      = (drop (nat 0) (contents sample_streams 7 @ [20, 30]), Some StreamClosed, rd')"
    by (rule reader_drains_before_close [OF inv t _ _ u v]) (simp_all add: c)
  then obtain rd' where "read_many 4 rd v = ([10, 20, 30], Some StreamClosed, rd')"
    by (auto simp add: c numeral_eq_Suc simp del: read_many.simps)
  then show ?thesis using t u v by blast
qed

end
