(* ===== verification/EventStreamConc.thy ===== *)
theory EventStreamConc
  imports EventStream
begin

text \<open>
  \<open>adapters/community/local_event_stream.py\<close> under concurrency: the statements of \<open>append\<close>,
  \<open>remove\<close>, \<open>subscribe\<close>, \<open>read_next\<close> and \<open>close\<close> on one \<open>_TeamStream\<close> as interleaved steps of any
  number of writer and reader threads. A writer holds \<open>ts.lock\<close> from its write to its last
  \<open>sig.set()\<close>; a reader takes no lock while it reads, and is split at every statement at which
  another thread can run.
\<close>

section \<open>State\<close>

text \<open>
  A writer that appends or removes waits for the lock with its intention, and then still has to
  set the signals of a set of readers.
\<close>

datatype 'm writer = WIdle | WAppend 'm | WRemove | WSignalling "nat set"

text \<open>
  \<open>read_next\<close> drains up to three times. Within one \<open>_drain_or_raise\<close> a reader is at its own closed
  flag, at the first \<open>_advance\<close>, at the stream's closed flag, or at the second \<open>_advance\<close>.
\<close>

datatype phase = First | Second | Third

datatype reader_pc =
    RIdle | RSelf phase | RAdvance phase | RFlag phase | RAgain phase | RClear | RWait

text \<open>
  Beside the reader object: where it subscribed, what it returned, whether the end of the stream
  was raised, and whether \<open>close()\<close> still has to drop its signal.
\<close>

record 'm reader_thread =
  rt_live :: bool
  rt_rd :: stream_reader
  rt_pc :: reader_pc
  rt_start :: nat
  rt_got :: "'m list"
  rt_ended :: bool
  rt_closing :: bool

record 'm conc =
  c_ts :: "'m team_stream"
  c_lock :: "nat option"
  c_flags :: "nat \<Rightarrow> bool"
  c_writers :: "nat \<Rightarrow> 'm writer"
  c_readers :: "nat \<Rightarrow> 'm reader_thread"

definition no_reader :: "'m reader_thread" where
  "no_reader = \<lparr>rt_live = False, rt_rd = \<lparr>rd_stream = 0, rd_signal = 0, rd_cursor = 0, rd_closed = False\<rparr>,
     rt_pc = RIdle, rt_start = 0, rt_got = [], rt_ended = False, rt_closing = False\<rparr>"

definition init_conc :: "'m conc" where
  "init_conc = \<lparr>c_ts = empty_stream, c_lock = None, c_flags = (\<lambda>_. False),
     c_writers = (\<lambda>_. WIdle), c_readers = (\<lambda>_. no_reader)\<rparr>"

definition set_reader :: "nat \<Rightarrow> 'm reader_thread \<Rightarrow> 'm conc \<Rightarrow> 'm conc" where
  "set_reader r t s = s\<lparr>c_readers := (c_readers s)(r := t)\<rparr>"

definition set_writer :: "nat \<Rightarrow> 'm writer \<Rightarrow> 'm conc \<Rightarrow> 'm conc" where
  "set_writer w x s = s\<lparr>c_writers := (c_writers s)(w := x)\<rparr>"

section \<open>Steps\<close>

text \<open>
  One statement of a reader, with what it reads of the stream and of its signal. The reader's
  signal is named by the reader's number.
\<close>

definition after_drain :: "phase \<Rightarrow> reader_pc" where
  "after_drain p = (case p of First \<Rightarrow> RClear | Second \<Rightarrow> RWait | Third \<Rightarrow> RIdle)"

fun reader_step :: "'m team_stream \<Rightarrow> 'm reader_thread \<Rightarrow> 'm reader_thread" where
  "reader_step ts t =
     (case rt_pc t of
        RIdle \<Rightarrow> t\<lparr>rt_pc := RSelf First\<rparr>
      | RSelf p \<Rightarrow> (if rd_closed (rt_rd t) then t\<lparr>rt_pc := RIdle\<rparr> else t\<lparr>rt_pc := RAdvance p\<rparr>)
      | RAdvance p \<Rightarrow>
          (case reader_advance ts (rt_rd t) of
             (Inr (Some e), rd) \<Rightarrow> t\<lparr>rt_rd := rd, rt_pc := RIdle, rt_got := rt_got t @ [e]\<rparr>
           | (Inr None, rd) \<Rightarrow> t\<lparr>rt_rd := rd, rt_pc := RFlag p\<rparr>
           | (Inl _, rd) \<Rightarrow> t\<lparr>rt_rd := rd, rt_pc := RIdle\<rparr>)
      | RFlag p \<Rightarrow> (if ts_closed ts then t\<lparr>rt_pc := RAgain p\<rparr> else t\<lparr>rt_pc := after_drain p\<rparr>)
      | RAgain p \<Rightarrow>
          (case reader_advance ts (rt_rd t) of
             (Inr (Some e), rd) \<Rightarrow> t\<lparr>rt_rd := rd, rt_pc := RIdle, rt_got := rt_got t @ [e]\<rparr>
           | (Inr None, rd) \<Rightarrow> t\<lparr>rt_rd := rd, rt_pc := RIdle, rt_ended := True\<rparr>
           | (Inl _, rd) \<Rightarrow> t\<lparr>rt_rd := rd, rt_pc := RIdle\<rparr>)
      | RClear \<Rightarrow> t\<lparr>rt_pc := RSelf Second\<rparr>
      | RWait \<Rightarrow> t\<lparr>rt_pc := RSelf Third\<rparr>)"

text \<open>
  The steps of the system. \<open>wait(timeout)\<close> returns when the signal is set and also when the time
  is up, so a waiting reader can always go on; \<open>RClear\<close> is the only statement that clears a
  signal.
\<close>

inductive conc_step :: "'m conc \<Rightarrow> 'm conc \<Rightarrow> bool" where
  call_append: "c_writers s w = WIdle \<Longrightarrow> conc_step s (set_writer w (WAppend m) s)"
| append_closed: "c_writers s w = WAppend m \<Longrightarrow> c_lock s = None \<Longrightarrow> ts_closed (c_ts s) \<Longrightarrow>
     conc_step s (set_writer w WIdle s)"
| append_write: "c_writers s w = WAppend m \<Longrightarrow> c_lock s = None \<Longrightarrow> \<not> ts_closed (c_ts s) \<Longrightarrow>
     conc_step s (set_writer w (WSignalling (ts_signals (c_ts s)))
       (s\<lparr>c_ts := (c_ts s)\<lparr>ts_events := ts_events (c_ts s) @ [m]\<rparr>, c_lock := Some w\<rparr>))"
| call_remove: "c_writers s w = WIdle \<Longrightarrow> conc_step s (set_writer w WRemove s)"
| remove_write: "c_writers s w = WRemove \<Longrightarrow> c_lock s = None \<Longrightarrow>
     conc_step s (set_writer w (WSignalling (ts_signals (c_ts s)))
       (s\<lparr>c_ts := (c_ts s)\<lparr>ts_closed := True\<rparr>, c_lock := Some w\<rparr>))"
| signal: "c_writers s w = WSignalling S \<Longrightarrow> r \<in> S \<Longrightarrow>
     conc_step s (set_writer w (WSignalling (S - {r})) (s\<lparr>c_flags := (c_flags s)(r := True)\<rparr>))"
| unlock: "c_writers s w = WSignalling {} \<Longrightarrow>
     conc_step s (set_writer w WIdle (s\<lparr>c_lock := None\<rparr>))"
| subscribe: "\<not> rt_live (c_readers s r) \<Longrightarrow> c_lock s = None \<Longrightarrow> \<not> ts_closed (c_ts s) \<Longrightarrow>
     conc_step s (set_reader r (no_reader\<lparr>rt_live := True, rt_start := c,
         rt_rd := \<lparr>rd_stream = 0, rd_signal = r, rd_cursor = int c, rd_closed = False\<rparr>\<rparr>)
       (s\<lparr>c_ts := (c_ts s)\<lparr>ts_signals := insert r (ts_signals (c_ts s))\<rparr>\<rparr>))"
| read: "rt_live (c_readers s r) \<Longrightarrow> rt_pc (c_readers s r) \<noteq> RClear \<Longrightarrow>
     conc_step s (set_reader r (reader_step (c_ts s) (c_readers s r)) s)"
| clear: "rt_live (c_readers s r) \<Longrightarrow> rt_pc (c_readers s r) = RClear \<Longrightarrow>
     conc_step s (set_reader r (reader_step (c_ts s) (c_readers s r))
       (s\<lparr>c_flags := (c_flags s)(r := False)\<rparr>))"
| close_mark: "rt_live (c_readers s r) \<Longrightarrow> \<not> rd_closed (rt_rd (c_readers s r)) \<Longrightarrow>
     conc_step s (set_reader r ((c_readers s r)
       \<lparr>rt_rd := (rt_rd (c_readers s r))\<lparr>rd_closed := True\<rparr>, rt_closing := True\<rparr>) s)"
| close_drop: "rt_closing (c_readers s r) \<Longrightarrow> c_lock s = None \<Longrightarrow>
     conc_step s (set_reader r ((c_readers s r)\<lparr>rt_closing := False\<rparr>)
       (s\<lparr>c_ts := (c_ts s)\<lparr>ts_signals := ts_signals (c_ts s) - {r}\<rparr>\<rparr>))"

inductive conc_reachable :: "'m conc \<Rightarrow> bool" where
  start: "conc_reachable init_conc"
| step: "conc_reachable s \<Longrightarrow> conc_step s t \<Longrightarrow> conc_reachable t"

section \<open>Invariants\<close>

text \<open>A reader has returned exactly the events between its start and its cursor.\<close>

definition cursor_ok :: "'m list \<Rightarrow> 'm reader_thread \<Rightarrow> bool" where
  "cursor_ok ev t \<longleftrightarrow>
     (\<exists>c. rd_cursor (rt_rd t) = int c \<and> rt_start t \<le> c \<and> (c \<le> length ev \<or> c = rt_start t) \<and>
          rt_got t = take (c - rt_start t) (drop (rt_start t) ev))"

text \<open>The end of the stream is raised only when nothing is left and nothing can be added.\<close>

definition ended_ok :: "'m team_stream \<Rightarrow> 'm reader_thread \<Rightarrow> bool" where
  "ended_ok ts t \<longleftrightarrow>
     ((\<exists>p. rt_pc t = RAgain p) \<longrightarrow> ts_closed ts) \<and>
     (rt_ended t \<longrightarrow> ts_closed ts \<and> int (length (ts_events ts)) \<le> rd_cursor (rt_rd t))"

text \<open>The signal of a reader is set, or a writer is about to set it.\<close>

definition signalled :: "'m conc \<Rightarrow> nat \<Rightarrow> bool" where
  "signalled s r \<longleftrightarrow> c_flags s r \<or> (\<exists>w S. c_writers s w = WSignalling S \<and> r \<in> S)"

definition caught_up :: "'m conc \<Rightarrow> nat \<Rightarrow> bool" where
  "caught_up s r \<longleftrightarrow> int (length (ts_events (c_ts s))) \<le> rd_cursor (rt_rd (c_readers s r))"

definition wakeup_ok :: "'m conc \<Rightarrow> nat \<Rightarrow> bool" where
  "wakeup_ok s r \<longleftrightarrow>
     (rt_pc (c_readers s r) = RFlag Second \<longrightarrow> signalled s r \<or> caught_up s r) \<and>
     (rt_pc (c_readers s r) = RWait \<longrightarrow>
        signalled s r \<or> (caught_up s r \<and> \<not> ts_closed (c_ts s)))"

text \<open>Exactly the writer that holds the lock is signalling; a live reader keeps its registration.\<close>

definition lock_ok :: "'m conc \<Rightarrow> bool" where
  "lock_ok s \<longleftrightarrow> (\<forall>w. c_lock s = Some w \<longleftrightarrow> (\<exists>S. c_writers s w = WSignalling S))"

definition reader_ok :: "'m conc \<Rightarrow> nat \<Rightarrow> bool" where
  "reader_ok s r \<longleftrightarrow>
     (rt_live (c_readers s r) \<longrightarrow>
        cursor_ok (ts_events (c_ts s)) (c_readers s r) \<and> ended_ok (c_ts s) (c_readers s r) \<and>
        (\<not> rd_closed (rt_rd (c_readers s r)) \<longrightarrow>
           r \<in> ts_signals (c_ts s) \<and> \<not> rt_closing (c_readers s r) \<and> wakeup_ok s r))"

definition conc_inv :: "'m conc \<Rightarrow> bool" where
  "conc_inv s \<longleftrightarrow> lock_ok s \<and> (\<forall>r. reader_ok s r)"

lemmas conc_defs = set_reader_def set_writer_def

lemma conc_inv_init: "conc_inv init_conc"
  by (simp add: conc_inv_def lock_ok_def reader_ok_def init_conc_def no_reader_def)

subsection \<open>One statement of a reader\<close>

lemma cursor_ok_advance:
  assumes "cursor_ok ev t" "reader_advance ts (rt_rd t) = (x, rd)" "ev = ts_events ts"
  shows "case x of
      Inl _ \<Rightarrow> False
    | Inr None \<Rightarrow> rd = rt_rd t \<and> int (length ev) \<le> rd_cursor (rt_rd t)
    | Inr (Some e) \<Rightarrow> rd = (rt_rd t)\<lparr>rd_cursor := rd_cursor (rt_rd t) + 1\<rparr> \<and>
        cursor_ok ev (t\<lparr>rt_rd := rd, rt_got := rt_got t @ [e]\<rparr>)"
proof -
  obtain c where c: "rd_cursor (rt_rd t) = int c" "rt_start t \<le> c" "c \<le> length ev \<or> c = rt_start t"
    and got: "rt_got t = take (c - rt_start t) (drop (rt_start t) ev)"
    using assms(1) by (auto simp: cursor_ok_def)
  show ?thesis
  proof (cases "c < length ev")
    case True
    have "take (Suc c - rt_start t) (drop (rt_start t) ev) = rt_got t @ [ev ! c]"
      using True c(2) got by (simp add: Suc_diff_le take_Suc_conv_app_nth)
    moreover have "(x, rd) = (Inr (Some (ev ! c)), (rt_rd t)\<lparr>rd_cursor := int c + 1\<rparr>)"
      using assms(2,3) True c(1) by (simp add: reader_advance_def)
    ultimately show ?thesis
      using True c(1,2) by (auto simp: cursor_ok_def intro!: exI [of _ "Suc c"])
  next
    case False
    with assms(2,3) c show ?thesis by (auto simp: reader_advance_def)
  qed
qed

lemma cursor_ok_cong:
  "rd_cursor (rt_rd t) = rd_cursor (rt_rd u) \<Longrightarrow> rt_start t = rt_start u \<Longrightarrow> rt_got t = rt_got u \<Longrightarrow>
   cursor_ok ev t \<longleftrightarrow> cursor_ok ev u"
  by (simp add: cursor_ok_def)

lemma reader_step_cursor:
  assumes "cursor_ok (ts_events ts) t"
  shows "cursor_ok (ts_events ts) (reader_step ts t)"
proof (cases "\<exists>p. rt_pc t = RAdvance p \<or> rt_pc t = RAgain p")
  case True
  obtain x rd where x: "reader_advance ts (rt_rd t) = (x, rd)" by force
  from cursor_ok_advance [OF assms x refl] True assms x show ?thesis
    by (auto split: sum.splits option.splits elim: cursor_ok_cong [THEN iffD1, rotated -1])
next
  case False
  then show ?thesis
    using assms by (cases "rt_pc t") (auto elim: cursor_ok_cong [THEN iffD1, rotated -1])
qed

lemma reader_step_ended:
  assumes "ended_ok ts t" "cursor_ok (ts_events ts) t"
  shows "ended_ok ts (reader_step ts t)"
proof (cases "\<exists>p. rt_pc t = RAdvance p \<or> rt_pc t = RAgain p")
  case True
  obtain x rd where x: "reader_advance ts (rt_rd t) = (x, rd)" by force
  from cursor_ok_advance [OF assms(2) x refl] True assms(1) x show ?thesis
    by (auto simp: ended_ok_def split: sum.splits option.splits)
next
  case False
  then show ?thesis
    using assms(1) by (cases "rt_pc t") (auto simp: ended_ok_def after_drain_def split: phase.splits)
qed

lemma reader_step_frame:
  "rt_live (reader_step ts t) = rt_live t" "rt_closing (reader_step ts t) = rt_closing t"
  "rd_closed (rt_rd (reader_step ts t)) = rd_closed (rt_rd t)"
  by (cases "rt_pc t";
      auto simp: reader_advance_def split: option.splits sum.splits prod.splits)+

text \<open>Where a reader stands after a statement, as far as a missed signal can matter.\<close>

lemma reader_step_wait:
  assumes "rt_pc (reader_step ts t) = RWait"
  shows "rt_pc t = RFlag Second \<and> \<not> ts_closed ts \<and> rt_rd (reader_step ts t) = rt_rd t"
  using assms
  by (cases "rt_pc t")
    (auto simp: after_drain_def split: sum.splits option.splits prod.splits if_splits phase.splits)

lemma reader_step_flag:
  assumes "rt_pc (reader_step ts t) = RFlag p" "cursor_ok (ts_events ts) t"
  shows "int (length (ts_events ts)) \<le> rd_cursor (rt_rd (reader_step ts t))"
proof -
  obtain x rd where x: "reader_advance ts (rt_rd t) = (x, rd)" by force
  from cursor_ok_advance [OF assms(2) x refl] assms(1) x show ?thesis
    by (cases "rt_pc t")
      (auto simp: after_drain_def split: sum.splits option.splits if_splits phase.splits)
qed

declare reader_step.simps [simp del]

subsection \<open>Every step keeps the invariant\<close>

lemma lock_ok_step: "conc_step s t \<Longrightarrow> lock_ok s \<Longrightarrow> lock_ok t"
proof (induction rule: conc_step.induct)
  case (unlock s w)
  then have "c_lock s = Some w" by (auto simp: lock_ok_def)
  with unlock show ?case by (auto simp: lock_ok_def conc_defs)
qed (force simp: lock_ok_def conc_defs)+

lemma cursor_ok_append: "cursor_ok ev t \<Longrightarrow> cursor_ok (ev @ [m]) t"
  unfolding cursor_ok_def by (fastforce simp: le_diff_conv)

lemma signalled_set_writer:
  assumes "signalled s r" "\<And>S. c_writers s w = WSignalling S \<Longrightarrow> r \<in> S \<Longrightarrow> signalled (set_writer w x s') r"
    and "c_writers s' = c_writers s" "c_flags s' = c_flags s"
  shows "signalled (set_writer w x s') r"
proof -
  consider "c_flags s r" | w' S where "c_writers s w' = WSignalling S" "r \<in> S"
    using assms(1) by (auto simp: signalled_def)
  then show ?thesis
  proof cases
    case 1
    then show ?thesis using assms(4) by (simp add: signalled_def set_writer_def)
  next
    case (2 w' S)
    then show ?thesis
      using assms by (cases "w' = w") (auto simp: signalled_def set_writer_def)
  qed
qed

text \<open>A step that leaves a reader and the stream alone and loses no signal of it.\<close>

lemma reader_ok_mono:
  assumes "reader_ok s r" "c_readers t r = c_readers s r"
    and "ts_events (c_ts t) = ts_events (c_ts s)" "ts_closed (c_ts t) = ts_closed (c_ts s)"
    and "r \<in> ts_signals (c_ts s) \<Longrightarrow> r \<in> ts_signals (c_ts t)"
    and "signalled s r \<Longrightarrow> signalled t r"
  shows "reader_ok t r"
  using assms by (auto simp: reader_ok_def ended_ok_def wakeup_ok_def caught_up_def)

text \<open>A write under the lock: every registered reader is signalled afterwards.\<close>

lemma reader_ok_write:
  assumes "reader_ok s r" "c_readers t r = c_readers s r"
    and "ts_signals (c_ts t) = ts_signals (c_ts s)"
    and "ts_closed (c_ts s) \<Longrightarrow> ts_closed (c_ts t) \<and> ts_events (c_ts t) = ts_events (c_ts s)"
    and "ts_events (c_ts t) = ts_events (c_ts s) \<or> (\<exists>m. ts_events (c_ts t) = ts_events (c_ts s) @ [m])"
    and "r \<in> ts_signals (c_ts s) \<Longrightarrow> signalled t r"
  shows "reader_ok t r"
proof -
  have "cursor_ok (ts_events (c_ts t)) (c_readers s r)" if "rt_live (c_readers s r)"
    using assms(1,5) that by (auto simp: reader_ok_def cursor_ok_append)
  then show ?thesis
    using assms(1-4,6) by (auto simp: reader_ok_def ended_ok_def wakeup_ok_def)
qed

lemma reader_ok_read:
  assumes "reader_ok s r" "rt_live (c_readers s r)"
    and "c_readers t r = reader_step (c_ts s) (c_readers s r)" "c_ts t = c_ts s"
    and "rt_pc (c_readers s r) \<noteq> RClear \<Longrightarrow> signalled s r \<Longrightarrow> signalled t r"
  shows "reader_ok t r"
proof -
  let ?u = "c_readers s r" and ?v = "reader_step (c_ts s) (c_readers s r)"
  have ok: "cursor_ok (ts_events (c_ts s)) ?u" "ended_ok (c_ts s) ?u"
    using assms(1,2) by (auto simp: reader_ok_def)
  have "wakeup_ok t r" if "\<not> rd_closed (rt_rd ?u)"
  proof -
    have w: "wakeup_ok s r" using assms(1,2) that by (simp add: reader_ok_def)
    have "rt_pc ?v = RWait \<Longrightarrow> signalled t r \<or> caught_up t r \<and> \<not> ts_closed (c_ts t)"
      using reader_step_wait [of "c_ts s" ?u] w assms(3,4,5)
      by (auto simp: wakeup_ok_def caught_up_def)
    moreover have "rt_pc ?v = RFlag Second \<Longrightarrow> caught_up t r"
      using reader_step_flag [OF _ ok(1)] assms(3,4) by (simp add: caught_up_def)
    ultimately show ?thesis using assms(3) by (auto simp: wakeup_ok_def)
  qed
  then show ?thesis
    using assms(1-4) reader_step_cursor [OF ok(1)] reader_step_ended [OF ok(2,1)]
    by (simp add: reader_ok_def reader_step_frame)
qed

lemma reader_ok_step: "conc_step s t \<Longrightarrow> (\<And>r. reader_ok s r) \<Longrightarrow> reader_ok t r"
proof (induction rule: conc_step.induct)
  case (call_append s w m)
  show ?case
    by (rule reader_ok_mono [OF call_append.prems])
      (auto simp: set_writer_def intro: signalled_set_writer [unfolded set_writer_def] simp: call_append)
next
  case (append_closed s w m)
  show ?case
    by (rule reader_ok_mono [OF append_closed.prems])
      (auto simp: set_writer_def intro: signalled_set_writer [unfolded set_writer_def] simp: append_closed)
next
  case (append_write s w m)
  show ?case
    by (rule reader_ok_write [OF append_write.prems])
      (auto simp: set_writer_def signalled_def append_write)
next
  case (call_remove s w)
  show ?case
    by (rule reader_ok_mono [OF call_remove.prems])
      (auto simp: set_writer_def intro: signalled_set_writer [unfolded set_writer_def] simp: call_remove)
next
  case (remove_write s w)
  show ?case
    by (rule reader_ok_write [OF remove_write.prems])
      (auto simp: set_writer_def signalled_def remove_write)
next
  case (signal s w S r')
  have "signalled s r \<Longrightarrow> signalled (set_writer w (WSignalling (S - {r'})) (s\<lparr>c_flags := (c_flags s)(r' := True)\<rparr>)) r"
  proof -
    assume "signalled s r"
    then consider "c_flags s r" | w' S' where "c_writers s w' = WSignalling S'" "r \<in> S'"
      by (auto simp: signalled_def)
    then show ?thesis
    proof cases
      case (2 w' S')
      then show ?thesis
        using signal.hyps(1) by (cases "w' = w") (auto simp: signalled_def set_writer_def)
    qed (simp add: signalled_def set_writer_def)
  qed
  then show ?case by (intro reader_ok_mono [OF signal.prems]) (auto simp: set_writer_def)
next
  case (unlock s w)
  have "signalled (set_writer w WIdle (s\<lparr>c_lock := None\<rparr>)) r" if "signalled s r"
  proof (rule signalled_set_writer [OF that])
    show "signalled (set_writer w WIdle (s\<lparr>c_lock := None\<rparr>)) r"
      if "c_writers s w = WSignalling S" "r \<in> S" for S
      using that unlock.hyps by simp
  qed simp_all
  then show ?case by (intro reader_ok_mono [OF unlock.prems]) (auto simp: set_writer_def)
next
  case (subscribe s r' c)
  show ?case
  proof (cases "r = r'")
    case True
    then show ?thesis
      by (auto simp: reader_ok_def set_reader_def no_reader_def cursor_ok_def ended_ok_def wakeup_ok_def)
  next
    case False
    then show ?thesis
      by (intro reader_ok_mono [OF subscribe.prems]) (auto simp: set_reader_def signalled_def)
  qed
next
  case (read s r')
  show ?case
  proof (cases "r = r'")
    case True
    then show ?thesis
      using read.hyps by (intro reader_ok_read [OF read.prems]) (auto simp: set_reader_def signalled_def)
  next
    case False
    then show ?thesis
      by (intro reader_ok_mono [OF read.prems]) (auto simp: set_reader_def signalled_def)
  qed
next
  case (clear s r')
  show ?case
  proof (cases "r = r'")
    case True
    then show ?thesis
      using clear.hyps by (intro reader_ok_read [OF clear.prems]) (auto simp: set_reader_def signalled_def)
  next
    case False
    then show ?thesis
      by (intro reader_ok_mono [OF clear.prems]) (auto simp: set_reader_def signalled_def)
  qed
next
  case (close_mark s r')
  show ?case
    using close_mark.prems [of r]
    by (cases "r = r'")
      (auto simp: set_reader_def reader_ok_def cursor_ok_def ended_ok_def wakeup_ok_def caught_up_def signalled_def)
next
  case (close_drop s r')
  show ?case
    using close_drop.prems [of r] close_drop.hyps
    by (cases "r = r'")
      (auto simp: set_reader_def reader_ok_def cursor_ok_def ended_ok_def wakeup_ok_def caught_up_def signalled_def)
qed

lemma conc_reachable_inv: "conc_reachable s \<Longrightarrow> conc_inv s"
  by (induction rule: conc_reachable.induct)
    (auto simp: conc_inv_init, auto simp: conc_inv_def intro: lock_ok_step reader_ok_step)


inductive_cases closed_stepE: "conc_step s t"

lemma closed_step: "conc_step s t \<Longrightarrow> ts_closed (c_ts s) \<Longrightarrow>
    ts_closed (c_ts t) \<and> ts_events (c_ts t) = ts_events (c_ts s)"
  by (erule closed_stepE) (auto simp: conc_defs)

lemma closed_steps: "conc_step\<^sup>*\<^sup>* s t \<Longrightarrow> ts_closed (c_ts s) \<Longrightarrow>
    ts_closed (c_ts t) \<and> ts_events (c_ts t) = ts_events (c_ts s)"
  by (induction rule: rtranclp_induct) (auto dest: closed_step)

lemma reader_okD:
  assumes "conc_reachable s" "rt_live (c_readers s r)"
  shows "cursor_ok (ts_events (c_ts s)) (c_readers s r)" "ended_ok (c_ts s) (c_readers s r)"
    and "\<not> rd_closed (rt_rd (c_readers s r)) \<Longrightarrow> wakeup_ok s r"
  using conc_reachable_inv [OF assms(1)] assms(2) by (auto simp: conc_inv_def reader_ok_def)

lemma cursor_ok_all:
  assumes "cursor_ok ev t" "int (length ev) \<le> rd_cursor (rt_rd t)"
  shows "rt_got t = drop (rt_start t) ev"
  using assms by (auto simp: cursor_ok_def)

section \<open>Executable schedules\<close>

text \<open>The same steps as a function of a scheduler's choice, to run concrete interleavings.\<close>

datatype 'm choice =
    CallAppend nat 'm | CallRemove nat | Locked nat | Signal nat nat | Unlock nat
  | SubscribeAt nat nat | Run nat | CloseMark nat | CloseDrop nat

fun conc_exec :: "'m choice \<Rightarrow> 'm conc \<Rightarrow> 'm conc option" where
  "conc_exec (CallAppend w m) s =
     (case c_writers s w of WIdle \<Rightarrow> Some (set_writer w (WAppend m) s) | _ \<Rightarrow> None)"
| "conc_exec (CallRemove w) s =
     (case c_writers s w of WIdle \<Rightarrow> Some (set_writer w WRemove s) | _ \<Rightarrow> None)"
| "conc_exec (Locked w) s =
     (if c_lock s \<noteq> None then None
      else case c_writers s w of
        WAppend m \<Rightarrow> Some (if ts_closed (c_ts s) then set_writer w WIdle s
          else set_writer w (WSignalling (ts_signals (c_ts s)))
            (s\<lparr>c_ts := (c_ts s)\<lparr>ts_events := ts_events (c_ts s) @ [m]\<rparr>, c_lock := Some w\<rparr>))
      | WRemove \<Rightarrow> Some (set_writer w (WSignalling (ts_signals (c_ts s)))
            (s\<lparr>c_ts := (c_ts s)\<lparr>ts_closed := True\<rparr>, c_lock := Some w\<rparr>))
      | _ \<Rightarrow> None)"
| "conc_exec (Signal w r) s =
     (case c_writers s w of
        WSignalling S \<Rightarrow> (if r \<in> S then Some (set_writer w (WSignalling (S - {r}))
            (s\<lparr>c_flags := (c_flags s)(r := True)\<rparr>)) else None)
      | _ \<Rightarrow> None)"
| "conc_exec (Unlock w) s =
     (case c_writers s w of
        WSignalling S \<Rightarrow> (if S = {} then Some (set_writer w WIdle (s\<lparr>c_lock := None\<rparr>)) else None)
      | _ \<Rightarrow> None)"
| "conc_exec (SubscribeAt r c) s =
     (if \<not> rt_live (c_readers s r) \<and> c_lock s = None \<and> \<not> ts_closed (c_ts s)
      then Some (set_reader r (no_reader\<lparr>rt_live := True, rt_start := c,
         rt_rd := \<lparr>rd_stream = 0, rd_signal = r, rd_cursor = int c, rd_closed = False\<rparr>\<rparr>)
       (s\<lparr>c_ts := (c_ts s)\<lparr>ts_signals := insert r (ts_signals (c_ts s))\<rparr>\<rparr>)) else None)"
| "conc_exec (Run r) s =
     (if \<not> rt_live (c_readers s r) then None
      else let s' = (if rt_pc (c_readers s r) = RClear then s\<lparr>c_flags := (c_flags s)(r := False)\<rparr> else s)
           in Some (set_reader r (reader_step (c_ts s) (c_readers s r)) s'))"
| "conc_exec (CloseMark r) s =
     (if rt_live (c_readers s r) \<and> \<not> rd_closed (rt_rd (c_readers s r))
      then Some (set_reader r ((c_readers s r)
       \<lparr>rt_rd := (rt_rd (c_readers s r))\<lparr>rd_closed := True\<rparr>, rt_closing := True\<rparr>) s) else None)"
| "conc_exec (CloseDrop r) s =
     (if rt_closing (c_readers s r) \<and> c_lock s = None
      then Some (set_reader r ((c_readers s r)\<lparr>rt_closing := False\<rparr>)
       (s\<lparr>c_ts := (c_ts s)\<lparr>ts_signals := ts_signals (c_ts s) - {r}\<rparr>\<rparr>)) else None)"

lemma conc_exec_step: "conc_exec c s = Some t \<Longrightarrow> conc_step s t"
  by (cases c) (auto split: writer.splits if_splits intro: conc_step.intros simp: Let_def)

fun run_schedule :: "'m choice list \<Rightarrow> 'm conc \<Rightarrow> 'm conc option" where
  "run_schedule [] s = Some s"
| "run_schedule (c # cs) s = Option.bind (conc_exec c s) (run_schedule cs)"

lemma run_schedule_steps: "run_schedule cs s = Some t \<Longrightarrow> conc_step\<^sup>*\<^sup>* s t"
  by (induction cs arbitrary: s)
    (auto simp: bind_eq_Some_conv dest!: conc_exec_step intro: converse_rtranclp_into_rtranclp)

lemma reachable_steps: "conc_step\<^sup>*\<^sup>* s t \<Longrightarrow> conc_reachable s \<Longrightarrow> conc_reachable t"
  by (induction rule: rtranclp_induct) (auto intro: conc_reachable.step)

lemmas run_schedule_reachable =
  reachable_steps [OF run_schedule_steps conc_reachable.start]

section \<open>Properties\<close>

text \<open>
  C17. However readers and writers interleave, a reader has returned exactly the events between the
  position it subscribed at and its cursor, in order; and when \<open>read_next\<close> has raised the end of the
  stream, it has returned every event from its start to the last one the stream will ever hold.
\<close>

theorem concurrent_reader_loses_nothing:
  assumes "conc_reachable s" and "conc_step\<^sup>*\<^sup>* s t" and "rt_live (c_readers s r)"
  shows "(\<exists>n. rt_got (c_readers s r) = take n (drop (rt_start (c_readers s r)) (ts_events (c_ts s)))) \<and>
         (rt_ended (c_readers s r) \<longrightarrow>
            rt_got (c_readers s r) = drop (rt_start (c_readers s r)) (ts_events (c_ts t)))"
proof -
  note ok = reader_okD [OF assms(1,3)]
  have "\<exists>n. rt_got (c_readers s r) = take n (drop (rt_start (c_readers s r)) (ts_events (c_ts s)))"
    using ok(1) by (auto simp: cursor_ok_def)
  moreover have "rt_got (c_readers s r) = drop (rt_start (c_readers s r)) (ts_events (c_ts t))"
    if "rt_ended (c_readers s r)"
    using ok that closed_steps [OF assms(2)] by (auto simp: ended_ok_def dest: cursor_ok_all)
  ultimately show ?thesis by blast
qed

text \<open>A writer appends while the reader is between its two checks, and then removes the stream.\<close>

definition race_schedule :: "nat choice list" where
  "race_schedule = [SubscribeAt 0 0, Run 0, Run 0, Run 0, CallAppend 0 10, Locked 0, Signal 0 0,
     Unlock 0, CallRemove 1, Locked 1, Signal 1 0, Unlock 1, Run 0, Run 0,
     Run 0, Run 0, Run 0, Run 0, Run 0]"

text \<open>The state of a reader and of the stream, to compare in evaluations.\<close>

definition race_end :: "nat conc" where
  "race_end = the (run_schedule race_schedule init_conc)"

lemma race_end_run: "run_schedule race_schedule init_conc = Some race_end"
proof -
  have "run_schedule race_schedule init_conc \<noteq> None"
    by (simp add: race_schedule_def init_conc_def empty_stream_def no_reader_def conc_defs
        reader_step.simps reader_advance_def py_nth_def after_drain_def)
  then show ?thesis by (auto simp: race_end_def)
qed

theorem concurrent_reader_loses_nothing_witness:
  "rt_ended (c_readers race_end 0) \<and> rt_got (c_readers race_end 0) = ts_events (c_ts race_end) \<and>
   rt_got (c_readers race_end 0) = [10]"
proof -
  have *: "rt_live (c_readers race_end 0)" "rt_ended (c_readers race_end 0)"
    "rt_start (c_readers race_end 0) = 0" "ts_events (c_ts race_end) = [10]"
    by (simp_all add: race_end_def race_schedule_def init_conc_def empty_stream_def no_reader_def conc_defs
        reader_step.simps reader_advance_def py_nth_def after_drain_def)
  show ?thesis
    using concurrent_reader_loses_nothing
      [OF run_schedule_reachable [OF race_end_run] rtranclp.rtrancl_refl *(1)] * by simp
qed

text \<open>
  C18. No wake-up is lost: whenever a reader that has not closed itself is waiting on its signal, the
  signal is clear and no writer is inside its critical section, the stream is open and the reader
  has returned every event it holds.
\<close>

theorem no_lost_wakeup:
  assumes "conc_reachable s" and "rt_live (c_readers s r)"
    and "\<not> rd_closed (rt_rd (c_readers s r))"
    and "rt_pc (c_readers s r) = RWait" and "\<not> c_flags s r" and "c_lock s = None"
  shows "\<not> ts_closed (c_ts s) \<and>
         rt_got (c_readers s r) = drop (rt_start (c_readers s r)) (ts_events (c_ts s))"
proof -
  note ok = reader_okD [OF assms(1,2)]
  have "\<not> signalled s r"
    using conc_reachable_inv [OF assms(1)] assms(5,6) by (auto simp: signalled_def conc_inv_def lock_ok_def)
  then have "caught_up s r" "\<not> ts_closed (c_ts s)"
    using ok(3) assms(3,4) by (auto simp: wakeup_ok_def)
  then show ?thesis using cursor_ok_all [OF ok(1)] by (simp add: caught_up_def)
qed

definition wait_schedule :: "nat choice list" where
  "wait_schedule = [CallAppend 0 10, Locked 0, Unlock 0, SubscribeAt 0 0, Run 0, Run 0, Run 0,
     Run 0, Run 0, Run 0, Run 0, Run 0, Run 0, Run 0, Run 0]"

definition wait_end :: "nat conc" where
  "wait_end = the (run_schedule wait_schedule init_conc)"

lemma wait_end_run: "run_schedule wait_schedule init_conc = Some wait_end"
proof -
  have "run_schedule wait_schedule init_conc \<noteq> None"
    by (simp add: wait_schedule_def init_conc_def empty_stream_def no_reader_def conc_defs
        reader_step.simps reader_advance_def py_nth_def after_drain_def)
  then show ?thesis by (auto simp: wait_end_def)
qed

theorem no_lost_wakeup_witness:
  "rt_pc (c_readers wait_end 0) = RWait \<and> rt_got (c_readers wait_end 0) = [10] \<and>
   \<not> ts_closed (c_ts wait_end)"
proof -
  have *: "rt_live (c_readers wait_end 0)" "\<not> rd_closed (rt_rd (c_readers wait_end 0))"
    "rt_pc (c_readers wait_end 0) = RWait" "\<not> c_flags wait_end 0" "c_lock wait_end = None"
    "rt_start (c_readers wait_end 0) = 0" "ts_events (c_ts wait_end) = [10]"
    by (simp_all add: wait_end_def wait_schedule_def init_conc_def empty_stream_def no_reader_def
        conc_defs reader_step.simps reader_advance_def py_nth_def after_drain_def)
  show ?thesis
    using no_lost_wakeup [OF run_schedule_reachable [OF wait_end_run] *(1-5)] * by simp
qed

end
