(* ===== verification/Data.thy ===== *)
theory Data
  imports Prelude
begin

text \<open>
  The data that travels between components. Its classes belong to the akgentic packages the
  repository builds on (\<open>akgentic.core\<close>, \<open>akgentic.team\<close>, \<open>akgentic.catalog\<close>); a record here has the
  fields the repository's code reads of them, with the meaning the code gives them.
\<close>

section \<open>JSON\<close>

text \<open>A floating-point number is kept as its text; no modelled code computes with one.\<close>

datatype json =
    JNull
  | JBool bool
  | JInt int
  | JFloat string
  | JStr string
  | JList "json list"
  | JObj "(string \<times> json) list"

fun json_obj :: "json \<Rightarrow> (string \<times> json) list option" where
  "json_obj (JObj d) = Some d"
| "json_obj _ = None"

section \<open>Messages\<close>

text \<open>
  An \<open>akgentic.core\<close> message: its id, and its \<open>content\<close> where it has a text one. What a team
  records is a message; a \<open>SentMessage\<close> is one that carries an inner message.
\<close>

record message =
  msg_id :: uuid
  msg_content :: "string option"

datatype event_message = SentMessage message | OtherMessage message

record persisted_event =
  pe_id :: uuid
  pe_sequence :: nat
  pe_event :: event_message

text \<open>\<open>content: str | Message\<close>, the argument of every delivery.\<close>

datatype delivery = Text string | Msg message

section \<open>Teams\<close>

datatype team_status = RUNNING | STOPPED | DELETED

datatype description_origin = AUTO | USER

text \<open>
  The agents of a team are known by their spawned names. A metadata model instance is known by its class and by its JSON-mode dump; a metadata type is the
  name of a class.
\<close>

record metadata =
  md_type :: string
  md_dump :: "(string \<times> json) list"

record process =
  team_id :: uuid
  team_name :: "string option"
  user_id :: string
  user_email :: string
  status :: team_status
  created_at :: int
  updated_at :: int
  catalog_namespace :: "string option"
  metadata_type :: "string option"
  metadata :: "metadata option"
  metadata_indexes :: "string list"
  agent_cards :: "(string \<times> string) list"
  entry_point :: string
  supervisors :: "string list"
  team_description :: "string option"
  description_origin :: description_origin

record team_card =
  tc_name :: string
  tc_metadata_type :: "string option"
  tc_agent_cards :: "(string \<times> string) list"
  tc_entry_point :: string
  tc_supervisors :: "string list"

record agent_state =
  as_agent :: uuid
  as_state :: json

text \<open>A live team: the id of its runtime, and which runtime object it is.\<close>

record team_runtime =
  rt_id :: uuid
  rt_object :: nat

section \<open>LocalTeamHandle\<close>

text \<open>
  \<open>LocalTeamHandle\<close> wraps a runtime; a handle is the same object as another when it wraps the same
  runtime object.
\<close>

datatype team_handle = LocalTeamHandle (h_runtime: team_runtime)

definition h_team_id :: "team_handle \<Rightarrow> uuid" where
  "h_team_id h = rt_id (h_runtime h)"

text \<open>The runtime's methods, in \<open>akgentic.team\<close>, as the handle's methods call them.\<close>

record 's runtime_ops =
  run_send :: "team_runtime \<Rightarrow> delivery \<Rightarrow> ('s, unit) prog"
  run_send_to :: "team_runtime \<Rightarrow> string \<Rightarrow> delivery \<Rightarrow> ('s, unit) prog"
  run_send_from_to :: "team_runtime \<Rightarrow> string \<Rightarrow> string \<Rightarrow> delivery \<Rightarrow> ('s, unit) prog"
  run_emit :: "team_runtime \<Rightarrow> message \<Rightarrow> ('s, unit) prog"
  run_human_input :: "team_runtime \<Rightarrow> string \<Rightarrow> message \<Rightarrow> ('s, unit) prog"

definition handle_send :: "'s runtime_ops \<Rightarrow> team_handle \<Rightarrow> delivery \<Rightarrow> ('s, unit) prog" where
  "handle_send R h content = run_send R (h_runtime h) content"

definition handle_send_to ::
    "'s runtime_ops \<Rightarrow> team_handle \<Rightarrow> string \<Rightarrow> delivery \<Rightarrow> ('s, unit) prog" where
  "handle_send_to R h agent_name content = run_send_to R (h_runtime h) agent_name content"

definition handle_send_from_to ::
    "'s runtime_ops \<Rightarrow> team_handle \<Rightarrow> string \<Rightarrow> string \<Rightarrow> delivery \<Rightarrow> ('s, unit) prog" where
  "handle_send_from_to R h sender recipient content =
     run_send_from_to R (h_runtime h) sender recipient content"

definition handle_emit :: "'s runtime_ops \<Rightarrow> team_handle \<Rightarrow> message \<Rightarrow> ('s, unit) prog" where
  "handle_emit R h message = run_emit R (h_runtime h) message"

definition handle_human_input ::
    "'s runtime_ops \<Rightarrow> team_handle \<Rightarrow> string \<Rightarrow> message \<Rightarrow> ('s, unit) prog" where
  "handle_human_input R h content message = run_human_input R (h_runtime h) content message"

lemmas handle_defs = handle_send_def handle_send_to_def handle_send_from_to_def handle_emit_def
  handle_human_input_def

end
