(* ===== verification/Placement.thy ===== *)
theory Placement
  imports Data
begin

text \<open>
  \<open>adapters/community/local_placement.py\<close>: creation and resumption of teams in this process, with
  the in-flight table that collapses concurrent claims on one team id. The operations are built from
  the atomic steps of the code (a claim under the lock, the call of the team manager, the resolution
  of the future, the removal of the table entry, the wait of a parked duplicate), and
  \<open>PlacementConc\<close> interleaves the same steps.

  The team manager is \<open>akgentic.team\<close>'s: a record of its operations over its own state \<open>'w\<close>.
\<close>

section \<open>State\<close>

record create_args =
  ca_card :: team_card
  ca_user_id :: string
  ca_user_email :: string
  ca_team_id :: "uuid option"
  ca_namespace :: "string option"
  ca_metadata :: "metadata option"

record 'w team_manager =
  tm_get_team :: "uuid \<Rightarrow> 'w \<Rightarrow> process option"
  tm_create_team :: "create_args \<Rightarrow> ('w, team_runtime) prog"
  tm_resume_team :: "uuid \<Rightarrow> ('w, team_runtime) prog"
  tm_stop_team :: "uuid \<Rightarrow> ('w, unit) prog"
  tm_delete_team :: "uuid \<Rightarrow> ('w, unit) prog"
  tm_update_metadata :: "uuid \<Rightarrow> metadata option \<Rightarrow> ('w, process) prog"

datatype future = Pending | Settled "exn + team_handle"

record 'w placement =
  pl_world :: 'w
  pl_in_flight :: "(uuid, string \<times> nat) dict"
  pl_futures :: "nat \<Rightarrow> future"
  pl_next :: nat

definition init_placement :: "'w \<Rightarrow> 'w placement" where
  "init_placement w = \<lparr>pl_world = w, pl_in_flight = [], pl_futures = (\<lambda>_. Pending), pl_next = 0\<rparr>"

text \<open>A call of the team manager, inside the placement.\<close>

definition on_world :: "('w, 'a) prog \<Rightarrow> ('w placement, 'a) prog" where
  "on_world = on_part pl_world (\<lambda>w s. s\<lparr>pl_world := w\<rparr>)"

section \<open>The steps\<close>

definition team_id_conflict :: "string \<Rightarrow> exn" where
  "team_id_conflict detail = PlacementError detail 409 (Some ''team_id_conflict'')"

text \<open>\<open>PlacementError(msg)\<close> with the class's own status and code.\<close>

definition placement_failed :: "string \<Rightarrow> exn" where
  "placement_failed detail = PlacementError detail 503 (Some ''placement_failed'')"

text \<open>What a thread holds after the locked section: the future it must settle, or the claim it waits for.\<close>

datatype claim = Claimed nat | Parked string nat

text \<open>The shared tail of both locked sections: look the key up, or claim it with a fresh future.\<close>

definition claim_key :: "uuid \<Rightarrow> string \<Rightarrow> ('w placement, claim) prog" where
  "claim_key i owner s =
     (case map_of (pl_in_flight s) i of
        Some (o', f) \<Rightarrow> (Inr (Parked o' f), s)
      | None \<Rightarrow>
          (Inr (Claimed (pl_next s)),
           s\<lparr>pl_in_flight := AList.update i (owner, pl_next s) (pl_in_flight s),
             pl_futures := (pl_futures s)(pl_next s := Pending),
             pl_next := Suc (pl_next s)\<rparr>))"

definition claim_create :: "'w team_manager \<Rightarrow> uuid \<Rightarrow> string \<Rightarrow> ('w placement, claim) prog" where
  "claim_create tm i user s =
     (case tm_get_team tm i (pl_world s) of
        Some _ \<Rightarrow> (Inl (team_id_conflict (''Team '' @ uuid_str i @ '' already exists'')), s)
      | None \<Rightarrow> claim_key i user s)"

text \<open>The owner a resume claims its key for: the persisted one.\<close>

definition resume_owner :: "'w team_manager \<Rightarrow> uuid \<Rightarrow> 'w placement \<Rightarrow> string" where
  "resume_owner tm i s =
     (case tm_get_team tm i (pl_world s) of Some p \<Rightarrow> user_id p | None \<Rightarrow> '''')"

text \<open>\<open>future.set_result\<close> or \<open>future.set_exception\<close>.\<close>

definition settle :: "nat \<Rightarrow> exn + team_handle \<Rightarrow> 'w placement \<Rightarrow> 'w placement" where
  "settle f r s = s\<lparr>pl_futures := (pl_futures s)(f := Settled r)\<rparr>"

definition release :: "uuid \<Rightarrow> 'w placement \<Rightarrow> 'w placement" where
  "release i s = s\<lparr>pl_in_flight := AList.delete i (pl_in_flight s)\<rparr>"

text \<open>\<open>future.result(timeout)\<close>, at the moment the wait ends.\<close>

definition parked_timeout :: "uuid \<Rightarrow> exn" where
  "parked_timeout i =
     placement_failed (''Claim on team '' @ uuid_str i @ '' did not finish within 120s'')"

definition park :: "uuid \<Rightarrow> string \<Rightarrow> string \<Rightarrow> nat \<Rightarrow> ('w placement, team_handle) prog" where
  "park i user owner f s =
     (if owner \<noteq> user then
        (Inl (team_id_conflict (''Team '' @ uuid_str i @ '' is being created for another user'')), s)
      else case pl_futures s f of
        Settled r \<Rightarrow> (r, s)
      | Pending \<Rightarrow> (Inl (parked_timeout i), s))"

text \<open>\<open>_create\<close>: a placement error passes, any other exception becomes one.\<close>

fun is_placement_error :: "exn \<Rightarrow> bool" where
  "is_placement_error (PlacementError _ _ _) = True"
| "is_placement_error _ = False"

definition create_in_world :: "'w team_manager \<Rightarrow> create_args \<Rightarrow> ('w, team_handle) prog" where
  "create_in_world tm a =
     bnd (try_except (tm_create_team tm a)
            (\<lambda>e. throw (if is_placement_error e then e
                        else placement_failed (''Local team creation failed: '' @ exn_str e))))
       (\<lambda>runtime. ret (LocalTeamHandle runtime))"

definition resume_in_world :: "'w team_manager \<Rightarrow> uuid \<Rightarrow> ('w, team_handle) prog" where
  "resume_in_world tm i = bnd (tm_resume_team tm i) (\<lambda>runtime. ret (LocalTeamHandle runtime))"

section \<open>The operations\<close>

text \<open>The claimant's \<open>try/except/else/finally\<close>: run, settle the future either way, drop the entry.\<close>

definition run_claim ::
    "uuid \<Rightarrow> nat \<Rightarrow> ('w, team_handle) prog \<Rightarrow> ('w placement, team_handle) prog" where
  "run_claim i f m s = (case on_world m s of (r, t) \<Rightarrow> (r, release i (settle f r t)))"

definition place_create :: "'w team_manager \<Rightarrow> create_args \<Rightarrow> ('w placement, team_handle) prog" where
  "place_create tm a =
     (case ca_team_id a of
        None \<Rightarrow> on_world (create_in_world tm a)
      | Some i \<Rightarrow>
          bnd (claim_create tm i (ca_user_id a)) (\<lambda>c. case c of
              Parked owner f \<Rightarrow> park i (ca_user_id a) owner f
            | Claimed f \<Rightarrow> run_claim i f (create_in_world tm a)))"

definition place_resume :: "'w team_manager \<Rightarrow> uuid \<Rightarrow> ('w placement, team_handle) prog" where
  "place_resume tm i s0 =
     (let user = resume_owner tm i s0
      in bnd (claim_key i user) (\<lambda>c. case c of
             Parked owner f \<Rightarrow> park i user owner f
           | Claimed f \<Rightarrow> run_claim i f (resume_in_world tm i)) s0)"

lemmas placement_defs = place_create_def place_resume_def run_claim_def claim_key_def claim_create_def
  create_in_world_def resume_in_world_def on_world_def settle_def release_def park_def

section \<open>Calls that do not overlap\<close>

text \<open>
  Between calls the in-flight table is empty; a call leaves it so, and its outcome is the one of the
  team manager, an unplaced creation excepted.
\<close>

definition idle :: "'w placement \<Rightarrow> bool" where
  "idle s \<longleftrightarrow> pl_in_flight s = []"

lemma run_claim_result: "fst (run_claim i f m s) = fst (m (pl_world s))"
  by (simp add: run_claim_def on_world_def on_part_def split: prod.split)

lemma run_claim_world: "pl_world (snd (run_claim i f m s)) = snd (m (pl_world s))"
  by (simp add: run_claim_def on_world_def on_part_def settle_def release_def split: prod.split)

lemma run_claim_in_flight: "pl_in_flight (snd (run_claim i f m s)) = AList.delete i (pl_in_flight s)"
  by (simp add: run_claim_def on_world_def on_part_def settle_def release_def split: prod.split)

lemma place_resume_idle:
  assumes "idle s"
  shows "fst (place_resume tm i s) = fst (resume_in_world tm i (pl_world s))"
    and "pl_world (snd (place_resume tm i s)) = snd (resume_in_world tm i (pl_world s))"
    and "idle (snd (place_resume tm i s))"
  using assms
  by (simp_all add: place_resume_def claim_key_def idle_def bnd_def Let_def run_claim_result
      run_claim_world run_claim_in_flight)

lemma place_create_idle:
  assumes "idle s" "ca_team_id a = None \<or> (\<exists>i. ca_team_id a = Some i \<and> tm_get_team tm i (pl_world s) = None)"
  shows "fst (place_create tm a s) = fst (create_in_world tm a (pl_world s))"
    and "pl_world (snd (place_create tm a s)) = snd (create_in_world tm a (pl_world s))"
    and "idle (snd (place_create tm a s))"
  using assms
  by (auto simp: place_create_def claim_create_def claim_key_def idle_def bnd_def run_claim_result
      run_claim_world run_claim_in_flight on_world_def on_part_def split: prod.split)

lemma create_in_world_error: "fst (create_in_world tm a w) = Inl e \<Longrightarrow> is_placement_error e"
  by (auto simp: create_in_world_def bnd_def try_except_def placement_failed_def
      split: prod.splits sum.splits if_splits)

section \<open>A reference team manager\<close>

text \<open>
  The documented behaviour of \<open>TeamManager\<close> on a dictionary of records, to evaluate the operations
  on: a creation persists a running team, a resume wants a stopped one, a stop a running one.
\<close>

record ref_world =
  rw_teams :: "(uuid, process) dict"
  rw_next :: nat
  rw_events :: "(uuid \<times> persisted_event) list"
  rw_sent :: "(uuid \<times> string) list"

definition new_process :: "uuid \<Rightarrow> create_args \<Rightarrow> process" where
  "new_process i a = \<lparr>team_id = i, team_name = Some (tc_name (ca_card a)), user_id = ca_user_id a, user_email = ca_user_email a,
     status = RUNNING, created_at = 0, updated_at = 0, catalog_namespace = ca_namespace a,
     metadata_type = tc_metadata_type (ca_card a), metadata = ca_metadata a, metadata_indexes = [],
     agent_cards = tc_agent_cards (ca_card a), entry_point = tc_entry_point (ca_card a),
     supervisors = tc_supervisors (ca_card a), team_description = None, description_origin = AUTO\<rparr>"

definition ref_start :: "uuid \<Rightarrow> process \<Rightarrow> (ref_world, team_runtime) prog" where
  "ref_start i p w =
     (Inr \<lparr>rt_id = i, rt_object = rw_next w\<rparr>,
      w\<lparr>rw_teams := AList.update i (p\<lparr>status := RUNNING\<rparr>) (rw_teams w), rw_next := Suc (rw_next w)\<rparr>)"

definition ref_tm :: "ref_world team_manager" where
  "ref_tm = \<lparr>
     tm_get_team = (\<lambda>i w. map_of (rw_teams w) i),
     tm_create_team = (\<lambda>a w.
       (let i = (case ca_team_id a of Some i \<Rightarrow> i | None \<Rightarrow> of_nat (rw_next w))
        in ref_start i (new_process i a) w)),
     tm_resume_team = (\<lambda>i w. case map_of (rw_teams w) i of
         None \<Rightarrow> (Inl (ValueError ''team not found''), w)
       | Some p \<Rightarrow> (case status p of
             RUNNING \<Rightarrow> (Inl (ValueError ''team is currently running''), w)
           | DELETED \<Rightarrow> (Inl (ValueError ''team has been deleted''), w)
           | STOPPED \<Rightarrow> ref_start i p w)),
     tm_stop_team = (\<lambda>i w. case map_of (rw_teams w) i of
         Some p \<Rightarrow> (if status p = RUNNING
           then (Inr (), w\<lparr>rw_teams := AList.update i (p\<lparr>status := STOPPED\<rparr>) (rw_teams w)\<rparr>)
           else (Inl (ValueError ''team is not running''), w))
       | None \<Rightarrow> (Inl (ValueError ''team not found''), w)),
     tm_delete_team = (\<lambda>i w. (Inr (), w\<lparr>rw_teams := AList.delete i (rw_teams w)\<rparr>)),
     tm_update_metadata = (\<lambda>i d w. case map_of (rw_teams w) i of
         Some p \<Rightarrow> (Inr (p\<lparr>metadata := d\<rparr>),
           w\<lparr>rw_teams := AList.update i (p\<lparr>metadata := d\<rparr>) (rw_teams w)\<rparr>)
       | None \<Rightarrow> (Inl (ValueError ''team not found''), w))\<rparr>"

definition sample_args :: create_args where
  "sample_args = \<lparr>ca_card = \<lparr>tc_name = ''team'', tc_metadata_type = None, tc_agent_cards = [],
       tc_entry_point = ''@Human'', tc_supervisors = [''@Boss'']\<rparr>,
     ca_user_id = ''alice'', ca_user_email = '''', ca_team_id = Some 7, ca_namespace = None,
     ca_metadata = None\<rparr>"

definition empty_world :: ref_world where
  "empty_world = \<lparr>rw_teams = [], rw_next = 0, rw_events = [], rw_sent = []\<rparr>"

definition one_team_world :: "team_status \<Rightarrow> ref_world" where
  "one_team_world st = \<lparr>rw_teams = [(7, (new_process 7 sample_args)\<lparr>status := st\<rparr>)], rw_next = 1,
     rw_events = [], rw_sent = []\<rparr>"

lemmas ref_defs = ref_tm_def ref_start_def new_process_def sample_args_def empty_world_def
  one_team_world_def

section \<open>The creation key\<close>

text \<open>
  C3. A key naming a team that exists is never created again and never opens that team: the call
  raises the 409 \<open>team_id_conflict\<close> and nothing changes, whatever claim is in flight and whoever
  asks.
\<close>

theorem existing_team_never_recreated:
  assumes "ca_team_id a = Some i" and "tm_get_team tm i (pl_world s) \<noteq> None"
  shows "place_create tm a s =
    (Inl (PlacementError (''Team '' @ uuid_str i @ '' already exists'') 409 (Some ''team_id_conflict'')), s)"
  using assms by (auto simp: place_create_def claim_create_def bnd_def team_id_conflict_def)

theorem existing_team_never_recreated_witness:
  "place_create ref_tm sample_args (init_placement (one_team_world STOPPED)) =
    (Inl (PlacementError (''Team '' @ uuid_str 7 @ '' already exists'') 409 (Some ''team_id_conflict'')),
     init_placement (one_team_world STOPPED))"
  by (rule existing_team_never_recreated) (simp_all add: ref_defs init_placement_def)

end
