(* ===== verification/PlacementConc.thy ===== *)
theory PlacementConc
  imports Placement
begin

text \<open>
  \<open>adapters/community/local_placement.py\<close> under concurrency: any number of threads in
  \<open>create_team\<close> and \<open>resume_team\<close>, interleaved between the steps of \<open>Placement\<close>, while the rest of
  the server changes the team manager's state in any way that deletes no team.
\<close>

section \<open>State\<close>

text \<open>
  What a thread does next. \<open>Running\<close> holds the claim on a key and is about to call the team manager;
  \<open>Settling\<close> has its outcome and \<open>Releasing\<close> has settled the future. A finished thread keeps the
  future its outcome is shared through.
\<close>

datatype job = Create create_args | Resume uuid

datatype thread =
    Idle
  | Unkeyed create_args
  | Owned uuid string
  | Claiming job
  | Running job uuid nat
  | Settling uuid nat "exn + team_handle"
  | Releasing uuid nat "exn + team_handle"
  | Waiting uuid string string nat
  | Done string "nat option" "exn + team_handle"

text \<open>
  Beside the placement: the threads, the owner each future was claimed for, and the keys under
  which a creation succeeded, in order.
\<close>

record 'w crowd =
  cr_place :: "'w placement"
  cr_threads :: "nat \<Rightarrow> thread"
  cr_owner :: "nat \<Rightarrow> string"
  cr_created :: "uuid list"

definition init_crowd :: "'w \<Rightarrow> 'w crowd" where
  "init_crowd w = \<lparr>cr_place = init_placement w, cr_threads = (\<lambda>_. Idle), cr_owner = (\<lambda>_. ''''),
     cr_created = []\<rparr>"

definition goto :: "nat \<Rightarrow> thread \<Rightarrow> 'w crowd \<Rightarrow> 'w crowd" where
  "goto t x s = s\<lparr>cr_threads := (cr_threads s)(t := x)\<rparr>"

text \<open>The claim of a thread: refused, parked or claimed.\<close>

definition after_claim ::
    "nat \<Rightarrow> job \<Rightarrow> uuid \<Rightarrow> string \<Rightarrow> (exn + claim) \<times> 'w placement \<Rightarrow> 'w crowd \<Rightarrow> 'w crowd" where
  "after_claim t j i user c s =
     (case c of
        (Inl e, pl) \<Rightarrow> goto t (Done user None (Inl e)) (s\<lparr>cr_place := pl\<rparr>)
      | (Inr (Parked owner f), pl) \<Rightarrow> goto t (Waiting i user owner f) (s\<lparr>cr_place := pl\<rparr>)
      | (Inr (Claimed f), pl) \<Rightarrow>
          goto t (Running j i f) (s\<lparr>cr_place := pl, cr_owner := (cr_owner s)(f := user)\<rparr>))"

text \<open>The call of the team manager for a claimed key.\<close>

fun run_job :: "'w team_manager \<Rightarrow> job \<Rightarrow> ('w, team_handle) prog" where
  "run_job tm (Create a) = create_in_world tm a"
| "run_job tm (Resume i) = resume_in_world tm i"

fun note_created :: "job \<Rightarrow> uuid \<Rightarrow> exn + team_handle \<Rightarrow> uuid list \<Rightarrow> uuid list" where
  "note_created (Create _) i (Inr _) ks = ks @ [i]"
| "note_created _ _ _ ks = ks"

text \<open>No step deletes a team: what the team manager returns for an id stays present.\<close>

definition teams_grow :: "'w team_manager \<Rightarrow> 'w \<Rightarrow> 'w \<Rightarrow> bool" where
  "teams_grow tm w w' \<longleftrightarrow> (\<forall>i. tm_get_team tm i w \<noteq> None \<longrightarrow> tm_get_team tm i w' \<noteq> None)"

inductive crowd_step :: "'w team_manager \<Rightarrow> 'w crowd \<Rightarrow> 'w crowd \<Rightarrow> bool"
  for tm :: "'w team_manager" where
  call_create: "cr_threads s t = Idle \<Longrightarrow> crowd_step tm s
     (goto t (if ca_team_id a = None then Unkeyed a else Claiming (Create a)) s)"
| call_resume: "cr_threads s t = Idle \<Longrightarrow>
     crowd_step tm s (goto t (Owned i (resume_owner tm i (cr_place s))) s)"
| unkeyed: "cr_threads s t = Unkeyed a \<Longrightarrow>
     on_world (create_in_world tm a) (cr_place s) = (r, pl) \<Longrightarrow>
     crowd_step tm s (goto t (Done (ca_user_id a) None r) (s\<lparr>cr_place := pl\<rparr>))"
| claim_create: "cr_threads s t = Claiming (Create a) \<Longrightarrow> ca_team_id a = Some i \<Longrightarrow>
     crowd_step tm s
       (after_claim t (Create a) i (ca_user_id a) (claim_create tm i (ca_user_id a) (cr_place s)) s)"
| claim_resume: "cr_threads s t = Owned i user \<Longrightarrow>
     crowd_step tm s (after_claim t (Resume i) i user (claim_key i user (cr_place s)) s)"
| run: "cr_threads s t = Running j i f \<Longrightarrow> on_world (run_job tm j) (cr_place s) = (r, pl) \<Longrightarrow>
     crowd_step tm s (goto t (Settling i f r)
       (s\<lparr>cr_place := pl, cr_created := note_created j i r (cr_created s)\<rparr>))"
| settle: "cr_threads s t = Settling i f r \<Longrightarrow>
     crowd_step tm s (goto t (Releasing i f r) (s\<lparr>cr_place := settle f r (cr_place s)\<rparr>))"
| release: "cr_threads s t = Releasing i f r \<Longrightarrow>
     crowd_step tm s (goto t (Done (cr_owner s f) (Some f) r) (s\<lparr>cr_place := release i (cr_place s)\<rparr>))"
| refused: "cr_threads s t = Waiting i user owner f \<Longrightarrow> owner \<noteq> user \<Longrightarrow>
     crowd_step tm s (goto t (Done user None (fst (park i user owner f (cr_place s)))) s)"
| woken: "cr_threads s t = Waiting i user owner f \<Longrightarrow> owner = user \<Longrightarrow>
     pl_futures (cr_place s) f \<noteq> Pending \<Longrightarrow>
     crowd_step tm s (goto t (Done user (Some f) (fst (park i user owner f (cr_place s)))) s)"
| timed_out: "cr_threads s t = Waiting i user owner f \<Longrightarrow> owner = user \<Longrightarrow>
     pl_futures (cr_place s) f = Pending \<Longrightarrow>
     crowd_step tm s (goto t (Done user None (fst (park i user owner f (cr_place s)))) s)"
| environment: "teams_grow tm (pl_world (cr_place s)) w \<Longrightarrow>
     crowd_step tm s (s\<lparr>cr_place := (cr_place s)\<lparr>pl_world := w\<rparr>\<rparr>)"

inductive crowd_reachable :: "'w team_manager \<Rightarrow> 'w crowd \<Rightarrow> bool" for tm :: "'w team_manager" where
  start: "crowd_reachable tm (init_crowd w)"
| step: "crowd_reachable tm s \<Longrightarrow> crowd_step tm s u \<Longrightarrow> crowd_reachable tm u"

section \<open>Invariants\<close>

text \<open>The key and the future a thread holds the claim of.\<close>

fun holds :: "thread \<Rightarrow> (uuid \<times> nat) option" where
  "holds (Running _ i f) = Some (i, f)"
| "holds (Settling i f _) = Some (i, f)"
| "holds (Releasing i f _) = Some (i, f)"
| "holds _ = None"

text \<open>
  Every entry of the table is an allocated future under its owner, no two keys share one, and the
  claim a thread holds is in the table. No key is held by two threads.
\<close>

definition table_ok :: "'w crowd \<Rightarrow> bool" where
  "table_ok s \<longleftrightarrow>
     (\<forall>i o' f. map_of (pl_in_flight (cr_place s)) i = Some (o', f) \<longrightarrow>
        f < pl_next (cr_place s) \<and> cr_owner s f = o') \<and>
     (\<forall>i j o' p f. map_of (pl_in_flight (cr_place s)) i = Some (o', f) \<longrightarrow>
        map_of (pl_in_flight (cr_place s)) j = Some (p, f) \<longrightarrow> i = j) \<and>
     (\<forall>t i f. holds (cr_threads s t) = Some (i, f) \<longrightarrow>
        map_of (pl_in_flight (cr_place s)) i = Some (cr_owner s f, f))"

definition holders_ok :: "'w crowd \<Rightarrow> bool" where
  "holders_ok s \<longleftrightarrow>
     (\<forall>t u i f g. holds (cr_threads s t) = Some (i, f) \<longrightarrow> holds (cr_threads s u) = Some (i, g) \<longrightarrow> t = u)"

text \<open>What a thread knows of a future: it is allocated, and its outcome once shared.\<close>

fun future_ok :: "'w crowd \<Rightarrow> thread \<Rightarrow> bool" where
  "future_ok s (Releasing i f r) = (f < pl_next (cr_place s) \<and> pl_futures (cr_place s) f = Settled r)"
| "future_ok s (Settling i f r) =
     (f < pl_next (cr_place s) \<and> pl_futures (cr_place s) f = Pending)"
| "future_ok s (Running j i f) =
     (f < pl_next (cr_place s) \<and> pl_futures (cr_place s) f = Pending)"
| "future_ok s (Waiting i user owner f) = (f < pl_next (cr_place s) \<and> cr_owner s f = owner)"
| "future_ok s (Done user (Some f) r) =
     (f < pl_next (cr_place s) \<and> pl_futures (cr_place s) f = Settled r \<and> cr_owner s f = user)"
| "future_ok s _ = True"

definition crowd_inv :: "'w crowd \<Rightarrow> bool" where
  "crowd_inv s \<longleftrightarrow> table_ok s \<and> holders_ok s \<and> (\<forall>t. future_ok s (cr_threads s t))"

lemma crowd_inv_init: "crowd_inv (init_crowd w)"
  by (simp add: crowd_inv_def table_ok_def holders_ok_def init_crowd_def init_placement_def)

lemma on_world_keeps:
  assumes "on_world m pl = (r, pl')"
  shows "pl_in_flight pl' = pl_in_flight pl" "pl_futures pl' = pl_futures pl" "pl_next pl' = pl_next pl"
    and "pl_world pl' = snd (m (pl_world pl))" "r = fst (m (pl_world pl))"
  using assms by (auto simp: on_world_def on_part_def split: prod.splits)

text \<open>A step that moves one thread to a state in which it holds nothing new.\<close>

lemma future_ok_cong:
  "pl_futures (cr_place s') = pl_futures (cr_place s) \<Longrightarrow> pl_next (cr_place s') = pl_next (cr_place s) \<Longrightarrow>
   cr_owner s' = cr_owner s \<Longrightarrow> future_ok s' x = future_ok s x"
  by (cases "(s', x)" rule: future_ok.cases) simp_all

lemma inv_goto:
  assumes inv: "crowd_inv s"
    and same: "pl_in_flight (cr_place s') = pl_in_flight (cr_place s)"
      "pl_futures (cr_place s') = pl_futures (cr_place s)" "pl_next (cr_place s') = pl_next (cr_place s)"
      "cr_owner s' = cr_owner s" "cr_threads s' = (cr_threads s)(t := x)"
    and x: "holds x = None \<or> holds x = holds (cr_threads s t)" "future_ok s x"
  shows "crowd_inv s'"
proof -
  have h: "holds (cr_threads s' u) = None \<or> holds (cr_threads s' u) = holds (cr_threads s u)" for u
    using x(1) same(5) by auto
  have "table_ok s'"
    using inv h same unfolding crowd_inv_def table_ok_def by (metis option.distinct(1))
  moreover have "holders_ok s'"
    using inv h unfolding crowd_inv_def holders_ok_def by (metis option.distinct(1))
  moreover have "future_ok s' (cr_threads s' u)" for u
    using inv x(2) same future_ok_cong [OF same(2-4)] by (auto simp: crowd_inv_def)
  ultimately show ?thesis by (simp add: crowd_inv_def)
qed


text \<open>The locked section of a thread that holds nothing: it parks, or it claims a fresh future.\<close>

lemma claim_key_cases:
  obtains o' f where "map_of (pl_in_flight pl) i = Some (o', f)" "claim_key i user pl = (Inr (Parked o' f), pl)"
  | "map_of (pl_in_flight pl) i = None" "claim_key i user pl = (Inr (Claimed (pl_next pl)),
       pl\<lparr>pl_in_flight := AList.update i (user, pl_next pl) (pl_in_flight pl),
         pl_futures := (pl_futures pl)(pl_next pl := Pending), pl_next := Suc (pl_next pl)\<rparr>)"
  by (cases "map_of (pl_in_flight pl) i") (auto simp: claim_key_def)

lemma inv_new_claim:
  assumes inv: "crowd_inv s" and free: "map_of (pl_in_flight (cr_place s)) i = None"
    and idle: "holds (cr_threads s t) = None"
    and s': "s' = goto t (Running j i n) (s\<lparr>cr_place := (cr_place s)
        \<lparr>pl_in_flight := AList.update i (user, n) (pl_in_flight (cr_place s)),
         pl_futures := (pl_futures (cr_place s))(n := Pending), pl_next := Suc n\<rparr>,
        cr_owner := (cr_owner s)(n := user)\<rparr>)"
    and n: "n = pl_next (cr_place s)"
  shows "crowd_inv s'"
proof -
  have tab: "map_of (pl_in_flight (cr_place s)) k = Some (o', f) \<Longrightarrow> f < n \<and> cr_owner s f = o'"
    and held: "holds (cr_threads s u) = Some (k, f) \<Longrightarrow> map_of (pl_in_flight (cr_place s)) k = Some (cr_owner s f, f)"
    and inj: "map_of (pl_in_flight (cr_place s)) k = Some (o', f) \<Longrightarrow>
        map_of (pl_in_flight (cr_place s)) l = Some (p, f) \<Longrightarrow> k = l" for u k l f o' p
    using inv unfolding crowd_inv_def table_ok_def n by blast+
  have fut: "future_ok s (cr_threads s u)" for u
    using inv by (simp add: crowd_inv_def)
  have thr: "cr_threads s' u = (if u = t then Running j i n else cr_threads s u)" for u
    by (simp add: s' goto_def)
  have pl: "map_of (pl_in_flight (cr_place s')) k =
      (if k = i then Some (user, n) else map_of (pl_in_flight (cr_place s)) k)"
    "pl_next (cr_place s') = Suc n" "pl_futures (cr_place s') = (pl_futures (cr_place s))(n := Pending)"
    "cr_owner s' = (cr_owner s)(n := user)" for k
    by (simp_all add: s' goto_def)
  have "table_ok s'"
    unfolding table_ok_def pl(2,4)
  proof (intro conjI allI impI)
    show "f < Suc n" if "map_of (pl_in_flight (cr_place s')) k = Some (o', f)" for k o' f
      using that tab [of k o' f] by (auto simp: pl split: if_splits)
    show "((cr_owner s)(n := user)) f = o'" if "map_of (pl_in_flight (cr_place s')) k = Some (o', f)" for k o' f
      using that tab [of k o' f] by (auto simp: pl split: if_splits)
    show "k = l" if "map_of (pl_in_flight (cr_place s')) k = Some (o', f)"
      "map_of (pl_in_flight (cr_place s')) l = Some (p, f)" for k l o' p f
      using that tab [of k o' f] tab [of l p f] inj [of k o' f l p] by (auto simp: pl split: if_splits)
    show "map_of (pl_in_flight (cr_place s')) k = Some (((cr_owner s)(n := user)) f, f)"
      if "holds (cr_threads s' u) = Some (k, f)" for u k f
      using that held [of u k f] tab [of k "cr_owner s f" f] free by (auto simp: pl thr split: if_splits)
  qed
  moreover have "holders_ok s'"
    using inv held free unfolding crowd_inv_def holders_ok_def
    by (auto simp: thr split: if_splits)
  moreover have "future_ok s' (cr_threads s' u)" for u
  proof (cases "u = t")
    case False
    with fut [of u] show ?thesis
      by (cases "(s, cr_threads s u)" rule: future_ok.cases) (auto simp: thr pl n)
  qed (simp add: thr pl)
  ultimately show ?thesis by (simp add: crowd_inv_def)
qed

lemma inv_after_claim:
  assumes "crowd_inv s" "holds (cr_threads s t) = None"
  shows "crowd_inv (after_claim t j i user (claim_key i user (cr_place s)) s)"
proof (cases rule: claim_key_cases [of "cr_place s" i user])
  case (1 o' f)
  then have "f < pl_next (cr_place s) \<and> cr_owner s f = o'"
    using assms(1) unfolding crowd_inv_def table_ok_def by blast
  then show ?thesis
    using 1 by (intro inv_goto [OF assms(1), of _ t]) (auto simp: after_claim_def goto_def)
next
  case 2
  then show ?thesis
    using inv_new_claim [OF assms(1) 2(1) assms(2)] by (simp add: after_claim_def)
qed

lemma inv_settle:
  assumes inv: "crowd_inv s" and t: "cr_threads s t = Settling i f r"
  shows "crowd_inv (goto t (Releasing i f r) (s\<lparr>cr_place := settle f r (cr_place s)\<rparr>))" (is "crowd_inv ?s")
proof -
  have thr: "cr_threads ?s u = (if u = t then Releasing i f r else cr_threads s u)" for u
    by (simp add: goto_def)
  have h: "holds (cr_threads ?s u) = holds (cr_threads s u)" for u
    using t by (simp add: thr)
  have same: "pl_in_flight (cr_place ?s) = pl_in_flight (cr_place s)" "cr_owner ?s = cr_owner s"
    "pl_next (cr_place ?s) = pl_next (cr_place s)"
    "pl_futures (cr_place ?s) = (pl_futures (cr_place s))(f := Settled r)"
    by (simp_all add: goto_def settle_def)
  have "table_ok ?s" "holders_ok ?s"
    using inv unfolding crowd_inv_def table_ok_def holders_ok_def h same by blast+
  moreover have "future_ok ?s (cr_threads ?s u)" for u
  proof (cases "u = t")
    case True
    then show ?thesis using inv t by (auto simp: crowd_inv_def thr same dest: spec [of _ t])
  next
    case False
    have "holds (cr_threads s u) = Some (k, f) \<Longrightarrow> u = t" for k
      using inv t unfolding crowd_inv_def table_ok_def holders_ok_def by (metis holds.simps(2) option.inject prod.inject)
    moreover have "future_ok s (cr_threads s u)" "future_ok s (cr_threads s t)"
      using inv by (auto simp: crowd_inv_def)
    ultimately show ?thesis
      using False t by (cases "(s, cr_threads s u)" rule: future_ok.cases) (auto simp: thr same)
  qed
  ultimately show ?thesis by (simp add: crowd_inv_def)
qed

lemma inv_release:
  assumes inv: "crowd_inv s" and t: "cr_threads s t = Releasing i f r"
  shows "crowd_inv (goto t (Done (cr_owner s f) (Some f) r) (s\<lparr>cr_place := release i (cr_place s)\<rparr>))"
    (is "crowd_inv ?s")
proof -
  have thr: "cr_threads ?s u = (if u = t then Done (cr_owner s f) (Some f) r else cr_threads s u)" for u
    by (simp add: goto_def)
  have same: "map_of (pl_in_flight (cr_place ?s)) = (map_of (pl_in_flight (cr_place s)))(i := None)"
    "cr_owner ?s = cr_owner s" "pl_next (cr_place ?s) = pl_next (cr_place s)"
    "pl_futures (cr_place ?s) = pl_futures (cr_place s)"
    by (simp_all add: goto_def release_def)
  have only: "holds (cr_threads s u) = Some (i, g) \<Longrightarrow> u = t" for u g
    using inv t unfolding crowd_inv_def holders_ok_def by (metis holds.simps(3))
  have "holds (cr_threads ?s u) = Some (k, g) \<Longrightarrow> k \<noteq> i \<and> holds (cr_threads s u) = Some (k, g)" for u k g
    using only [of u g] by (auto simp: thr split: if_splits)
  then have "table_ok ?s" "holders_ok ?s"
    using inv unfolding crowd_inv_def table_ok_def holders_ok_def same
    by (smt (verit) fun_upd_apply option.distinct(1), metis)
  moreover have "future_ok ?s (cr_threads ?s u)" for u
    using inv t future_ok_cong [OF same(4,3,2)] unfolding crowd_inv_def
    by (cases "u = t") (auto simp: thr same dest: spec [of _ t])
  ultimately show ?thesis by (simp add: crowd_inv_def)
qed

lemma holds_keepsD: "cr_threads s t = x \<Longrightarrow> holds x = None \<Longrightarrow> holds (cr_threads s t) = None"
  by simp

lemma crowd_inv_step: "crowd_step tm s u \<Longrightarrow> crowd_inv s \<Longrightarrow> crowd_inv u"
proof (induction rule: crowd_step.induct)
  case (call_create s t a)
  then show ?case by (intro inv_goto [OF call_create.prems]) (auto simp: goto_def)
next
  case (call_resume s t i)
  then show ?case by (intro inv_goto [OF call_resume.prems]) (auto simp: goto_def)
next
  case (unkeyed s t a r pl)
  then show ?case
    by (intro inv_goto [OF unkeyed.prems, of _ t]) (auto simp: goto_def on_world_keeps)
next
  case (claim_create s t a i)
  then show ?case
  proof (cases "tm_get_team tm i (pl_world (cr_place s))")
    case None
    then show ?thesis
      using claim_create inv_after_claim [of s t] by (simp add: claim_create_def)
  next
    case (Some p)
    then show ?thesis
      using claim_create
      by (intro inv_goto [OF claim_create.prems, of _ t]) (auto simp: claim_create_def after_claim_def goto_def)
  qed
next
  case (claim_resume s t i user)
  then show ?case using inv_after_claim [of s t] by simp
next
  case (run s t j i f r pl)
  have "future_ok s (Running j i f)"
    using run.hyps(1) run.prems unfolding crowd_inv_def by metis
  then show ?case
    using run.hyps by (intro inv_goto [OF run.prems, of _ t]) (auto simp: goto_def on_world_keeps)
next
  case (settle s t i f r)
  then show ?case by (intro inv_settle)
next
  case (release s t i f r)
  then show ?case by (intro inv_release)
next
  case (refused s t i user owner f)
  then show ?case by (intro inv_goto [OF refused.prems, of _ t]) (auto simp: goto_def)
next
  case (woken s t i user owner f)
  have "future_ok s (Waiting i user owner f)"
    using woken.hyps(1) woken.prems unfolding crowd_inv_def by metis
  then show ?case
    using woken.hyps by (intro inv_goto [OF woken.prems, of _ t])
      (auto simp: goto_def park_def split: future.splits)
next
  case (timed_out s t i user owner f)
  then show ?case by (intro inv_goto [OF timed_out.prems, of _ t]) (auto simp: goto_def)
next
  case (environment s w)
  then show ?case
    by (intro inv_goto [OF environment.prems, where x = "cr_threads s 0" and t = 0]) (auto simp: crowd_inv_def)
qed

lemma crowd_reachable_inv: "crowd_reachable tm s \<Longrightarrow> crowd_inv s"
  by (induction rule: crowd_reachable.induct) (auto intro: crowd_inv_init crowd_inv_step)


subsection \<open>Creations\<close>

text \<open>
  What the placement relies on the team manager for: a creation under a key makes the key name a
  team, and neither a creation nor a resume makes a team disappear.
\<close>

definition tm_persists :: "'w team_manager \<Rightarrow> bool" where
  "tm_persists tm \<longleftrightarrow>
     (\<forall>a i w r w'. tm_create_team tm a w = (Inr r, w') \<longrightarrow> ca_team_id a = Some i \<longrightarrow>
        tm_get_team tm i w' \<noteq> None) \<and>
     (\<forall>a w. teams_grow tm w (snd (tm_create_team tm a w))) \<and>
     (\<forall>i w. teams_grow tm w (snd (tm_resume_team tm i w)))"

lemma create_in_world_snd [simp]: "snd (create_in_world tm a w) = snd (tm_create_team tm a w)"
  by (simp add: create_in_world_def bnd_def try_except_def split: prod.split sum.split)

lemma resume_in_world_snd [simp]: "snd (resume_in_world tm i w) = snd (tm_resume_team tm i w)"
  by (simp add: resume_in_world_def bnd_def split: prod.split sum.split)

lemma run_job_grows: "tm_persists tm \<Longrightarrow> teams_grow tm w (snd (run_job tm j w))"
  by (cases j) (auto simp: tm_persists_def)

lemma create_in_world_persists:
  assumes "tm_persists tm" "fst (create_in_world tm a w) = Inr h" "ca_team_id a = Some i"
  shows "tm_get_team tm i (snd (tm_create_team tm a w)) \<noteq> None"
proof -
  obtain r w' where "tm_create_team tm a w = (Inr r, w')"
    using assms(2) by (auto simp: create_in_world_def bnd_def try_except_def split: prod.splits sum.splits)
  then show ?thesis using assms(1,3) unfolding tm_persists_def by fastforce
qed

text \<open>A created key names a team; a thread about to create holds a key not created before.\<close>

definition created_ok :: "'w team_manager \<Rightarrow> 'w crowd \<Rightarrow> bool" where
  "created_ok tm s \<longleftrightarrow>
     distinct (cr_created s) \<and>
     (\<forall>k \<in> set (cr_created s). tm_get_team tm k (pl_world (cr_place s)) \<noteq> None) \<and>
     (\<forall>t a i f. cr_threads s t = Running (Create a) i f \<longrightarrow>
        ca_team_id a = Some i \<and> i \<notin> set (cr_created s))"

lemma created_ok_goto:
  assumes "created_ok tm s" "cr_created s' = cr_created s" "cr_threads s' = (cr_threads s)(t := x)"
    and "teams_grow tm (pl_world (cr_place s)) (pl_world (cr_place s'))"
    and "\<And>a i f. x = Running (Create a) i f \<Longrightarrow> ca_team_id a = Some i \<and> i \<notin> set (cr_created s)"
  shows "created_ok tm s'"
  using assms unfolding created_ok_def teams_grow_def by auto

lemma created_ok_quiet:
  assumes "created_ok tm s" "\<And>a i f. x \<noteq> Running (Create a) i f"
  shows "created_ok tm (goto t x s)"
    and "pl_world pl = pl_world (cr_place s) \<Longrightarrow> created_ok tm (goto t x (s\<lparr>cr_place := pl\<rparr>))"
  using assms by (auto simp: created_ok_def goto_def)

lemma teams_grow_refl [simp]: "teams_grow tm w w"
  by (simp add: teams_grow_def)

lemma claim_key_world: "claim_key i user pl = (r, pl') \<Longrightarrow> pl_world pl' = pl_world pl"
  by (auto simp: claim_key_def split: option.splits)

lemma created_ok_claim:
  assumes "created_ok tm s" "claim = claim_key i user (cr_place s)"
    and "\<And>a. j = Create a \<Longrightarrow> ca_team_id a = Some i \<and> i \<notin> set (cr_created s)"
  shows "created_ok tm (after_claim t j i user claim s)"
proof (cases rule: claim_key_cases [of "cr_place s" i user])
  case (1 o' f)
  then show ?thesis
    using assms by (intro created_ok_goto [OF assms(1), of _ t]) (auto simp: after_claim_def goto_def)
next
  case 2
  then show ?thesis
    using assms by (intro created_ok_goto [OF assms(1), of _ t]) (auto simp: after_claim_def goto_def)
qed

lemma created_ok_run:
  assumes ok: "created_ok tm s" and inv: "crowd_inv s" and tm: "tm_persists tm"
    and t: "cr_threads s t = Running j i f" and run: "on_world (run_job tm j) (cr_place s) = (r, pl)"
  shows "created_ok tm (goto t (Settling i f r)
       (s\<lparr>cr_place := pl, cr_created := note_created j i r (cr_created s)\<rparr>))" (is "created_ok tm ?s")
proof -
  let ?w = "pl_world (cr_place s)"
  have w: "pl_world pl = snd (run_job tm j ?w)" and r: "r = fst (run_job tm j ?w)"
    using on_world_keeps [OF run] by simp_all
  have grow: "teams_grow tm ?w (pl_world pl)"
    using run_job_grows [OF tm] by (simp add: w)
  have only: "cr_threads s u = Running j' i g \<Longrightarrow> u = t" for u j' g
    using inv t unfolding crowd_inv_def holders_ok_def by (metis holds.simps(1))
  show ?thesis
  proof (cases "\<exists>a h. j = Create a \<and> r = Inr h")
    case True
    then obtain a h where j: "j = Create a" and h: "r = Inr h" by blast
    have a: "ca_team_id a = Some i" "i \<notin> set (cr_created s)"
      using ok t unfolding created_ok_def j by blast+
    then have "tm_get_team tm i (pl_world pl) \<noteq> None"
      using create_in_world_persists [OF tm _ a(1), of ?w h] r w unfolding j h by simp
    then show ?thesis
      using ok a grow only unfolding created_ok_def teams_grow_def j h by (auto simp: goto_def)
  next
    case False
    then have "note_created j i r (cr_created s) = cr_created s"
      by (cases "(j, i, r, cr_created s)" rule: note_created.cases) auto
    then show ?thesis
      using grow by (intro created_ok_goto [OF ok, of _ t]) (auto simp: goto_def)
  qed
qed

lemma created_ok_step:
  "crowd_step tm s u \<Longrightarrow> created_ok tm s \<Longrightarrow> crowd_inv s \<Longrightarrow> tm_persists tm \<Longrightarrow> created_ok tm u"
proof (induction rule: crowd_step.induct)
  case (claim_create s t a i)
  show ?case
  proof (cases "tm_get_team tm i (pl_world (cr_place s))")
    case None
    then have "i \<notin> set (cr_created s)" using claim_create.prems(1) by (auto simp: created_ok_def)
    then show ?thesis
      using None claim_create by (intro created_ok_claim) (auto simp: claim_create_def)
  next
    case (Some p)
    then show ?thesis
      using claim_create.prems(1)
      by (intro created_ok_goto [OF claim_create.prems(1), of _ t])
        (auto simp: claim_create_def after_claim_def goto_def)
  qed
next
  case (run s t j i f r pl)
  then show ?case by (intro created_ok_run)
next
  case (unkeyed s t a r pl)
  have "teams_grow tm (pl_world (cr_place s)) (pl_world pl)"
    using unkeyed.prems(3) on_world_keeps(4) [OF unkeyed.hyps(2)] by (simp add: tm_persists_def)
  then show ?case
    by (intro created_ok_goto [OF unkeyed.prems(1), of _ t]) (auto simp: goto_def)
next
  case (claim_resume s t i user)
  then show ?case by (intro created_ok_claim) auto
next
  case (environment s w)
  then show ?case
    by (auto simp: created_ok_def teams_grow_def)
next
  case (settle s t i f r)
  show ?case by (rule created_ok_quiet(2) [OF settle.prems(1)]) (simp_all add: settle_def)
next
  case (release s t i f r)
  show ?case by (rule created_ok_quiet(2) [OF release.prems(1)]) (simp_all add: release_def)
qed (auto intro!: created_ok_quiet)

lemma crowd_reachable_created: "crowd_reachable tm s \<Longrightarrow> tm_persists tm \<Longrightarrow> created_ok tm s"
proof (induction rule: crowd_reachable.induct)
  case (start w)
  then show ?case by (simp add: created_ok_def init_crowd_def)
next
  case (step s u)
  then show ?case using created_ok_step [OF step.hyps(2)] crowd_reachable_inv [OF step.hyps(1)] by blast
qed


section \<open>Executable schedules\<close>

text \<open>A thread runs one step; what it does is determined by where it stands.\<close>

fun thread_exec :: "'w team_manager \<Rightarrow> nat \<Rightarrow> 'w crowd \<Rightarrow> 'w crowd" where
  "thread_exec tm t s =
     (case cr_threads s t of
        Unkeyed a \<Rightarrow> (case on_world (create_in_world tm a) (cr_place s) of
          (r, pl) \<Rightarrow> goto t (Done (ca_user_id a) None r) (s\<lparr>cr_place := pl\<rparr>))
      | Owned i user \<Rightarrow> after_claim t (Resume i) i user (claim_key i user (cr_place s)) s
      | Claiming (Create a) \<Rightarrow> (case ca_team_id a of
          Some i \<Rightarrow> after_claim t (Create a) i (ca_user_id a) (claim_create tm i (ca_user_id a) (cr_place s)) s
        | None \<Rightarrow> s)
      | Running j i f \<Rightarrow> (case on_world (run_job tm j) (cr_place s) of
          (r, pl) \<Rightarrow> goto t (Settling i f r)
            (s\<lparr>cr_place := pl, cr_created := note_created j i r (cr_created s)\<rparr>))
      | Settling i f r \<Rightarrow> goto t (Releasing i f r) (s\<lparr>cr_place := settle f r (cr_place s)\<rparr>)
      | Releasing i f r \<Rightarrow>
          goto t (Done (cr_owner s f) (Some f) r) (s\<lparr>cr_place := release i (cr_place s)\<rparr>)
      | Waiting i user owner f \<Rightarrow>
          goto t (Done user (if owner = user \<and> pl_futures (cr_place s) f \<noteq> Pending then Some f else None)
            (fst (park i user owner f (cr_place s)))) s
      | _ \<Rightarrow> s)"

fun start_job :: "'w team_manager \<Rightarrow> nat \<Rightarrow> job \<Rightarrow> 'w crowd \<Rightarrow> 'w crowd" where
  "start_job tm t (Create a) s = goto t (if ca_team_id a = None then Unkeyed a else Claiming (Create a)) s"
| "start_job tm t (Resume i) s = goto t (Owned i (resume_owner tm i (cr_place s))) s"

datatype move = Start nat job | Go nat

fun run_moves :: "'w team_manager \<Rightarrow> move list \<Rightarrow> 'w crowd \<Rightarrow> 'w crowd option" where
  "run_moves tm [] s = Some s"
| "run_moves tm (Start t j # ms) s =
     (if cr_threads s t = Idle then run_moves tm ms (start_job tm t j s) else None)"
| "run_moves tm (Go t # ms) s = run_moves tm ms (thread_exec tm t s)"

lemma thread_exec_step: "thread_exec tm t s = s \<or> crowd_step tm s (thread_exec tm t s)"
proof (cases "cr_threads s t")
  case (Claiming j)
  then show ?thesis
    by (cases j) (auto simp: Claiming split: option.split intro: crowd_step.claim_create)
next
  case (Waiting i user owner f)
  note steps = crowd_step.refused [OF Waiting] crowd_step.woken [OF Waiting] crowd_step.timed_out [OF Waiting]
  show ?thesis
  proof (cases "owner = user")
    case True
    then show ?thesis
      using steps(2,3) by (cases "pl_futures (cr_place s) f = Pending") (simp_all add: Waiting)
  qed (use steps(1) in \<open>simp add: Waiting\<close>)
qed (auto split: prod.split intro: crowd_step.intros)

lemma run_moves_reachable: "run_moves tm ms s = Some u \<Longrightarrow> crowd_reachable tm s \<Longrightarrow> crowd_reachable tm u"
proof (induction tm ms s rule: run_moves.induct)
  case (2 tm t j ms s)
  have "crowd_step tm s (start_job tm t j s)" if "cr_threads s t = Idle"
    using that crowd_step.call_create [OF that] crowd_step.call_resume [OF that] by (cases j) auto
  with 2 show ?case by (auto split: if_splits intro: crowd_reachable.step)
next
  case (3 tm t ms s)
  then show ?case using thread_exec_step [of tm t s] by (metis crowd_reachable.step run_moves.simps(3))
qed simp

lemma run_moves_the:
  assumes "run_moves tm ms (init_crowd w) \<noteq> None"
  shows "crowd_reachable tm (the (run_moves tm ms (init_crowd w)))"
  using assms run_moves_reachable [OF _ crowd_reachable.start] by force

section \<open>Properties\<close>

text \<open>
  However creations and resumes interleave, the calls that share one claim end alike: a parked
  duplicate gets the very handle, or the very exception, of the thread it waited for, and both were
  made for the same user.
\<close>

theorem parked_duplicates_share_outcome:
  assumes "crowd_reachable tm s"
    and "cr_threads s t = Done a (Some f) r" and "cr_threads s u = Done b (Some f) q"
  shows "r = q \<and> a = b"
proof -
  have "future_ok s (Done a (Some f) r)" "future_ok s (Done b (Some f) q)"
    using crowd_reachable_inv [OF assms(1)] assms(2,3) unfolding crowd_inv_def by metis+
  then show ?thesis by simp
qed

text \<open>Two creations of one key by one user, the second while the first runs.\<close>

definition duplicate_moves :: "move list" where
  "duplicate_moves = [Start 0 (Create sample_args), Start 1 (Create sample_args), Go 0, Go 1,
     Go 0, Go 0, Go 0, Go 1]"

definition duplicate_end :: "ref_world crowd" where
  "duplicate_end = the (run_moves ref_tm duplicate_moves (init_crowd empty_world))"

lemmas crowd_eval = goto_def after_claim_def init_crowd_def init_placement_def
  placement_defs on_part_def bnd_def try_except_def ref_defs

lemma duplicate_end_reachable: "crowd_reachable ref_tm duplicate_end"
  unfolding duplicate_end_def
  by (rule run_moves_the) (simp add: duplicate_moves_def crowd_eval)

lemma duplicate_end_threads:
  "cr_threads duplicate_end 0 = Done ''alice'' (Some 0) (Inr (LocalTeamHandle \<lparr>rt_id = 7, rt_object = 0\<rparr>))"
  "\<exists>q. cr_threads duplicate_end 1 = Done ''alice'' (Some 0) q"
  by (simp_all add: duplicate_end_def duplicate_moves_def crowd_eval)

theorem parked_duplicates_share_outcome_witness:
  "cr_threads duplicate_end 1 = Done ''alice'' (Some 0) (Inr (LocalTeamHandle \<lparr>rt_id = 7, rt_object = 0\<rparr>))"
proof -
  obtain q where q: "cr_threads duplicate_end 1 = Done ''alice'' (Some 0) q"
    using duplicate_end_threads(2) by blast
  show ?thesis
    using parked_duplicates_share_outcome [OF duplicate_end_reachable duplicate_end_threads(1) q] q by simp
qed

text \<open>
  At most one thread at a time is creating or resuming a team under one key, so concurrent resumes
  of a stopped team start one runtime.
\<close>

theorem one_claimant_per_key:
  assumes "crowd_reachable tm s"
    and "cr_threads s t = Running j i f" and "cr_threads s u = Running k i g"
  shows "t = u"
  using crowd_reachable_inv [OF assms(1)] assms(2,3)
  unfolding crowd_inv_def holders_ok_def by (metis holds.simps(1))

definition claimed_moves :: "move list" where
  "claimed_moves = [Start 0 (Create sample_args), Start 1 (Create sample_args), Go 0, Go 1]"

definition claimed_state :: "ref_world crowd" where
  "claimed_state = the (run_moves ref_tm claimed_moves (init_crowd empty_world))"

theorem one_claimant_per_key_witness:
  "{u. \<exists>k g. cr_threads claimed_state u = Running k 7 g} = {0}"
proof -
  have r: "crowd_reachable ref_tm claimed_state"
    unfolding claimed_state_def by (rule run_moves_the) (simp add: claimed_moves_def crowd_eval)
  have "cr_threads claimed_state 0 = Running (Create sample_args) 7 0"
    by (simp add: claimed_state_def claimed_moves_def crowd_eval)
  then show ?thesis using one_claimant_per_key [OF r] by blast
qed

text \<open>
  A creation key creates at most one team: with a team manager that persists what it creates, no
  interleaving of creations and resumes succeeds twice under one key.
\<close>

theorem creation_key_creates_once:
  assumes "crowd_reachable tm s" and "tm_persists tm"
  shows "distinct (cr_created s)"
  using crowd_reachable_created [OF assms] by (simp add: created_ok_def)

lemma ref_tm_persists: "tm_persists ref_tm"
  unfolding tm_persists_def teams_grow_def
  by (auto simp: ref_tm_def ref_start_def Let_def split: option.splits team_status.splits)

theorem creation_key_creates_once_witness:
  "distinct (cr_created duplicate_end) \<and> cr_created duplicate_end = [7]"
  using creation_key_creates_once [OF duplicate_end_reachable ref_tm_persists]
  by (simp add: duplicate_end_def duplicate_moves_def crowd_eval)

end
