(* ===== verification/PyText.thy ===== *)
theory PyText
  imports Prelude
begin

text \<open>
  Python's \<open>str\<close> methods the code calls, over Latin-1 code points: white space, \<open>strip\<close>,
  \<open>splitlines\<close>, \<open>startswith\<close>, \<open>in\<close>, ASCII digits, \<open>str\<close> and \<open>repr\<close>.
\<close>

section \<open>strip\<close>

text \<open>\<open>str.isspace\<close> on one code point.\<close>

definition is_space :: "char \<Rightarrow> bool" where
  "is_space c \<longleftrightarrow> c \<in> set [CHR 0x09, CHR 0x0A, CHR 0x0B, CHR 0x0C, CHR 0x0D, CHR 0x1C, CHR 0x1D,
     CHR 0x1E, CHR 0x1F, CHR 0x20, CHR 0x85, CHR 0xA0]"

definition trim :: "(char \<Rightarrow> bool) \<Rightarrow> string \<Rightarrow> string" where
  "trim P s = rev (dropWhile P (rev (dropWhile P s)))"

definition rtrim :: "(char \<Rightarrow> bool) \<Rightarrow> string \<Rightarrow> string" where
  "rtrim P s = rev (dropWhile P (rev s))"

abbreviation strip :: "string \<Rightarrow> string" where
  "strip \<equiv> trim is_space"

definition trimmed :: "(char \<Rightarrow> bool) \<Rightarrow> string \<Rightarrow> bool" where
  "trimmed P s \<longleftrightarrow> s = [] \<or> (\<not> P (hd s) \<and> \<not> P (last s))"

lemma trim_trimmed: "trimmed P (trim P s)"
proof (cases "trim P s = []")
  case False
  define u where "u = dropWhile P s"
  have t: "trim P s = rtrim P u" by (simp add: trim_def rtrim_def u_def)
  have "dropWhile P (rev u) \<noteq> []" using False by (simp add: trim_def u_def)
  then have "\<not> P (last (trim P s))"
    by (metis hd_dropWhile last_rev trim_def u_def)
  moreover obtain z where z: "u = trim P s @ z"
    using dropWhile_append [of P] takeWhile_dropWhile_id [of P "rev u"]
    by (metis rev_append rev_rev_ident t rtrim_def)
  moreover have "u \<noteq> []" using False z by auto
  then have "\<not> P (hd u)" unfolding u_def by (rule hd_dropWhile)
  ultimately show ?thesis using False by (auto simp: trimmed_def)
qed (simp add: trimmed_def)

lemma trim_id: "trimmed P s \<Longrightarrow> trim P s = s"
proof (cases "s = []")
  case False
  assume "trimmed P s"
  then have "\<not> P (hd s)" "\<not> P (hd (rev s))"
    using False by (simp_all add: trimmed_def hd_rev)
  then have "dropWhile P s = s" "dropWhile P (rev s) = rev s"
    using False by (simp_all add: dropWhile_eq_self_iff)
  then show ?thesis by (simp add: trim_def)
qed (simp add: trim_def)

lemma trim_idem [simp]: "trim P (trim P s) = trim P s"
  by (rule trim_id) (rule trim_trimmed)

lemma trim_sublist: "sublist (trim P s) s"
proof -
  have "s = takeWhile P s @ trim P s @ rev (takeWhile P (rev (dropWhile P s)))"
    by (simp add: trim_def flip: rev_append) 
  then show ?thesis by (metis sublist_appendI)
qed

lemma rtrim_prefix: "prefix (rtrim P s) s"
  by (metis append_Nil2 rev_append rev_rev_ident rtrim_def prefixI takeWhile_dropWhile_id)

lemma trim_empty_iff: "trim P s = [] \<longleftrightarrow> (\<forall>c \<in> set s. P c)"
proof
  assume "trim P s = []"
  then have "\<forall>c \<in> set (rev (dropWhile P s)). P c" unfolding trim_def rev_is_Nil_conv dropWhile_eq_Nil_conv .
  then have "dropWhile P s = []" by (metis hd_dropWhile hd_in_set set_rev)
  then show "\<forall>c \<in> set s. P c" by (simp add: dropWhile_eq_Nil_conv)
next
  assume "\<forall>c \<in> set s. P c"
  then have "dropWhile P s = []" unfolding dropWhile_eq_Nil_conv .
  then show "trim P s = []" unfolding trim_def by (simp only: dropWhile.simps rev.simps)
qed

section \<open>splitlines\<close>

definition is_line_break :: "char \<Rightarrow> bool" where
  "is_line_break c \<longleftrightarrow> c \<in> set [CHR 0x0A, CHR 0x0B, CHR 0x0C, CHR 0x0D, CHR 0x1C, CHR 0x1D, CHR 0x1E, CHR 0x85]"

fun lines_from :: "string \<Rightarrow> string \<Rightarrow> string list" where
  "lines_from cur [] = (if cur = [] then [] else [rev cur])"
| "lines_from cur (c # s) =
     (if c = CHR 0x0D \<and> take 1 s = [CHR 0x0A] then rev cur # lines_from [] (drop 1 s)
      else if is_line_break c then rev cur # lines_from [] s
      else lines_from (c # cur) s)"

definition splitlines :: "string \<Rightarrow> string list" where
  "splitlines s = lines_from [] s"

lemma lines_from_no_break:
  "l \<in> set (lines_from cur s) \<Longrightarrow> \<forall>c \<in> set cur. \<not> is_line_break c \<Longrightarrow> \<forall>c \<in> set l. \<not> is_line_break c"
proof (induction cur s rule: lines_from.induct)
  case (1 cur)
  then show ?case by (simp split: if_splits)
next
  case (2 cur c s)
  consider "c = CHR 0x0D \<and> take 1 s = [CHR 0x0A]"
    | "\<not> (c = CHR 0x0D \<and> take 1 s = [CHR 0x0A])" "is_line_break c"
    | "\<not> (c = CHR 0x0D \<and> take 1 s = [CHR 0x0A])" "\<not> is_line_break c"
    by blast
  then show ?case
  proof cases
    case 1
    then have "l = rev cur \<or> l \<in> set (lines_from [] (drop 1 s))" using 2(4) by simp
    then show ?thesis using 2(1) [OF 1] 2(5) by (metis empty_iff list.set(1) set_rev)
  next
    case b: 2
    then have "l = rev cur \<or> l \<in> set (lines_from [] s)" using 2(4) by (simp split: if_splits)
    then show ?thesis using 2(2) [OF b] 2(5) by (metis empty_iff list.set(1) set_rev)
  next
    case c: 3
    then have "l \<in> set (lines_from (c # cur) s)" using 2(4) by (simp split: if_splits)
    then show ?thesis using 2(3) [OF c] 2(5) c(2) by simp
  qed
qed

lemma splitlines_no_break: "l \<in> set (splitlines s) \<Longrightarrow> c \<in> set l \<Longrightarrow> \<not> is_line_break c"
  unfolding splitlines_def by (drule lines_from_no_break) auto

section \<open>startswith, endswith, in\<close>

definition startswith :: "string \<Rightarrow> string \<Rightarrow> bool" where
  "startswith s p \<longleftrightarrow> prefix p s"

definition endswith :: "string \<Rightarrow> string \<Rightarrow> bool" where
  "endswith s p \<longleftrightarrow> suffix p s"

definition occurs_in :: "string \<Rightarrow> string \<Rightarrow> bool" where
  "occurs_in p s \<longleftrightarrow> sublist p s"

section \<open>lower\<close>

text \<open>\<open>str.lower\<close> on Latin-1.\<close>

definition lower_char :: "char \<Rightarrow> char" where
  "lower_char c = (let n = of_char c :: nat in
     if (65 \<le> n \<and> n \<le> 90) \<or> (0xC0 \<le> n \<and> n \<le> 0xDE \<and> n \<noteq> 0xD7) then char_of (n + 32) else c)"

definition lower :: "string \<Rightarrow> string" where
  "lower s = map lower_char s"

section \<open>casefold\<close>

text \<open>
  \<open>str.casefold\<close> on Latin-1: letters go to lower case and sharp s to two letters. The micro sign folds
  to a Greek letter outside Latin-1 and is kept; no text compared in the code contains either.
\<close>

definition fold_char :: "char \<Rightarrow> string" where
  "fold_char c =
     (let n = of_char c :: nat
      in if (65 \<le> n \<and> n \<le> 90) \<or> (192 \<le> n \<and> n \<le> 222 \<and> n \<noteq> 215) then [char_of (n + 32)]
         else if n = 223 then ''ss'' else [c])"

definition casefold :: "string \<Rightarrow> string" where
  "casefold s = concat (map fold_char s)"

section \<open>join, quotes\<close>

fun joined :: "string \<Rightarrow> string list \<Rightarrow> string" where
  "joined sep [] = []"
| "joined sep [x] = x"
| "joined sep (x # y # xs) = x @ sep @ joined sep (y # xs)"

definition quoted :: "string \<Rightarrow> string" where
  "quoted t = CHR 0x27 # t @ [CHR 0x27]"

text \<open>The long dash of some messages lies outside Latin-1; the control character 0x97 stands for it.\<close>

definition long_dash :: char where
  "long_dash = CHR 0x97"

section \<open>str and repr\<close>

fun dec_digits :: "nat \<Rightarrow> nat \<Rightarrow> string" where
  "dec_digits 0 n = []"
| "dec_digits (Suc k) n = (if n < 10 then [char_of (48 + n)] else dec_digits k (n div 10) @ [char_of (48 + n mod 10)])"

definition int_str :: "int \<Rightarrow> string" where
  "int_str i = (if i < 0 then CHR ''-'' # dec_digits (Suc (nat (- i))) (nat (- i))
                else dec_digits (Suc (nat i)) (nat i))"

definition hex_digit :: "nat \<Rightarrow> char" where
  "hex_digit n = ''0123456789abcdef'' ! (n mod 16)"

definition repr_char :: "char \<Rightarrow> char \<Rightarrow> string" where
  "repr_char q c =
     (let n = of_char c :: nat in
      if c = q \<or> c = CHR 0x5C then [CHR 0x5C, c]
      else if c = CHR 0x0A then [CHR 0x5C, CHR ''n'']
      else if c = CHR 0x0D then [CHR 0x5C, CHR ''r'']
      else if c = CHR 0x09 then [CHR 0x5C, CHR ''t'']
      else if n < 32 \<or> (127 \<le> n \<and> n \<le> 160) \<or> n = 173
      then [CHR 0x5C, CHR ''x'', hex_digit (n div 16), hex_digit n]
      else [c])"

definition repr_str :: "string \<Rightarrow> string" where
  "repr_str s =
     (let q = (if CHR 0x27 \<in> set s \<and> CHR 0x22 \<notin> set s then CHR 0x22 else CHR 0x27)
      in q # concat (map (repr_char q) s) @ [q])"

section \<open>isdigit and int\<close>

text \<open>\<open>str.isdigit\<close> on Latin-1 counts the three superscript digits too, which \<open>int\<close> refuses.\<close>

definition ascii_digit :: "char \<Rightarrow> bool" where
  "ascii_digit c \<longleftrightarrow> (let n = of_char c :: nat in 48 \<le> n \<and> n \<le> 57)"

definition isdigit :: "string \<Rightarrow> bool" where
  "isdigit s \<longleftrightarrow> s \<noteq> [] \<and> list_all (\<lambda>c. ascii_digit c \<or> c \<in> set [CHR 0xB2, CHR 0xB3, CHR 0xB9]) s"

text \<open>The digits of a number, single underscores between them; the flag says that a digit came last.\<close>

fun digits_value :: "string \<Rightarrow> nat \<Rightarrow> bool \<Rightarrow> nat option" where
  "digits_value [] n d = (if d then Some n else None)"
| "digits_value (c # s) n d =
     (if ascii_digit c then digits_value s (10 * n + (of_char c - 48)) True
      else if c = CHR ''_'' \<and> d then digits_value s n False
      else None)"

text \<open>\<open>int(text)\<close>: \<open>None\<close> where it raises \<open>ValueError\<close>.\<close>

definition int_of_text :: "string \<Rightarrow> int option" where
  "int_of_text t =
     (case strip t of
        [] \<Rightarrow> None
      | c # r \<Rightarrow>
          if c = CHR ''-'' then map_option (\<lambda>n. - int n) (digits_value r 0 False)
          else if c = CHR ''+'' then map_option int (digits_value r 0 False)
          else map_option int (digits_value (c # r) 0 False))"

text \<open>The number of a text is read back.\<close>

lemma char_digit: "n < 10 \<Longrightarrow> ascii_digit (char_of (48 + n)) \<and> of_char (char_of (48 + n) :: char) = 48 + n" for n :: nat
  by (simp add: ascii_digit_def)

lemma digits_value_append:
  "digits_value (s @ [char_of (48 + d)]) n b = map_option (\<lambda>m. 10 * m + d) (digits_value s n True)"
  if "d < 10" "list_all ascii_digit s" for d :: nat
  using that(2) char_digit [OF that(1)] by (induction s arbitrary: n b) auto

lemma dec_digits_ascii: "n < 10 ^ k \<Longrightarrow> 0 < k \<Longrightarrow> list_all ascii_digit (dec_digits k n) \<and> dec_digits k n \<noteq> []"
proof (induction k n rule: dec_digits.induct)
  case (2 k n)
  show ?case
  proof (cases "n < 10")
    case True
    then show ?thesis using char_digit by simp
  next
    case False
    then have "0 < k" using 2(2) by (cases k) auto
    moreover have "n div 10 < 10 ^ k" using 2(2) by (simp add: less_mult_imp_div_less mult.commute)
    ultimately show ?thesis using 2(1) [OF False] char_digit [of "n mod 10"] False by simp
  qed
qed simp

lemma dec_digits_value: "n < 10 ^ k \<Longrightarrow> 0 < k \<Longrightarrow> digits_value (dec_digits k n) 0 b = Some n"
proof (induction k n arbitrary: b rule: dec_digits.induct)
  case (2 k n)
  show ?case
  proof (cases "n < 10")
    case True
    then show ?thesis using char_digit [of n] by simp
  next
    case False
    then have k: "0 < k" "n div 10 < 10 ^ k" using 2(2) by (cases k; simp add: less_mult_imp_div_less mult.commute)+
    then show ?thesis
      using 2(1) [OF False k(2,1), of True] dec_digits_ascii [OF k(2,1)] False
        digits_value_append [of "n mod 10" "dec_digits k (n div 10)" 0 b] by simp
  qed
qed simp

lemma less_power_10: "n < 10 ^ Suc n" for n :: nat
  by (induction n) auto

lemma int_str_nat: "int_str (int n) = dec_digits (Suc n) n"
  by (simp add: int_str_def)

lemma isdigit_int_str [simp]: "isdigit (int_str (int n))"
  using dec_digits_ascii [OF less_power_10, of n] by (auto simp: isdigit_def int_str_nat list_all_iff)

lemma int_of_text_int_str [simp]: "int_of_text (int_str (int n)) = Some (int n)"
proof -
  let ?t = "dec_digits (Suc n) n"
  have a: "list_all ascii_digit ?t" "?t \<noteq> []" using dec_digits_ascii [OF less_power_10, of n] by auto
  have d: "\<not> is_space c \<and> c \<noteq> CHR ''-'' \<and> c \<noteq> CHR ''+''" if "ascii_digit c" for c
    using that by (auto simp: is_space_def ascii_digit_def)
  have "trimmed is_space ?t" using a d by (auto simp: trimmed_def list_all_iff)
  then have "strip ?t = ?t" by (rule trim_id)
  then show ?thesis
    using a d dec_digits_value [OF less_power_10, of n False]
    by (cases ?t) (auto simp: int_of_text_def int_str_nat simp del: dec_digits.simps)
qed

end
