(* ===== verification/Assembly.thy ===== *)
theory Assembly
  imports PyText "HOL-Library.Product_Lexorder" "HOL-Library.Char_ord" "HOL-Library.List_Lexorder" "HOL-Library.Multiset"
begin

text \<open>
  \<open>server/assembly.py\<close>: the application is built from an ordered list of modules. A module is what its
  six verbs contribute; the builder validates the composition, orders the middleware, mounts the
  routes, applies the state and composes the lifespans. Handlers, middleware classes and the values
  of \<open>app.state\<close> are opaque.
\<close>

section \<open>Contributions\<close>

record allowlist =
  al_exact :: "string set"
  al_prefixes :: "string list"

record middleware_spec =
  ms_class :: string
  ms_layer :: int
  ms_options :: "(string \<times> string) list"
  ms_requires_state :: "string list"

text \<open>A route of a router: what \<open>getattr\<close> finds of its path and its methods.\<close>

record router_route =
  ro_path :: "string option"
  ro_methods :: "string list option"

record route_spec =
  sp_router :: "router_route list"
  sp_prefix :: string
  sp_overrides :: "string list"

type_synonym 'h handlers = "(string, 'h) dict"

datatype 'h handler_spec =
    ExceptionHandlerSpec string 'h
  | ExceptionHandlerRegistrar "'h handlers \<Rightarrow> 'h handlers"

text \<open>The composed application as a lifespan sees it: its state slots, and everything else.\<close>

record ('v, 'w) host =
  ho_slots :: "(string, 'v) dict"
  ho_world :: 'w

text \<open>
  A lifespan is a context manager: entering runs it up to its \<open>yield\<close> and may raise; leaving takes the
  exception that is being unwound, if any, and tells the one that is pending afterwards.
\<close>

record ('v, 'w, 'h) app_module =
  am_name :: string
  am_provides_state :: "string list"
  am_routes :: "route_spec list"
  am_middleware :: "allowlist \<Rightarrow> middleware_spec list"
  am_allowlist :: allowlist
  am_handlers :: "'h handler_spec list"
  am_state :: "(string \<times> 'v) list"
  am_enter :: "(('v, 'w) host, unit) prog"
  am_exit :: "exn option \<Rightarrow> ('v, 'w) host \<Rightarrow> exn option \<times> ('v, 'w) host"

text \<open>\<open>BaseAppModule\<close>: every verb with its no-op default.\<close>

definition base_app_module :: "('v, 'w, 'h) app_module" where
  "base_app_module = \<lparr>am_name = ''unnamed'', am_provides_state = [], am_routes = [], am_middleware = (\<lambda>_. []),
     am_allowlist = \<lparr>al_exact = {}, al_prefixes = []\<rparr>, am_handlers = [], am_state = [], am_enter = ret (),
     am_exit = Pair\<rparr>"

section \<open>Validation of the composition\<close>

definition two_producers :: "string \<Rightarrow> string \<Rightarrow> string \<Rightarrow> exn" where
  "two_producers key first second = DuplicateStateProviderError (''state key '' @ quoted key @
     '' has two producers: modules '' @ quoted first @ '' and '' @ quoted second)"

fun check_names :: "string list \<Rightarrow> ('v, 'w, 'h) app_module list \<Rightarrow> exn + unit" where
  "check_names names [] = Inr ()"
| "check_names names (m # ms) =
     (if am_name m \<in> set names
      then Inl (DuplicateModuleNameError (''duplicate module name '' @ quoted (am_name m) @ '' in composition''))
      else check_names (am_name m # names) ms)"

text \<open>The keys one module produces in one phase, added to the providers.\<close>

fun add_providers :: "string \<Rightarrow> string list \<Rightarrow> (string, string) dict \<Rightarrow> exn + (string, string) dict" where
  "add_providers n [] providers = Inr providers"
| "add_providers n (key # keys) providers =
     (case map_of providers key of
        Some other \<Rightarrow> Inl (two_producers key other n)
      | None \<Rightarrow> add_providers n keys (AList.update key n providers))"

fun provide_all :: "(('v, 'w, 'h) app_module \<Rightarrow> string list) \<Rightarrow> ('v, 'w, 'h) app_module list \<Rightarrow>
    (string, string) dict \<Rightarrow> exn + (string, string) dict" where
  "provide_all keys [] providers = Inr providers"
| "provide_all keys (m # ms) providers =
     (case add_providers (am_name m) (keys m) providers of
        Inl e \<Rightarrow> Inl e
      | Inr p \<Rightarrow> provide_all keys ms p)"

definition validate_composition :: "('v, 'w, 'h) app_module list \<Rightarrow> exn + (string, string) dict" where
  "validate_composition ms =
     (case check_names [] ms of
        Inl e \<Rightarrow> Inl e
      | Inr _ \<Rightarrow>
          (case provide_all (\<lambda>m. map fst (am_state m)) ms [] of
             Inl e \<Rightarrow> Inl e
           | Inr providers \<Rightarrow> provide_all am_provides_state ms providers))"

section \<open>Routes\<close>

text \<open>\<open>_ContributedRoute\<close>: a spec with the module it comes from.\<close>

record contributed_route =
  cr_module :: string
  cr_spec :: route_spec

definition collect_routes :: "('v, 'w, 'h) app_module list \<Rightarrow> contributed_route list" where
  "collect_routes ms =
     concat (map (\<lambda>m. map (\<lambda>spec. \<lparr>cr_module = am_name m, cr_spec = spec\<rparr>) (am_routes m)) ms)"

text \<open>\<open>getattr(route, 'methods', None) or {'WS'}\<close>, sorted.\<close>

definition sorted_methods :: "router_route \<Rightarrow> string list" where
  "sorted_methods r = (case ro_methods r of
     None \<Rightarrow> [''WS''] | Some ms \<Rightarrow> if ms = [] then [''WS''] else sort (remdups ms))"

definition route_keys :: "route_spec \<Rightarrow> string list" where
  "route_keys spec = concat (map (\<lambda>r. case ro_path r of
     None \<Rightarrow> [] | Some path \<Rightarrow> map (\<lambda>m. m @ '' '' @ sp_prefix spec @ path) (sorted_methods r)) (sp_router spec))"

definition collision :: "string \<Rightarrow> contributed_route \<Rightarrow> contributed_route \<Rightarrow> exn" where
  "collision key winner entry = RouteCollisionError (''route collision on '' @ quoted key @ '': module '' @
     quoted (cr_module entry) @ '' shadows module '' @ quoted (cr_module winner) @ ''; the earlier module '' @
     quoted (cr_module winner) @ '' wins at runtime and must declare it '' @ [long_dash] @ '' add overrides=('' @
     [CHR 0x22] @ key @ [CHR 0x22] @ '',) to its RouteSpec'')"

fun claim_keys :: "contributed_route \<Rightarrow> string list \<Rightarrow> (string, contributed_route) dict \<Rightarrow>
    exn + (string, contributed_route) dict" where
  "claim_keys entry [] winners = Inr winners"
| "claim_keys entry (key # keys) winners =
     (case map_of winners key of
        None \<Rightarrow> claim_keys entry keys (AList.update key entry winners)
      | Some winner \<Rightarrow>
          if key \<in> set (sp_overrides (cr_spec winner)) then claim_keys entry keys winners
          else Inl (collision key winner entry))"

fun claim_routes :: "contributed_route list \<Rightarrow> (string, contributed_route) dict \<Rightarrow>
    exn + (string, contributed_route) dict" where
  "claim_routes [] winners = Inr winners"
| "claim_routes (entry # es) winners =
     (case claim_keys entry (dedup (route_keys (cr_spec entry))) winners of
        Inl e \<Rightarrow> Inl e
      | Inr w \<Rightarrow> claim_routes es w)"

definition validate_route_collisions :: "contributed_route list \<Rightarrow> exn + unit" where
  "validate_route_collisions es = (case claim_routes es [] of Inl e \<Rightarrow> Inl e | Inr _ \<Rightarrow> Inr ())"

text \<open>\<open>_mount_routes\<close>: the mounted routes in the order they are tried, each with its spec.\<close>

record mounted_route =
  mr_spec :: contributed_route
  mr_path :: "string option"
  mr_methods :: "string list option"

definition include_router :: "contributed_route \<Rightarrow> mounted_route list" where
  "include_router entry = map (\<lambda>r. \<lparr>mr_spec = entry,
     mr_path = (case ro_path r of None \<Rightarrow> None | Some p \<Rightarrow> Some (sp_prefix (cr_spec entry) @ p)),
     mr_methods = ro_methods r\<rparr>) (sp_router (cr_spec entry))"

definition mount_routes :: "contributed_route list \<Rightarrow> mounted_route list" where
  "mount_routes es = foldl (\<lambda>app entry. app @ include_router entry) [] es"

section \<open>Allowlists, handlers, state\<close>

text \<open>
  \<open>extend\<close> takes the prefixes one by one from a generator that tests the list as it grows, so a prefix a
  module repeats is kept once too.
\<close>

definition merge_allowlists :: "('v, 'w, 'h) app_module list \<Rightarrow> allowlist" where
  "merge_allowlists ms =
     foldl (\<lambda>a m. \<lparr>al_exact = al_exact a \<union> al_exact (am_allowlist m),
        al_prefixes = foldl (\<lambda>ps p. if p \<in> set ps then ps else ps @ [p]) (al_prefixes a) (al_prefixes (am_allowlist m))\<rparr>)
       \<lparr>al_exact = {}, al_prefixes = []\<rparr> ms"

fun install_handler :: "'h handler_spec \<Rightarrow> 'h handlers \<Rightarrow> 'h handlers" where
  "install_handler (ExceptionHandlerSpec c h) hs = AList.update c h hs"
| "install_handler (ExceptionHandlerRegistrar install) hs = install hs"

definition register_exception_handlers :: "('v, 'w, 'h) app_module list \<Rightarrow> 'h handlers \<Rightarrow> 'h handlers" where
  "register_exception_handlers ms hs = fold install_handler (concat (map am_handlers ms)) hs"

definition apply_state_entries :: "('v, 'w, 'h) app_module list \<Rightarrow> (string, 'v) dict" where
  "apply_state_entries ms = fold (\<lambda>(k, v). AList.update k v) (concat (map am_state ms)) []"

section \<open>Middleware\<close>

record ordered_middleware =
  om_module_index :: nat
  om_spec_index :: nat
  om_module :: string
  om_spec :: middleware_spec

definition contributed_middleware :: "('v, 'w, 'h) app_module list \<Rightarrow> allowlist \<Rightarrow> ordered_middleware list" where
  "contributed_middleware ms context = concat (map (\<lambda>(i, m). map (\<lambda>(j, spec).
     \<lparr>om_module_index = i, om_spec_index = j, om_module = am_name m, om_spec = spec\<rparr>)
     (enumerate 0 (am_middleware m context))) (enumerate 0 ms))"

definition collect_middleware :: "('v, 'w, 'h) app_module list \<Rightarrow> allowlist \<Rightarrow> ordered_middleware list" where
  "collect_middleware ms context =
     sort_key (\<lambda>e. (ms_layer (om_spec e), om_module_index e, om_spec_index e)) (contributed_middleware ms context)"

record state_requirement =
  sq_key :: string
  sq_required_by :: string
  sq_provided_by :: string

definition missing_provider :: "ordered_middleware \<Rightarrow> string \<Rightarrow> exn" where
  "missing_provider e key = MissingStateProviderError (''middleware '' @ ms_class (om_spec e) @ '' from module '' @
     quoted (om_module e) @ '' requires state key '' @ quoted key @
     '', but no module in the composition provides it'')"

definition state_requirements ::
    "(string, string) dict \<Rightarrow> ordered_middleware \<Rightarrow> exn + state_requirement list" where
  "state_requirements providers e = traverse (\<lambda>key. case map_of providers key of
     None \<Rightarrow> Inl (missing_provider e key)
   | Some p \<Rightarrow> Inr \<lparr>sq_key = key, sq_required_by = om_module e, sq_provided_by = p\<rparr>) (ms_requires_state (om_spec e))"

definition validate_required_state ::
    "ordered_middleware list \<Rightarrow> (string, string) dict \<Rightarrow> exn + state_requirement list" where
  "validate_required_state es providers =
     (case traverse (state_requirements providers) es of Inl e \<Rightarrow> Inl e | Inr rs \<Rightarrow> Inr (concat rs))"

text \<open>\<open>add_middleware\<close> puts its middleware outermost, so the stack is filled from the inside.\<close>

definition add_middleware :: "ordered_middleware list \<Rightarrow> middleware_spec list" where
  "add_middleware ordered = foldl (\<lambda>stack e. om_spec e # stack) [] (rev ordered)"

section \<open>Lifespans\<close>

text \<open>\<open>AsyncExitStack\<close>: the entered modules, the last one first.\<close>

fun enter_all :: "('v, 'w, 'h) app_module list \<Rightarrow> ('v, 'w, 'h) app_module list \<Rightarrow> ('v, 'w) host \<Rightarrow>
    (exn option \<times> ('v, 'w, 'h) app_module list) \<times> ('v, 'w) host" where
  "enter_all [] entered s = ((None, entered), s)"
| "enter_all (m # ms) entered s =
     (case am_enter m s of
        (Inl e, t) \<Rightarrow> ((Some e, entered), t)
      | (Inr _, t) \<Rightarrow> enter_all ms (m # entered) t)"

fun unwind :: "('v, 'w, 'h) app_module list \<Rightarrow> exn option \<Rightarrow> ('v, 'w) host \<Rightarrow> exn option \<times> ('v, 'w) host" where
  "unwind [] pending s = (pending, s)"
| "unwind (m # ms) pending s = (case am_exit m pending s of (p, t) \<Rightarrow> unwind ms p t)"

definition never_populated :: "state_requirement \<Rightarrow> string" where
  "never_populated q = ''app.state.'' @ sq_key q @ '' was never populated after startup: declared by module '' @
     quoted (sq_provided_by q) @ '', required by module '' @ quoted (sq_required_by q)"

definition verify_startup_state :: "state_requirement list \<Rightarrow> ('v, 'w) host \<Rightarrow> exn option" where
  "verify_startup_state qs s =
     (let absent = filter (\<lambda>q. map_of (ho_slots s) (sq_key q) = None) qs
      in if absent = [] then None
         else Some (UnpopulatedStateError (joined ''; '' (map never_populated absent))))"

text \<open>
  Entering the composed lifespan; a startup error that an earlier module's lifespan swallows still
  leaves a context manager that did not yield.
\<close>

definition no_yield :: exn where
  "no_yield = RuntimeError ''generator didn't yield''"

definition lifespan_enter :: "('v, 'w, 'h) app_module list \<Rightarrow> state_requirement list \<Rightarrow> ('v, 'w) host \<Rightarrow>
    (exn + ('v, 'w, 'h) app_module list) \<times> ('v, 'w) host" where
  "lifespan_enter ms qs s =
     (case enter_all ms [] s of ((failed, entered), t) \<Rightarrow>
        (case (case failed of Some e \<Rightarrow> Some e | None \<Rightarrow> verify_startup_state qs t) of
           None \<Rightarrow> (Inr entered, t)
         | Some e \<Rightarrow> (case unwind entered (Some e) t of
               (None, u) \<Rightarrow> (Inl no_yield, u)
             | (Some x, u) \<Rightarrow> (Inl x, u))))"

definition lifespan_exit :: "('v, 'w, 'h) app_module list \<Rightarrow> exn option \<Rightarrow> ('v, 'w) host \<Rightarrow>
    exn option \<times> ('v, 'w) host" where
  "lifespan_exit entered pending s = unwind entered pending s"

section \<open>The builder\<close>

record ('v, 'w, 'h) built_app =
  ba_routes :: "mounted_route list"
  ba_handlers :: "'h handlers"
  ba_slots :: "(string, 'v) dict"
  ba_middleware :: "middleware_spec list"
  ba_modules :: "('v, 'w, 'h) app_module list"
  ba_requirements :: "state_requirement list"

text \<open>\<open>defaults\<close>: the handlers a fresh \<open>FastAPI\<close> has.\<close>

definition build_app :: "'h handlers \<Rightarrow> ('v, 'w, 'h) app_module list \<Rightarrow> exn + ('v, 'w, 'h) built_app" where
  "build_app defaults ms =
     (case validate_composition ms of
        Inl e \<Rightarrow> Inl e
      | Inr providers \<Rightarrow>
          (let contributed = collect_routes ms in
           case validate_route_collisions contributed of
             Inl e \<Rightarrow> Inl e
           | Inr _ \<Rightarrow>
               (let ordered = collect_middleware ms (merge_allowlists ms) in
                case validate_required_state ordered providers of
                  Inl e \<Rightarrow> Inl e
                | Inr qs \<Rightarrow> Inr \<lparr>ba_routes = mount_routes contributed,
                    ba_handlers = register_exception_handlers ms defaults, ba_slots = apply_state_entries ms,
                    ba_middleware = add_middleware ordered, ba_modules = ms, ba_requirements = qs\<rparr>)))"

end
