(* ===== verification/AppBuild.thy ===== *)
theory AppBuild
  imports Assembly
begin

text \<open>
  What a built application guarantees: the order of its middleware, one producer for every state slot,
  declared route overrides, and lifespans that unwind.
\<close>

section \<open>Builds\<close>

lemma build_app_Inr:
  assumes "build_app defaults ms = Inr app"
  obtains providers qs where "validate_composition ms = Inr providers"
    "validate_route_collisions (collect_routes ms) = Inr ()"
    "validate_required_state (collect_middleware ms (merge_allowlists ms)) providers = Inr qs"
    "app = \<lparr>ba_routes = mount_routes (collect_routes ms), ba_handlers = register_exception_handlers ms defaults,
       ba_slots = apply_state_entries ms, ba_middleware = add_middleware (collect_middleware ms (merge_allowlists ms)),
       ba_modules = ms, ba_requirements = qs\<rparr>"
  using assms by (auto simp: build_app_def Let_def split: sum.splits)

section \<open>The middleware stack\<close>

lemma add_middleware_map: "add_middleware ordered = map om_spec ordered"
  by (induction ordered) (simp_all add: add_middleware_def)

lemma insort_key_map: "map f (insort_key (\<lambda>x. g (f x)) x xs) = insort_key g (f x) (map f xs)"
  by (induction xs) simp_all

lemma sort_key_map: "map f (sort_key (\<lambda>x. g (f x)) xs) = sort_key g (map f xs)"
  by (induction xs) (simp_all add: insort_key_map)

text \<open>A tag that grows along the list never decides: sorting by it last is what stability gives.\<close>

lemma insort_tagged:
  fixes f :: "'a \<Rightarrow> 'b::linorder" and tag :: "'a \<Rightarrow> 'c::linorder"
  assumes "\<And>y. y \<in> set ys \<Longrightarrow> tag x < tag y"
  shows "insort_key (\<lambda>x. (f x, tag x)) x ys = insort_key f x ys"
  using assms
proof (induction ys)
  case (Cons y ys)
  have "tag x < tag y" using Cons.prems by simp
  then have "tag x \<le> tag y" by simp
  then show ?case using Cons by (auto simp: less_eq_prod_def)
qed simp

lemma sort_tagged:
  fixes f :: "'a \<Rightarrow> 'b::linorder" and tag :: "'a \<Rightarrow> 'c::linorder"
  assumes "sorted_wrt (\<lambda>x y. tag x < tag y) xs"
  shows "sort_key (\<lambda>x. (f x, tag x)) xs = sort_key f xs"
  using assms
proof (induction xs)
  case (Cons x xs)
  then show ?case using insort_tagged [of "sort_key f xs" tag x f] by simp
qed simp

lemma enumerate_Cons: "enumerate n (x # xs) = (n, x) # enumerate (Suc n) xs"
  by simp

abbreviation om_tag :: "ordered_middleware \<Rightarrow> nat \<times> nat" where
  "om_tag e \<equiv> (om_module_index e, om_spec_index e)"

lemma tagged_module:
  "sorted_wrt (\<lambda>x y. om_tag x < om_tag y) (map (\<lambda>(j, spec).
     \<lparr>om_module_index = i, om_spec_index = j, om_module = n, om_spec = spec\<rparr>) (enumerate k specs))"
  by (induction specs arbitrary: k) (auto simp: less_prod_def in_set_enumerate_eq)

lemma tagged_modules:
  "sorted_wrt (\<lambda>x y. om_tag x < om_tag y) (concat (map (\<lambda>(i, m). map (\<lambda>(j, spec).
     \<lparr>om_module_index = i, om_spec_index = j, om_module = am_name m, om_spec = spec\<rparr>)
     (enumerate 0 (am_middleware m context))) (enumerate k ms)))"
proof (induction ms arbitrary: k)
  case (Cons m ms)
  then show ?case
    using tagged_module [of k "am_name m" 0 "am_middleware m context"]
    by (force simp: sorted_wrt_append less_prod_def in_set_enumerate_eq)
qed simp

lemma map_snd_enumerate: "map snd (enumerate k xs) = xs"
  by simp

lemma contributed_specs:
  "map om_spec (contributed_middleware ms context) = concat (map (\<lambda>m. am_middleware m context) ms)"
proof -
  have "map om_spec (concat (map (\<lambda>(i, m). map (\<lambda>(j, spec).
     \<lparr>om_module_index = i, om_spec_index = j, om_module = am_name m, om_spec = spec\<rparr>)
     (enumerate 0 (am_middleware m context))) (enumerate k ms))) = concat (map (\<lambda>m. am_middleware m context) ms)" for k
    by (induction ms arbitrary: k) (simp_all add: comp_def case_prod_unfold)
  then show ?thesis by (simp add: contributed_middleware_def)
qed

text \<open>
  C35. The middleware of a built application are exactly the contributed ones, the lowest layer outermost;
  within a layer they stand in the order of the modules, and of each module's list. The order of
  registration plays no part.
\<close>

theorem built_stack_is_layered:
  assumes "build_app defaults ms = Inr app"
  shows "ba_middleware app = sort_key ms_layer (concat (map (\<lambda>m. am_middleware m (merge_allowlists ms)) ms))"
proof -
  let ?c = "contributed_middleware ms (merge_allowlists ms)"
  have "collect_middleware ms (merge_allowlists ms) = sort_key (\<lambda>e. ms_layer (om_spec e)) ?c"
    unfolding collect_middleware_def
    using sort_tagged [of om_tag ?c "\<lambda>e. ms_layer (om_spec e)"] tagged_modules [of "merge_allowlists ms" 0 ms]
    by (simp add: contributed_middleware_def)
  then show ?thesis
    using assms by (auto elim!: build_app_Inr simp: add_middleware_map sort_key_map contributed_specs)
qed

text \<open>Two modules whose lifespans write a log; the second provides the slot the first one's middleware reads.\<close>

definition sample_spec :: "string \<Rightarrow> int \<Rightarrow> string list \<Rightarrow> middleware_spec" where
  "sample_spec c l ks = \<lparr>ms_class = c, ms_layer = l, ms_options = [], ms_requires_state = ks\<rparr>"

definition log_line :: "string \<Rightarrow> (nat, string list) host \<Rightarrow> (nat, string list) host" where
  "log_line t s = s\<lparr>ho_world := ho_world s @ [t]\<rparr>"

definition gate_module :: "(nat, string list, unit) app_module" where
  "gate_module = base_app_module\<lparr>am_name := ''gate'',
     am_routes := [\<lparr>sp_router = [\<lparr>ro_path = Some ''/teams'', ro_methods = Some [''GET'']\<rparr>], sp_prefix = '''',
        sp_overrides = [''GET /teams'']\<rparr>],
     am_middleware := (\<lambda>_. [sample_spec ''Audit'' 600 [], sample_spec ''Gate'' 400 [''users'']]),
     am_enter := writing (log_line ''gate up''), am_exit := (\<lambda>e s. (e, log_line ''gate down'' s))\<rparr>"

definition users_module :: "bool \<Rightarrow> (nat, string list, unit) app_module" where
  "users_module works = base_app_module\<lparr>am_name := ''users'', am_provides_state := [''users''],
     am_routes := [\<lparr>sp_router = [\<lparr>ro_path = Some ''/teams'', ro_methods = Some [''POST'', ''GET'']\<rparr>], sp_prefix = '''',
        sp_overrides = []\<rparr>],
     am_middleware := (\<lambda>_. [sample_spec ''Cors'' 100 [], sample_spec ''Trace'' 600 []]),
     am_enter := (if works then writing (\<lambda>s. log_line ''users up'' (s\<lparr>ho_slots := AList.update ''users'' 1 (ho_slots s)\<rparr>))
                  else throw (RuntimeError ''no database''))\<rparr>"

definition sample_build :: "(nat, string list, unit) built_app" where
  "sample_build = (case build_app [] [gate_module, users_module True] of Inr app \<Rightarrow> app)"

lemmas build_defs = build_app_def validate_composition_def validate_route_collisions_def collect_routes_def
  collect_middleware_def contributed_middleware_def route_keys_def sorted_methods_def validate_required_state_def
  state_requirements_def dedup_def Let_def

lemmas sample_modules_defs = gate_module_def users_module_def base_app_module_def sample_spec_def

lemma sample_build_ok: "build_app [] [gate_module, users_module True] = Inr sample_build"
  by (simp add: sample_build_def build_defs sample_modules_defs)

theorem built_stack_is_layered_witness:
  "map ms_class (ba_middleware sample_build) = [''Cors'', ''Gate'', ''Audit'', ''Trace'']"
  using built_stack_is_layered [OF sample_build_ok] by (simp add: sample_modules_defs)

section \<open>One producer for every slot\<close>

lemma check_names_Inr: "check_names names ms = Inr u \<longleftrightarrow> distinct (map am_name ms) \<and> set names \<inter> am_name ` set ms = {}"
  by (induction names ms rule: check_names.induct) auto

lemma add_providers_Inr:
  "add_providers n keys p = Inr q \<Longrightarrow> distinct keys \<and> set keys \<inter> dom (map_of p) = {} \<and>
     map_of q = (\<lambda>k. if k \<in> set keys then Some n else map_of p k)"
proof (induction n keys p rule: add_providers.induct)
  case (2 n key keys p)
  then have none: "map_of p key = None" and rest: "add_providers n keys (AList.update key n p) = Inr q"
    by (auto split: option.splits)
  from 2(1) [OF none rest] none show ?case by (auto simp: fun_eq_iff dom_def)
qed auto

lemma provide_all_Inr:
  "provide_all keys ms p = Inr q \<Longrightarrow>
     distinct (concat (map keys ms)) \<and> set (concat (map keys ms)) \<inter> dom (map_of p) = {}
     \<and> (\<forall>k n. map_of q k = Some n \<longrightarrow> map_of p k = Some n \<or> (\<exists>m \<in> set ms. am_name m = n \<and> k \<in> set (keys m)))
     \<and> dom (map_of q) = dom (map_of p) \<union> set (concat (map keys ms))"
proof (induction ms arbitrary: p)
  case (Cons m ms)
  then obtain r where r: "add_providers (am_name m) (keys m) p = Inr r" "provide_all keys ms r = Inr q"
    by (auto split: sum.splits)
  have m: "distinct (keys m)" "set (keys m) \<inter> dom (map_of p) = {}"
      "map_of r = (\<lambda>k. if k \<in> set (keys m) then Some (am_name m) else map_of p k)"
    using add_providers_Inr [OF r(1)] by simp_all
  then have d: "dom (map_of r) = dom (map_of p) \<union> set (keys m)" by (auto simp: dom_def)
  note ih = Cons.IH [OF r(2)]
  have "map_of p k = Some n \<or> (\<exists>m' \<in> set (m # ms). am_name m' = n \<and> k \<in> set (keys m'))" if "map_of q k = Some n" for k n
  proof -
    have "map_of r k = Some n \<or> (\<exists>m' \<in> set ms. am_name m' = n \<and> k \<in> set (keys m'))" using ih that by blast
    then show ?thesis using m(3) by (auto split: if_splits)
  qed
  then show ?case using ih m(1,2) d by auto
qed auto

definition produced :: "('v, 'w, 'h) app_module \<Rightarrow> string set" where
  "produced m = fst ` set (am_state m) \<union> set (am_provides_state m)"

lemma validate_composition_Inr:
  assumes "validate_composition ms = Inr providers"
  shows "distinct (map am_name ms)"
    and "distinct (concat (map (\<lambda>m. map fst (am_state m)) ms) @ concat (map am_provides_state ms))"
    and "map_of providers k = Some n \<Longrightarrow> \<exists>m \<in> set ms. am_name m = n \<and> k \<in> produced m"
proof -
  obtain p where p: "distinct (map am_name ms)" "provide_all (\<lambda>m. map fst (am_state m)) ms [] = Inr p"
      "provide_all am_provides_state ms p = Inr providers"
    using assms by (auto simp: validate_composition_def check_names_Inr split: sum.splits)
  note a = provide_all_Inr [OF p(2)] and b = provide_all_Inr [OF p(3)]
  show "distinct (map am_name ms)" by fact
  show "distinct (concat (map (\<lambda>m. map fst (am_state m)) ms) @ concat (map am_provides_state ms))"
    using conjunct1 [OF a] conjunct1 [OF b] conjunct1 [OF conjunct2 [OF b]]
      conjunct2 [OF conjunct2 [OF conjunct2 [OF a]]]
    by (simp only: distinct_append) auto
  show "map_of providers k = Some n \<Longrightarrow> \<exists>m \<in> set ms. am_name m = n \<and> k \<in> produced m"
  proof -
    assume "map_of providers k = Some n"
    then have "map_of p k = Some n \<or> (\<exists>m \<in> set ms. am_name m = n \<and> k \<in> set (am_provides_state m))" using b by blast
    moreover have "map_of p k = Some n \<Longrightarrow> \<exists>m \<in> set ms. am_name m = n \<and> k \<in> set (map fst (am_state m))" using a by fastforce
    ultimately show "\<exists>m \<in> set ms. am_name m = n \<and> k \<in> produced m" by (auto simp: produced_def)
  qed
qed

lemma required_state_Inr:
  assumes "validate_required_state es providers = Inr qs"
  shows "q \<in> set qs \<Longrightarrow> map_of providers (sq_key q) = Some (sq_provided_by q)"
    and "e \<in> set es \<Longrightarrow> k \<in> set (ms_requires_state (om_spec e)) \<Longrightarrow> \<exists>q \<in> set qs. sq_key q = k"
proof -
  obtain rs where rs: "traverse (state_requirements providers) es = Inr rs" "qs = concat rs"
    using assms by (auto simp: validate_required_state_def split: sum.splits)
  show "map_of providers (sq_key q) = Some (sq_provided_by q)" if q: "q \<in> set qs"
  proof -
    obtain r where r: "r \<in> set rs" "q \<in> set r" using q rs(2) by auto
    then obtain e where "state_requirements providers e = Inr r"
      using traverse_set [OF rs(1)] by (metis imageE)
    then show ?thesis
      using r(2) traverse_set unfolding state_requirements_def by (fastforce split: option.splits)
  qed
  show "\<exists>q \<in> set qs. sq_key q = k" if e: "e \<in> set es" and k: "k \<in> set (ms_requires_state (om_spec e))"
  proof -
    obtain r where r: "r \<in> set rs" "state_requirements providers e = Inr r"
      using traverse_all [OF rs(1) e] by blast
    then obtain q where "q \<in> set r" "sq_key q = k"
      using traverse_all [OF r(2) [unfolded state_requirements_def] k] by (auto split: option.splits)
    then show ?thesis using r(1) rs(2) by auto
  qed
qed

text \<open>
  In a built application the modules have different names, no slot of \<open>app.state\<close> has two producers in
  either phase, and every slot a middleware reads has a module of the composition that produces it.
\<close>

theorem state_has_one_producer:
  assumes "build_app defaults ms = Inr app"
  shows "distinct (map am_name ms)
    \<and> distinct (concat (map (\<lambda>m. map fst (am_state m)) ms) @ concat (map am_provides_state ms))
    \<and> (\<forall>spec \<in> set (ba_middleware app). \<forall>k \<in> set (ms_requires_state spec). \<exists>m \<in> set ms. k \<in> produced m)"
proof -
  obtain providers qs where b: "validate_composition ms = Inr providers"
      "validate_required_state (collect_middleware ms (merge_allowlists ms)) providers = Inr qs"
      "ba_middleware app = map om_spec (collect_middleware ms (merge_allowlists ms))"
    using build_app_Inr [OF assms] by (metis add_middleware_map built_app.select_convs(4))
  have "\<exists>m \<in> set ms. k \<in> produced m" if "e \<in> set (collect_middleware ms (merge_allowlists ms))"
      "k \<in> set (ms_requires_state (om_spec e))" for e k
    using required_state_Inr(2) [OF b(2) that] required_state_Inr(1) [OF b(2)] validate_composition_Inr(3) [OF b(1)]
    by metis
  then show ?thesis using validate_composition_Inr(1,2) [OF b(1)] b(3) by auto
qed

theorem state_has_one_producer_witness:
  "\<exists>m \<in> {gate_module, users_module True}. ''users'' \<in> produced m"
proof -
  have "sample_spec ''Gate'' 400 [''users''] \<in> set (ba_middleware sample_build)"
    by (simp add: built_stack_is_layered [OF sample_build_ok] sample_modules_defs)
  then show ?thesis
    using state_has_one_producer [OF sample_build_ok] by (fastforce simp: sample_spec_def)
qed

section \<open>Lifespans\<close>

text \<open>Entering runs the modules in order: all of them, or those before the first that fails.\<close>

lemma enter_all_run:
  "enter_all ms entered s = ((failed, left), t) \<Longrightarrow>
     \<exists>xs ys v. ms = xs @ ys \<and> left = rev xs @ entered \<and> for_each am_enter xs s = (Inr (), v) \<and>
       (case failed of None \<Rightarrow> ys = [] \<and> t = v | Some e \<Rightarrow> \<exists>m zs. ys = m # zs \<and> am_enter m v = (Inl e, t))"
proof (induction ms entered s rule: enter_all.induct)
  case (2 m ms entered s)
  obtain r u where m: "am_enter m s = (r, u)" by fastforce
  show ?case
  proof (cases r)
    case (Inl e)
    then show ?thesis using 2(2) m by (intro exI [of _ "[]"] exI [of _ "m # ms"] exI [of _ s]) auto
  next
    case (Inr x)
    then obtain xs ys v where "ms = xs @ ys" "left = rev xs @ m # entered" "for_each am_enter xs u = (Inr (), v)"
        "case failed of None \<Rightarrow> ys = [] \<and> t = v | Some e \<Rightarrow> \<exists>m zs. ys = m # zs \<and> am_enter m v = (Inl e, t)"
      using 2(1) [OF m [symmetric] Inr] 2(2) m by auto
    then show ?thesis
      using m Inr by (intro exI [of _ "m # xs"] exI [of _ ys] exI [of _ v]) (simp add: andthen_def bnd_def)
  qed
qed simp

lemma verify_None: "verify_startup_state qs s = None \<longleftrightarrow> (\<forall>q \<in> set qs. map_of (ho_slots s) (sq_key q) \<noteq> None)"
  by (auto simp: verify_startup_state_def Let_def filter_empty_conv)

text \<open>
  Startup runs the lifespans in the order of the modules. When one of them fails, or a required slot
  is still empty at the end, exactly the modules that had started are left, the last one first, with
  that error, and the server does not start; it starts with every lifespan entered otherwise.
\<close>

theorem failed_startup_unwinds:
  "case lifespan_enter ms qs s of
     (Inr entered, t) \<Rightarrow> entered = rev ms \<and> for_each am_enter ms s = (Inr (), t)
   | (Inl e, u) \<Rightarrow> \<exists>xs ys v x t pending. ms = xs @ ys \<and> for_each am_enter xs s = (Inr (), v)
       \<and> (case ys of [] \<Rightarrow> t = v \<and> verify_startup_state qs t = Some x | m # _ \<Rightarrow> am_enter m v = (Inl x, t))
       \<and> unwind (rev xs) (Some x) t = (pending, u)
       \<and> e = (case pending of Some p \<Rightarrow> p | None \<Rightarrow> no_yield)"
proof -
  obtain failed entered t where r: "enter_all ms [] s = ((failed, entered), t)" by (metis prod_cases3 surj_pair)
  obtain xs ys v where a: "ms = xs @ ys" "entered = rev xs" "for_each am_enter xs s = (Inr (), v)"
      "case failed of None \<Rightarrow> ys = [] \<and> t = v | Some e \<Rightarrow> \<exists>m zs. ys = m # zs \<and> am_enter m v = (Inl e, t)"
    using enter_all_run [OF r] by auto
  show ?thesis
  proof (cases "case failed of Some e \<Rightarrow> Some e | None \<Rightarrow> verify_startup_state qs t")
    case None
    then show ?thesis using r a by (auto simp: lifespan_enter_def split: option.splits)
  next
    case (Some x)
    then have c: "case ys of [] \<Rightarrow> t = v \<and> verify_startup_state qs t = Some x | m # _ \<Rightarrow> am_enter m v = (Inl x, t)"
      using a(4) by (auto split: option.splits)
    obtain pending u where w: "unwind (rev xs) (Some x) t = (pending, u)" by fastforce
    have "lifespan_enter ms qs s =
        (Inl (case pending of Some p \<Rightarrow> p | None \<Rightarrow> no_yield), u)"
      using r Some a(2) w by (cases pending) (simp_all add: lifespan_enter_def)
    then show ?thesis
      using a(1,3) c w by (simp, intro exI [of _ xs] exI [of _ ys] conjI exI [of _ v] exI [of _ x] exI [of _ t]
        exI [of _ pending]) simp_all
  qed
qed

text \<open>
  An application that has started has every slot its middleware read: none of them is first missed by
  a request.
\<close>

theorem started_app_has_its_state:
  assumes "build_app defaults ms = Inr app"
    and "lifespan_enter (ba_modules app) (ba_requirements app) s = (Inr entered, t)"
    and "spec \<in> set (ba_middleware app)" "k \<in> set (ms_requires_state spec)"
  shows "map_of (ho_slots t) k \<noteq> None"
proof -
  obtain providers where b: "validate_required_state (collect_middleware ms (merge_allowlists ms)) providers =
        Inr (ba_requirements app)" "ba_middleware app = map om_spec (collect_middleware ms (merge_allowlists ms))"
    using build_app_Inr [OF assms(1)] by (metis add_middleware_map built_app.select_convs(4,6))
  obtain q where q: "q \<in> set (ba_requirements app)" "sq_key q = k"
    using required_state_Inr(2) [OF b(1)] assms(3,4) b(2) by auto
  have "verify_startup_state (ba_requirements app) t = None"
    using assms(2) by (auto simp: lifespan_enter_def split: prod.splits option.splits)
  then show ?thesis using q by (auto simp: verify_None)
qed

lemma sample_start:
  "lifespan_enter (ba_modules sample_build) (ba_requirements sample_build) \<lparr>ho_slots = [], ho_world = []\<rparr> =
     (Inr [users_module True, gate_module], \<lparr>ho_slots = [(''users'', 1)], ho_world = [''gate up'', ''users up'']\<rparr>)"
proof -
  have "ba_modules sample_build = [gate_module, users_module True]"
      "ba_requirements sample_build = [\<lparr>sq_key = ''users'', sq_required_by = ''gate'', sq_provided_by = ''users''\<rparr>]"
    by (simp_all add: sample_build_def build_defs sample_modules_defs)
  then show ?thesis
    by (simp add: lifespan_enter_def verify_startup_state_def sample_modules_defs log_line_def)
qed

theorem started_app_has_its_state_witness:
  "map_of [(''users'', 1 :: nat)] ''users'' \<noteq> None"
  using started_app_has_its_state [OF sample_build_ok sample_start, of "sample_spec ''Gate'' 400 [''users'']" "''users''"]
  by (simp add: built_stack_is_layered [OF sample_build_ok] sample_modules_defs)

lemma sample_failed_start:
  "lifespan_enter [gate_module, users_module False] [] \<lparr>ho_slots = [], ho_world = []\<rparr> =
     (Inl (RuntimeError ''no database''), \<lparr>ho_slots = [], ho_world = [''gate up'', ''gate down'']\<rparr>)"
  by (simp add: lifespan_enter_def sample_modules_defs log_line_def)

end
