(* ===== verification/AppRoutes.thy ===== *)
theory AppRoutes
  imports AppBuild
begin

text \<open>
  Route overrides of a built application, and the manifest that a client compares with the stock one.
\<close>

section \<open>Which route serves a request line\<close>

abbreviation claims :: "string \<Rightarrow> contributed_route \<Rightarrow> bool" where
  "claims key e \<equiv> key \<in> set (route_keys (cr_spec e))"

text \<open>The specs that claim a key, the winner first.\<close>

definition claimants :: "string \<Rightarrow> contributed_route list \<Rightarrow> contributed_route list" where
  "claimants key es = filter (claims key) es"

definition declared :: "string \<Rightarrow> contributed_route list \<Rightarrow> bool" where
  "declared key es = (case claimants key es of w # _ # _ \<Rightarrow> key \<in> set (sp_overrides (cr_spec w)) | _ \<Rightarrow> True)"

definition winner_of :: "string \<Rightarrow> contributed_route list \<Rightarrow> contributed_route option" where
  "winner_of key es = (case claimants key es of [] \<Rightarrow> None | w # _ \<Rightarrow> Some w)"

lemma claimants_snoc: "claimants key (es @ [e]) = claimants key es @ (if claims key e then [e] else [])"
  by (simp add: claimants_def)

lemma claim_keys_run:
  assumes "distinct keys"
  shows "(\<exists>w. claim_keys e keys winners = Inr w) \<longleftrightarrow>
      (\<forall>k \<in> set keys. \<forall>v. map_of winners k = Some v \<longrightarrow> k \<in> set (sp_overrides (cr_spec v)))"
    and "claim_keys e keys winners = Inr w \<Longrightarrow>
      map_of w k = (if k \<in> set keys \<and> map_of winners k = None then Some e else map_of winners k)"
  using assms by (induction e keys winners rule: claim_keys.induct) (auto split: option.splits if_splits)

lemma winner_snoc:
  "winner_of key (es @ [e]) =
     (case winner_of key es of None \<Rightarrow> if claims key e then Some e else None | Some w \<Rightarrow> Some w)"
  by (auto simp: winner_of_def claimants_snoc split: list.splits)

lemma declared_snoc:
  "declared key (es @ [e]) \<longleftrightarrow> declared key es \<and>
     (claims key e \<longrightarrow> (\<forall>w. winner_of key es = Some w \<longrightarrow> key \<in> set (sp_overrides (cr_spec w))))"
  by (auto simp: declared_def winner_of_def claimants_snoc split: list.splits)

lemma declared_appendD: "declared key (xs @ ys) \<Longrightarrow> declared key xs"
proof -
  have "claimants key (xs @ ys) = claimants key xs @ claimants key ys" by (simp add: claimants_def)
  then show "declared key (xs @ ys) \<Longrightarrow> declared key xs"
    by (cases "claimants key xs" rule: remdups_adj.cases) (simp_all add: declared_def)
qed

lemma claim_routes_run:
  assumes "map_of winners = (\<lambda>k. winner_of k seen)" "\<forall>k. declared k seen"
  shows "(\<exists>w. claim_routes es winners = Inr w) \<longleftrightarrow> (\<forall>k. declared k (seen @ es))"
  using assms
proof (induction es arbitrary: seen winners)
  case (Cons e es)
  let ?keys = "dedup (route_keys (cr_spec e))"
  note run = claim_keys_run [OF distinct_dedup, of e "route_keys (cr_spec e)" winners]
  show ?case
  proof (cases "claim_keys e ?keys winners")
    case (Inl x)
    then obtain k v where "k \<in> set (route_keys (cr_spec e))" "map_of winners k = Some v" "k \<notin> set (sp_overrides (cr_spec v))"
      using run(1) by auto
    then have "\<not> declared k (seen @ [e])"
      using Cons.prems(1) by (simp add: declared_snoc)
    then have "\<not> declared k (seen @ e # es)"
      using declared_appendD [of k "seen @ [e]" es] by auto
    then show ?thesis using Inl by auto
  next
    case (Inr w)
    have "map_of w = (\<lambda>k. winner_of k (seen @ [e]))"
      using run(2) [OF Inr] Cons.prems(1) by (auto simp: fun_eq_iff winner_snoc split: option.split)
    moreover have "\<forall>k. declared k (seen @ [e])"
      using run(1) Inr Cons.prems by (auto simp: declared_snoc)
    ultimately show ?thesis using Cons.IH [of w "seen @ [e]"] Inr by simp
  qed
qed simp

lemma collisions_declared: "validate_route_collisions es = Inr () \<longleftrightarrow> (\<forall>k. declared k es)"
proof -
  have "(\<exists>w. claim_routes es [] = Inr w) \<longleftrightarrow> (\<forall>k. declared k es)"
    using claim_routes_run [of "[]" "[]" es] by (simp add: winner_of_def claimants_def declared_def)
  then show ?thesis by (auto simp: validate_route_collisions_def split: sum.splits)
qed

section \<open>Mounting\<close>

definition mounted_keys :: "mounted_route \<Rightarrow> string list" where
  "mounted_keys r = (case mr_path r of None \<Rightarrow> []
     | Some p \<Rightarrow> map (\<lambda>m. m @ '' '' @ p) (sorted_methods \<lparr>ro_path = mr_path r, ro_methods = mr_methods r\<rparr>))"

definition first_match :: "string \<Rightarrow> mounted_route list \<Rightarrow> mounted_route option" where
  "first_match key rs = List.find (\<lambda>r. key \<in> set (mounted_keys r)) rs"

lemma mount_routes_concat: "mount_routes es = concat (map include_router es)"
proof -
  have "foldl (\<lambda>app entry. app @ include_router entry) acc es = acc @ concat (map include_router es)" for acc
    by (induction es arbitrary: acc) simp_all
  then show ?thesis by (simp add: mount_routes_def)
qed

lemma included_keys: "(\<exists>r \<in> set (include_router e). key \<in> set (mounted_keys r)) \<longleftrightarrow> claims key e"
proof -
  have "concat (map mounted_keys (include_router e)) = route_keys (cr_spec e)"
    by (auto simp: include_router_def mounted_keys_def route_keys_def sorted_methods_def comp_def
        intro!: arg_cong [where f = concat] split: option.split)
  then have "claims key e \<longleftrightarrow> key \<in> set (concat (map mounted_keys (include_router e)))" by simp
  then show ?thesis by auto
qed

lemma included_spec: "r \<in> set (include_router e) \<Longrightarrow> mr_spec r = e"
  by (auto simp: include_router_def)

lemma find_append: "List.find P (xs @ ys) = (case List.find P xs of None \<Rightarrow> List.find P ys | Some x \<Rightarrow> Some x)"
  by (induction xs) auto

lemma first_match_winner: "map_option mr_spec (first_match key (mount_routes es)) = winner_of key es"
proof -
  have "map_option mr_spec (List.find (\<lambda>r. key \<in> set (mounted_keys r)) (concat (map include_router es))) = winner_of key es"
  proof (induction es)
    case (Cons e es)
    show ?case
    proof (cases "List.find (\<lambda>r. key \<in> set (mounted_keys r)) (include_router e)")
      case None
      then have "\<not> claims key e" using included_keys [of e key] by (auto simp: find_None_iff)
      then show ?thesis using None Cons by (simp add: find_append winner_of_def claimants_def)
    next
      case (Some r)
      then have "r \<in> set (include_router e)" "claims key e"
        using included_keys [of e key] by (auto simp: find_Some_iff)
      then show ?thesis using Some included_spec by (simp add: find_append winner_of_def claimants_def)
    qed
  qed (simp add: winner_of_def claimants_def)
  then show ?thesis by (simp add: first_match_def mount_routes_concat)
qed

text \<open>
  In a built application a method and path is served by the first spec that claims it, and where a
  second spec claims it too the first one has declared the override; a composition with an
  undeclared collision is not built.
\<close>

theorem shadowed_routes_are_declared:
  "case build_app defaults ms of
     Inr app \<Rightarrow> (\<forall>key. declared key (collect_routes ms)
       \<and> map_option mr_spec (first_match key (ba_routes app)) = winner_of key (collect_routes ms))
   | Inl (RouteCollisionError m) \<Rightarrow> (\<exists>key. \<not> declared key (collect_routes ms))
   | Inl e \<Rightarrow> True"
proof (cases "build_app defaults ms")
  case (Inr app)
  then show ?thesis
    using first_match_winner collisions_declared by (auto elim!: build_app_Inr)
next
  case (Inl e)
  have "\<exists>key. \<not> declared key (collect_routes ms)" if "e = RouteCollisionError m" for m
  proof (rule ccontr)
    assume "\<not> ?thesis"
    then have ok: "validate_route_collisions (collect_routes ms) = Inr ()" by (simp add: collisions_declared)
    have check: "check_names names l \<noteq> Inl (RouteCollisionError m)" for names and l :: "('a, 'b, 'c) app_module list"
      by (induction names l rule: check_names.induct) auto
    have add: "add_providers n ks p \<noteq> Inl (RouteCollisionError m)" for n ks p
      by (induction n ks p rule: add_providers.induct) (auto simp: two_producers_def split: option.splits)
    have provide: "provide_all f l p \<noteq> Inl (RouteCollisionError m)" for f p and l :: "('a, 'b, 'c) app_module list"
      using add by (induction l arbitrary: p) (auto split: sum.splits)
    have "state_requirements p x \<noteq> Inl (RouteCollisionError m)" for p x
      unfolding state_requirements_def
      by (auto dest!: traverse_error simp: missing_provider_def split: option.splits)
    then have "validate_required_state es p \<noteq> Inl (RouteCollisionError m)" for es p
      by (auto simp: validate_required_state_def dest!: traverse_error split: sum.splits)
    then show False
      using Inl ok that check provide
      by (auto simp: build_app_def validate_composition_def Let_def split: sum.splits)
  qed
  then show ?thesis using Inl by (auto split: exn.split)
qed

section \<open>The manifest\<close>

record app_manifest =
  mf_routes :: "string list"
  mf_middleware :: "string list"

record manifest_delta_result =
  md_routes_added :: "string list"
  md_routes_removed :: "string list"
  md_middleware_added :: "string list"
  md_middleware_removed :: "string list"
  md_stock_middleware_reordered :: bool

text \<open>\<open>builtins\<close>: the routes a fresh \<open>FastAPI\<close> has, before the mounted ones.\<close>

definition manifest_entry :: "router_route \<Rightarrow> string option" where
  "manifest_entry r = (case ro_path r of None \<Rightarrow> None
     | Some path \<Rightarrow> Some (joined '','' (sorted_methods r) @ '' '' @ path))"

definition build_manifest :: "router_route list \<Rightarrow> ('v, 'w, 'h) built_app \<Rightarrow> app_manifest" where
  "build_manifest builtins app =
     \<lparr>mf_routes = sort (List.map_filter manifest_entry
        (builtins @ map (\<lambda>r. \<lparr>ro_path = mr_path r, ro_methods = mr_methods r\<rparr>) (ba_routes app))),
      mf_middleware = map ms_class (ba_middleware app)\<rparr>"

text \<open>\<open>sorted(set(xs) - set(ys))\<close>.\<close>

definition sorted_difference :: "string list \<Rightarrow> string list \<Rightarrow> string list" where
  "sorted_difference xs ys = sort (remdups (filter (\<lambda>x. x \<notin> set ys) xs))"

definition manifest_delta :: "app_manifest \<Rightarrow> app_manifest \<Rightarrow> manifest_delta_result" where
  "manifest_delta stock composed =
     (let stock_names = set (mf_middleware stock);
          composed_names = set (mf_middleware composed);
          shared_in_composed = filter (\<lambda>n. n \<in> stock_names) (mf_middleware composed);
          shared_in_stock = filter (\<lambda>n. n \<in> composed_names) (mf_middleware stock)
      in \<lparr>md_routes_added = sorted_difference (mf_routes composed) (mf_routes stock),
          md_routes_removed = sorted_difference (mf_routes stock) (mf_routes composed),
          md_middleware_added = filter (\<lambda>n. n \<notin> stock_names) (mf_middleware composed),
          md_middleware_removed = filter (\<lambda>n. n \<notin> composed_names) (mf_middleware stock),
          md_stock_middleware_reordered = (shared_in_composed \<noteq> shared_in_stock)\<rparr>)"

lemma set_sorted_difference [simp]: "set (sorted_difference xs ys) = set xs - set ys"
  by (auto simp: sorted_difference_def)

text \<open>
  The delta tells what a client changed and no more: adding and removing its routes turns the stock
  table into the composed one, and the reorder flag is down exactly when the composed stack is the
  stock one with some names taken out and other names slipped in.
\<close>

theorem manifest_delta_is_exact:
  "(set (mf_routes stock) - set (md_routes_removed (manifest_delta stock composed)))
       \<union> set (md_routes_added (manifest_delta stock composed)) = set (mf_routes composed)
   \<and> sorted (md_routes_added (manifest_delta stock composed))
   \<and> (\<not> md_stock_middleware_reordered (manifest_delta stock composed) \<longleftrightarrow>
        (\<exists>taken. filter (\<lambda>n. n \<in> set (mf_middleware stock)) (mf_middleware composed) =
                 filter (\<lambda>n. n \<notin> taken) (mf_middleware stock)))"
proof -
  let ?s = "mf_middleware stock" and ?c = "mf_middleware composed"
  have "filter (\<lambda>n. n \<in> set ?s) ?c = filter (\<lambda>n. n \<in> set ?c) ?s"
    if "filter (\<lambda>n. n \<in> set ?s) ?c = filter (\<lambda>n. n \<notin> taken) ?s" for taken
  proof -
    have "set ?s \<inter> set ?c = set ?s - taken"
      using arg_cong [OF that, of set] by auto
    then have "filter (\<lambda>n. n \<in> set ?c) ?s = filter (\<lambda>n. n \<notin> taken) ?s"
      by (intro filter_cong) auto
    then show ?thesis using that by simp
  qed
  then have "\<not> md_stock_middleware_reordered (manifest_delta stock composed) \<longleftrightarrow>
      (\<exists>taken. filter (\<lambda>n. n \<in> set ?s) ?c = filter (\<lambda>n. n \<notin> taken) ?s)"
    by (auto simp: manifest_delta_def Let_def intro!: exI [of _ "- set ?c"])
  moreover have "sorted (sorted_difference xs ys)" for xs ys by (simp add: sorted_difference_def)
  ultimately show ?thesis by (auto simp: manifest_delta_def Let_def)
qed

end
