(* ===== verification/RuntimeCache.thy ===== *)
theory RuntimeCache
  imports Placement
begin

text \<open>
  \<open>protocols/runtime_cache.py\<close> as the locale \<open>runtime_cache\<close>,
  \<open>adapters/community/local_runtime_cache.py\<close> as its implementation on a dictionary,
  \<open>adapters/shared/runtime_cache_eviction_subscriber.py\<close>, and the boot-time \<open>warm()\<close>.
\<close>

section \<open>LocalRuntimeCache\<close>

type_synonym cache = "(uuid, team_handle) dict"

definition cache_store :: "uuid \<Rightarrow> team_handle \<Rightarrow> cache \<Rightarrow> cache" where
  "cache_store i h c = AList.update i h c"

definition cache_get :: "uuid \<Rightarrow> cache \<Rightarrow> team_handle option" where
  "cache_get i c = map_of c i"

definition cache_remove :: "uuid \<Rightarrow> cache \<Rightarrow> cache" where
  "cache_remove i c = AList.delete i c"

lemmas cache_defs = cache_store_def cache_get_def cache_remove_def

section \<open>The interface\<close>

text \<open>
  The behavioural contract of the protocol: \<open>store\<close> overwrites, \<open>remove\<close> is a no-op for an unknown
  id, and neither is seen by any other id. None of the three raises, so they are plain functions.
\<close>

locale handle_store =
  fixes store :: "uuid \<Rightarrow> team_handle \<Rightarrow> 'c \<Rightarrow> 'c"
    and get :: "uuid \<Rightarrow> 'c \<Rightarrow> team_handle option"
  assumes get_store: "get j (store i h c) = (if j = i then Some h else get j c)"
begin

lemma store_overwrites: "get j (store i h (store i g c)) = get j (store i h c)"
  by (simp add: get_store)

text \<open>Storing the handles of other teams leaves a team's handle alone.\<close>

lemma fold_store_other:
  "i \<notin> fst ` set xs \<Longrightarrow> get i (fold (\<lambda>(j, h). store j h) xs c) = get i c"
  by (induction xs arbitrary: c) (auto simp: get_store split: prod.splits)

end

locale runtime_cache = handle_store store get
  for store :: "uuid \<Rightarrow> team_handle \<Rightarrow> 'c \<Rightarrow> 'c" and get :: "uuid \<Rightarrow> 'c \<Rightarrow> team_handle option" +
  fixes remove :: "uuid \<Rightarrow> 'c \<Rightarrow> 'c"
  assumes get_remove: "get j (remove i c) = (if j = i then None else get j c)"
begin

lemma remove_absent: "get i c = None \<Longrightarrow> get j (remove i c) = get j c"
  by (simp add: get_remove)

lemma store_remove: "get j (remove i (store i h c)) = get j (remove i c)"
  by (simp add: get_store get_remove)

end

interpretation local_cache: runtime_cache cache_store cache_get cache_remove
  by unfold_locales (simp_all add: cache_defs)

section \<open>RuntimeCacheEvictionSubscriber\<close>

text \<open>
  \<open>on_stop\<close> removes the stopped team's handle; an exception of the cache is swallowed. Every other
  callback does nothing.
\<close>

definition eviction_on_stop :: "uuid \<Rightarrow> (cache, unit) prog" where
  "eviction_on_stop i = best_effort (writing (cache_remove i))"

section \<open>warm\<close>

text \<open>
  \<open>warm\<close> over the whole state: the store's answer for the running teams, the worker handle's
  \<open>stop_team\<close>, the placement's \<open>resume_team\<close> and this cache's \<open>store\<close>.
\<close>

definition warm_one ::
    "(uuid \<Rightarrow> ('s, unit) prog) \<Rightarrow> (uuid \<Rightarrow> ('s, team_handle) prog) \<Rightarrow>
     (uuid \<Rightarrow> team_handle \<Rightarrow> 's \<Rightarrow> 's) \<Rightarrow> process \<Rightarrow> ('s, unit) prog" where
  "warm_one stop resume store p =
     best_effort (andthen (stop (team_id p))
       (bnd (resume (team_id p)) (\<lambda>h. writing (store (team_id p) h))))"

definition warm ::
    "('s \<Rightarrow> exn + process list) \<Rightarrow> (uuid \<Rightarrow> ('s, unit) prog) \<Rightarrow> (uuid \<Rightarrow> ('s, team_handle) prog) \<Rightarrow>
     (uuid \<Rightarrow> team_handle \<Rightarrow> 's \<Rightarrow> 's) \<Rightarrow> ('s, unit) prog" where
  "warm list_running stop resume store =
     bnd (reading list_running) (\<lambda>running. for_each (warm_one stop resume store) running)"

lemma warm_one_ok: "fst (warm_one stop resume store p s) = Inr ()"
  by (simp add: warm_one_def best_effort_total)

lemma for_each_ok:
  "(\<And>x s. fst (f x s) = Inr ()) \<Longrightarrow> for_each f xs s = (Inr (), fold (\<lambda>x s. snd (f x s)) xs s)"
proof (induction xs arbitrary: s)
  case (Cons x xs)
  have "f x s = (Inr (), snd (f x s))" by (metis Cons.prems prod.collapse)
  then have "for_each f (x # xs) s = for_each f xs (snd (f x s))"
    by (metis (no_types, lifting) andthen_def bnd_def case_prod_conv for_each.simps(2) old.sum.simps(6))
  then show ?case using Cons by simp
qed simp

lemma for_each_warm:
  "for_each (warm_one stop resume store) ps s =
     (Inr (), fold (\<lambda>p s. snd (warm_one stop resume store p s)) ps s)"
  by (rule for_each_ok) (rule warm_one_ok)

context handle_store
begin

text \<open>A boot step for one team leaves the handles of the others alone.\<close>

lemma warm_one_other:
  assumes "\<And>i j s. j \<noteq> i \<Longrightarrow> get j (snd (stop i s)) = get j s"
    and "\<And>i j s. j \<noteq> i \<Longrightarrow> get j (snd (resume i s)) = get j s" and "j \<noteq> team_id p"
  shows "get j (snd (warm_one stop resume store p s)) = get j s"
  using assms(1) [OF assms(3), of s] assms(2) [OF assms(3), of "snd (stop (team_id p) s)"] assms(3)
  by (auto simp: warm_one_def best_effort_state andthen_def bnd_def get_store split: prod.splits sum.splits)

lemma warm_fold_other:
  assumes "\<And>i j s. j \<noteq> i \<Longrightarrow> get j (snd (stop i s)) = get j s"
    and "\<And>i j s. j \<noteq> i \<Longrightarrow> get j (snd (resume i s)) = get j s" and "j \<notin> team_id ` set ps"
  shows "get j (fold (\<lambda>p s. snd (warm_one stop resume store p s)) ps s) = get j s"
  using assms(3)
  by (induction ps arbitrary: s) (auto simp: warm_one_other [OF assms(1,2)])

lemma warm_restores:
  assumes "\<And>i j s. j \<noteq> i \<Longrightarrow> get j (snd (stop i s)) = get j s"
    and "\<And>i j s. j \<noteq> i \<Longrightarrow> get j (snd (resume i s)) = get j s"
    and "team_id p \<notin> team_id ` set qs"
    and "stop (team_id p) (snd (for_each (warm_one stop resume store) ps s)) = (Inr (), t)"
    and "resume (team_id p) t = (Inr h, u)"
  shows "get (team_id p) (snd (for_each (warm_one stop resume store) (ps @ p # qs) s)) = Some h"
  using assms(4,5) warm_fold_other [OF assms(1-3)]
  by (simp add: for_each_warm)
    (simp add: warm_one_def best_effort_def try_except_def andthen_def bnd_def get_store)

end

text \<open>
  At boot, one team that cannot be stopped or resumed does not keep the others down: \<open>warm\<close> never
  raises once the store has answered, and every running team whose stop and resume succeed, in the
  state the earlier ones left, has the resumed handle in the cache at the end.
\<close>

theorem warm_survives_failures:
  assumes "list_running s = Inr (ps @ p # qs)"
    and "\<And>i j s. j \<noteq> i \<Longrightarrow> cache_get j (c (snd (stop i s))) = cache_get j (c s)"
    and "\<And>i j s. j \<noteq> i \<Longrightarrow> cache_get j (c (snd (resume i s))) = cache_get j (c s)"
    and "\<And>i h s. c (store i h s) = cache_store i h (c s)"
    and "team_id p \<notin> team_id ` set qs"
    and "stop (team_id p) (snd (for_each (warm_one stop resume store) ps s)) = (Inr (), t)"
    and "resume (team_id p) t = (Inr h, u)"
  shows "\<exists>v. warm list_running stop resume store s = (Inr (), v) \<and>
             cache_get (team_id p) (c v) = Some h"
proof -
  let ?get = "\<lambda>i s. cache_get i (c s)"
  have store: "handle_store store ?get"
    by (rule handle_store.intro) (simp add: assms(4) local_cache.get_store)
  have "?get (team_id p) (snd (for_each (warm_one stop resume store) (ps @ p # qs) s)) = Some h"
    by (rule handle_store.warm_restores [OF store assms(2,3,5-7)])
  then show ?thesis
    using assms(1) by (simp add: warm_def bnd_def for_each_warm)
qed

text \<open>A reference boot: team 3 is recorded as running but cannot be stopped, team 7 can.\<close>

definition boot_team :: "uuid \<Rightarrow> process" where
  "boot_team i = new_process i sample_args"

definition boot_stop :: "uuid \<Rightarrow> (cache, unit) prog" where
  "boot_stop i = (if i = 3 then throw (ValueError ''broken'') else ret ())"

definition boot_resume :: "uuid \<Rightarrow> (cache, team_handle) prog" where
  "boot_resume i = ret (LocalTeamHandle \<lparr>rt_id = i, rt_object = 0\<rparr>)"

theorem warm_survives_failures_witness:
  "\<exists>v. warm (\<lambda>_. Inr [boot_team 3, boot_team 7]) boot_stop boot_resume cache_store [] = (Inr (), v) \<and>
       cache_get 7 v = Some (LocalTeamHandle \<lparr>rt_id = 7, rt_object = 0\<rparr>)"
proof -
  have ids: "team_id (boot_team i) = i" for i by (simp add: boot_team_def new_process_def)
  have keep: "cache_get j (snd (boot_stop i s)) = cache_get j s"
    "cache_get j (snd (boot_resume i s)) = cache_get j s" for i j s
    by (simp_all add: boot_stop_def boot_resume_def)
  show ?thesis
    using warm_survives_failures [where c = "\<lambda>s. s" and store = cache_store and p = "boot_team 7"
        and ps = "[boot_team 3]" and qs = "[]" and stop = boot_stop and resume = boot_resume
        and s = "[]" and list_running = "\<lambda>_. Inr [boot_team 3, boot_team 7]"
        and h = "LocalTeamHandle \<lparr>rt_id = 7, rt_object = 0\<rparr>"] keep
    by (auto simp: ids boot_stop_def boot_resume_def)
qed

end
