(* ===== verification/MetadataPayload.thy ===== *)
theory MetadataPayload
  imports Data
begin

text \<open>
  \<open>server/services/_metadata_payload.py\<close>: business metadata between the wire and the store. A body
  that names a model type at any depth is refused, and the type tags the store needs never leave the
  server. \<open>model_validate\<close> is pydantic's: a parameter that answers the validated instance or the
  list of errors, each a location and a message.
\<close>

definition model_tag :: string where
  "model_tag = ''__model__''"

section \<open>The scan\<close>

lemma json_child_size [termination_simp]:
  "v \<in> set (map snd d) \<Longrightarrow> size v < Suc (size_list (size_prod (\<lambda>_. 0) size) d)"
  by (induction d) fastforce+

text \<open>\<open>_contains_model_tag\<close>.\<close>

fun contains_model_tag :: "json \<Rightarrow> bool" where
  "contains_model_tag (JObj d) =
     (model_tag \<in> set (map fst d) \<or> (\<exists>v \<in> set (map snd d). contains_model_tag v))"
| "contains_model_tag (JList xs) = (\<exists>v \<in> set xs. contains_model_tag v)"
| "contains_model_tag _ = False"

section \<open>Validation\<close>

type_synonym validation_errors = "(string list \<times> string) list"

text \<open>\<open>''.''.join\<close>.\<close>

fun join_dots :: "string list \<Rightarrow> string" where
  "join_dots [] = ''''"
| "join_dots [p] = p"
| "join_dots (p # ps) = p @ ''.'' @ join_dots ps"

definition describe_validation_failure :: "validation_errors \<Rightarrow> string" where
  "describe_validation_failure errors =
     (case errors of
        [] \<Rightarrow> ''metadata does not match the team's declared schema''
      | (loc, msg) # _ \<Rightarrow>
          (let joined = join_dots loc; field = (if joined = '''' then ''<root>'' else joined)
           in ''metadata field '' @ CHR 0x27 # field @ CHR 0x27 # '' is invalid: '' @ msg))"

type_synonym model_validate =
  "string \<Rightarrow> (string \<times> json) list \<Rightarrow> validation_errors + metadata"

text \<open>\<open>validate_metadata\<close>, the four steps in the order of the code.\<close>

definition tag_refused :: exn where
  "tag_refused = MetadataValidationError
     (''metadata must not contain a '' @ CHR 0x27 # model_tag @ CHR 0x27 # '' key at any depth: the metadata '' @
      ''type is chosen by the team's catalog entry, never by the request body'')"

definition no_contract :: exn where
  "no_contract = MetadataValidationError
     ''this team declares no metadata contract, so metadata cannot be supplied''"

definition validate_metadata ::
    "model_validate \<Rightarrow> string option \<Rightarrow> (string \<times> json) list option \<Rightarrow> exn + metadata option" where
  "validate_metadata mv ty raw =
     (if (case raw of None \<Rightarrow> False | Some d \<Rightarrow> contains_model_tag (JObj d)) then Inl tag_refused
      else case raw of
        None \<Rightarrow> Inr None
      | Some d \<Rightarrow>
          if d = [] then Inr None
          else case ty of
            None \<Rightarrow> Inl no_contract
          | Some t \<Rightarrow> (case mv t d of
                Inl errors \<Rightarrow> Inl (MetadataValidationError (describe_validation_failure errors))
              | Inr m \<Rightarrow> Inr (Some m)))"

section \<open>The dump\<close>

text \<open>\<open>_strip_model_tags\<close> and \<open>dump_metadata\<close>.\<close>

fun strip_model_tags :: "json \<Rightarrow> json" where
  "strip_model_tags (JObj d) =
     JObj (map (\<lambda>kv. (fst kv, strip_model_tags (snd kv))) (filter (\<lambda>kv. fst kv \<noteq> model_tag) d))"
| "strip_model_tags (JList xs) = JList (map strip_model_tags xs)"
| "strip_model_tags v = v"

definition dump_metadata :: "metadata option \<Rightarrow> (string \<times> json) list option" where
  "dump_metadata m =
     (case m of
        None \<Rightarrow> None
      | Some x \<Rightarrow> Some (map (\<lambda>kv. (fst kv, strip_model_tags (snd kv)))
            (filter (\<lambda>kv. fst kv \<noteq> model_tag) (md_dump x))))"

lemma dump_is_strip: "dump_metadata (Some m) = json_obj (strip_model_tags (JObj (md_dump m)))"
  by (simp add: dump_metadata_def)

section \<open>Lemmas\<close>

lemma strip_has_no_tag: "\<not> contains_model_tag (strip_model_tags v)"
  by (induction v rule: strip_model_tags.induct) auto

lemma strip_untagged: "\<not> contains_model_tag v \<Longrightarrow> strip_model_tags v = v"
proof (induction v rule: strip_model_tags.induct)
  case (1 d)
  have "strip_model_tags (snd kv) = snd kv" if "kv \<in> set d" for kv
    using 1 that by (cases kv) (auto simp: image_iff, fastforce)
  moreover have "filter (\<lambda>kv. fst kv \<noteq> model_tag) d = d"
    using 1(2) by (intro filter_True) (auto simp: image_iff)
  ultimately show ?case by (simp add: map_idI)
next
  case (2 xs)
  then show ?case by (auto intro: map_idI)
qed simp_all

lemma strip_idem: "strip_model_tags (strip_model_tags v) = strip_model_tags v"
  by (rule strip_untagged) (rule strip_has_no_tag)

lemma dump_has_no_tag: "dump_metadata m = Some d \<Longrightarrow> \<not> contains_model_tag (JObj d)"
proof (cases m)
  case (Some x)
  then show "dump_metadata m = Some d \<Longrightarrow> \<not> contains_model_tag (JObj d)"
    using strip_has_no_tag [of "JObj (md_dump x)"] by (auto simp: dump_is_strip)
qed (simp add: dump_metadata_def)

lemma validate_metadata_Some:
  "\<not> contains_model_tag (JObj d) \<Longrightarrow> d \<noteq> [] \<Longrightarrow> validate_metadata mv (Some ty) (Some d) =
     (case mv ty d of Inl errors \<Rightarrow> Inl (MetadataValidationError (describe_validation_failure errors))
        | Inr m \<Rightarrow> Inr (Some m))"
  by (simp add: validate_metadata_def)

lemma validate_error_kind:
  "validate_metadata mv ty raw = Inl e \<Longrightarrow> \<exists>m. e = MetadataValidationError m"
  by (auto simp: validate_metadata_def tag_refused_def no_contract_def
      split: if_splits option.splits sum.splits)

text \<open>
  A body that carries the type tag at any depth is refused with the tag's own reason, whatever type
  the team declares and whether or not it declares one; a body that is accepted carries none, and
  what was validated is the type the team declared.
\<close>

theorem metadata_type_never_from_client:
  "(contains_model_tag (JObj d) \<longrightarrow> validate_metadata mv ty (Some d) = Inl tag_refused) \<and>
   (validate_metadata mv ty (Some d) = Inr (Some m) \<longrightarrow>
      \<not> contains_model_tag (JObj d) \<and> (\<exists>t. ty = Some t \<and> mv t d = Inr m))"
  by (auto simp: validate_metadata_def tag_refused_def no_contract_def simp del: contains_model_tag.simps
      split: if_splits option.splits sum.splits)

definition sample_validate :: model_validate where
  "sample_validate ty d = Inr \<lparr>md_type = ty, md_dump = (model_tag, JStr ty) # d\<rparr>"

theorem metadata_type_never_from_client_witness:
  "validate_metadata sample_validate None (Some [(''a'', JList [JObj [(model_tag, JStr ''X'')]])]) = Inl tag_refused"
  using metadata_type_never_from_client
    [where d = "[(''a'', JList [JObj [(model_tag, JStr ''X'')]])]" and mv = sample_validate and ty = None]
  by simp

text \<open>
  Reading metadata and sending it back is accepted: the dump carries no tag at any depth, so a
  non-empty dump passes the scan and reaches the declared type, and when that type reconstructs the
  instance from its untagged dump, the update stores the instance that was read.
\<close>

theorem metadata_round_trip:
  assumes "dump_metadata (Some m) = Some d" and "d \<noteq> []" and "mv (md_type m) d = Inr m"
  shows "validate_metadata mv (Some (md_type m)) (dump_metadata (Some m)) = Inr (Some m)"
  using assms dump_has_no_tag [OF assms(1)] validate_metadata_Some by simp

definition sample_metadata :: metadata where
  "sample_metadata = \<lparr>md_type = ''Case'',
     md_dump = [(model_tag, JStr ''Case''), (''sub'', JObj [(model_tag, JStr ''Sub''), (''n'', JInt 1)])]\<rparr>"

definition sample_retag :: model_validate where
  "sample_retag ty d = Inr \<lparr>md_type = ty, md_dump =
     (model_tag, JStr ty) # map (\<lambda>(k, v). (k, case v of
        JObj e \<Rightarrow> JObj ((model_tag, JStr ''Sub'') # e) | _ \<Rightarrow> v)) d\<rparr>"

theorem metadata_round_trip_witness:
  "dump_metadata (Some sample_metadata) = Some [(''sub'', JObj [(''n'', JInt 1)])] \<and>
   validate_metadata sample_retag (Some ''Case'') (dump_metadata (Some sample_metadata)) = Inr (Some sample_metadata)"
  using metadata_round_trip [of sample_metadata "[(''sub'', JObj [(''n'', JInt 1)])]" sample_retag]
  by (simp add: dump_metadata_def sample_metadata_def sample_retag_def model_tag_def)

end
