(* ===== verification/Workspaces.thy ===== *)
theory Workspaces
  imports Data
begin

text \<open>
  Which directories belong to a team, and which of them go when it is deleted:
  \<open>server/services/_workspace_paths.py\<close>, the tree removal of
  \<open>server/services/team_service.py\<close>, \<open>protocols/workspace_deletion.py\<close>,
  \<open>adapters/shared/team_tree_only_policy.py\<close>, \<open>keep_every_tree_policy.py\<close> and
  \<open>workspace_deletion_mode.py\<close>.

  A path is the list of its parts; an absolute one starts with the part \<open>/\<close>. The path resolver, the
  card store, the sidecar locations (\<open>akgentic.tool\<close>, \<open>akgentic.team\<close>) and the file system are
  parameters.
\<close>

type_synonym path = "string list"

section \<open>Declared workspaces\<close>

text \<open>
  An agent card carries a bare configuration, or an agent configuration with tools, of which only a
  \<open>WorkspaceTool\<close> declares a workspace.
\<close>

type_synonym layout = "string option \<times> string list \<times> bool"

datatype tool_card = WorkspaceTool "string option" "string list" bool | OtherTool

datatype card_config = BaseConfig | AgentConfig "tool_card list"

record 'e card_ops =
  resolve_agent_cards :: "(string \<times> string) list \<Rightarrow> 'e \<Rightarrow> exn + card_config list"
  resolve_workspace_path ::
    "string option \<Rightarrow> string list \<Rightarrow> string \<Rightarrow> string \<Rightarrow> metadata option \<Rightarrow> bool \<Rightarrow> exn + path"

definition declared_layout :: "tool_card \<Rightarrow> layout option" where
  "declared_layout tool =
     (case tool of WorkspaceTool i keys sharable \<Rightarrow> Some (i, keys, sharable) | OtherTool \<Rightarrow> None)"

definition config_tools :: "card_config \<Rightarrow> tool_card list" where
  "config_tools c = (case c of BaseConfig \<Rightarrow> [] | AgentConfig tools \<Rightarrow> tools)"

definition team_layouts :: "'e card_ops \<Rightarrow> process \<Rightarrow> 'e \<Rightarrow> exn + layout list" where
  "team_layouts W p store =
     (case resolve_agent_cards W (agent_cards p) store of
        Inl e \<Rightarrow> Inl e
      | Inr cards \<Rightarrow> Inr (List.map_filter declared_layout (concat (map config_tools cards))))"

definition resolve_layout :: "'e card_ops \<Rightarrow> process \<Rightarrow> layout \<Rightarrow> exn + path" where
  "resolve_layout W p l =
     (case l of (i, keys, sharable) \<Rightarrow>
        resolve_workspace_path W i keys (uuid_str (team_id p)) (user_id p) (metadata p) sharable)"

definition declared_from_layouts :: "'e card_ops \<Rightarrow> process \<Rightarrow> layout list \<Rightarrow> exn + path list" where
  "declared_from_layouts W p layouts =
     (case traverse (resolve_layout W p) layouts of Inl e \<Rightarrow> Inl e | Inr ps \<Rightarrow> Inr (dedup ps))"

text \<open>A set of booleans, as the list of its elements.\<close>

definition is_default_layout :: "layout \<Rightarrow> bool" where
  "is_default_layout l = (case l of (i, keys, _) \<Rightarrow> i = None \<and> keys = [])"

definition default_sharable :: "layout list \<Rightarrow> bool list" where
  "default_sharable layouts = dedup (map (\<lambda>(_, _, s). s) (filter is_default_layout layouts))"

definition resolve_default :: "'e card_ops \<Rightarrow> process \<Rightarrow> bool \<Rightarrow> exn + path" where
  "resolve_default W p sharable =
     resolve_workspace_path W None [] (uuid_str (team_id p)) (user_id p) (metadata p) sharable"

definition path_name :: "path \<Rightarrow> string" where
  "path_name p = (if p = [] then '''' else last p)"

definition select_declared_path :: "path list \<Rightarrow> string \<Rightarrow> exn + path option" where
  "select_declared_path paths leaf =
     (case filter (\<lambda>p. path_name p = leaf) paths of
        [] \<Rightarrow> Inr None
      | [p] \<Rightarrow> Inr (Some p)
      | _ \<Rightarrow> Inl (ValueError ''the workspace leaf is declared by more than one of the team's cards''))"

definition declared_workspace_paths :: "'e card_ops \<Rightarrow> process \<Rightarrow> 'e \<Rightarrow> exn + path list" where
  "declared_workspace_paths W p store =
     (case team_layouts W p store of Inl e \<Rightarrow> Inl e | Inr ls \<Rightarrow> declared_from_layouts W p ls)"

definition default_workspace_path :: "'e card_ops \<Rightarrow> process \<Rightarrow> 'e \<Rightarrow> exn + path" where
  "default_workspace_path W p store =
     (case team_layouts W p store of
        Inl e \<Rightarrow> Inl e
      | Inr ls \<Rightarrow>
          (case default_sharable ls of
             [] \<Rightarrow> resolve_default W p False
           | [b] \<Rightarrow> resolve_default W p b
           | _ \<Rightarrow> Inl (ValueError (''the team's default-layout workspace cards disagree on '' @
                   ''workspace_sharable, so no single tree is the team's own''))))"

definition deletion_candidate_paths :: "'e card_ops \<Rightarrow> process \<Rightarrow> 'e \<Rightarrow> exn + path list" where
  "deletion_candidate_paths W p store =
     (case team_layouts W p store of
        Inl e \<Rightarrow> Inl e
      | Inr ls \<Rightarrow>
          (case declared_from_layouts W p ls of
             Inl e \<Rightarrow> Inl e
           | Inr candidates \<Rightarrow>
               (if length (default_sharable ls) > 1 then Inr (dedup candidates)
                else case resolve_default W p
                       (case default_sharable ls of [] \<Rightarrow> False | b # _ \<Rightarrow> b) of
                  Inl e \<Rightarrow> Inl e
                | Inr d \<Rightarrow> Inr (dedup (candidates @ [d])))))"

text \<open>\<open>TeamService._deletion_candidates\<close>: a team whose candidates cannot be resolved has none.\<close>

fun is_card_not_found :: "exn \<Rightarrow> bool" where
  "is_card_not_found (AgentCardNotFoundError _) = True"
| "is_card_not_found _ = False"

definition deletion_candidates :: "'e card_ops \<Rightarrow> process \<Rightarrow> 'e \<Rightarrow> exn + path list" where
  "deletion_candidates W p store =
     (case deletion_candidate_paths W p store of
        Inr ps \<Rightarrow> Inr ps
      | Inl e \<Rightarrow> if is_value_error e \<or> is_card_not_found e then Inr [] else Inl e)"

section \<open>The candidate set\<close>

lemma default_sharable_mem:
  "b \<in> set (default_sharable ls) \<longleftrightarrow> (None, [], b) \<in> set ls"
  by (induction ls) (auto simp: default_sharable_def is_default_layout_def)

lemma resolve_default_layout: "resolve_default W p b = resolve_layout W p (None, [], b)"
  by (simp add: resolve_default_def resolve_layout_def)

lemma declared_from_layouts_set:
  assumes "declared_from_layouts W p ls = Inr ps"
  shows "distinct ps" and "c \<in> set ps \<longleftrightarrow> (\<exists>l \<in> set ls. resolve_layout W p l = Inr c)"
    and "l \<in> set ls \<Longrightarrow> \<exists>c \<in> set ps. resolve_layout W p l = Inr c"
proof -
  obtain rs where rs: "traverse (resolve_layout W p) ls = Inr rs" "ps = dedup rs"
    using assms by (auto simp: declared_from_layouts_def split: sum.splits)
  show "distinct ps" by (simp add: rs)
  show "c \<in> set ps \<longleftrightarrow> (\<exists>l \<in> set ls. resolve_layout W p l = Inr c)"
    using traverse_set [OF rs(1), of c] rs(2) by (metis imageE image_eqI set_dedup)
  show "\<exists>c \<in> set ps. resolve_layout W p l = Inr c" if "l \<in> set ls"
    using traverse_all [OF rs(1) that] rs(2) by simp
qed

text \<open>
  A team's deletion considers its own trees and nothing else: the candidates are duplicate-free,
  never empty, each is what the resolver answers for a layout one of the team's cards declares or for
  the team's default layout, and every declared workspace is among them, both default trees included
  when the cards disagree about sharing.
\<close>

theorem deletion_candidates_are_the_teams_own:
  assumes "deletion_candidate_paths W p store = Inr cs" and "team_layouts W p store = Inr ls"
  shows "distinct cs \<and> cs \<noteq> [] \<and>
    (\<forall>c \<in> set cs. \<exists>l. (l \<in> set ls \<or> is_default_layout l) \<and> resolve_layout W p l = Inr c) \<and>
    (\<forall>l \<in> set ls. \<exists>c \<in> set cs. resolve_layout W p l = Inr c)"
proof -
  obtain ds where ds: "declared_from_layouts W p ls = Inr ds"
    using assms by (auto simp: deletion_candidate_paths_def split: sum.splits)
  note declared = declared_from_layouts_set [OF ds]
  show ?thesis
  proof (cases "length (default_sharable ls) > 1")
    case True
    then have cs: "cs = dedup ds"
      using assms ds by (simp add: deletion_candidate_paths_def)
    from True obtain b bs where "default_sharable ls = b # bs"
      by (cases "default_sharable ls") auto
    then have "(None, [], b) \<in> set ls" by (metis default_sharable_mem list.set_intros(1))
    then have "set cs \<noteq> {}" using declared(3) [of "(None, [], b)"] cs by auto
    then have "cs \<noteq> []" by auto
    moreover have "\<exists>l. (l \<in> set ls \<or> is_default_layout l) \<and> resolve_layout W p l = Inr c"
      if "c \<in> set cs" for c
      using that cs declared(2) by (metis set_dedup)
    ultimately show ?thesis using cs declared(3) by (metis distinct_dedup set_dedup)
  next
    case False
    then obtain b d where d: "resolve_layout W p (None, [], b) = Inr d" "cs = dedup (ds @ [d])"
      using assms ds
      by (auto simp: deletion_candidate_paths_def resolve_default_layout split: sum.splits)
    have "set cs \<noteq> {}" using d(2) by simp
    then have "cs \<noteq> []" by auto
    moreover have "is_default_layout (None, [], b)" by (simp add: is_default_layout_def)
    moreover have "\<exists>l. (l \<in> set ls \<or> is_default_layout l) \<and> resolve_layout W p l = Inr c"
      if "c \<in> set cs" for c
      using that d declared(2) \<open>is_default_layout (None, [], b)\<close> by auto
    moreover have "\<exists>c \<in> set cs. resolve_layout W p l = Inr c" if "l \<in> set ls" for l
      using declared(3) [OF that] d(2) by auto
    ultimately show ?thesis using d(2) by auto
  qed
qed


definition sample_cards :: "unit card_ops" where
  "sample_cards = \<lparr>
     resolve_agent_cards = (\<lambda>_ _. Inr [AgentConfig [WorkspaceTool (Some ''notes'') [] False, OtherTool],
       BaseConfig, AgentConfig [WorkspaceTool None [] True]]),
     resolve_workspace_path = (\<lambda>i keys team user md sharable. Inr
       [if sharable then ''_shared'' else user,
        case i of None \<Rightarrow> ''_team'' | Some _ \<Rightarrow> ''_id'', case i of None \<Rightarrow> team | Some n \<Rightarrow> n])\<rparr>"

definition sample_process :: process where
  "sample_process = \<lparr>team_id = 7, team_name = None, user_id = ''alice'', user_email = '''', status = STOPPED, created_at = 0, updated_at = 0,
     catalog_namespace = None, metadata_type = None, metadata = None, metadata_indexes = [],
     agent_cards = [], entry_point = ''@Human'', supervisors = [], team_description = None, description_origin = AUTO\<rparr>"

lemma sample_layouts:
  "team_layouts sample_cards sample_process () = Inr [(Some ''notes'', [], False), (None, [], True)]"
  by (simp add: team_layouts_def sample_cards_def config_tools_def declared_layout_def map_filter_simps)

lemma sample_candidates:
  "deletion_candidate_paths sample_cards sample_process () =
     Inr [[''alice'', ''_id'', ''notes''], [''_shared'', ''_team'', uuid_str 7]]"
  unfolding deletion_candidate_paths_def sample_layouts
  by (simp add: declared_from_layouts_def resolve_layout_def resolve_default_def default_sharable_def
      is_default_layout_def sample_cards_def sample_process_def dedup_def)

theorem deletion_candidates_are_the_teams_own_witness:
  "distinct [[''alice'', ''_id'', ''notes''], [''_shared'', ''_team'', uuid_str 7]] \<and>
   deletion_candidate_paths sample_cards sample_process () =
     Inr [[''alice'', ''_id'', ''notes''], [''_shared'', ''_team'', uuid_str 7]]"
  using deletion_candidates_are_the_teams_own [OF sample_candidates sample_layouts] sample_candidates
  by blast

text \<open>
  A leaf a client sends names a workspace only when exactly one declared path ends in it: none gives
  no answer, two or more are refused.
\<close>

theorem select_declared_path_unique:
  "select_declared_path paths leaf = Inr (Some q) \<longleftrightarrow>
     (\<exists>xs ys. paths = xs @ q # ys \<and> path_name q = leaf \<and>
        (\<forall>p \<in> set (xs @ ys). path_name p \<noteq> leaf))"
proof -
  have "select_declared_path paths leaf = Inr (Some q) \<longleftrightarrow> filter (\<lambda>p. path_name p = leaf) paths = [q]"
    by (auto simp: select_declared_path_def split: list.splits)
  then show ?thesis
    unfolding filter_eq_Cons_iff
    by simp (intro iff_exI, auto simp: filter_empty_conv eq_commute [of "[]"])
qed


theorem select_declared_path_unique_witness:
  "select_declared_path [[''a'', ''_id'', ''x''], [''a'', ''_id'', ''y'']] ''y'' = Inr (Some [''a'', ''_id'', ''y''])"
  unfolding select_declared_path_unique
  by (intro exI [of _ "[[''a'', ''_id'', ''x'']]"] exI [of _ "[]"]) (simp add: path_name_def)

section \<open>Policies\<close>

record deletion_context =
  dc_team_id :: uuid
  dc_owner_user_id :: string
  dc_path :: path
  dc_scope :: string
  dc_kind :: string
  dc_leaf :: string

type_synonym deletion_policy = "deletion_context \<Rightarrow> bool"

text \<open>\<open>TEAM_KIND\<close> of \<open>akgentic.tool.workspace\<close>.\<close>

definition team_kind :: string where
  "team_kind = ''_team''"

definition team_tree_only :: deletion_policy where
  "team_tree_only ctx \<longleftrightarrow> dc_kind ctx = team_kind \<and> dc_leaf ctx = uuid_str (dc_team_id ctx)"

definition keep_every_tree :: deletion_policy where
  "keep_every_tree ctx \<longleftrightarrow> False"

datatype delete_mode = HARD | SOFT

definition workspace_deletion_policy_for :: "delete_mode \<Rightarrow> deletion_policy" where
  "workspace_deletion_policy_for mode = (case mode of HARD \<Rightarrow> team_tree_only | SOFT \<Rightarrow> keep_every_tree)"

section \<open>Removing trees\<close>

text \<open>
  The file system and the sidecar locations. \<open>os_resolve\<close> is \<open>Path.resolve()\<close>, \<open>os_rmtree\<close> is
  \<open>shutil.rmtree\<close>, which may raise after removing part of the tree.
\<close>

record 'f os_ops =
  os_resolve :: "path \<Rightarrow> 'f \<Rightarrow> path"
  os_exists :: "path \<Rightarrow> 'f \<Rightarrow> bool"
  os_rmtree :: "path \<Rightarrow> ('f, unit) prog"
  git_dir_for :: "path \<Rightarrow> path"
  meta_dir_for :: "path \<Rightarrow> path"

text \<open>\<open>root / candidate\<close>: an absolute right operand replaces the left one.\<close>

definition path_join :: "path \<Rightarrow> path \<Rightarrow> path" where
  "path_join root c = (if take 1 c = [''/''] then c else root @ c)"

definition workspace_path_segments :: nat where
  "workspace_path_segments = 3"

definition contained_target :: "'f os_ops \<Rightarrow> path \<Rightarrow> path \<Rightarrow> 'f \<Rightarrow> path option" where
  "contained_target W workspaces_root candidate f =
     (let root = os_resolve W workspaces_root f;
          target = os_resolve W (path_join workspaces_root candidate) f
      in if length candidate \<noteq> workspace_path_segments \<or> \<not> prefix root target \<or>
            length (drop (length root) target) \<noteq> workspace_path_segments
         then None else Some target)"

definition rmtree_best_effort :: "'f os_ops \<Rightarrow> path \<Rightarrow> ('f, unit) prog" where
  "rmtree_best_effort W target f =
     (if \<not> os_exists W target f then (Inr (), f) else best_effort (os_rmtree W target) f)"

definition deletion_context_of :: "uuid \<Rightarrow> process \<Rightarrow> path \<Rightarrow> deletion_context" where
  "deletion_context_of i p candidate =
     \<lparr>dc_team_id = i, dc_owner_user_id = user_id p, dc_path = candidate,
      dc_scope = candidate ! 0, dc_kind = candidate ! 1, dc_leaf = candidate ! 2\<rparr>"

text \<open>One round of the loop, and the loop.\<close>

definition remove_candidate ::
    "'f os_ops \<Rightarrow> path \<Rightarrow> uuid \<Rightarrow> process \<Rightarrow> deletion_policy \<Rightarrow> path \<Rightarrow> ('f, unit) prog" where
  "remove_candidate W root i p policy candidate f =
     (case contained_target W root candidate f of
        None \<Rightarrow> (Inr (), f)
      | Some target \<Rightarrow>
          if \<not> policy (deletion_context_of i p candidate) then (Inr (), f)
          else andthen (rmtree_best_effort W target)
                 (andthen (rmtree_best_effort W (git_dir_for W target))
                    (rmtree_best_effort W (meta_dir_for W candidate))) f)"

definition remove_workspace_trees ::
    "'f os_ops \<Rightarrow> path \<Rightarrow> uuid \<Rightarrow> process \<Rightarrow> path list \<Rightarrow> deletion_policy \<Rightarrow> ('f, unit) prog" where
  "remove_workspace_trees W root i p candidates policy =
     for_each (remove_candidate W root i p policy) candidates"

text \<open>What the file system guarantees: removing a tree changes nothing outside it.\<close>

definition rmtree_local :: "'f os_ops \<Rightarrow> bool" where
  "rmtree_local W \<longleftrightarrow>
     (\<forall>t q f. \<not> prefix t q \<longrightarrow> os_exists W q (snd (os_rmtree W t f)) = os_exists W q f)"

lemma rmtree_best_effort_ok: "fst (rmtree_best_effort W t f) = Inr ()"
  by (simp add: rmtree_best_effort_def best_effort_total)

lemma rmtree_best_effort_outside:
  "rmtree_local W \<Longrightarrow> \<not> prefix t q \<Longrightarrow>
   os_exists W q (snd (rmtree_best_effort W t f)) = os_exists W q f"
  by (simp add: rmtree_best_effort_def best_effort_state rmtree_local_def)

lemma andthen_ok:
  "fst (m s) = Inr x \<Longrightarrow> andthen m n s = n (snd (m s))"
  by (cases "m s") (simp add: andthen_def bnd_def)

lemma contained_targetD:
  assumes "contained_target W root c f = Some t"
  shows "length c = 3" "strict_prefix (os_resolve W root f) t" "length t = length (os_resolve W root f) + 3"
  using assms
  by (auto simp: contained_target_def Let_def workspace_path_segments_def strict_prefix_def
      split: if_splits)

text \<open>A path is within reach of a candidate: under its tree or under one of its two sidecars.\<close>

definition within_reach :: "'f os_ops \<Rightarrow> path \<Rightarrow> path \<Rightarrow> path \<Rightarrow> bool" where
  "within_reach W c t q \<longleftrightarrow> prefix t q \<or> prefix (git_dir_for W t) q \<or> prefix (meta_dir_for W c) q"

lemma remove_candidate_ok: "fst (remove_candidate W root i p policy c f) = Inr ()"
  by (simp add: remove_candidate_def andthen_ok [OF rmtree_best_effort_ok] rmtree_best_effort_ok
      split: option.split)

lemma remove_candidate_outside:
  assumes "rmtree_local W"
    and "os_exists W q (snd (remove_candidate W root i p policy c f)) \<noteq> os_exists W q f"
  shows "\<exists>t. contained_target W root c f = Some t \<and> policy (deletion_context_of i p c) \<and>
             within_reach W c t q"
  using assms rmtree_best_effort_outside [OF assms(1), of _ q]
  by (auto simp: remove_candidate_def andthen_ok [OF rmtree_best_effort_ok] within_reach_def
      split: option.splits if_splits)

lemma remove_trees_ok: "fst (remove_workspace_trees W root i p cs policy f) = Inr ()"
  unfolding remove_workspace_trees_def
  by (induction cs arbitrary: f) (auto simp: andthen_ok [OF remove_candidate_ok])

lemma removed_within_reach:
  assumes "rmtree_local W"
    and "os_exists W q (snd (remove_workspace_trees W root i p cs policy f)) \<noteq> os_exists W q f"
  shows "\<exists>c \<in> set cs. \<exists>g t. contained_target W root c g = Some t \<and> length c = 3 \<and>
           strict_prefix (os_resolve W root g) t \<and> length t = length (os_resolve W root g) + 3 \<and>
           policy (deletion_context_of i p c) \<and> within_reach W c t q"
  using assms(2)
proof (induction cs arbitrary: f)
  case (Cons c cs)
  let ?g = "snd (remove_candidate W root i p policy c f)"
  have step: "remove_workspace_trees W root i p (c # cs) policy f = remove_workspace_trees W root i p cs policy ?g"
    by (simp add: remove_workspace_trees_def andthen_ok [OF remove_candidate_ok])
  show ?case
  proof (cases "os_exists W q ?g = os_exists W q f")
    case True
    then show ?thesis using Cons step by auto
  next
    case False
    then show ?thesis
      using remove_candidate_outside [OF assms(1)] contained_targetD by (metis list.set_intros(1))
  qed
qed (simp add: remove_workspace_trees_def)

text \<open>
  Whatever the cards, the resolver and the file system answer, a deletion changes a path only where
  it is under the tree, the journal or the index of a candidate the policy approved and that resolves
  exactly three segments inside the workspaces root; it never raises.
\<close>

theorem deletion_is_contained:
  assumes "rmtree_local W"
    and "os_exists W q (snd (remove_workspace_trees W root i p cs policy f)) \<noteq> os_exists W q f"
  shows "\<exists>c \<in> set cs. \<exists>g t. contained_target W root c g = Some t \<and> length c = 3 \<and>
           strict_prefix (os_resolve W root g) t \<and> length t = length (os_resolve W root g) + 3 \<and>
           policy (deletion_context_of i p c) \<and> within_reach W c t q"
  using removed_within_reach [OF assms] .

text \<open>A reference file system: the set of the paths that exist, with no symbolic links.\<close>

definition sample_os :: "path set os_ops" where
  "sample_os = \<lparr>os_resolve = (\<lambda>p _. p), os_exists = (\<lambda>p f. p \<in> f),
     os_rmtree = (\<lambda>p f. (Inr (), {q \<in> f. \<not> prefix p q})),
     git_dir_for = (\<lambda>p. butlast p @ [last p @ ''.git'']),
     meta_dir_for = (\<lambda>p. ''/meta'' # butlast p @ [last p @ ''.index''])\<rparr>"

lemma sample_rmtree_local: "rmtree_local sample_os"
  by (simp add: rmtree_local_def sample_os_def)

definition sample_tree :: path where
  "sample_tree = [''alice'', ''_team'', uuid_str 7]"

theorem deletion_is_contained_witness:
  "team_tree_only (deletion_context_of 7 sample_process sample_tree) \<and>
   [''/srv''] @ sample_tree \<notin> snd (remove_workspace_trees sample_os [''/srv''] 7 sample_process
     [sample_tree] team_tree_only {[''/srv''] @ sample_tree, [''/srv'', ''bob'']})"
proof -
  let ?f = "{[''/srv''] @ sample_tree, [''/srv'', ''bob'']}"
  have gone: "[''/srv''] @ sample_tree \<notin> snd (remove_workspace_trees sample_os [''/srv''] 7 sample_process
     [sample_tree] team_tree_only ?f)"
    by (simp add: remove_workspace_trees_def remove_candidate_def contained_target_def sample_os_def
        sample_tree_def path_join_def workspace_path_segments_def team_tree_only_def
        deletion_context_of_def team_kind_def rmtree_best_effort_def best_effort_def try_except_def
        andthen_def bnd_def)
  then show ?thesis
    using deletion_is_contained [OF sample_rmtree_local, of "[''/srv''] @ sample_tree" "[''/srv'']" 7
      sample_process "[sample_tree]" team_tree_only ?f]
    by (auto simp: sample_os_def)
qed

text \<open>
  The default policy takes only the team's own tree: an approved candidate has the kind \<open>_team\<close>
  and the team id as its leaf, and no tree is approved for two teams. The soft mode takes none.
\<close>

theorem default_policy_takes_own_tree_only:
  assumes "workspace_deletion_policy_for mode (deletion_context_of i p c)"
  shows "mode = HARD \<and> c ! 1 = team_kind \<and> c ! 2 = uuid_str i \<and>
         (workspace_deletion_policy_for mode (deletion_context_of j q c) \<longrightarrow> j = i)"
  using assms
  by (cases mode)
    (auto simp: workspace_deletion_policy_for_def team_tree_only_def keep_every_tree_def
      deletion_context_of_def)

theorem default_policy_takes_own_tree_only_witness:
  "workspace_deletion_policy_for HARD (deletion_context_of 7 sample_process sample_tree) \<and>
   \<not> workspace_deletion_policy_for HARD (deletion_context_of 8 sample_process sample_tree)"
proof -
  have "workspace_deletion_policy_for HARD (deletion_context_of 7 sample_process sample_tree)"
    by (simp add: workspace_deletion_policy_for_def team_tree_only_def deletion_context_of_def
        sample_tree_def team_kind_def)
  then show ?thesis
    using default_policy_takes_own_tree_only [of HARD 7 sample_process sample_tree 8 sample_process]
    by auto
qed

end
