(* ===== verification/TeamTier.thy ===== *)
theory TeamTier
  imports EventStream RuntimeCache MetadataPayload Workspaces
begin

text \<open>
  \<open>server/deps.py\<close>: the services a deployment tier wires into the team service, as a record of
  operations over the tier's state. What the team service relies on them for is the locale
  \<open>team_tier\<close>; the community tier (\<open>LocalPlacement\<close>, \<open>LocalWorkerHandle\<close>, \<open>LocalRuntimeCache\<close>,
  \<open>LocalEventStream\<close> over one team manager and one event store) is the record \<open>community_tier\<close>.
\<close>

section \<open>TierServices\<close>

text \<open>
  \<open>get_team\<close> to \<open>update_metadata\<close> are the worker handle's, \<open>create\<close> and \<open>resume\<close> the placement's,
  \<open>store\<close>, \<open>get\<close> and \<open>remove\<close> the cache's, \<open>list_teams\<close> to \<open>update_description\<close> the event store's,
  \<open>load_team\<close> and \<open>list_kinds\<close> the catalog's (the kinds of the entries of a namespace).
\<close>

record 's tier =
  t_get_team :: "uuid \<Rightarrow> 's \<Rightarrow> process option"
  t_stop_team :: "uuid \<Rightarrow> ('s, unit) prog"
  t_delete_team :: "uuid \<Rightarrow> ('s, unit) prog"
  t_update_metadata :: "uuid \<Rightarrow> metadata option \<Rightarrow> ('s, process) prog"
  t_create :: "create_args \<Rightarrow> ('s, team_handle) prog"
  t_resume :: "uuid \<Rightarrow> ('s, team_handle) prog"
  t_store :: "uuid \<Rightarrow> team_handle \<Rightarrow> 's \<Rightarrow> 's"
  t_get :: "uuid \<Rightarrow> 's \<Rightarrow> team_handle option"
  t_remove :: "uuid \<Rightarrow> 's \<Rightarrow> 's"
  t_stream_remove :: "uuid \<Rightarrow> ('s, unit) prog"
  t_list_teams :: "string option \<Rightarrow> team_status option \<Rightarrow> (string \<times> string list) list option \<Rightarrow>
    's \<Rightarrow> exn + process list"
  t_load_events :: "uuid \<Rightarrow> uuid option \<Rightarrow> 's \<Rightarrow> exn + persisted_event list"
  t_load_agent_states :: "uuid \<Rightarrow> 's \<Rightarrow> exn + agent_state list"
  t_load_agent_state :: "uuid \<Rightarrow> uuid \<Rightarrow> 's \<Rightarrow> exn + agent_state option"
  t_update_description ::
    "uuid \<Rightarrow> string option \<Rightarrow> description_origin \<Rightarrow> ('s, process option) prog"
  t_load_team :: "string \<Rightarrow> 's \<Rightarrow> exn + team_card"
  t_list_kinds :: "string \<Rightarrow> 's \<Rightarrow> exn + string list"
  t_runtime :: "'s runtime_ops"
  t_cards :: "'s card_ops"

section \<open>What the team service relies on\<close>

text \<open>
  The cache's contract, and that neither the cache nor the removal of an event stream touches a
  team's record or another service's state.
\<close>

locale team_tier = runtime_cache "t_store T" "t_get T" "t_remove T"
  for T :: "'s tier" +
  assumes record_store: "t_get_team T j (t_store T i h s) = t_get_team T j s"
    and record_remove: "t_get_team T j (t_remove T i s) = t_get_team T j s"
    and record_stream_remove: "t_get_team T j (snd (t_stream_remove T i s)) = t_get_team T j s"
    and handle_stream_remove: "t_get T j (snd (t_stream_remove T i s)) = t_get T j s"
begin

text \<open>Evicting a team and dropping its stream: no handle is left, no record changes.\<close>

lemma evict_then_drop:
  "t_get T j (snd (t_stream_remove T k (t_remove T i s))) = (if j = i then None else t_get T j s)"
  "t_get_team T j (snd (t_stream_remove T k (t_remove T i s))) = t_get_team T j s"
  by (simp_all add: handle_stream_remove get_remove record_stream_remove record_remove)

lemma cached_after_store: "t_get T i (t_store T i h s) = Some h"
  by (simp add: get_store)

end

section \<open>The community tier\<close>

text \<open>
  One process: the placement, around the state of the team manager and event store, the cache and
  the event streams. The team manager's calls may reach back into the cache and the streams, through
  the subscribers a team carries; what \<open>get_team\<close> answers depends on the store alone.
\<close>

record 'w local_services =
  ls_store :: 'w
  ls_cache :: cache
  ls_streams :: "message local_streams"

type_synonym 'w community = "'w local_services placement"

text \<open>The event store, read by all, and its one conditional write.\<close>

record 'w event_store =
  es_get_team :: "uuid \<Rightarrow> 'w \<Rightarrow> process option"
  es_list_teams :: "string option \<Rightarrow> team_status option \<Rightarrow> (string \<times> string list) list option \<Rightarrow>
    'w \<Rightarrow> exn + process list"
  es_load_events :: "uuid \<Rightarrow> uuid option \<Rightarrow> 'w \<Rightarrow> exn + persisted_event list"
  es_load_agent_states :: "uuid \<Rightarrow> 'w \<Rightarrow> exn + agent_state list"
  es_load_agent_state :: "uuid \<Rightarrow> uuid \<Rightarrow> 'w \<Rightarrow> exn + agent_state option"
  es_update_description ::
    "uuid \<Rightarrow> string option \<Rightarrow> description_origin \<Rightarrow> ('w, process option) prog"
  es_load_team :: "string \<Rightarrow> 'w \<Rightarrow> exn + team_card"
  es_list_kinds :: "string \<Rightarrow> 'w \<Rightarrow> exn + string list"
  es_cards :: "'w card_ops"

definition community_manager ::
    "'w event_store \<Rightarrow> 'w local_services team_manager \<Rightarrow> 'w local_services team_manager" where
  "community_manager E M = M\<lparr>tm_get_team := (\<lambda>i r. es_get_team E i (ls_store r))\<rparr>"

definition in_store :: "('w, 'a) prog \<Rightarrow> ('w community, 'a) prog" where
  "in_store m = on_world (on_part ls_store (\<lambda>w r. r\<lparr>ls_store := w\<rparr>) m)"

definition in_streams :: "(message local_streams, 'a) prog \<Rightarrow> ('w community, 'a) prog" where
  "in_streams m = on_world (on_part ls_streams (\<lambda>x r. r\<lparr>ls_streams := x\<rparr>) m)"

definition in_cache :: "(cache \<Rightarrow> cache) \<Rightarrow> 'w community \<Rightarrow> 'w community" where
  "in_cache f s = s\<lparr>pl_world := (pl_world s)\<lparr>ls_cache := f (ls_cache (pl_world s))\<rparr>\<rparr>"

definition store_of :: "'w community \<Rightarrow> 'w" where
  "store_of s = ls_store (pl_world s)"

definition community_tier ::
    "'w event_store \<Rightarrow> 'w local_services team_manager \<Rightarrow> 'w community runtime_ops \<Rightarrow> 'w community tier" where
  "community_tier E M R = (let tm = community_manager E M in \<lparr>
     t_get_team = (\<lambda>i s. tm_get_team tm i (pl_world s)),
     t_stop_team = (\<lambda>i. on_world (tm_stop_team tm i)),
     t_delete_team = (\<lambda>i. on_world (tm_delete_team tm i)),
     t_update_metadata = (\<lambda>i d. on_world (tm_update_metadata tm i d)),
     t_create = place_create tm,
     t_resume = place_resume tm,
     t_store = (\<lambda>i h. in_cache (cache_store i h)),
     t_get = (\<lambda>i s. cache_get i (ls_cache (pl_world s))),
     t_remove = (\<lambda>i. in_cache (cache_remove i)),
     t_stream_remove = (\<lambda>i. in_streams (stream_remove i)),
     t_list_teams = (\<lambda>u st md s. es_list_teams E u st md (store_of s)),
     t_load_events = (\<lambda>i a s. es_load_events E i a (store_of s)),
     t_load_agent_states = (\<lambda>i s. es_load_agent_states E i (store_of s)),
     t_load_agent_state = (\<lambda>i a s. es_load_agent_state E i a (store_of s)),
     t_update_description = (\<lambda>i d x. in_store (es_update_description E i d x)),
     t_load_team = (\<lambda>n s. es_load_team E n (store_of s)),
     t_list_kinds = (\<lambda>n s. es_list_kinds E n (store_of s)),
     t_runtime = R,
     t_cards = \<lparr>resolve_agent_cards = (\<lambda>c s. resolve_agent_cards (es_cards E) c (store_of s)),
       resolve_workspace_path = resolve_workspace_path (es_cards E)\<rparr>\<rparr>)"

lemmas community_defs = community_tier_def community_manager_def in_store_def in_streams_def
  in_cache_def store_of_def on_world_def on_part_def

interpretation community: team_tier "community_tier E M R"
  for E :: "'w event_store" and M :: "'w local_services team_manager" and R :: "'w community runtime_ops"
  by unfold_locales
    (simp_all add: community_defs Let_def local_cache.get_store local_cache.get_remove split: prod.split)

end
