(* ===== verification/Reference.thy ===== *)
theory Reference
  imports TeamTier
begin

text \<open>
  A reference event store, team manager and runtime over the records of \<open>Placement\<close>, with the
  behaviour their packages document, and the community tier built on them. They are only evaluated,
  to show that the properties' hypotheses can hold; no property is about them.
\<close>

definition in_ref :: "(ref_world, 'a) prog \<Rightarrow> (ref_world local_services, 'a) prog" where
  "in_ref = on_part ls_store (\<lambda>w r. r\<lparr>ls_store := w\<rparr>)"

definition ref_manager :: "ref_world local_services team_manager" where
  "ref_manager = \<lparr>
     tm_get_team = (\<lambda>i r. map_of (rw_teams (ls_store r)) i),
     tm_create_team = (\<lambda>a. in_ref (tm_create_team ref_tm a)),
     tm_resume_team = (\<lambda>i. in_ref (tm_resume_team ref_tm i)),
     tm_stop_team = (\<lambda>i. in_ref (tm_stop_team ref_tm i)),
     tm_delete_team = (\<lambda>i. in_ref (tm_delete_team ref_tm i)),
     tm_update_metadata = (\<lambda>i d. in_ref (tm_update_metadata ref_tm i d))\<rparr>"

text \<open>A description is written as the user's always, as the generator's only onto an unset one.\<close>

definition ref_describe ::
    "uuid \<Rightarrow> string option \<Rightarrow> description_origin \<Rightarrow> (ref_world, process option) prog" where
  "ref_describe i d x w =
     (case map_of (rw_teams w) i of
        None \<Rightarrow> (Inr None, w)
      | Some p \<Rightarrow>
          (let q = (if x = USER \<or> (description_origin p = AUTO \<and> team_description p = None)
                    then p\<lparr>team_description := d, description_origin := x\<rparr> else p)
           in (Inr (Some q), w\<lparr>rw_teams := AList.update i q (rw_teams w)\<rparr>)))"

definition ref_list_teams ::
    "string option \<Rightarrow> team_status option \<Rightarrow> (string \<times> string list) list option \<Rightarrow> ref_world \<Rightarrow>
     exn + process list" where
  "ref_list_teams u st md w =
     Inr (filter (\<lambda>p. (u = None \<or> u = Some (user_id p)) \<and>
        (case st of None \<Rightarrow> status p \<noteq> DELETED | Some x \<Rightarrow> status p = x)) (map snd (rw_teams w)))"

definition ref_cards :: "ref_world card_ops" where
  "ref_cards = \<lparr>resolve_agent_cards = (\<lambda>_ _. Inr []),
     resolve_workspace_path = (\<lambda>i keys team user md sharable. Inr
       [if sharable then ''_shared'' else user,
        case i of None \<Rightarrow> ''_team'' | Some _ \<Rightarrow> ''_id'', case i of None \<Rightarrow> team | Some n \<Rightarrow> n])\<rparr>"

definition ref_store :: "ref_world event_store" where
  "ref_store = \<lparr>
     es_get_team = (\<lambda>i w. map_of (rw_teams w) i),
     es_list_teams = ref_list_teams,
     es_load_events = (\<lambda>i a w. Inr (map snd (filter (\<lambda>e. fst e = i) (rw_events w)))),
     es_load_agent_states = (\<lambda>i w. Inr []),
     es_load_agent_state = (\<lambda>i a w. Inr None),
     es_update_description = ref_describe,
     es_load_team = (\<lambda>n w. if n = ''ns'' then Inr (ca_card sample_args)
       else Inl (CatalogValidationError ''no team'')),
     es_list_kinds = (\<lambda>n w. Inr (if n = ''tools'' then [''tool''] else [])),
     es_cards = ref_cards\<rparr>"

definition ref_deliver :: "team_runtime \<Rightarrow> string \<Rightarrow> (ref_world community, unit) prog" where
  "ref_deliver rt text =
     in_store (writing (\<lambda>w. w\<lparr>rw_sent := rw_sent w @ [(rt_id rt, text)]\<rparr>))"

definition delivery_text :: "delivery \<Rightarrow> string" where
  "delivery_text d = (case d of Text t \<Rightarrow> t | Msg m \<Rightarrow> (case msg_content m of None \<Rightarrow> '''' | Some t \<Rightarrow> t))"

definition ref_runtime :: "ref_world community runtime_ops" where
  "ref_runtime = \<lparr>
     run_send = (\<lambda>rt d. ref_deliver rt (delivery_text d)),
     run_send_to = (\<lambda>rt name d. if name = ''ghost'' then throw (ValueError ''agent not found'')
       else ref_deliver rt (delivery_text d)),
     run_send_from_to = (\<lambda>rt a b d. ref_deliver rt (delivery_text d)),
     run_emit = (\<lambda>rt m. ref_deliver rt (delivery_text (Msg m))),
     run_human_input = (\<lambda>rt c m. ref_deliver rt c)\<rparr>"

definition ref_tier :: "ref_world community tier" where
  "ref_tier = community_tier ref_store ref_manager ref_runtime"

text \<open>One team, number 7, in the given status, with no cached handle and no stream.\<close>

definition ref_start_state :: "team_status \<Rightarrow> ref_world community" where
  "ref_start_state st = init_placement
     \<lparr>ls_store = one_team_world st, ls_cache = [], ls_streams = init_streams\<rparr>"

lemmas ref_tier_defs = ref_tier_def community_defs Let_def ref_store_def ref_manager_def in_ref_def
  ref_describe_def ref_runtime_def ref_deliver_def ref_start_state_def init_placement_def ref_defs

end
