(* ===== verification/Description.thy ===== *)
theory Description
  imports PyText Reference
begin

text \<open>
  \<open>server/description.py\<close>: the one-line description generated from a team's first message. The
  request-path half schedules at most one job and never raises; the background half asks the model,
  writes through the conditional AUTO path and notifies only if that write stood. The curly quotes
  the code also accepts are outside Latin-1 and never occur in the modelled text.
\<close>

section \<open>normalise_description\<close>

definition max_description_length :: nat where
  "max_description_length = 500"

definition quote_pairs :: "(string \<times> string) list" where
  "quote_pairs = [([CHR 0x22], [CHR 0x22]), ([CHR 0x27], [CHR 0x27])]"

text \<open>The loop over the pairs, left at the first one that matches.\<close>

fun unquote :: "(string \<times> string) list \<Rightarrow> string \<Rightarrow> string" where
  "unquote [] line = line"
| "unquote ((opening, closing) # qs) line =
     (if 2 \<le> length line \<and> startswith line opening \<and> endswith line closing
      then strip (butlast (drop 1 line)) else unquote qs line)"

definition first_line :: "string \<Rightarrow> string" where
  "first_line raw =
     (case filter (\<lambda>l. strip l \<noteq> '''') (splitlines raw) of [] \<Rightarrow> '''' | l # _ \<Rightarrow> strip l)"

definition normalise_description :: "string \<Rightarrow> string option" where
  "normalise_description raw =
     (let line = first_line raw;
          line = unquote quote_pairs line;
          line = strip (rtrim (\<lambda>c. c = CHR 0x2E) line);
          line = strip (take max_description_length line)
      in if line = '''' then None else Some line)"

text \<open>Every operation on the line keeps a part of it.\<close>

lemma unquote_sublist: "sublist (unquote qs line) line"
proof (induction qs)
  case (Cons q qs)
  obtain a b where "q = (a, b)" by force
  moreover have "sublist (strip (butlast (drop 1 line))) line"
    by (metis sublist_butlast sublist_drop sublist_order.order_trans trim_sublist)
  ultimately show ?case using Cons by simp
qed simp

lemma first_line_line: "first_line raw = '''' \<or> (\<exists>l \<in> set (splitlines raw). sublist (first_line raw) l)"
proof (cases "filter (\<lambda>l. strip l \<noteq> '''') (splitlines raw)")
  case (Cons l ls)
  then have "l \<in> set (splitlines raw)" by (metis filter_is_subset list.set_intros(1) subset_iff)
  then show ?thesis using Cons trim_sublist by (auto simp: first_line_def)
qed (simp add: first_line_def)

text \<open>
  A generated description is one line: never blank, without surrounding white space, at most 500
  characters, without a line break, and a part of one line of the model's answer.
\<close>

theorem normalised_description_is_one_line:
  assumes "normalise_description raw = Some d"
  shows "d \<noteq> '''' \<and> strip d = d \<and> length d \<le> 500 \<and> (\<forall>c \<in> set d. \<not> is_line_break c) \<and>
         (\<exists>l \<in> set (splitlines raw). sublist d l)"
proof -
  let ?u = "unquote quote_pairs (first_line raw)"
  let ?t = "take 500 (strip (rtrim (\<lambda>c. c = CHR 0x2E) ?u))"
  have d: "d = strip ?t" "d \<noteq> ''''"
    using assms by (auto simp: normalise_description_def Let_def max_description_length_def split: if_splits)
  have "sublist d (first_line raw)"
    unfolding d(1)
    by (meson prefix_imp_sublist rtrim_prefix sublist_order.order_trans sublist_take trim_sublist unquote_sublist)
  moreover from this d(2) have "first_line raw \<noteq> ''''" by auto
  ultimately obtain l where l: "l \<in> set (splitlines raw)" "sublist d l"
    using first_line_line sublist_order.order_trans by metis
  have "length d \<le> length ?t"
    unfolding d(1) by (rule sublist_length_le) (rule trim_sublist)
  then have "length d \<le> 500" by simp
  moreover have "\<forall>c \<in> set d. \<not> is_line_break c"
    using l splitlines_no_break sublist_set_mono by blast
  ultimately show ?thesis using l d by auto
qed

definition sample_answer :: string where
  "sample_answer = [CHR 0x0A] @ ''  '' @ [CHR 0x22] @ ''Plan a trip.'' @ [CHR 0x22] @ '' '' @ [CHR 0x0A] @ ''more''"

theorem normalised_description_is_one_line_witness:
  "normalise_description sample_answer = Some ''Plan a trip'' \<and> strip ''Plan a trip'' = ''Plan a trip''"
proof -
  have "normalise_description sample_answer = Some ''Plan a trip''"
    by code_simp
  then show ?thesis using normalised_description_is_one_line by blast
qed

section \<open>The generator\<close>

text \<open>\<open>_content_of\<close>.\<close>

definition content_of :: "delivery \<Rightarrow> string option" where
  "content_of content =
     (case (case content of Text t \<Rightarrow> Some t | Msg m \<Rightarrow> msg_content m) of
        None \<Rightarrow> None
      | Some text \<Rightarrow> if strip text = '''' then None else Some (strip text))"

text \<open>The executor: whether it takes work, and the jobs it has taken and not run.\<close>

record executor =
  ex_open :: bool
  ex_jobs :: "(uuid \<times> string) list"

definition executor_submit :: "uuid \<Rightarrow> string \<Rightarrow> (executor, unit) prog" where
  "executor_submit i text x =
     (if ex_open x then (Inr (), x\<lparr>ex_jobs := ex_jobs x @ [(i, text)]\<rparr>)
      else (Inl (RuntimeError ''cannot schedule new futures after shutdown''), x))"

definition maybe_generate :: "process \<Rightarrow> delivery \<Rightarrow> (executor, unit) prog" where
  "maybe_generate p content =
     (if team_description p \<noteq> None \<or> description_origin p \<noteq> AUTO then ret ()
      else case content_of content of
        None \<Rightarrow> ret ()
      | Some text \<Rightarrow> best_effort (executor_submit (team_id p) text))"

text \<open>\<open>_commit\<close> and \<open>_generate\<close> over the tier, with the model and the emit path as parameters.\<close>

definition description_content_type :: string where
  "description_content_type = ''team_description''"

definition commit_description ::
    "'s tier \<Rightarrow> (uuid \<Rightarrow> string \<Rightarrow> string \<Rightarrow> ('s, unit) prog) \<Rightarrow> uuid \<Rightarrow> string \<Rightarrow> ('s, unit) prog" where
  "commit_description T emit i text =
     bnd (t_update_description T i (Some text) AUTO) (\<lambda>updated. case updated of
         None \<Rightarrow> ret ()
       | Some p \<Rightarrow>
           (if description_origin p = AUTO \<and> team_description p = Some text
            then emit i description_content_type text else ret ()))"

definition generate_description ::
    "'s tier \<Rightarrow> (uuid \<Rightarrow> string \<Rightarrow> string \<Rightarrow> ('s, unit) prog) \<Rightarrow> (string \<Rightarrow> exn + string) \<Rightarrow>
     uuid \<Rightarrow> string \<Rightarrow> ('s, unit) prog" where
  "generate_description T emit model i content =
     best_effort (case model content of
         Inl e \<Rightarrow> throw e
       | Inr out \<Rightarrow> (case normalise_description out of
             None \<Rightarrow> ret ()
           | Some text \<Rightarrow> commit_description T emit i text))"

lemma maybe_generate_ok: "fst (maybe_generate p content x) = Inr ()"
  by (simp add: maybe_generate_def best_effort_total split: option.split)

text \<open>
  The trigger never raises into the send path, and schedules at most one job: only for a team whose
  record has no description and is owned by the generator, only for a delivery with text, and with
  that text, trimmed.
\<close>

theorem description_trigger:
  "maybe_generate p content x =
     (Inr (), if team_description p = None \<and> description_origin p = AUTO \<and> ex_open x
              then (case content_of content of
                      None \<Rightarrow> x
                    | Some text \<Rightarrow> x\<lparr>ex_jobs := ex_jobs x @ [(team_id p, text)]\<rparr>)
              else x)"
  by (auto simp: maybe_generate_def executor_submit_def best_effort_def try_except_def split: option.split)

text \<open>
  A user's description is never announced over: the background job never raises, and it emits a
  notification only after the store answered that the record is generator-owned and holds exactly
  the generated text.
\<close>

theorem description_notifies_only_own_write:
  assumes "\<And>i ct text s. log (snd (emit i ct text s)) = log s @ [(i, text)]"
    and "\<And>i d x s. log (snd (t_update_description T i d x s)) = log s"
  shows "\<exists>s'. generate_description T emit model i content s = (Inr (), s') \<and>
    (log s' = log s \<or>
     (\<exists>out text p u. model content = Inr out \<and> normalise_description out = Some text \<and>
        t_update_description T i (Some text) AUTO s = (Inr (Some p), u) \<and>
        description_origin p = AUTO \<and> team_description p = Some text \<and> log s' = log s @ [(i, text)]))"
proof -
  let ?m = "case model content of Inl e \<Rightarrow> throw e
       | Inr out \<Rightarrow> (case normalise_description out of None \<Rightarrow> ret ()
           | Some text \<Rightarrow> commit_description T emit i text)"
  have "generate_description T emit model i content s = (Inr (), snd (?m s))"
    by (metis best_effort_state best_effort_total generate_description_def prod.collapse)
  moreover have "log (snd (?m s)) = log s \<or>
     (\<exists>out text p u. model content = Inr out \<and> normalise_description out = Some text \<and>
        t_update_description T i (Some text) AUTO s = (Inr (Some p), u) \<and>
        description_origin p = AUTO \<and> team_description p = Some text \<and> log (snd (?m s)) = log s @ [(i, text)])"
    using assms(2) [of i _ AUTO s] assms(1) [of i description_content_type]
    by (auto simp: commit_description_def bnd_def split: sum.splits option.splits prod.splits)
      (metis snd_conv)+
  ultimately show ?thesis by blast
qed


definition ref_emit :: "uuid \<Rightarrow> string \<Rightarrow> string \<Rightarrow> (ref_world community, unit) prog" where
  "ref_emit i ct text = in_store (writing (\<lambda>w. w\<lparr>rw_sent := rw_sent w @ [(i, text)]\<rparr>))"

definition ref_log :: "ref_world community \<Rightarrow> (uuid \<times> string) list" where
  "ref_log s = rw_sent (store_of s)"

lemma ref_emit_log: "ref_log (snd (ref_emit i ct text s)) = ref_log s @ [(i, text)]"
  by (simp add: ref_emit_def ref_log_def community_defs)

lemma ref_update_log: "ref_log (snd (t_update_description ref_tier i d x s)) = ref_log s"
  by (simp add: ref_log_def ref_tier_def ref_store_def ref_describe_def community_defs Let_def split: option.split)

theorem description_notifies_only_own_write_witness:
  "\<exists>s'. generate_description ref_tier ref_emit (\<lambda>_. Inr '' Trip. '') 7 ''hello'' (ref_start_state RUNNING) = (Inr (), s')
     \<and> ref_log s' = [(7, ''Trip'')]"
proof -
  have n: "normalise_description '' Trip. '' = Some ''Trip''" by code_simp
  obtain s' where s': "generate_description ref_tier ref_emit (\<lambda>_. Inr '' Trip. '') 7 ''hello'' (ref_start_state RUNNING) = (Inr (), s')"
    using description_notifies_only_own_write [of ref_log ref_emit ref_tier, OF ref_emit_log ref_update_log] by blast
  moreover have "ref_log (snd (generate_description ref_tier ref_emit (\<lambda>_. Inr '' Trip. '') 7 ''hello''
      (ref_start_state RUNNING))) = [(7, ''Trip'')]"
    by (simp add: generate_description_def best_effort_state n commit_description_def bnd_def
        ref_tier_defs ref_emit_def ref_log_def)
  ultimately show ?thesis by auto
qed

end
