(* ===== verification/TeamService.thy ===== *)
theory TeamService
  imports Description
begin

text \<open>
  \<open>server/services/team_service.py\<close>: resolution and creation, lifecycle, deliveries, reads and
  deletion, over any tier's services. Listing is in \<open>TeamListing\<close>.
\<close>

section \<open>State\<close>

text \<open>
  The tier's state, the file system under the workspaces root and the description executor; and
  what the service is constructed with.
\<close>

record ('s, 'f) service =
  sv_tier :: 's
  sv_fs :: 'f
  sv_executor :: executor

record ('s, 'f) wiring =
  w_tier :: "'s tier"
  w_os :: "'f os_ops"
  w_root :: path
  w_policy :: deletion_policy
  w_validate :: model_validate
  w_indexes :: "metadata option \<Rightarrow> string list"
  w_generator :: bool

definition in_tier :: "('s, 'a) prog \<Rightarrow> (('s, 'f) service, 'a) prog" where
  "in_tier = on_part sv_tier (\<lambda>t s. s\<lparr>sv_tier := t\<rparr>)"

definition in_fs :: "('f, 'a) prog \<Rightarrow> (('s, 'f) service, 'a) prog" where
  "in_fs = on_part sv_fs (\<lambda>f s. s\<lparr>sv_fs := f\<rparr>)"

definition in_executor :: "(executor, 'a) prog \<Rightarrow> (('s, 'f) service, 'a) prog" where
  "in_executor = on_part sv_executor (\<lambda>x s. s\<lparr>sv_executor := x\<rparr>)"

section \<open>Messages of the exceptions\<close>

definition team_msg :: "uuid \<Rightarrow> string \<Rightarrow> string" where
  "team_msg i rest = ''Team '' @ uuid_str i @ rest"

definition team_not_found :: "uuid \<Rightarrow> exn" where
  "team_not_found i = TeamNotFoundError (team_msg i '' not found'')"

section \<open>Resolution and creation\<close>

record resolved_team =
  rs_namespace :: string
  rs_card :: team_card
  rs_metadata :: "metadata option"
  rs_indexes :: "string list"

definition resolve_team_metadata ::
    "('s, 'f) wiring \<Rightarrow> string \<Rightarrow> (string \<times> json) list option \<Rightarrow> 's \<Rightarrow> exn + resolved_team" where
  "resolve_team_metadata W ns raw s =
     (case t_load_team (w_tier W) ns s of
        Inl (CatalogValidationError m) \<Rightarrow>
          (case t_list_kinds (w_tier W) ns s of
             Inl e \<Rightarrow> Inl e
           | Inr kinds \<Rightarrow>
               (if kinds = [] then Inl (EntryNotFoundError ns)
                else if ''team'' \<notin> set kinds then
                  Inl (CatalogTeamEntryMissingError
                    (''Catalog namespace '' @ quoted ns @ '' has no team entry''))
                else Inl (CatalogValidationError m)))
      | Inl e \<Rightarrow> Inl e
      | Inr c \<Rightarrow>
          (case validate_metadata (w_validate W) (tc_metadata_type c) raw of
             Inl e \<Rightarrow> Inl e
           | Inr md \<Rightarrow> Inr \<lparr>rs_namespace = ns, rs_card = c, rs_metadata = md,
                              rs_indexes = w_indexes W md\<rparr>))"

definition create_resolved_team ::
    "('s, 'f) wiring \<Rightarrow> resolved_team \<Rightarrow> string \<Rightarrow> string \<Rightarrow> uuid option \<Rightarrow> ('s, process) prog" where
  "create_resolved_team W r user email i =
     bnd (t_create (w_tier W) \<lparr>ca_card = rs_card r, ca_user_id = user, ca_user_email = email,
            ca_team_id = i, ca_namespace = Some (rs_namespace r), ca_metadata = rs_metadata r\<rparr>)
       (\<lambda>h. andthen (writing (t_store (w_tier W) (h_team_id h) h))
          (\<lambda>s. case t_get_team (w_tier W) (h_team_id h) s of
             None \<Rightarrow> (Inl (PlacementConsistencyError
                 (team_msg (h_team_id h) '' was created but not found in event store'')), s)
           | Some p \<Rightarrow> (Inr p, s)))"

definition create_team ::
    "('s, 'f) wiring \<Rightarrow> string \<Rightarrow> string \<Rightarrow> string \<Rightarrow> uuid option \<Rightarrow>
     (string \<times> json) list option \<Rightarrow> ('s, process) prog" where
  "create_team W ns user email i raw =
     bnd (reading (resolve_team_metadata W ns raw)) (\<lambda>r. create_resolved_team W r user email i)"

section \<open>Reads\<close>

definition load_live :: "'s tier \<Rightarrow> uuid \<Rightarrow> 's \<Rightarrow> process option" where
  "load_live T i s =
     (case t_get_team T i s of
        None \<Rightarrow> None
      | Some p \<Rightarrow> if status p = DELETED then None else Some p)"

definition require_live :: "'s tier \<Rightarrow> uuid \<Rightarrow> 's \<Rightarrow> exn + process" where
  "require_live T i s =
     (case load_live T i s of None \<Rightarrow> Inl (team_not_found i) | Some p \<Rightarrow> Inr p)"

definition get_team :: "'s tier \<Rightarrow> uuid \<Rightarrow> 's \<Rightarrow> process option" where
  "get_team T i s = load_live T i s"

definition get_events :: "'s tier \<Rightarrow> uuid \<Rightarrow> uuid option \<Rightarrow> 's \<Rightarrow> exn + persisted_event list" where
  "get_events T i after s =
     (case require_live T i s of Inl e \<Rightarrow> Inl e | Inr _ \<Rightarrow> t_load_events T i after s)"

definition get_agent_states :: "'s tier \<Rightarrow> uuid \<Rightarrow> uuid option \<Rightarrow> 's \<Rightarrow> exn + agent_state list" where
  "get_agent_states T i agent s =
     (case require_live T i s of
        Inl e \<Rightarrow> Inl e
      | Inr _ \<Rightarrow>
          (case agent of
             None \<Rightarrow> t_load_agent_states T i s
           | Some a \<Rightarrow>
               (case t_load_agent_state T i a s of
                  Inl e \<Rightarrow> Inl e
                | Inr None \<Rightarrow> Inr []
                | Inr (Some x) \<Rightarrow> Inr [x])))"

definition get_handle :: "'s tier \<Rightarrow> uuid \<Rightarrow> 's \<Rightarrow> team_handle option" where
  "get_handle T i s = t_get T i s"

text \<open>\<open>_find_message\<close>: by the id of the inner message, among the sent ones.\<close>

fun find_in_events :: "string \<Rightarrow> persisted_event list \<Rightarrow> message option" where
  "find_in_events mid [] = None"
| "find_in_events mid (ev # evs) =
     (case pe_event ev of
        SentMessage m \<Rightarrow> if uuid_str (msg_id m) = mid then Some m else find_in_events mid evs
      | OtherMessage _ \<Rightarrow> find_in_events mid evs)"

definition find_message :: "'s tier \<Rightarrow> uuid \<Rightarrow> string \<Rightarrow> 's \<Rightarrow> exn + message" where
  "find_message T i mid s =
     (case t_load_events T i None s of
        Inl e \<Rightarrow> Inl e
      | Inr evs \<Rightarrow>
          (case find_in_events mid evs of
             Some m \<Rightarrow> Inr m
           | None \<Rightarrow> Inl (TeamNotFoundError (''Message '' @ mid @ '' not found''))))"

section \<open>Updates of a record\<close>

definition update_team_metadata ::
    "('s, 'f) wiring \<Rightarrow> uuid \<Rightarrow> (string \<times> json) list \<Rightarrow> ('s, metadata option) prog" where
  "update_team_metadata W i raw =
     bnd (reading (require_live (w_tier W) i)) (\<lambda>p.
     bnd (reading (\<lambda>_. validate_metadata (w_validate W) (metadata_type p) (Some raw))) (\<lambda>md.
     bnd (t_update_metadata (w_tier W) i md) (\<lambda>updated. ret (metadata updated))))"

definition update_team_description ::
    "'s tier \<Rightarrow> uuid \<Rightarrow> string option \<Rightarrow> ('s, process) prog" where
  "update_team_description T i description s =
     (case t_get_team T i s of
        None \<Rightarrow> (Inl (team_not_found i), s)
      | Some p \<Rightarrow>
          if status p = DELETED then
            (Inl (TeamStateConflictError (team_msg i '' has been deleted'')), s)
          else bnd (t_update_description T i description USER) (\<lambda>updated. case updated of
                 None \<Rightarrow> throw (team_not_found i)
               | Some q \<Rightarrow> ret q) s)"

section \<open>Lifecycle\<close>

definition stop_team :: "'s tier \<Rightarrow> uuid \<Rightarrow> ('s, unit) prog" where
  "stop_team T i s =
     (case t_get_team T i s of
        None \<Rightarrow> (Inl (team_not_found i), s)
      | Some p \<Rightarrow>
          (case status p of
             STOPPED \<Rightarrow> (Inl (TeamStateConflictError (team_msg i '' is already stopped'')), s)
           | DELETED \<Rightarrow> (Inl (ValueError (team_msg i '' has been deleted'')), s)
           | RUNNING \<Rightarrow>
               andthen (t_stop_team T i)
                 (andthen (writing (t_remove T i)) (best_effort (t_stream_remove T i))) s))"

definition restore_team :: "'s tier \<Rightarrow> uuid \<Rightarrow> ('s, process) prog" where
  "restore_team T i s =
     (case t_get_team T i s of
        None \<Rightarrow> (Inl (team_not_found i), s)
      | Some p \<Rightarrow>
          (case status p of
             RUNNING \<Rightarrow> (Inl (TeamStateConflictError (team_msg i '' is already running'')), s)
           | DELETED \<Rightarrow> (Inl (ValueError (team_msg i '' has been deleted'')), s)
           | STOPPED \<Rightarrow>
               bnd (t_resume T i) (\<lambda>h.
                 andthen (writing (t_store T (h_team_id h) h))
                   (\<lambda>u. case t_get_team T i u of
                      None \<Rightarrow> (Inl (RuntimeError
                          (team_msg i '' was restored but not found in event store'')), u)
                    | Some q \<Rightarrow> (Inr q, u))) s))"

text \<open>\<open>_get_or_revive_handle\<close>: the record first, then the cache, then the placement.\<close>

definition get_or_revive_handle :: "'s tier \<Rightarrow> uuid \<Rightarrow> ('s, process \<times> team_handle) prog" where
  "get_or_revive_handle T i s =
     (case t_get_team T i s of
        None \<Rightarrow> (Inl (team_not_found i), s)
      | Some p \<Rightarrow>
          if status p = DELETED then (Inl (TeamNotFoundError (team_msg i '' has been deleted'')), s)
          else (case t_get T i s of
             Some h \<Rightarrow> (Inr (p, h), s)
           | None \<Rightarrow>
               bnd (t_resume T i) (\<lambda>r.
                 andthen (writing (t_store T (h_team_id r) r))
                   (\<lambda>u. case t_get T i u of
                      None \<Rightarrow> (Inl (RuntimeError (team_msg i '' was revived but has no live handle'')), u)
                    | Some h \<Rightarrow> (Inr (p, h), u))) s))"

section \<open>Deliveries\<close>

definition emit_message :: "'s tier \<Rightarrow> uuid \<Rightarrow> message \<Rightarrow> ('s, unit) prog" where
  "emit_message T i m =
     bnd (get_or_revive_handle T i) (\<lambda>(_, h). handle_emit (t_runtime T) h m)"

definition trigger_description ::
    "('s, 'f) wiring \<Rightarrow> process \<Rightarrow> delivery \<Rightarrow> (('s, 'f) service, unit) prog" where
  "trigger_description W p content =
     (if w_generator W then in_executor (maybe_generate p content) else ret ())"

definition send_message ::
    "('s, 'f) wiring \<Rightarrow> uuid \<Rightarrow> delivery \<Rightarrow> (('s, 'f) service, unit) prog" where
  "send_message W i content =
     bnd (in_tier (bnd (get_or_revive_handle (w_tier W) i) (\<lambda>(p, h).
            andthen (handle_send (t_runtime (w_tier W)) h content) (ret p))))
       (\<lambda>p. trigger_description W p content)"

definition send_message_to ::
    "('s, 'f) wiring \<Rightarrow> uuid \<Rightarrow> string \<Rightarrow> delivery \<Rightarrow> (('s, 'f) service, unit) prog" where
  "send_message_to W i agent content =
     bnd (in_tier (bnd (get_or_revive_handle (w_tier W) i) (\<lambda>(p, h).
            andthen (handle_send_to (t_runtime (w_tier W)) h agent content) (ret p))))
       (\<lambda>p. trigger_description W p content)"

definition send_message_from_to ::
    "'s tier \<Rightarrow> uuid \<Rightarrow> string \<Rightarrow> string \<Rightarrow> delivery \<Rightarrow> ('s, unit) prog" where
  "send_message_from_to T i sender recipient content =
     bnd (get_or_revive_handle T i)
       (\<lambda>(_, h). handle_send_from_to (t_runtime T) h sender recipient content)"

definition process_human_input :: "'s tier \<Rightarrow> uuid \<Rightarrow> string \<Rightarrow> string \<Rightarrow> ('s, unit) prog" where
  "process_human_input T i content mid =
     bnd (reading (find_message T i mid)) (\<lambda>m.
     bnd (get_or_revive_handle T i) (\<lambda>(_, h). handle_human_input (t_runtime T) h content m))"

section \<open>Deletion\<close>

definition delete_team :: "('s, 'f) wiring \<Rightarrow> uuid \<Rightarrow> (('s, 'f) service, unit) prog" where
  "delete_team W i =
     (let T = w_tier W in
      bnd (in_tier (reading (require_live T i))) (\<lambda>p.
      andthen (if status p = RUNNING then in_tier (t_stop_team T i) else ret ())
     (bnd (in_tier (reading (deletion_candidates (t_cards T) p))) (\<lambda>candidates.
      andthen (in_tier (writing (t_remove T i)))
     (andthen (in_tier (best_effort (t_stream_remove T i)))
     (andthen (in_tier (t_delete_team T i))
        (in_fs (remove_workspace_trees (w_os W) (w_root W) i p candidates (w_policy W)))))))))"


lemmas service_defs = in_tier_def in_fs_def in_executor_def on_part_def

section \<open>Records that are gone\<close>

text \<open>The record is unknown or retired: to every caller, the team does not exist.\<close>

definition gone :: "'s tier \<Rightarrow> uuid \<Rightarrow> 's \<Rightarrow> bool" where
  "gone T i s \<longleftrightarrow> load_live T i s = None"

lemma gone_iff: "gone T i s \<longleftrightarrow> (\<forall>p. t_get_team T i s = Some p \<longrightarrow> status p = DELETED)"
  by (auto simp: gone_def load_live_def split: option.splits)

lemma revive_gone:
  "gone T i s \<Longrightarrow> \<exists>m. get_or_revive_handle T i s = (Inl (TeamNotFoundError m), s)"
  by (auto simp: gone_iff get_or_revive_handle_def team_not_found_def split: option.split)

lemma in_tier_keep: "m (sv_tier s) = (Inl e, sv_tier s) \<Longrightarrow> in_tier m s = (Inl e, s)"
  by (simp add: service_defs)

lemma bnd_error: "m s = (Inl e, t) \<Longrightarrow> bnd m f s = (Inl e, t)"
  by (simp add: bnd_def)

text \<open>
  C1. Nothing is ever delivered to a team whose record is unknown or retired, whatever handle the cache
  still holds: every delivery raises \<open>TeamNotFoundError\<close> (a human answer may fail on the event store
  first) and changes nothing, so no runtime is started for it.
\<close>

theorem gone_team_receives_nothing:
  assumes "gone (w_tier W) i (sv_tier s)"
  shows "\<exists>m. send_message W i content s = (Inl (TeamNotFoundError m), s) \<and>
             send_message_to W i agent content s = (Inl (TeamNotFoundError m), s) \<and>
             send_message_from_to (w_tier W) i a b content (sv_tier s) = (Inl (TeamNotFoundError m), sv_tier s) \<and>
             emit_message (w_tier W) i msg (sv_tier s) = (Inl (TeamNotFoundError m), sv_tier s) \<and>
             (\<exists>e. process_human_input (w_tier W) i text mid (sv_tier s) = (Inl e, sv_tier s))"
proof -
  obtain m where m: "get_or_revive_handle (w_tier W) i (sv_tier s) = (Inl (TeamNotFoundError m), sv_tier s)"
    using revive_gone [OF assms] by blast
  have "\<exists>e. process_human_input (w_tier W) i text mid (sv_tier s) = (Inl e, sv_tier s)"
    by (cases "find_message (w_tier W) i mid (sv_tier s)")
      (simp_all add: process_human_input_def bnd_def m)
  then show ?thesis
    by (auto intro!: exI [of _ m] in_tier_keep bnd_error
        simp: send_message_def send_message_to_def send_message_from_to_def emit_message_def m)
qed

definition ref_wiring :: "(ref_world community, path set) wiring" where
  "ref_wiring = \<lparr>w_tier = ref_tier, w_os = sample_os, w_root = [''/srv''], w_policy = team_tree_only,
     w_validate = sample_validate, w_indexes = (\<lambda>_. []), w_generator = True\<rparr>"

definition ref_service :: "team_status \<Rightarrow> (ref_world community, path set) service" where
  "ref_service st = \<lparr>sv_tier = in_cache (cache_store 7 (LocalTeamHandle \<lparr>rt_id = 7, rt_object = 0\<rparr>)) (ref_start_state st),
     sv_fs = {}, sv_executor = \<lparr>ex_open = True, ex_jobs = []\<rparr>\<rparr>"

lemma ref_wiring_tier [simp]: "w_tier ref_wiring = ref_tier"
  by (simp add: ref_wiring_def)

lemma ref_get_team: "t_get_team ref_tier i s = map_of (rw_teams (store_of s)) i"
  by (simp add: ref_tier_def ref_store_def community_defs Let_def)

theorem gone_team_receives_nothing_witness:
  "\<exists>m. send_message ref_wiring 7 (Text ''hi'') (ref_service DELETED) = (Inl (TeamNotFoundError m), ref_service DELETED) \<and>
       t_get ref_tier 7 (sv_tier (ref_service DELETED)) \<noteq> None"
proof -
  have "gone ref_tier 7 (sv_tier (ref_service DELETED))"
    by (simp add: gone_iff ref_get_team ref_service_def store_of_def in_cache_def ref_start_state_def
        one_team_world_def init_placement_def)
  then obtain m where "send_message ref_wiring 7 (Text ''hi'') (ref_service DELETED) = (Inl (TeamNotFoundError m), ref_service DELETED)"
    using gone_team_receives_nothing [of ref_wiring 7 "ref_service DELETED"] by fastforce
  then show ?thesis
    by (auto simp: ref_service_def ref_tier_def community_defs Let_def cache_defs)
qed

lemma revive_ignores_resume:
  "t_get T i s \<noteq> None \<Longrightarrow>
   get_or_revive_handle (T\<lparr>t_resume := x\<rparr>) i s = get_or_revive_handle T i s"
  by (auto simp: get_or_revive_handle_def split: option.split)

lemma bnd_cong: "m s = n s \<Longrightarrow> (\<And>x t. m s = (Inr x, t) \<Longrightarrow> f x t = g x t) \<Longrightarrow> bnd m f s = bnd n g s"
  by (auto simp: bnd_def split: prod.split sum.split)

lemma in_tier_cong: "m (sv_tier s) = n (sv_tier s) \<Longrightarrow> in_tier m s = in_tier n s"
  by (simp add: service_defs)

text \<open>
  A delivery to a live team with a cached handle never asks the placement: it behaves the same
  whatever a resume would do, and so do the other deliveries.
\<close>

theorem cached_delivery_never_resumes:
  assumes "t_get (w_tier W) i (sv_tier s) \<noteq> None"
  shows "send_message (W\<lparr>w_tier := (w_tier W)\<lparr>t_resume := x\<rparr>\<rparr>) i content s = send_message W i content s \<and>
    send_message_to (W\<lparr>w_tier := (w_tier W)\<lparr>t_resume := x\<rparr>\<rparr>) i agent content s = send_message_to W i agent content s \<and>
    emit_message ((w_tier W)\<lparr>t_resume := x\<rparr>) i msg (sv_tier s) = emit_message (w_tier W) i msg (sv_tier s)"
  using revive_ignores_resume [OF assms, of x]
  by (auto simp: send_message_def send_message_to_def emit_message_def trigger_description_def
      intro!: bnd_cong in_tier_cong)


theorem cached_delivery_never_resumes_witness:
  "send_message (ref_wiring\<lparr>w_tier := ref_tier\<lparr>t_resume := (\<lambda>_. throw StreamClosed)\<rparr>\<rparr>) 7 (Text ''hi'') (ref_service RUNNING)
     = send_message ref_wiring 7 (Text ''hi'') (ref_service RUNNING)"
  using cached_delivery_never_resumes [of ref_wiring 7 "ref_service RUNNING"]
  by (simp add: ref_service_def ref_tier_def community_defs Let_def cache_defs)

section \<open>Reviving a team\<close>

lemma revive_result:
  assumes "get_or_revive_handle T i s = (Inr (p, h), t)"
  shows "t_get_team T i s = Some p" "status p \<noteq> DELETED" "t_get T i t = Some h"
  using assms
  by (auto simp: get_or_revive_handle_def bnd_def andthen_def split: option.splits if_splits prod.splits sum.splits)

text \<open>
  A revived team stays revived: the handle a delivery went to is the one the cache holds
  afterwards, and while the record is not retired the next delivery finds that handle and changes
  nothing to get it.
\<close>

theorem revived_handle_is_cached:
  assumes "get_or_revive_handle T i s = (Inr (p, h), t)"
  shows "t_get T i t = Some h \<and>
    (\<not> gone T i t \<longrightarrow> (\<exists>q. get_or_revive_handle T i t = (Inr (q, h), t)))"
  using revive_result [OF assms]
  by (auto simp: gone_iff) (auto simp: get_or_revive_handle_def)

definition ref_stopped :: "ref_world community" where
  "ref_stopped = ref_start_state STOPPED"

theorem revived_handle_is_cached_witness:
  "\<exists>p t. get_or_revive_handle ref_tier 7 ref_stopped = (Inr (p, LocalTeamHandle \<lparr>rt_id = 7, rt_object = 1\<rparr>), t) \<and>
     t_get ref_tier 7 t = Some (LocalTeamHandle \<lparr>rt_id = 7, rt_object = 1\<rparr>)"
proof -
  obtain p t where pt: "get_or_revive_handle ref_tier 7 ref_stopped = (Inr (p, LocalTeamHandle \<lparr>rt_id = 7, rt_object = 1\<rparr>), t)"
    by (simp add: get_or_revive_handle_def ref_stopped_def ref_tier_defs bnd_def andthen_def
        place_resume_def resume_owner_def claim_key_def run_claim_def resume_in_world_def settle_def
        release_def cache_defs h_team_id_def)
  show ?thesis using revived_handle_is_cached [OF pt] pt by blast
qed

text \<open>
  An answer to an unknown message starts no runtime: when the team's events hold no sent message
  with that id, the call raises and nothing changes, whatever the team's status.
\<close>

theorem unknown_message_never_revives:
  assumes "t_load_events T i None s = Inr evs"
    and "\<And>m. SentMessage m \<in> pe_event ` set evs \<Longrightarrow> uuid_str (msg_id m) \<noteq> mid"
  shows "process_human_input T i content mid s =
           (Inl (TeamNotFoundError (''Message '' @ mid @ '' not found'')), s)"
proof -
  have "find_in_events mid evs = None"
    using assms(2) by (induction evs) (auto split: event_message.split)
  then show ?thesis
    using assms(1) by (simp add: process_human_input_def bnd_def find_message_def)
qed

theorem unknown_message_never_revives_witness:
  "process_human_input ref_tier 7 ''yes'' ''nope'' ref_stopped =
     (Inl (TeamNotFoundError ''Message nope not found''), ref_stopped)"
  using unknown_message_never_revives [of ref_tier 7 ref_stopped "[]" "''nope''" "''yes''"]
  by (simp add: ref_stopped_def ref_tier_defs)

section \<open>Stopping and restoring\<close>

context team_tier
begin

lemma stop_team_ok:
  assumes "stop_team T i s = (Inr (), t)"
  shows "\<exists>p. t_get_team T i s = Some p \<and> status p = RUNNING" and "t_get T i t = None"
  using assms evict_then_drop(1) [of i i i] best_effort_state [of "t_stream_remove T i"]
  by (auto simp: stop_team_def andthen_def bnd_def split: option.splits team_status.splits prod.splits sum.splits)
    (metis snd_conv)+

lemma restore_team_ok:
  assumes "restore_team T i s = (Inr q, t)"
  shows "\<exists>p. t_get_team T i s = Some p \<and> status p = STOPPED" and "t_get_team T i t = Some q"
    and "\<exists>h u. t_resume T i s = (Inr h, u) \<and> t_get T (h_team_id h) t = Some h"
  using assms
  by (auto simp: restore_team_def andthen_def bnd_def get_store
      split: option.splits team_status.splits prod.splits sum.splits)

end

lemma stop_team_error:
  assumes "stop_team T i s = (Inl e, t)"
  shows "(\<exists>p. t_get_team T i s = Some p \<and> status p = RUNNING \<and> t_stop_team T i s = (Inl e, t)) \<or>
         (t = s \<and> (\<forall>p. t_get_team T i s = Some p \<longrightarrow> status p \<noteq> RUNNING))"
  using assms best_effort_total [of "t_stream_remove T i"]
  by (auto simp: stop_team_def andthen_def bnd_def split: option.splits team_status.splits prod.splits sum.splits)
    (metis fst_conv sum.distinct(1))+

lemma stream_gone_after_remove:
  "contents (ls_streams (pl_world (snd (t_stream_remove (community_tier E M R) i s)))) i = []"
  by (simp add: community_defs Let_def stream_remove_def contents_def split: option.split prod.split)

text \<open>
  On the community tier a stop succeeds only for a running team, and then leaves no handle in the
  cache and no event in the team's stream; when it fails, either the team manager refused the stop
  and the cache is as that left it, or the team is not running and nothing at all has changed.
\<close>

theorem stop_team_outcomes:
  assumes "stop_team (community_tier E M R) i s = (r, t)"
  shows "(case r of
     Inr _ \<Rightarrow> (\<exists>p. t_get_team (community_tier E M R) i s = Some p \<and> status p = RUNNING) \<and>
        t_get (community_tier E M R) i t = None \<and> contents (ls_streams (pl_world t)) i = []
   | Inl e \<Rightarrow> (t_stop_team (community_tier E M R) i s = (Inl e, t)) \<or>
        (t = s \<and> (\<forall>p. t_get_team (community_tier E M R) i s = Some p \<longrightarrow> status p \<noteq> RUNNING)))"
proof (cases r)
  case (Inl e)
  then show ?thesis using stop_team_error assms by fastforce
next
  case (Inr u)
  then have ok: "stop_team (community_tier E M R) i s = (Inr (), t)" using assms by simp
  obtain v where "t = snd (t_stream_remove (community_tier E M R) i v)"
    using ok best_effort_state [of "t_stream_remove (community_tier E M R) i"]
    by (auto simp: stop_team_def andthen_def bnd_def split: option.splits team_status.splits prod.splits sum.splits)
      (metis snd_conv)
  then show ?thesis
    using community.stop_team_ok [OF ok] stream_gone_after_remove Inr by simp
qed


theorem stop_team_outcomes_witness:
  "\<exists>t. stop_team ref_tier 7 (sv_tier (ref_service RUNNING)) = (Inr (), t) \<and> t_get ref_tier 7 t = None"
proof -
  obtain t where t: "stop_team ref_tier 7 (sv_tier (ref_service RUNNING)) = (Inr (), t)"
    by (simp add: stop_team_def ref_service_def ref_tier_defs andthen_def bnd_def best_effort_def
        try_except_def stream_remove_def init_streams_def)
  show ?thesis
    using stop_team_outcomes [OF t [unfolded ref_tier_def]] t by (auto simp: ref_tier_def)
qed

lemma restore_team_error:
  assumes "restore_team T i s = (Inl e, t)"
    and "\<forall>p. t_get_team T i s = Some p \<longrightarrow> status p \<noteq> STOPPED"
  shows "t = s \<and> is_value_error e"
  using assms
  by (auto simp: restore_team_def team_not_found_def split: option.splits team_status.splits)

text \<open>
  On the community tier a restore succeeds only for a stopped team: the handle the placement
  answered is in the cache under its team id and the record returned is the current one. For a team
  that is unknown, running or deleted it raises and changes nothing.
\<close>

theorem restore_team_outcomes:
  assumes "restore_team (community_tier E M R) i s = (r, t)"
  shows "(case r of
     Inr q \<Rightarrow> (\<exists>p. t_get_team (community_tier E M R) i s = Some p \<and> status p = STOPPED) \<and>
        t_get_team (community_tier E M R) i t = Some q \<and>
        (\<exists>h u. t_resume (community_tier E M R) i s = (Inr h, u) \<and>
           t_get (community_tier E M R) (h_team_id h) t = Some h)
   | Inl e \<Rightarrow> ((\<forall>p. t_get_team (community_tier E M R) i s = Some p \<longrightarrow> status p \<noteq> STOPPED) \<longrightarrow>
        t = s \<and> is_value_error e))"
  using assms community.restore_team_ok [of E M R i s _ t] restore_team_error [of "community_tier E M R" i s _ t]
  by (cases r) auto

theorem restore_team_outcomes_witness:
  "\<exists>q t. restore_team ref_tier 7 ref_stopped = (Inr q, t) \<and> t_get_team ref_tier 7 t = Some q \<and> status q = RUNNING"
proof -
  obtain q t where t: "restore_team ref_tier 7 ref_stopped = (Inr q, t)" and q: "status q = RUNNING"
    by (simp add: restore_team_def ref_stopped_def ref_tier_defs bnd_def andthen_def
        place_resume_def resume_owner_def claim_key_def run_claim_def resume_in_world_def settle_def
        release_def cache_defs h_team_id_def)
  show ?thesis
    using restore_team_outcomes [OF t [unfolded ref_tier_def]] t q by (auto simp: ref_tier_def)
qed

section \<open>Creating\<close>

lemma resolve_indexes:
  "resolve_team_metadata W ns raw s = Inr r \<Longrightarrow>
   rs_namespace r = ns \<and> rs_indexes r = w_indexes W (rs_metadata r) \<and>
   t_load_team (w_tier W) ns s = Inr (rs_card r) \<and>
   validate_metadata (w_validate W) (tc_metadata_type (rs_card r)) raw = Inr (rs_metadata r)"
  by (auto simp: resolve_team_metadata_def split: sum.splits exn.splits if_splits)

lemma create_team_ok:
  assumes "create_team W ns user email i raw s = (Inr p, t)"
  obtains r h u where "resolve_team_metadata W ns raw s = Inr r"
    and "t_create (w_tier W) \<lparr>ca_card = rs_card r, ca_user_id = user, ca_user_email = email,
            ca_team_id = i, ca_namespace = Some ns, ca_metadata = rs_metadata r\<rparr> s = (Inr h, u)"
    and "t = t_store (w_tier W) (h_team_id h) h u" and "t_get_team (w_tier W) (h_team_id h) t = Some p"
proof -
  obtain r where r: "resolve_team_metadata W ns raw s = Inr r"
    and c: "create_resolved_team W r user email i s = (Inr p, t)"
    using assms by (auto simp: create_team_def bnd_def split: sum.splits)
  have ns: "rs_namespace r = ns" using resolve_indexes [OF r] by simp
  show ?thesis
    using c that [OF r]
    by (auto simp: create_resolved_team_def ns bnd_def andthen_def split: sum.splits prod.splits option.splits)
qed

text \<open>
  A refused body leaves no half-created team: when the catalog or the metadata is refused, the
  creation raises that error, the placement is not called and nothing changes. When a creation
  succeeds, the team was created from the card the catalog holds, with the metadata validated
  against the type that card declares.
\<close>

theorem create_team_validates_first:
  "(case resolve_team_metadata W ns raw s of
      Inl e \<Rightarrow> create_team W ns user email i raw s = (Inl e, s)
    | Inr r \<Rightarrow>
        t_load_team (w_tier W) ns s = Inr (rs_card r) \<and>
        validate_metadata (w_validate W) (tc_metadata_type (rs_card r)) raw = Inr (rs_metadata r) \<and>
        create_team W ns user email i raw s = create_resolved_team W r user email i s)"
  by (auto simp: create_team_def bnd_def dest: resolve_indexes split: sum.split)

text \<open>
  The three reasons a catalog namespace cannot be instantiated are told apart: an empty namespace,
  a namespace with no team entry, and a broken one, whose own diagnosis is passed on unchanged.
\<close>

theorem catalog_errors_are_split:
  assumes "t_load_team (w_tier W) ns s = Inl (CatalogValidationError m)"
    and "t_list_kinds (w_tier W) ns s = Inr kinds"
  shows "create_team W ns user email i raw s =
    (Inl (if kinds = [] then EntryNotFoundError ns
          else if ''team'' \<notin> set kinds then
            CatalogTeamEntryMissingError (''Catalog namespace '' @ quoted ns @ '' has no team entry'')
          else CatalogValidationError m), s)"
  using assms by (simp add: create_team_def resolve_team_metadata_def bnd_def)

theorem catalog_errors_are_split_witness:
  "create_team ref_wiring ''tools'' ''bob'' '''' None None ref_stopped =
     (Inl (CatalogTeamEntryMissingError (''Catalog namespace '' @ quoted ''tools'' @ '' has no team entry'')), ref_stopped)"
  using catalog_errors_are_split [of ref_wiring "''tools''" ref_stopped "''no team''" "[''tool'']"]
  by (simp add: ref_tier_defs)

text \<open>
  On the community tier a created team is reachable at once: its handle is in the cache, and the
  record returned is the one its id names.
\<close>

theorem created_team_is_cached:
  assumes "create_team W ns user email i raw s = (Inr p, t)" and "w_tier W = community_tier E M R"
  shows "\<exists>j h. h_team_id h = j \<and> t_get (w_tier W) j t = Some h \<and> t_get_team (w_tier W) j t = Some p"
  using create_team_ok [OF assms(1)] community.cached_after_store [of E M R] by (metis assms(2))

theorem created_team_is_cached_witness:
  "\<exists>p t j h. create_team ref_wiring ''ns'' ''bob'' '''' (Some 9) None ref_stopped = (Inr p, t) \<and>
     h_team_id h = j \<and> t_get ref_tier j t = Some h \<and> t_get_team ref_tier j t = Some p"
proof -
  obtain p t where t: "create_team ref_wiring ''ns'' ''bob'' '''' (Some 9) None ref_stopped = (Inr p, t)"
    by (simp add: create_team_def resolve_team_metadata_def validate_metadata_def create_resolved_team_def
        ref_stopped_def ref_tier_defs ref_wiring_def bnd_def andthen_def try_except_def h_team_id_def
        place_create_def claim_create_def claim_key_def run_claim_def create_in_world_def settle_def
        release_def cache_defs)
  show ?thesis
    using created_team_is_cached [OF t, of ref_store ref_manager ref_runtime] t
    by (auto simp: ref_tier_def)
qed


section \<open>Deleting\<close>

text \<open>Everything before the removal of the trees works on the tier's state only.\<close>

lemma in_tier_apply: "in_tier m s = (r, u) \<longleftrightarrow> (\<exists>t. m (sv_tier s) = (r, t) \<and> u = s\<lparr>sv_tier := t\<rparr>)"
  by (auto simp: service_defs split: prod.splits)

lemma in_fs_apply: "in_fs m s = (r, u) \<longleftrightarrow> (\<exists>f. m (sv_fs s) = (r, f) \<and> u = s\<lparr>sv_fs := f\<rparr>)"
  by (auto simp: service_defs split: prod.splits)

text \<open>The tier's half of a deletion: what it does before the file system is touched.\<close>

definition delete_in_tier :: "('s, 'f) wiring \<Rightarrow> uuid \<Rightarrow> ('s, process \<times> path list) prog" where
  "delete_in_tier W i =
     (let T = w_tier W in
      bnd (reading (require_live T i)) (\<lambda>p.
      andthen (if status p = RUNNING then t_stop_team T i else ret ())
     (bnd (reading (deletion_candidates (t_cards T) p)) (\<lambda>candidates.
      andthen (writing (t_remove T i))
     (andthen (best_effort (t_stream_remove T i))
     (andthen (t_delete_team T i) (ret (p, candidates))))))))"

lemma in_tier_bnd: "in_tier (bnd m f) = bnd (in_tier m) (\<lambda>x. in_tier (f x))"
  by (auto simp: service_defs bnd_def fun_eq_iff split: prod.split sum.split)

lemma in_tier_ret: "in_tier (ret x) = ret x"
  by (simp add: service_defs ret_def fun_eq_iff)

lemma in_tier_if: "in_tier (if b then m else n) = (if b then in_tier m else in_tier n)"
  by simp

lemma delete_team_split:
  "delete_team W i = bnd (in_tier (delete_in_tier W i))
     (\<lambda>(p, candidates). in_fs (remove_workspace_trees (w_os W) (w_root W) i p candidates (w_policy W)))"
  by (simp add: delete_team_def delete_in_tier_def Let_def in_tier_bnd andthen_def bnd_assoc
      in_tier_ret in_tier_if cong: if_cong)

lemma delete_in_tier_error:
  "require_live (w_tier W) i s = Inl e \<Longrightarrow> delete_in_tier W i s = (Inl e, s)"
  by (simp add: delete_in_tier_def bnd_def Let_def)

lemma delete_in_tier_ok:
  assumes "delete_in_tier W i s = (Inr (p, cs), t)"
  shows "require_live (w_tier W) i s = Inr p"
    and "\<exists>u. deletion_candidates (t_cards (w_tier W)) p u = Inr cs"
  using assms
  by (auto simp: delete_in_tier_def Let_def bnd_def andthen_def split: sum.splits prod.splits if_splits)



lemma delete_ok_tier:
  assumes "delete_team W i s = (Inr (), t)"
  obtains p cs u where "delete_in_tier W i (sv_tier s) = (Inr (p, cs), u)"
    and "sv_fs t = snd (remove_workspace_trees (w_os W) (w_root W) i p cs (w_policy W) (sv_fs s))"
  using assms
  by (auto simp: delete_team_split bnd_def service_defs split: prod.splits sum.splits)

text \<open>
  C2. With the configured policy a deletion reaches only the deleted team's own tree: where a path
  appears or disappears, the mode is hard and the path is under the tree
  \<open><scope>/_team/<team id>\<close>, three segments inside the workspaces root, or under one of its two
  sidecars, whatever the team's cards declare.
\<close>

theorem deletion_reaches_own_tree_only:
  assumes "delete_team W i s = (Inr (), t)" and "w_policy W = workspace_deletion_policy_for mode"
    and "rmtree_local (w_os W)" and "os_exists (w_os W) q (sv_fs t) \<noteq> os_exists (w_os W) q (sv_fs s)"
  shows "mode = HARD \<and> (\<exists>scope g target.
     contained_target (w_os W) (w_root W) [scope, team_kind, uuid_str i] g = Some target \<and>
     strict_prefix (os_resolve (w_os W) (w_root W) g) target \<and>
     within_reach (w_os W) [scope, team_kind, uuid_str i] target q)"
proof -
  obtain p cs u where del: "delete_in_tier W i (sv_tier s) = (Inr (p, cs), u)"
    and fs: "sv_fs t = snd (remove_workspace_trees (w_os W) (w_root W) i p cs (w_policy W) (sv_fs s))"
    using delete_ok_tier [OF assms(1)] .
  obtain c g target where c: "contained_target (w_os W) (w_root W) c g = Some target" "length c = 3"
    and root: "strict_prefix (os_resolve (w_os W) (w_root W) g) target"
    and pol: "w_policy W (deletion_context_of i p c)" and reach: "within_reach (w_os W) c target q"
    using removed_within_reach [OF assms(3) assms(4) [unfolded fs]] by blast
  have own: "mode = HARD \<and> c ! 1 = team_kind \<and> c ! 2 = uuid_str i"
    using pol unfolding assms(2)
    by (cases mode) (auto simp: workspace_deletion_policy_for_def team_tree_only_def keep_every_tree_def
        deletion_context_of_def)
  then have "c = [c ! 0, team_kind, uuid_str i]"
    using c(2) by (auto simp: length_Suc_conv numeral_eq_Suc)
  then show ?thesis using own c(1) root reach by metis
qed


definition ref_tree :: path where
  "ref_tree = [''/srv'', ''alice'', ''_team'', uuid_str 7]"

definition ref_with_tree :: "(ref_world community, path set) service" where
  "ref_with_tree = (ref_service STOPPED)\<lparr>sv_fs := {ref_tree, [''/srv'', ''bob'']}\<rparr>"

lemma ref_candidates:
  "deletion_candidates (t_cards ref_tier) p u = Inr [[user_id p, ''_team'', uuid_str (team_id p)]]"
  by (simp add: deletion_candidates_def deletion_candidate_paths_def team_layouts_def
      declared_from_layouts_def default_sharable_def resolve_default_def ref_tier_def community_defs
      Let_def ref_store_def ref_cards_def map_filter_simps dedup_def)

lemma ref_delete_ok: "fst (t_delete_team ref_tier i s) = Inr ()"
  by (simp add: ref_tier_def ref_manager_def in_ref_def ref_tm_def community_defs Let_def)

theorem deletion_reaches_own_tree_only_witness:
  "\<exists>t scope g target. delete_team ref_wiring 7 ref_with_tree = (Inr (), t) \<and> ref_tree \<notin> sv_fs t \<and>
     contained_target sample_os [''/srv''] [scope, team_kind, uuid_str 7] g = Some target \<and>
     within_reach sample_os [scope, team_kind, uuid_str 7] target ref_tree"
proof -
  have live: "require_live ref_tier 7 (sv_tier ref_with_tree) = Inr ((new_process 7 sample_args)\<lparr>status := STOPPED\<rparr>)"
    by (simp add: require_live_def load_live_def ref_get_team ref_with_tree_def ref_service_def store_of_def
        in_cache_def ref_start_state_def one_team_world_def init_placement_def)
  have tier: "\<exists>u. delete_in_tier ref_wiring 7 (sv_tier ref_with_tree) =
      (Inr ((new_process 7 sample_args)\<lparr>status := STOPPED\<rparr>, [[''alice'', ''_team'', uuid_str 7]]), u)"
    by (simp add: delete_in_tier_def bnd_def live ref_candidates andthen_ok [where x = "()"] best_effort_total
        ref_delete_ok) (simp add: new_process_def sample_args_def)
  have fs: "\<exists>f. remove_workspace_trees sample_os [''/srv''] 7 ((new_process 7 sample_args)\<lparr>status := STOPPED\<rparr>)
      [[''alice'', ''_team'', uuid_str 7]] team_tree_only (sv_fs ref_with_tree) = (Inr (), f) \<and> ref_tree \<notin> f"
    by (simp add: remove_workspace_trees_def remove_candidate_def contained_target_def sample_os_def
        path_join_def workspace_path_segments_def team_tree_only_def deletion_context_of_def team_kind_def
        rmtree_best_effort_def best_effort_def try_except_def andthen_def bnd_def ref_with_tree_def ref_tree_def)
  obtain t where t: "delete_team ref_wiring 7 ref_with_tree = (Inr (), t)" "ref_tree \<notin> sv_fs t"
    using tier fs by (auto simp: delete_team_split bnd_def service_defs ref_wiring_def)
  have "os_exists sample_os ref_tree (sv_fs t) \<noteq> os_exists sample_os ref_tree (sv_fs ref_with_tree)"
    using t(2) by (simp add: sample_os_def ref_with_tree_def)
  then show ?thesis
    using deletion_reaches_own_tree_only [OF t(1), of HARD ref_tree] t sample_rmtree_local
    by (auto simp: ref_wiring_def workspace_deletion_policy_for_def)
qed

text \<open>
  No team becomes undeletable because of its workspaces: when a declaration cannot be turned into
  a path, or a card is gone, a deletion does exactly what it does for a team with no tree to remove,
  worker-side delete included, and touches no file.
\<close>

theorem unresolvable_workspaces_do_not_block_deletion:
  assumes "require_live (w_tier W) i (sv_tier s) = Inr p" and "status p \<noteq> RUNNING"
    and "deletion_candidate_paths (t_cards (w_tier W)) p (sv_tier s) = Inl e"
    and "is_value_error e \<or> is_card_not_found e"
  shows "delete_team W i s =
    in_tier (andthen (writing (t_remove (w_tier W) i))
      (andthen (best_effort (t_stream_remove (w_tier W) i)) (t_delete_team (w_tier W) i))) s"
proof -
  have "deletion_candidates (t_cards (w_tier W)) p (sv_tier s) = Inr []"
    using assms(3,4) by (simp add: deletion_candidates_def)
  then show ?thesis
    using assms(1,2)
    by (simp add: delete_team_def Let_def bnd_def andthen_def service_defs remove_workspace_trees_def
        split: prod.split sum.split)
qed

definition broken_cards :: "ref_world community card_ops" where
  "broken_cards = \<lparr>resolve_agent_cards = (\<lambda>_ _. Inl (AgentCardNotFoundError ''gone'')),
     resolve_workspace_path = (\<lambda>_ _ _ _ _ _. Inl (ValueError ''no path''))\<rparr>"

definition broken_wiring :: "(ref_world community, path set) wiring" where
  "broken_wiring = ref_wiring\<lparr>w_tier := ref_tier\<lparr>t_cards := broken_cards\<rparr>\<rparr>"

theorem unresolvable_workspaces_do_not_block_deletion_witness:
  "\<exists>t. delete_team broken_wiring 7 ref_with_tree = (Inr (), t) \<and> sv_fs t = sv_fs ref_with_tree"
proof -
  let ?p = "(new_process 7 sample_args)\<lparr>status := STOPPED\<rparr>"
  have w: "w_tier broken_wiring = ref_tier\<lparr>t_cards := broken_cards\<rparr>" by (simp add: broken_wiring_def)
  have live: "require_live (w_tier broken_wiring) 7 (sv_tier ref_with_tree) = Inr ?p"
    by (simp add: w require_live_def load_live_def ref_tier_defs ref_with_tree_def ref_service_def)
  have c: "deletion_candidate_paths (t_cards (w_tier broken_wiring)) ?p (sv_tier ref_with_tree) =
      Inl (AgentCardNotFoundError ''gone'')"
    by (simp add: w deletion_candidate_paths_def team_layouts_def broken_cards_def)
  show ?thesis
    unfolding unresolvable_workspaces_do_not_block_deletion [OF live _ c, simplified]
    by (simp add: in_tier_def on_part_def andthen_ok [where x = "()"] best_effort_total w split: prod.split)
      (metis fst_conv ref_delete_ok)
qed

end
