(* ===== verification/TeamListing.thy ===== *)
theory TeamListing
  imports Reference "HOL-Library.Product_Lexorder" "HOL-Library.Multiset"
begin

text \<open>
  Listing teams: \<open>list_teams\<close> and \<open>list_teams_for_policy\<close> of \<open>server/services/team_service.py\<close>, with
  \<open>TeamListFilter\<close> of \<open>protocols/authz.py\<close>. The index entry of a metadata value and the prefix
  groups of a search are \<open>akgentic.team\<close>'s functions, given as parameters.
\<close>

section \<open>Filters\<close>

type_synonym metadata_search = "(string \<times> string list) list"

record team_list_filter =
  tf_user_id :: "string option"
  tf_metadata :: "metadata_search option"

text \<open>The model validator: what may be constructed as a filter.\<close>

definition valid_filter :: "team_list_filter \<Rightarrow> bool" where
  "valid_filter f \<longleftrightarrow> tf_user_id f \<noteq> Some '''' \<and>
     (case tf_metadata f of
        None \<Rightarrow> True
      | Some md \<Rightarrow> md \<noteq> [] \<and>
          (\<forall>(key, values) \<in> set md. key \<noteq> '''' \<and> values \<noteq> [] \<and> '''' \<notin> set values))"

record index_ops =
  make_index_entry :: "string \<Rightarrow> string \<Rightarrow> string"
  make_index_prefix_groups :: "metadata_search option \<Rightarrow> string list list"

definition matches_policy_filter :: "index_ops \<Rightarrow> process \<Rightarrow> team_list_filter \<Rightarrow> bool" where
  "matches_policy_filter X p clause =
     (if (case tf_user_id clause of None \<Rightarrow> False | Some u \<Rightarrow> user_id p \<noteq> u) then False
      else case tf_metadata clause of
        None \<Rightarrow> True
      | Some md \<Rightarrow>
          list_all (\<lambda>(key, values).
            list_ex (\<lambda>value. make_index_entry X key value \<in> set (metadata_indexes p)) values) md)"

definition matches_caller_metadata :: "index_ops \<Rightarrow> process \<Rightarrow> metadata_search option \<Rightarrow> bool" where
  "matches_caller_metadata X p md =
     list_all (\<lambda>group. list_ex (\<lambda>pre. list_ex (\<lambda>entry. prefix pre entry) (metadata_indexes p)) group)
       (make_index_prefix_groups X md)"

section \<open>Pages\<close>

definition max_page_size :: int where
  "max_page_size = 500"

text \<open>\<open>rows.sort(key=..., reverse=True)\<close>: descending, rows with equal keys in their given order.\<close>

definition sort_rows :: "process list \<Rightarrow> process list" where
  "sort_rows rows = rev (sort_key (\<lambda>p. (created_at p, team_id p)) (rev rows))"

definition page_size :: "int \<Rightarrow> int" where
  "page_size sz = max 1 (min sz max_page_size)"

definition page_rows :: "'a list \<Rightarrow> int \<Rightarrow> int \<Rightarrow> 'a list" where
  "page_rows rows page sz =
     (let sz = page_size sz; page = max 1 page; start = (page - 1) * sz
      in take (nat sz) (drop (nat start) rows))"

text \<open>The common tail: the namespace, the sort, the count and the slice.\<close>

definition list_page ::
    "string option \<Rightarrow> int \<Rightarrow> int \<Rightarrow> process list \<Rightarrow> process list \<times> nat" where
  "list_page ns page sz rows =
     (let rows = (case ns of None \<Rightarrow> rows
                  | Some n \<Rightarrow> if n = '''' then rows else filter (\<lambda>p. catalog_namespace p = Some n) rows);
          rows = sort_rows rows
      in (page_rows rows page sz, length rows))"

section \<open>The two listings\<close>

definition list_teams ::
    "'s tier \<Rightarrow> string \<Rightarrow> team_status option \<Rightarrow> metadata_search option \<Rightarrow> string option \<Rightarrow> int \<Rightarrow> int \<Rightarrow>
     's \<Rightarrow> exn + process list \<times> nat" where
  "list_teams T user st md ns page sz s =
     (case t_list_teams T (Some user) st md s of
        Inl e \<Rightarrow> Inl e
      | Inr rows \<Rightarrow> Inr (list_page ns page sz rows))"

text \<open>One clause: its rows, kept where they match it exactly, under their ids.\<close>

definition add_clause ::
    "index_ops \<Rightarrow> 's tier \<Rightarrow> team_status option \<Rightarrow> metadata_search option \<Rightarrow> 's \<Rightarrow> team_list_filter \<Rightarrow>
     (uuid, process) dict \<Rightarrow> exn + (uuid, process) dict" where
  "add_clause X T st md s clause candidates =
     (let pushed = (case tf_metadata clause of None \<Rightarrow> md | Some m \<Rightarrow> Some m)
      in case t_list_teams T (tf_user_id clause) st pushed s of
           Inl e \<Rightarrow> Inl e
         | Inr rows \<Rightarrow> Inr (fold (\<lambda>p d. AList.update (team_id p) p d)
               (filter (\<lambda>p. matches_policy_filter X p clause) rows) candidates))"

fun union_clauses ::
    "index_ops \<Rightarrow> 's tier \<Rightarrow> team_status option \<Rightarrow> metadata_search option \<Rightarrow> 's \<Rightarrow> team_list_filter list \<Rightarrow>
     (uuid, process) dict \<Rightarrow> exn + (uuid, process) dict" where
  "union_clauses X T st md s [] candidates = Inr candidates"
| "union_clauses X T st md s (c # cs) candidates =
     (case add_clause X T st md s c candidates of
        Inl e \<Rightarrow> Inl e
      | Inr d \<Rightarrow> union_clauses X T st md s cs d)"

definition list_teams_for_policy ::
    "index_ops \<Rightarrow> 's tier \<Rightarrow> team_list_filter list \<Rightarrow> team_status option \<Rightarrow> metadata_search option \<Rightarrow>
     string option \<Rightarrow> int \<Rightarrow> int \<Rightarrow> 's \<Rightarrow> exn + process list \<times> nat" where
  "list_teams_for_policy X T filters st md ns page sz s =
     (case union_clauses X T st md s filters [] of
        Inl e \<Rightarrow> Inl e
      | Inr d \<Rightarrow> Inr (list_page ns page sz
            (filter (\<lambda>p. matches_caller_metadata X p md) (map snd d))))"

section \<open>Lemmas on pages\<close>

lemma mset_sort_rows [simp]: "mset (sort_rows rows) = mset rows"
  by (simp add: sort_rows_def)

lemma set_sort_rows [simp]: "set (sort_rows rows) = set rows"
  by (simp add: sort_rows_def)

lemma length_sort_rows [simp]: "length (sort_rows rows) = length rows"
  by (simp add: sort_rows_def)

lemma rev_sort_key_descending: "sorted_wrt (\<lambda>p q. k q \<le> k p) (rev (sort_key k xs))"
  using sorted_sort_key [of k xs] by (simp add: sorted_wrt_rev sorted_map)

lemma sort_rows_descending:
  "sorted_wrt (\<lambda>p q. (created_at q, team_id q) \<le> (created_at p, team_id p)) (sort_rows rows)"
  unfolding sort_rows_def by (rule rev_sort_key_descending)

lemma page_size_pos: "0 < page_size sz" "page_size sz \<le> 500"
  by (simp_all add: page_size_def max_page_size_def)

lemma page_rows_Suc:
  "page_rows rows (int k + 1) sz = take (nat (page_size sz)) (drop (k * nat (page_size sz)) rows)"
  using page_size_pos(1) [of sz] by (simp add: page_rows_def Let_def nat_mult_distrib)

lemma pages_concat:
  "concat (map (\<lambda>k. page_rows rows (int k + 1) sz) [0..<n]) = take (n * nat (page_size sz)) rows"
proof (induction n)
  case (Suc n)
  let ?N = "nat (page_size sz)" and ?f = "\<lambda>k. page_rows rows (int k + 1) sz"
  have "concat (map ?f [0..<Suc n]) = concat (map ?f [0..<n]) @ ?f n"
    by (simp only: upt_Suc_append [OF le0] map_append concat_append list.map concat.simps append_Nil2)
  also have "\<dots> = take (n * ?N) rows @ take ?N (drop (n * ?N) rows)"
    by (simp only: Suc.IH) (simp only: page_rows_Suc)
  also have "\<dots> = take (n * ?N + ?N) rows" by (rule take_add [symmetric])
  also have "n * ?N + ?N = Suc n * ?N" by (simp only: mult_Suc add.commute)
  finally show ?case .
qed simp

lemma set_page_rows: "set (page_rows rows page sz) \<subseteq> set rows"
  unfolding page_rows_def Let_def by (meson set_drop_subset set_take_subset subset_trans)

lemma distinct_page_rows: "distinct (map f rows) \<Longrightarrow> distinct (map f (page_rows rows page sz))"
  unfolding page_rows_def Let_def by (simp flip: take_map drop_map)

lemma length_page_rows: "length (page_rows rows page sz) \<le> length rows"
proof -
  have "length (take a (drop b rows)) \<le> length rows" for a b by simp
  then show ?thesis unfolding page_rows_def Let_def .
qed

text \<open>
  The pages of a listing are a partition of the filtered rows: read in order, and as many as the
  count needs, they give the rows of the user the store answered, narrowed by the namespace, each
  once, newest first, and every page reports that same total and at most 500 rows.
\<close>

theorem pages_partition_the_listing:
  assumes "t_list_teams T (Some user) st md s = Inr rows"
    and "kept = (case ns of None \<Rightarrow> rows
          | Some n \<Rightarrow> if n = '''' then rows else filter (\<lambda>p. catalog_namespace p = Some n) rows)"
    and "int (length kept) \<le> int n * page_size sz"
  shows "\<exists>ps. map (\<lambda>k. list_teams T user st md ns (int k + 1) sz s) [0..<n]
               = map (\<lambda>p. Inr (p, length kept)) ps \<and>
          concat ps = sort_rows kept \<and> (\<forall>p \<in> set ps. length p \<le> 500)"
proof (intro exI conjI)
  let ?ps = "map (\<lambda>k. page_rows (sort_rows kept) (int k + 1) sz) [0..<n]"
  show "map (\<lambda>k. list_teams T user st md ns (int k + 1) sz s) [0..<n]
      = map (\<lambda>p. Inr (p, length kept)) ?ps"
    using assms(1,2) by (simp add: list_teams_def list_page_def Let_def sort_rows_def)
  have "length kept \<le> n * nat (page_size sz)"
    using assms(3) page_size_pos(1) [of sz]
    by (metis (no_types, opaque_lifting) int_nat_eq less_le of_nat_le_iff of_nat_mult)
  then show "concat ?ps = sort_rows kept"
    by (simp add: pages_concat sort_rows_def)
  show "\<forall>p \<in> set ?ps. length p \<le> 500"
    using page_size_pos(2) [of sz] by (auto simp: page_rows_Suc)
qed

section \<open>Lemmas on clauses\<close>

text \<open>Where a candidate comes from.\<close>

definition permitted ::
    "index_ops \<Rightarrow> 's tier \<Rightarrow> team_status option \<Rightarrow> metadata_search option \<Rightarrow> 's \<Rightarrow> team_list_filter list \<Rightarrow>
     process \<Rightarrow> bool" where
  "permitted X T st md s clauses p \<longleftrightarrow>
     (\<exists>c \<in> set clauses. matches_policy_filter X p c \<and>
        (\<exists>rows. t_list_teams T (tf_user_id c) st
           (case tf_metadata c of None \<Rightarrow> md | Some m \<Rightarrow> Some m) s = Inr rows \<and> p \<in> set rows))"

lemma fold_update_mem:
  "(i, p) \<in> set (fold (\<lambda>p d. AList.update (team_id p) p d) ps d) \<Longrightarrow> (i, p) \<in> set d \<or> (p \<in> set ps \<and> i = team_id p)"
proof (induction ps arbitrary: d)
  case (Cons q ps)
  have "set (AList.update (team_id q) q d) \<subseteq> insert (team_id q, q) (set d)"
    by (induction d) auto
  then show ?case using Cons by fastforce
qed simp

lemma fold_update_ok: "dict_ok d \<Longrightarrow> dict_ok (fold (\<lambda>p d. AList.update (team_id p) p d) ps d)"
  by (induction ps arbitrary: d) auto

lemma union_clauses_sound:
  "union_clauses X T st md s cs d = Inr d' \<Longrightarrow> dict_ok d \<Longrightarrow>
   \<forall>(i, p) \<in> set d. i = team_id p \<and> permitted X T st md s all p \<Longrightarrow> set cs \<subseteq> set all \<Longrightarrow>
   dict_ok d' \<and> (\<forall>(i, p) \<in> set d'. i = team_id p \<and> permitted X T st md s all p)"
proof (induction cs arbitrary: d)
  case (Cons c cs)
  obtain e where e: "add_clause X T st md s c d = Inr e" "union_clauses X T st md s cs e = Inr d'"
    using Cons.prems(1) by (auto split: sum.splits)
  obtain rows where rows: "t_list_teams T (tf_user_id c) st (case tf_metadata c of None \<Rightarrow> md | Some m \<Rightarrow> Some m) s = Inr rows"
    and ed: "e = fold (\<lambda>p d. AList.update (team_id p) p d) (filter (\<lambda>p. matches_policy_filter X p c) rows) d"
    using e(1) by (auto simp: add_clause_def Let_def split: sum.splits)
  have "\<forall>(i, p) \<in> set e. i = team_id p \<and> permitted X T st md s all p"
  proof clarify
    fix i p assume "(i, p) \<in> set e"
    then have "(i, p) \<in> set d \<or> (p \<in> set rows \<and> matches_policy_filter X p c \<and> i = team_id p)"
      unfolding ed by (auto dest: fold_update_mem)
    then show "i = team_id p \<and> permitted X T st md s all p"
      using Cons.prems(3,4) rows unfolding permitted_def by fastforce
  qed
  then show ?case
    using Cons.IH [OF e(2)] Cons.prems(2,4) fold_update_ok ed by auto
qed simp

text \<open>
  C11. A caller's search never widens what the policy permits: every listed team was answered by the
  store for one of the policy's clauses and matches that clause exactly, matches the caller's own
  search and namespace, and is listed once; the total counts such teams only. With no clause nothing
  is listed.
\<close>

theorem policy_listing_is_sound:
  assumes "list_teams_for_policy X T filters st md ns page sz s = Inr (rows, cnt)"
  shows "(\<forall>p \<in> set rows. permitted X T st md s filters p \<and> matches_caller_metadata X p md \<and>
            (\<forall>n. ns = Some n \<longrightarrow> n \<noteq> '''' \<longrightarrow> catalog_namespace p = Some n)) \<and>
         distinct (map team_id rows) \<and> length rows \<le> cnt \<and> (filters = [] \<longrightarrow> cnt = 0)"
proof -
  obtain d where d: "union_clauses X T st md s filters [] = Inr d"
    using assms by (auto simp: list_teams_for_policy_def split: sum.splits)
  have sound: "dict_ok d" "\<forall>(i, p) \<in> set d. i = team_id p \<and> permitted X T st md s filters p"
    using union_clauses_sound [OF d, of filters] by auto
  let ?m = "filter (\<lambda>p. matches_caller_metadata X p md) (map snd d)"
  let ?k = "case ns of None \<Rightarrow> ?m
     | Some n \<Rightarrow> if n = '''' then ?m else filter (\<lambda>p. catalog_namespace p = Some n) ?m"
  have rows: "rows = page_rows (sort_rows ?k) page sz" and cnt: "cnt = length ?k"
    using assms by (simp_all add: list_teams_for_policy_def d list_page_def Let_def sort_rows_def)
  have sub: "set rows \<subseteq> set ?k"
    using set_page_rows [of "sort_rows ?k" page sz] unfolding rows set_sort_rows .
  have ids: "map team_id (map snd d) = map fst d" using sound(2) by (auto simp: case_prod_beta)
  have "distinct (map team_id (map snd d))" using sound(1) unfolding ids dict_ok_def .
  then have m: "distinct (map team_id ?m)" by (rule distinct_map_filter)
  then have "distinct (map team_id ?k)"
    using distinct_map_filter [OF m] by (cases ns) simp_all
  then have "distinct (map team_id (sort_rows ?k))"
    using mset_eq_imp_distinct_iff [of "map team_id (sort_rows ?k)" "map team_id ?k"] by simp
  then have "distinct (map team_id rows)"
    unfolding rows by (rule distinct_page_rows)
  moreover have "length rows \<le> cnt"
    using length_page_rows [of "sort_rows ?k" page sz] unfolding rows cnt length_sort_rows .
  moreover have "filters = [] \<longrightarrow> cnt = 0" using d cnt by (auto split: option.split)
  moreover have "permitted X T st md s filters p" if "p \<in> snd ` set d" for p
    using that sound(2) by fastforce
  moreover have "p \<in> snd ` set d \<and> matches_caller_metadata X p md \<and>
      (\<forall>n. ns = Some n \<longrightarrow> n \<noteq> '''' \<longrightarrow> catalog_namespace p = Some n)" if "p \<in> set rows" for p
    using sub that by (auto split: option.splits if_splits)
  ultimately show ?thesis by blast
qed


definition ref_index :: index_ops where
  "ref_index = \<lparr>make_index_entry = (\<lambda>k v. k @ ''='' @ v),
     make_index_prefix_groups = (\<lambda>md. case md of None \<Rightarrow> []
       | Some ks \<Rightarrow> map (\<lambda>(k, vs). map (\<lambda>v. k @ ''='' @ v) vs) ks)\<rparr>"

definition ref_row :: process where
  "ref_row = (new_process 7 sample_args)\<lparr>status := RUNNING\<rparr>"

lemma ref_rows: "t_list_teams ref_tier (Some ''alice'') None None (ref_start_state RUNNING) = Inr [ref_row]"
  by (simp add: ref_tier_defs ref_list_teams_def ref_row_def)

theorem pages_partition_the_listing_witness:
  "\<exists>ps. map (\<lambda>k. list_teams ref_tier ''alice'' None None None (int k + 1) 1 (ref_start_state RUNNING)) [0..<3]
          = map (\<lambda>p. Inr (p, 1)) ps \<and> concat ps = [ref_row]"
  using pages_partition_the_listing [OF ref_rows, of "[ref_row]" None 3 1]
  by (auto simp: page_size_def max_page_size_def sort_rows_def)

theorem policy_listing_is_sound_witness:
  "\<exists>rows. list_teams_for_policy ref_index ref_tier [\<lparr>tf_user_id = Some ''alice'', tf_metadata = None\<rparr>] None None
      None 1 10 (ref_start_state RUNNING) = Inr (rows, 1) \<and> distinct (map team_id rows) \<and>
      (\<forall>p. p \<in> set rows \<longleftrightarrow> p = ref_row)"
proof -
  have l: "list_teams_for_policy ref_index ref_tier [\<lparr>tf_user_id = Some ''alice'', tf_metadata = None\<rparr>] None None
      None 1 10 (ref_start_state RUNNING) = Inr ([ref_row], 1)"
    by (simp add: list_teams_for_policy_def add_clause_def ref_rows matches_policy_filter_def
        matches_caller_metadata_def ref_index_def list_page_def sort_rows_def page_rows_def
        page_size_def max_page_size_def Let_def) (simp add: ref_row_def new_process_def sample_args_def)
  show ?thesis using policy_listing_is_sound [OF l] l by auto
qed

end
