(* ===== verification/Uuid.thy ===== *)
theory Uuid
  imports PyText
begin

text \<open>
  \<open>uuid.UUID(text)\<close> of the standard library, which the routes and parsers call on client text: the
  prefixes \<open>urn:\<close> and \<open>uuid:\<close>, braces and hyphens are dropped, 32 characters are left, and
  \<open>int(_, 16)\<close> reads them. It accepts the text \<open>str\<close> gives, and more.
\<close>

section \<open>int(text, 16)\<close>

definition hex_val :: "char \<Rightarrow> int option" where
  "hex_val c =
     (let n = of_char c :: int
      in if 48 \<le> n \<and> n \<le> 57 then Some (n - 48)
         else if 97 \<le> n \<and> n \<le> 102 then Some (n - 87)
         else if 65 \<le> n \<and> n \<le> 70 then Some (n - 55)
         else None)"

text \<open>Digits with single underscores between them; the flag says an underscore may come next.\<close>

fun hex_digits :: "bool \<Rightarrow> int \<Rightarrow> string \<Rightarrow> int option" where
  "hex_digits ok acc [] = (if ok then Some acc else None)"
| "hex_digits ok acc (c # s) =
     (if c = CHR ''_'' then (if ok then hex_digits False acc s else None)
      else case hex_val c of None \<Rightarrow> None | Some d \<Rightarrow> hex_digits True (16 * acc + d) s)"

definition unsigned_hex :: "string \<Rightarrow> int option" where
  "unsigned_hex s =
     (if take 2 s = ''0x'' \<or> take 2 s = ''0X''
      then (if drop 2 s = [] then None else hex_digits True 0 (drop 2 s))
      else hex_digits False 0 s)"

definition int_16 :: "string \<Rightarrow> int option" where
  "int_16 text =
     (case strip text of
        [] \<Rightarrow> None
      | c # s \<Rightarrow>
          if c = CHR ''+'' then unsigned_hex s
          else if c = CHR ''-'' then map_option uminus (unsigned_hex s)
          else unsigned_hex (c # s))"

section \<open>UUID(text)\<close>

text \<open>\<open>str.replace(p, '')\<close> for a non-empty \<open>p\<close>.\<close>

function remove_all :: "string \<Rightarrow> string \<Rightarrow> string" where
  "remove_all p [] = []"
| "remove_all p (c # s) =
     (if p \<noteq> [] \<and> prefix p (c # s) then remove_all p (drop (length p) (c # s))
      else c # remove_all p s)"
  by pat_completeness auto

termination
  by (relation "measure (\<lambda>(p, s). length s)") auto

definition parse_uuid :: "string \<Rightarrow> uuid option" where
  "parse_uuid text =
     (let hex = filter (\<lambda>c. c \<noteq> CHR ''-'')
            (trim (\<lambda>c. c = CHR 0x7B \<or> c = CHR 0x7D) (remove_all ''uuid:'' (remove_all ''urn:'' text)))
      in if length hex \<noteq> 32 then None
         else case int_16 hex of
           None \<Rightarrow> None
         | Some n \<Rightarrow> if 0 \<le> n \<and> n < 2 ^ 128 then Some (word_of_int n) else None)"

section \<open>Round trip\<close>

lemma hex_char_table:
  "\<forall>d \<in> set [0..<16]. hex_val (hex_char d) = Some (int d) \<and> \<not> is_space (hex_char d) \<and>
     hex_char d \<notin> set ''_+-xX:'' \<and> hex_char d \<noteq> CHR 0x7B \<and> hex_char d \<noteq> CHR 0x7D"
  by code_simp

lemma hex_val_char: "d < 16 \<Longrightarrow> hex_val (hex_char d) = Some (int d)"
  using hex_char_table by simp

lemma hex_char_plain:
  "d < 16 \<Longrightarrow> \<not> is_space (hex_char d) \<and> hex_char d \<notin> set ''_+-xX:'' \<and> hex_char d \<noteq> CHR 0x7B \<and> hex_char d \<noteq> CHR 0x7D"
  using hex_char_table by (metis atLeastLessThan_iff set_upt zero_le)

lemma hex_digits_map:
  "\<forall>d \<in> set ds. d < 16 \<Longrightarrow> ds \<noteq> [] \<Longrightarrow>
   hex_digits ok acc (map hex_char ds) = Some (foldl (\<lambda>a d. 16 * a + int d) acc ds)"
proof (induction ds arbitrary: ok acc)
  case (Cons d ds)
  have "hex_digits ok acc (map hex_char (d # ds)) = hex_digits True (16 * acc + int d) (map hex_char ds)"
    using Cons.prems(1) hex_char_plain [of d] hex_val_char [of d] by simp
  then show ?case using Cons by (cases "ds = []") auto
qed simp

lemma foldl_digits:
  "foldl (\<lambda>a d. 16 * a + int d) 0 (map (\<lambda>i. n div 16 ^ i mod 16) (rev [0..<k])) = int (n mod 16 ^ k)"
proof (induction k arbitrary: n)
  case (Suc k)
  have "map (\<lambda>i. n div 16 ^ i mod 16) (rev [0..<Suc k])
      = map (\<lambda>i. (n div 16) div 16 ^ i mod 16) (rev [0..<k]) @ [n mod 16]"
    by (simp add: upt_conv_Cons map_Suc_upt [symmetric] rev_map div_mult2_eq comp_def del: upt_Suc)
  then have "foldl (\<lambda>a d. 16 * a + int d) 0 (map (\<lambda>i. n div 16 ^ i mod 16) (rev [0..<Suc k]))
      = 16 * int (n div 16 mod 16 ^ k) + int (n mod 16)"
    using Suc.IH [of "n div 16"] by simp
  also have "\<dots> = int (n mod 16 ^ Suc k)"
    by (simp add: mod_mult2_eq flip: of_nat_mult of_nat_add)
  finally show ?case .
qed simp

lemma remove_all_absent: "c \<in> set p \<Longrightarrow> c \<notin> set s \<Longrightarrow> remove_all p s = s"
proof (induction p s rule: remove_all.induct)
  case (2 p d s)
  then have "\<not> prefix p (d # s)" by (meson in_mono set_mono_prefix)
  then show ?case using 2 by auto
qed simp

lemma uuid_digits_hex: "uuid_digits u = map hex_char (map (\<lambda>i. unat u div 16 ^ i mod 16) (rev [0..<32]))"
  by (simp add: uuid_digits_def)

lemma uuid_digits_plain:
  "c \<in> set (uuid_digits u) \<Longrightarrow> \<not> is_space c \<and> c \<notin> set ''_+-xX:'' \<and> c \<noteq> CHR 0x7B \<and> c \<noteq> CHR 0x7D"
  using hex_char_plain by (auto simp: uuid_digits_def)

lemma uuid_str_chars: "c \<in> set (uuid_str u) \<Longrightarrow> c = CHR ''-'' \<or> c \<in> set (uuid_digits u)"
  by (auto simp: uuid_str_def Let_def dest: in_set_takeD in_set_dropD)

lemma uuid_str_filter: "filter (\<lambda>c. c \<noteq> CHR ''-'') (uuid_str u) = uuid_digits u"
proof -
  let ?P = "\<lambda>c. c \<noteq> CHR ''-''"
  have "filter ?P xs = xs" if "set xs \<subseteq> set (uuid_digits u)" for xs
    using that uuid_digits_plain by (intro filter_True) fastforce
  then have "filter ?P (take n (drop m (uuid_digits u))) = take n (drop m (uuid_digits u))"
    "filter ?P (drop m (uuid_digits u)) = drop m (uuid_digits u)"
    "filter ?P (take n (uuid_digits u)) = take n (uuid_digits u)" for n m
    by (meson set_drop_subset set_take_subset subset_trans)+
  then have "filter ?P (uuid_str u) = take 8 (uuid_digits u) @ take 4 (drop 8 (uuid_digits u)) @
      take 4 (drop 12 (uuid_digits u)) @ take 4 (drop 16 (uuid_digits u)) @ drop 20 (uuid_digits u)"
    by (simp add: uuid_str_def Let_def)
  also have "\<dots> = uuid_digits u"
    using append_take_drop_id [of 8 "uuid_digits u"] append_take_drop_id [of 4 "drop 8 (uuid_digits u)"]
      append_take_drop_id [of 4 "drop 12 (uuid_digits u)"] append_take_drop_id [of 4 "drop 16 (uuid_digits u)"]
    by simp
  finally show ?thesis .
qed

lemma trim_none: "(\<And>c. c \<in> set s \<Longrightarrow> \<not> P c) \<Longrightarrow> trim P s = s"
  by (rule trim_id) (auto simp: trimmed_def)

lemma int_16_digits: "int_16 (uuid_digits u) = Some (uint u)"
proof -
  let ?ds = "map (\<lambda>i. unat u div 16 ^ i mod 16) (rev [0..<32])"
  have plain: "c \<in> set (uuid_digits u) \<Longrightarrow> \<not> is_space c \<and> c \<noteq> CHR ''+'' \<and> c \<noteq> CHR ''-'' \<and> c \<noteq> CHR ''x'' \<and> c \<noteq> CHR ''X''" for c
    using uuid_digits_plain [of c u] by auto
  have "length (uuid_digits u) = Suc (Suc 30)" by simp
  then obtain c d s where cs: "uuid_digits u = c # d # s"
    by (metis length_Suc_conv)
  have c: "c \<noteq> CHR ''+''" "c \<noteq> CHR ''-''" "d \<noteq> CHR ''x''" "d \<noteq> CHR ''X''"
    using plain unfolding cs by simp_all
  have "strip (uuid_digits u) = uuid_digits u"
    using plain by (intro trim_none) blast
  then have "int_16 (uuid_digits u) = hex_digits False 0 (uuid_digits u)"
    unfolding int_16_def cs using c by (simp add: unsigned_hex_def)
  also have "\<dots> = Some (foldl (\<lambda>a d. 16 * a + int d) 0 ?ds)"
    unfolding uuid_digits_hex by (rule hex_digits_map) auto
  also have "\<dots> = Some (int (unat u mod 16 ^ 32))" by (simp only: foldl_digits)
  also have "unat u mod 16 ^ 32 = unat u"
    using unsigned_less [of u, where 'a = nat] by simp
  finally show ?thesis by simp
qed

lemma uuid_str_parses: "parse_uuid (uuid_str u) = Some u"
proof -
  have chars: "c \<in> set (uuid_str u) \<Longrightarrow> c \<noteq> CHR '':'' \<and> c \<noteq> CHR 0x7B \<and> c \<noteq> CHR 0x7D" for c
    using uuid_str_chars [of c u] uuid_digits_plain [of c u] by auto
  then have "CHR '':'' \<notin> set (uuid_str u)" by blast
  then have "remove_all ''uuid:'' (remove_all ''urn:'' (uuid_str u)) = uuid_str u"
    using remove_all_absent [of "CHR '':''" "''urn:''"] remove_all_absent [of "CHR '':''" "''uuid:''"] by simp
  moreover have "trim (\<lambda>c. c = CHR 0x7B \<or> c = CHR 0x7D) (uuid_str u) = uuid_str u"
    using chars by (intro trim_none) auto
  moreover have "0 \<le> uint u" "uint u < 2 ^ 128"
    using unsigned_less [of u, where 'a = int] by simp_all
  ultimately show ?thesis
    by (simp add: parse_uuid_def Let_def uuid_str_filter int_16_digits)
qed

text \<open>
  The text form of an identifier parses back to it: \<open>UUID(str(u))\<close> is \<open>u\<close>.
\<close>

theorem parse_uuid_str: "parse_uuid (uuid_str u) = Some u"
  by (rule uuid_str_parses)

end
