(* ===== verification/TeamAccess.thy ===== *)
theory TeamAccess
  imports TeamService TeamListing Uuid
begin

text \<open>
  Who may reach a team and its workspace: \<open>protocols/authz.py\<close>,
  \<open>adapters/shared/owner_or_admin_policy.py\<close>, \<open>server/auth.py\<close>, the gates of
  \<open>server/routes/_team_access.py\<close> with the request slots of \<open>_workspace_resolution.py\<close>, and the
  workspace routes of \<open>server/routes/workspace.py\<close> up to the file system they open.
\<close>

section \<open>Principals and policies\<close>

record request_user =
  ru_user_id :: string
  ru_email :: string
  ru_roles :: "string list"
  ru_scopes :: "string list"
  ru_entitlements :: "(string \<times> string list) list"

record access_context =
  ac_team_id :: uuid
  ac_owner :: string
  ac_indexes :: "string list"

text \<open>What the middleware may have left on the connection; the fallback is the anonymous user.\<close>

definition anonymous :: request_user where
  "anonymous = \<lparr>ru_user_id = ''anonymous'', ru_email = '''', ru_roles = [], ru_scopes = [],
     ru_entitlements = []\<rparr>"

definition get_request_user :: "request_user option \<Rightarrow> request_user" where
  "get_request_user stashed = (case stashed of Some u \<Rightarrow> u | None \<Rightarrow> anonymous)"

record access_policy =
  ap_list_filters :: "request_user \<Rightarrow> team_list_filter list"
  ap_can_create :: "string list \<Rightarrow> request_user \<Rightarrow> bool"
  ap_can_get :: "access_context \<Rightarrow> request_user \<Rightarrow> bool"
  ap_can_stop :: "access_context \<Rightarrow> request_user \<Rightarrow> bool"
  ap_can_delete :: "access_context \<Rightarrow> request_user \<Rightarrow> bool"
  ap_can_restore :: "access_context \<Rightarrow> request_user \<Rightarrow> bool"
  ap_can_update_metadata :: "access_context \<Rightarrow> request_user \<Rightarrow> bool"
  ap_is_allowed :: "access_context \<Rightarrow> request_user \<Rightarrow> bool"

definition owner_or_admin_allowed :: "access_context \<Rightarrow> request_user \<Rightarrow> bool" where
  "owner_or_admin_allowed ctx user \<longleftrightarrow>
     ac_owner ctx = ru_user_id user \<or> ''admin'' \<in> set (ru_roles user)"

definition owner_or_admin_filters :: "bool \<Rightarrow> request_user \<Rightarrow> team_list_filter list" where
  "owner_or_admin_filters admin_list_all user =
     (if admin_list_all \<and> ''admin'' \<in> set (ru_roles user)
      then [\<lparr>tf_user_id = None, tf_metadata = None\<rparr>]
      else [\<lparr>tf_user_id = Some (ru_user_id user), tf_metadata = None\<rparr>])"

definition owner_or_admin :: "bool \<Rightarrow> access_policy" where
  "owner_or_admin admin_list_all = \<lparr>
     ap_list_filters = owner_or_admin_filters admin_list_all,
     ap_can_create = (\<lambda>_ _. True),
     ap_can_get = owner_or_admin_allowed,
     ap_can_stop = owner_or_admin_allowed,
     ap_can_delete = owner_or_admin_allowed,
     ap_can_restore = owner_or_admin_allowed,
     ap_can_update_metadata = owner_or_admin_allowed,
     ap_is_allowed = owner_or_admin_allowed\<rparr>"

section \<open>The team gate\<close>

text \<open>The per-request slots.\<close>

record request_slots =
  rq_process :: "process option"
  rq_path :: "path option"

definition no_slots :: request_slots where
  "no_slots = \<lparr>rq_process = None, rq_path = None\<rparr>"

definition not_found_404 :: exn where
  "not_found_404 = HTTPException 404 ''Team not found''"

definition team_context :: "uuid \<Rightarrow> process \<Rightarrow> access_context" where
  "team_context i p = \<lparr>ac_team_id = i, ac_owner = user_id p, ac_indexes = metadata_indexes p\<rparr>"

definition require_team_access ::
    "'s tier \<Rightarrow> access_policy \<Rightarrow> uuid \<Rightarrow> request_user \<Rightarrow> 's \<Rightarrow> (request_slots, request_user) prog" where
  "require_team_access T P i user s rq =
     (case get_team T i s of
        None \<Rightarrow> (Inl not_found_404, rq)
      | Some p \<Rightarrow>
          if \<not> ap_is_allowed P (team_context i p) user then (Inl not_found_404, rq)
          else (Inr user, rq\<lparr>rq_process := Some p\<rparr>))"

section \<open>The workspace gate\<close>

text \<open>\<open>SHARED_SCOPE\<close> of \<open>akgentic.tool.workspace\<close>.\<close>

definition shared_scope :: string where
  "shared_scope = ''_shared''"

definition check_workspace_scope ::
    "access_policy \<Rightarrow> path \<Rightarrow> uuid \<Rightarrow> request_user \<Rightarrow> string list \<Rightarrow> exn + unit" where
  "check_workspace_scope P path i user indexes =
     (case path of
        [] \<Rightarrow> Inl IndexError
      | scope # _ \<Rightarrow>
          if casefold scope = shared_scope then Inl SharedWorkspaceRefusedError
          else if \<not> ap_is_allowed P \<lparr>ac_team_id = i, ac_owner = scope, ac_indexes = indexes\<rparr> user
          then Inl not_found_404 else Inr ())"

definition deny_foreign_named_team ::
    "'s tier \<Rightarrow> access_policy \<Rightarrow> string \<Rightarrow> request_user \<Rightarrow> 's \<Rightarrow> exn + unit" where
  "deny_foreign_named_team T P workspace_id user s =
     (case parse_uuid workspace_id of
        None \<Rightarrow> Inr ()
      | Some named \<Rightarrow>
          (case get_team T named s of
             None \<Rightarrow> Inr ()
           | Some p \<Rightarrow>
               if \<not> ap_is_allowed P (team_context named p) user then Inl not_found_404 else Inr ()))"

definition resolve_declared ::
    "'s tier \<Rightarrow> process \<Rightarrow> string option \<Rightarrow> 's \<Rightarrow> exn + path option" where
  "resolve_declared T p workspace_id s =
     (case (case workspace_id of
              None \<Rightarrow> (case default_workspace_path (t_cards T) p s of
                         Inl e \<Rightarrow> Inl e | Inr q \<Rightarrow> Inr (Some q))
            | Some leaf \<Rightarrow> (case declared_workspace_paths (t_cards T) p s of
                         Inl e \<Rightarrow> Inl e | Inr paths \<Rightarrow> select_declared_path paths leaf)) of
        Inr x \<Rightarrow> Inr x
      | Inl e \<Rightarrow>
          if is_card_not_found e then Inl (HTTPException 500 ''Workspace cards could not be read'')
          else if is_value_error e then Inl (HTTPException 500 ''Workspace path could not be resolved'')
          else Inl e)"

text \<open>\<open>leaf_segment\<close> of \<open>akgentic.tool\<close> is a parameter: it answers the value or raises.\<close>

definition validate_workspace_id :: "(string \<Rightarrow> exn + string) \<Rightarrow> string \<Rightarrow> exn + string" where
  "validate_workspace_id leaf_segment workspace_id =
     (case leaf_segment workspace_id of
        Inr v \<Rightarrow> Inr v
      | Inl e \<Rightarrow> if is_value_error e then Inl (HTTPException 400 ''Invalid workspace_id'') else Inl e)"

definition require_workspace_access ::
    "'s tier \<Rightarrow> access_policy \<Rightarrow> (string \<Rightarrow> exn + string) \<Rightarrow> uuid \<Rightarrow> string option \<Rightarrow> request_user \<Rightarrow> 's \<Rightarrow>
     (request_slots, request_user) prog" where
  "require_workspace_access T P leaf i workspace_id user s =
     andthen (reading (\<lambda>_. case workspace_id of
         None \<Rightarrow> Inr ()
       | Some w \<Rightarrow> (case validate_workspace_id leaf w of
             Inl e \<Rightarrow> Inl e
           | Inr _ \<Rightarrow> deny_foreign_named_team T P w user s)))
    (bnd (reading (\<lambda>rq. case rq_process rq of
         Some p \<Rightarrow> Inr p
       | None \<Rightarrow> (case get_team T i s of Some p \<Rightarrow> Inr p | None \<Rightarrow> Inl not_found_404))) (\<lambda>p.
     bnd (reading (\<lambda>_. case resolve_declared T p workspace_id s of
         Inl e \<Rightarrow> Inl e
       | Inr None \<Rightarrow> Inl not_found_404
       | Inr (Some path) \<Rightarrow> Inr path)) (\<lambda>path.
     andthen (reading (\<lambda>_. check_workspace_scope P path i user (metadata_indexes p)))
    (andthen (writing (\<lambda>rq. rq\<lparr>rq_path := Some path\<rparr>)) (ret user)))))"

section \<open>The workspace routes\<close>

text \<open>\<open>_get_workspace\<close>: the path the file system is opened over, below the workspaces root.\<close>

definition get_workspace ::
    "(string \<Rightarrow> exn + string) \<Rightarrow> uuid \<Rightarrow> string option \<Rightarrow> request_slots \<Rightarrow> exn + path" where
  "get_workspace leaf i workspace_id rq =
     (case (case workspace_id of None \<Rightarrow> Inr '''' | Some w \<Rightarrow> validate_workspace_id leaf w) of
        Inl e \<Rightarrow> Inl e
      | Inr _ \<Rightarrow>
          (let selector = (case workspace_id of None \<Rightarrow> uuid_str i | Some w \<Rightarrow> w)
           in case rq_path rq of
                None \<Rightarrow> Inl not_found_404
              | Some path \<Rightarrow> if path_name path \<noteq> selector then Inl not_found_404 else Inr path))"

text \<open>A route: the two dependencies in their order, then the workspace.\<close>

definition open_workspace ::
    "'s tier \<Rightarrow> access_policy \<Rightarrow> (string \<Rightarrow> exn + string) \<Rightarrow> uuid \<Rightarrow> string option \<Rightarrow> request_user \<Rightarrow> 's \<Rightarrow>
     exn + path" where
  "open_workspace T P leaf i workspace_id user s =
     fst ((andthen (require_team_access T P i user s)
            (andthen (require_workspace_access T P leaf i workspace_id user s)
               (reading (get_workspace leaf i workspace_id)))) no_slots)"

text \<open>
  The three routes over the opened workspace: \<open>Filesystem.list\<close>, \<open>read\<close> and \<open>write\<close> are
  \<open>akgentic.tool\<close>'s, and answer a value, or one of the two exceptions the routes map.
\<close>

datatype fs_error = FileNotFound | PermissionDenied

definition max_file_size :: nat where
  "max_file_size = 10485760"

definition list_workspace_tree ::
    "(path \<Rightarrow> string \<Rightarrow> fs_error + 'e list) \<Rightarrow> exn + path \<Rightarrow> string \<Rightarrow> exn + 'e list" where
  "list_workspace_tree fs_list ws path =
     (case ws of
        Inl e \<Rightarrow> Inl e
      | Inr w \<Rightarrow> (case fs_list w path of
            Inr es \<Rightarrow> Inr es
          | Inl PermissionDenied \<Rightarrow> Inl (HTTPException 403 ''Path access denied'')
          | Inl FileNotFound \<Rightarrow> Inl (OtherError ''FileNotFoundError'')))"

definition read_workspace_file ::
    "(path \<Rightarrow> string \<Rightarrow> fs_error + string) \<Rightarrow> exn + path \<Rightarrow> string \<Rightarrow> exn + string" where
  "read_workspace_file fs_read ws path =
     (case ws of
        Inl e \<Rightarrow> Inl e
      | Inr w \<Rightarrow> (case fs_read w path of
            Inl FileNotFound \<Rightarrow> Inl (HTTPException 404 ''File not found'')
          | Inl PermissionDenied \<Rightarrow> Inl (HTTPException 403 ''Path access denied'')
          | Inr data \<Rightarrow>
              if length data > max_file_size
              then Inl (HTTPException 413 ''File exceeds 10 MB size limit'') else Inr data))"

definition upload_workspace_file ::
    "(path \<Rightarrow> string \<Rightarrow> string \<Rightarrow> 'f \<Rightarrow> (fs_error + unit) \<times> 'f) \<Rightarrow> exn + path \<Rightarrow> string \<Rightarrow> string \<Rightarrow>
     ('f, nat) prog" where
  "upload_workspace_file fs_write ws path data f =
     (case ws of
        Inl e \<Rightarrow> (Inl e, f)
      | Inr w \<Rightarrow>
          if length data > max_file_size
          then (Inl (HTTPException 413 ''File exceeds 10 MB size limit''), f)
          else (case fs_write w path data f of
              (Inl PermissionDenied, g) \<Rightarrow> (Inl (HTTPException 403 ''Path access denied''), g)
            | (Inl FileNotFound, g) \<Rightarrow> (Inl (OtherError ''FileNotFoundError''), g)
            | (Inr _, g) \<Rightarrow> (Inr (length data), g)))"

section \<open>Properties of the gates\<close>

text \<open>
  A team one may not see does not exist: a caller the policy denies gets exactly the answer an
  unknown team gets, and nothing is recorded on the request; only an allowed caller is let through.
\<close>

theorem denied_team_looks_missing:
  "require_team_access T P i user s rq =
     (if \<exists>p. get_team T i s = Some p \<and> ap_is_allowed P (team_context i p) user
      then (Inr user, rq\<lparr>rq_process := get_team T i s\<rparr>)
      else (Inl (HTTPException 404 ''Team not found''), rq))"
  by (auto simp: require_team_access_def not_found_404_def split: option.split)

lemma select_declared_mem:
  assumes "select_declared_path paths leaf = Inr (Some q)"
  shows "q \<in> set paths"
proof -
  have "filter (\<lambda>p. path_name p = leaf) paths = [q]"
    using assms by (auto simp: select_declared_path_def split: list.splits)
  then show ?thesis by (metis filter_is_subset list.set_intros(1) subset_iff)
qed

lemma resolve_declared_origin:
  assumes "resolve_declared T p w s = Inr (Some path)"
  shows "case w of
      None \<Rightarrow> default_workspace_path (t_cards T) p s = Inr path
    | Some leaf \<Rightarrow> \<exists>paths. declared_workspace_paths (t_cards T) p s = Inr paths \<and> path \<in> set paths"
  using assms
  by (auto simp: resolve_declared_def intro: select_declared_mem split: option.splits sum.splits if_splits)

lemma open_workspace_steps:
  assumes "open_workspace T P leaf i w user s = Inr path"
  shows "\<exists>p. get_team T i s = Some p \<and> ap_is_allowed P (team_context i p) user \<and>
     resolve_declared T p w s = Inr (Some path) \<and>
     check_workspace_scope P path i user (metadata_indexes p) = Inr () \<and>
     path_name path = (case w of None \<Rightarrow> uuid_str i | Some v \<Rightarrow> v) \<and>
     (\<forall>v. w = Some v \<longrightarrow> deny_foreign_named_team T P v user s = Inr ())"
  using assms
  by (auto simp: open_workspace_def require_team_access_def require_workspace_access_def andthen_def bnd_def
      no_slots_def get_workspace_def Let_def
      split: option.splits sum.splits if_splits prod.splits)

text \<open>
  C9. A workspace is opened only for a caller who may act for it: the team is live and the policy allows
  the caller on it, the path is the team's default tree or one of its cards' declared workspaces and
  ends in what the request named, its scope is not the shared one in any letter case, and the policy
  allows the caller on that scope as the owner.
\<close>

theorem opened_workspace_is_authorized:
  assumes "open_workspace T P leaf i w user s = Inr path"
  shows "\<exists>p scope rest. get_team T i s = Some p \<and> ap_is_allowed P (team_context i p) user \<and>
     (case w of
        None \<Rightarrow> default_workspace_path (t_cards T) p s = Inr path
      | Some v \<Rightarrow> \<exists>paths. declared_workspace_paths (t_cards T) p s = Inr paths \<and> path \<in> set paths) \<and>
     path_name path = (case w of None \<Rightarrow> uuid_str i | Some v \<Rightarrow> v) \<and>
     path = scope # rest \<and> casefold scope \<noteq> shared_scope \<and>
     ap_is_allowed P \<lparr>ac_team_id = i, ac_owner = scope, ac_indexes = metadata_indexes p\<rparr> user"
proof -
  obtain p where p: "get_team T i s = Some p" "ap_is_allowed P (team_context i p) user"
    "resolve_declared T p w s = Inr (Some path)"
    "check_workspace_scope P path i user (metadata_indexes p) = Inr ()"
    "path_name path = (case w of None \<Rightarrow> uuid_str i | Some v \<Rightarrow> v)"
    using open_workspace_steps [OF assms] by blast
  show ?thesis
    using p resolve_declared_origin [OF p(3)]
    by (auto simp: check_workspace_scope_def split: list.splits if_splits)
qed

definition alice :: request_user where
  "alice = anonymous\<lparr>ru_user_id := ''alice''\<rparr>"

lemma ref_get_team_live: "get_team ref_tier 7 (ref_start_state RUNNING) = Some ref_row"
  by (simp add: get_team_def load_live_def ref_get_team store_of_def ref_start_state_def one_team_world_def
      init_placement_def ref_row_def new_process_def sample_args_def)

lemma ref_open: "open_workspace ref_tier (owner_or_admin False) Inr 7 None alice (ref_start_state RUNNING)
    = Inr [''alice'', ''_team'', uuid_str 7]"
proof -
  have d: "default_workspace_path (t_cards ref_tier) ref_row (ref_start_state RUNNING) = Inr [''alice'', ''_team'', uuid_str 7]"
    by (simp add: default_workspace_path_def team_layouts_def default_sharable_def resolve_default_def
        ref_tier_def community_defs Let_def ref_store_def ref_cards_def map_filter_simps ref_row_def
        new_process_def sample_args_def)
  have c: "casefold ''alice'' \<noteq> shared_scope" by code_simp
  show ?thesis
    by (simp add: open_workspace_def require_team_access_def ref_get_team_live require_workspace_access_def
        resolve_declared_def d check_workspace_scope_def c andthen_def bnd_def no_slots_def get_workspace_def
        path_name_def owner_or_admin_def owner_or_admin_allowed_def team_context_def alice_def Let_def)
      (simp add: ref_row_def new_process_def sample_args_def)
qed

theorem opened_workspace_is_authorized_witness:
  "\<exists>scope rest. [''alice'', ''_team'', uuid_str 7] = scope # rest \<and> casefold scope \<noteq> shared_scope \<and>
     open_workspace ref_tier (owner_or_admin False) Inr 7 None alice (ref_start_state RUNNING)
       = Inr [''alice'', ''_team'', uuid_str 7]"
  using opened_workspace_is_authorized [OF ref_open] ref_open by blast

text \<open>
  A shared tree is refused to everyone, administrators included, whatever the policy, the kind, the
  leaf and the letter case of the scope.
\<close>

theorem shared_scope_refused_to_all:
  assumes "casefold scope = casefold ''_shared''"
  shows "check_workspace_scope P (scope # rest) i user indexes = Inl SharedWorkspaceRefusedError"
proof -
  have "casefold ''_shared'' = shared_scope" by code_simp
  then show ?thesis using assms by (simp add: check_workspace_scope_def)
qed

theorem shared_scope_refused_to_all_witness:
  "check_workspace_scope (owner_or_admin True) [''_SHARED'', ''_id'', ''x''] 7 (alice\<lparr>ru_roles := [''admin'']\<rparr>) [] =
     Inl SharedWorkspaceRefusedError"
  by (rule shared_scope_refused_to_all) code_simp

text \<open>
  What the default policy lists it also opens: a team that matches one of the clauses it answers
  for a caller is one the caller may access, and a named owner is always a valid clause.
\<close>

theorem default_policy_lists_only_accessible:
  assumes "clause \<in> set (ap_list_filters (owner_or_admin b) user)" and "matches_policy_filter X p clause"
  shows "ap_is_allowed (owner_or_admin b) (team_context i p) user \<and>
         (ru_user_id user \<noteq> '''' \<longrightarrow> valid_filter clause)"
  using assms
  by (auto simp: owner_or_admin_def owner_or_admin_filters_def owner_or_admin_allowed_def team_context_def
      matches_policy_filter_def valid_filter_def split: if_splits)

theorem default_policy_lists_only_accessible_witness:
  "ap_is_allowed (owner_or_admin False) (team_context 7 ref_row) alice"
  using default_policy_lists_only_accessible
    [of "\<lparr>tf_user_id = Some ''alice'', tf_metadata = None\<rparr>" False alice ref_index ref_row 7]
  by (simp add: owner_or_admin_def owner_or_admin_filters_def alice_def anonymous_def
      matches_policy_filter_def ref_row_def new_process_def sample_args_def)

end
