(* ===== verification/WsRoute.thy ===== *)
theory WsRoute
  imports TeamAccess
begin

text \<open>
  \<open>server/routes/ws.py\<close>: the connection manager, and the life of WebSocket connections as steps. A
  connection's handler runs on the event loop and is interrupted at every \<open>await\<close>;
  \<open>notify_restore\<close> is called from a worker thread, so it may come between any two steps.
\<close>

section \<open>ConnectionManager\<close>

text \<open>A WebSocket object is a number.\<close>

record conn_mgr =
  cm_waiting :: "(uuid, nat list) dict"
  cm_restored :: "uuid set"
  cm_active :: "nat set"

definition cm_new :: conn_mgr where
  "cm_new = \<lparr>cm_waiting = [], cm_restored = {}, cm_active = {}\<rparr>"

definition cm_track :: "nat \<Rightarrow> conn_mgr \<Rightarrow> conn_mgr" where
  "cm_track w m = m\<lparr>cm_active := insert w (cm_active m)\<rparr>"

definition cm_untrack :: "nat \<Rightarrow> conn_mgr \<Rightarrow> conn_mgr" where
  "cm_untrack w m = m\<lparr>cm_active := cm_active m - {w}\<rparr>"

definition waiting_for :: "uuid \<Rightarrow> conn_mgr \<Rightarrow> nat list" where
  "waiting_for i m = (case map_of (cm_waiting m) i of None \<Rightarrow> [] | Some ws \<Rightarrow> ws)"

definition cm_add_waiting :: "uuid \<Rightarrow> nat \<Rightarrow> conn_mgr \<Rightarrow> conn_mgr" where
  "cm_add_waiting i w m = m\<lparr>cm_waiting := AList.update i (waiting_for i m @ [w]) (cm_waiting m)\<rparr>"

definition cm_remove_waiting :: "uuid \<Rightarrow> nat \<Rightarrow> conn_mgr \<Rightarrow> conn_mgr" where
  "cm_remove_waiting i w m =
     (case map_of (cm_waiting m) i of
        None \<Rightarrow> m
      | Some conns \<Rightarrow>
          (let conns = remove1 w conns
           in m\<lparr>cm_waiting := (if conns = [] then AList.delete i (cm_waiting m)
                               else AList.update i conns (cm_waiting m))\<rparr>))"

definition cm_pop_waiting :: "uuid \<Rightarrow> conn_mgr \<Rightarrow> nat list \<times> conn_mgr" where
  "cm_pop_waiting i m = (waiting_for i m, m\<lparr>cm_waiting := AList.delete i (cm_waiting m)\<rparr>)"

definition cm_is_restored :: "uuid \<Rightarrow> conn_mgr \<Rightarrow> bool" where
  "cm_is_restored i m \<longleftrightarrow> i \<in> cm_restored m"

definition cm_mark_restored :: "uuid \<Rightarrow> conn_mgr \<Rightarrow> conn_mgr" where
  "cm_mark_restored i m = m\<lparr>cm_restored := insert i (cm_restored m)\<rparr>"

definition cm_clear_restored :: "uuid \<Rightarrow> conn_mgr \<Rightarrow> conn_mgr" where
  "cm_clear_restored i m = m\<lparr>cm_restored := cm_restored m - {i}\<rparr>"

text \<open>
  \<open>disconnect_all\<close>: every tracked connection is closed, a failure is counted and skipped. The result
  is the closed ones and the failed ones.
\<close>

definition cm_disconnect_all :: "(nat \<Rightarrow> bool) \<Rightarrow> conn_mgr \<Rightarrow> (nat set \<times> nat set) \<times> conn_mgr" where
  "cm_disconnect_all closes m =
     (({w \<in> cm_active m. closes w}, {w \<in> cm_active m. \<not> closes w}), m\<lparr>cm_active := {}\<rparr>)"

definition notify_restore :: "(nat \<Rightarrow> bool) \<Rightarrow> uuid \<Rightarrow> conn_mgr \<Rightarrow> conn_mgr" where
  "notify_restore connected i m =
     (case cm_pop_waiting i m of
        (waiting, m1) \<Rightarrow>
          if waiting = [] then m1
          else fold (\<lambda>w m. if connected w then cm_add_waiting i w m else m) waiting (cm_mark_restored i m1))"

lemma waiting_add [simp]:
  "waiting_for j (cm_add_waiting i w m) = (if j = i then waiting_for i m @ [w] else waiting_for j m)"
  by (simp add: waiting_for_def cm_add_waiting_def)

lemma waiting_remove [simp]:
  "waiting_for j (cm_remove_waiting i w m) = (if j = i then remove1 w (waiting_for i m) else waiting_for j m)"
  by (auto simp: waiting_for_def cm_remove_waiting_def Let_def split: option.split)

lemma waiting_others [simp]:
  "waiting_for j (cm_track w m) = waiting_for j m" "waiting_for j (cm_untrack w m) = waiting_for j m"
  "waiting_for j (cm_mark_restored i m) = waiting_for j m" "waiting_for j (cm_clear_restored i m) = waiting_for j m"
  "cm_restored (cm_add_waiting i w m) = cm_restored m" "cm_active (cm_add_waiting i w m) = cm_active m"
  by (simp_all add: waiting_for_def cm_track_def cm_untrack_def cm_mark_restored_def cm_clear_restored_def
      cm_add_waiting_def)

lemma fold_add_waiting:
  "waiting_for j (fold (\<lambda>w m. if c w then cm_add_waiting i w m else m) ws m) =
     (if j = i then waiting_for i m @ filter c ws else waiting_for j m)"
  "cm_restored (fold (\<lambda>w m. if c w then cm_add_waiting i w m else m) ws m) = cm_restored m"
  "cm_active (fold (\<lambda>w m. if c w then cm_add_waiting i w m else m) ws m) = cm_active m"
  by (induction ws arbitrary: m) simp_all

lemma waiting_notify [simp]:
  "waiting_for j (notify_restore c i m) = (if j = i then filter c (waiting_for i m) else waiting_for j m)"
  by (simp add: notify_restore_def cm_pop_waiting_def fold_add_waiting)
    (auto simp: waiting_for_def cm_mark_restored_def)

lemma notify_marks: "waiting_for i m \<noteq> [] \<Longrightarrow> cm_is_restored i (notify_restore c i m)"
  by (simp add: notify_restore_def cm_pop_waiting_def fold_add_waiting cm_is_restored_def cm_mark_restored_def)

section \<open>Connections\<close>

text \<open>
  Where a handler stands: before the gate, refused with a close code, let in with the team it read,
  about to subscribe, streaming, the stream's end seen, about to wait, waiting, done. \<open>wc_process\<close> is
  the handler's local \<open>process\<close>, \<open>wc_depth\<close> the number of idle loops on its call stack (an idle loop
  that streams again calls the streaming loop, which may wait again), \<open>wc_open\<close> whether the client is
  still there, \<open>wc_sent\<close> what it was sent.
\<close>

datatype ws_mode = NotConnected | Refused nat | Accepted | Subscribing | Streaming stream_reader
  | StreamEnded | Entering | Idle | Finished

record 'm ws_conn =
  wc_team :: uuid
  wc_user :: request_user
  wc_mode :: ws_mode
  wc_process :: "process option"
  wc_depth :: nat
  wc_open :: bool
  wc_sent :: "'m list"

record ('s, 'm) ws_world =
  ww_tier :: 's
  ww_streams :: "'m local_streams"
  ww_mgr :: conn_mgr
  ww_conns :: "nat \<Rightarrow> 'm ws_conn"

text \<open>The gate of \<open>websocket_events\<close>: a close code, or the team.\<close>

definition ws_gate :: "'s tier \<Rightarrow> access_policy \<Rightarrow> uuid \<Rightarrow> request_user \<Rightarrow> 's \<Rightarrow> nat + process" where
  "ws_gate T P i user s =
     (case get_team T i s of
        None \<Rightarrow> Inl 4004
      | Some p \<Rightarrow> if \<not> ap_is_allowed P (team_context i p) user then Inl 1008 else Inr p)"

definition set_conn :: "nat \<Rightarrow> 'm ws_conn \<Rightarrow> ('s, 'm) ws_world \<Rightarrow> ('s, 'm) ws_world" where
  "set_conn w c s = s\<lparr>ww_conns := (ww_conns s)(w := c)\<rparr>"

definition on_mgr :: "(conn_mgr \<Rightarrow> conn_mgr) \<Rightarrow> ('s, 'm) ws_world \<Rightarrow> ('s, 'm) ws_world" where
  "on_mgr f s = s\<lparr>ww_mgr := f (ww_mgr s)\<rparr>"

text \<open>The idle loops' \<open>finally\<close> clauses, innermost first, and \<open>untrack\<close>.\<close>

definition ws_unwind :: "nat \<Rightarrow> uuid \<Rightarrow> nat \<Rightarrow> conn_mgr \<Rightarrow> conn_mgr" where
  "ws_unwind w i depth m = cm_untrack w ((cm_remove_waiting i w ^^ depth) m)"

text \<open>
  One step of the handler of connection \<open>w\<close>. The last argument is what the client or the stream does:
  an event that cannot be serialised is skipped, a client that is gone ends the handler.
\<close>

datatype ws_input = Proceed | ClientText | ClientGone | SendFails

definition ws_handler ::
    "'s tier \<Rightarrow> access_policy \<Rightarrow> nat \<Rightarrow> ws_input \<Rightarrow> ('s, 'm) ws_world \<Rightarrow> ('s, 'm) ws_world" where
  "ws_handler T P w input s =
     (let c = ww_conns s w; i = wc_team c in
      case wc_mode c of
        NotConnected \<Rightarrow>
          (case ws_gate T P i (wc_user c) (ww_tier s) of
             Inl code \<Rightarrow> set_conn w (c\<lparr>wc_mode := Refused code\<rparr>) s
           | Inr p \<Rightarrow> set_conn w (c\<lparr>wc_mode := Accepted, wc_process := Some p\<rparr>) s)
      | Accepted \<Rightarrow>
          on_mgr (cm_track w) (set_conn w (c\<lparr>wc_mode :=
            (case wc_process c of None \<Rightarrow> Entering
             | Some p \<Rightarrow> if status p = RUNNING then Subscribing else Entering)\<rparr>) s)
      | Subscribing \<Rightarrow>
          (case stream_subscribe i 0 (ww_streams s) of
             (Inl e, x) \<Rightarrow> set_conn w (c\<lparr>wc_mode := StreamEnded\<rparr>) (s\<lparr>ww_streams := x\<rparr>)
           | (Inr r, x) \<Rightarrow> set_conn w (c\<lparr>wc_mode := Streaming r\<rparr>) (s\<lparr>ww_streams := x\<rparr>))
      | Streaming r \<Rightarrow>
          if input = ClientGone then
            (case reader_close r (ww_streams s) of (_, x) \<Rightarrow>
               on_mgr (ws_unwind w i (wc_depth c)) (set_conn w (c\<lparr>wc_mode := Finished, wc_depth := 0\<rparr>)
                 (s\<lparr>ww_streams := x\<rparr>)))
          else (case reader_read_next r (ww_streams s) of
              (Inr None, r', x) \<Rightarrow> set_conn w (c\<lparr>wc_mode := Streaming r'\<rparr>) (s\<lparr>ww_streams := x\<rparr>)
            | (Inr (Some e), r', x) \<Rightarrow>
                set_conn w (c\<lparr>wc_mode := Streaming r', wc_sent :=
                  (if input = SendFails then wc_sent c else wc_sent c @ [e])\<rparr>) (s\<lparr>ww_streams := x\<rparr>)
            | (Inl _, r', x) \<Rightarrow>
                (case reader_close r' x of (_, y) \<Rightarrow>
                   set_conn w (c\<lparr>wc_mode := StreamEnded\<rparr>) (s\<lparr>ww_streams := y\<rparr>)))
      | StreamEnded \<Rightarrow> on_mgr (cm_clear_restored i) (set_conn w (c\<lparr>wc_mode := Entering\<rparr>) s)
      | Entering \<Rightarrow>
          on_mgr (cm_add_waiting i w)
            (set_conn w (c\<lparr>wc_mode := Idle, wc_depth := Suc (wc_depth c)\<rparr>) s)
      | Idle \<Rightarrow>
          if input = ClientGone then
            on_mgr (ws_unwind w i (wc_depth c)) (set_conn w (c\<lparr>wc_mode := Finished, wc_depth := 0\<rparr>) s)
          else if input = ClientText then s
          else if cm_is_restored i (ww_mgr s) then set_conn w (c\<lparr>wc_mode := Subscribing\<rparr>) s
          else s
      | _ \<Rightarrow> s)"

definition still_open :: "('s, 'm) ws_world \<Rightarrow> nat \<Rightarrow> bool" where
  "still_open s w = wc_open (ww_conns s w)"

text \<open>
  Everything that can happen: a step of a handler, a restore that has put the team's record back
  and now notifies, a client that goes away, and the rest of the server, which changes the tier and
  the streams.
\<close>

inductive ws_step :: "'s tier \<Rightarrow> access_policy \<Rightarrow> ('s, 'm) ws_world \<Rightarrow> ('s, 'm) ws_world \<Rightarrow> bool"
  for T :: "'s tier" and P :: access_policy where
  handler: "ws_step T P s (ws_handler T P w input s)"
| notify: "ws_step T P s (on_mgr (notify_restore (still_open s) i) s)"
| leave: "ws_step T P s (set_conn w ((ww_conns s w)\<lparr>wc_open := False\<rparr>) s)"
| server: "ws_step T P s (s\<lparr>ww_tier := t, ww_streams := x\<rparr>)"

definition ws_start :: "('s, 'm) ws_world \<Rightarrow> bool" where
  "ws_start s \<longleftrightarrow> ww_mgr s = cm_new \<and>
     (\<forall>w. wc_mode (ww_conns s w) = NotConnected \<and> wc_process (ww_conns s w) = None \<and>
          wc_depth (ww_conns s w) = 0 \<and> wc_sent (ww_conns s w) = [])"

inductive ws_reachable :: "'s tier \<Rightarrow> access_policy \<Rightarrow> ('s, 'm) ws_world \<Rightarrow> bool"
  for T :: "'s tier" and P :: access_policy where
  start: "ws_start s \<Longrightarrow> ws_reachable T P s"
| step: "ws_reachable T P s \<Longrightarrow> ws_step T P s t \<Longrightarrow> ws_reachable T P t"

inductive_cases ws_stepE: "ws_step T P s t"

section \<open>Invariants\<close>

text \<open>A connection past the gate is one the policy let in, for the team the handler read.\<close>

definition conn_granted :: "access_policy \<Rightarrow> 'm ws_conn \<Rightarrow> bool" where
  "conn_granted P c \<longleftrightarrow>
     ((wc_mode c = NotConnected \<or> (\<exists>k. wc_mode c = Refused k)) \<and> wc_process c = None \<and> wc_sent c = [] \<and> wc_depth c = 0) \<or>
     (\<exists>p. wc_process c = Some p \<and> status p \<noteq> DELETED \<and> ap_is_allowed P (team_context (wc_team c) p) (wc_user c))"

text \<open>An idle loop is in the list of its team once for every loop on its stack, while the client is there.\<close>

definition conn_listed :: "nat \<Rightarrow> 'm ws_conn \<Rightarrow> conn_mgr \<Rightarrow> bool" where
  "conn_listed w c m \<longleftrightarrow>
     (wc_open c \<longrightarrow> count_list (waiting_for (wc_team c) m) w = wc_depth c) \<and>
     (wc_mode c = Idle \<longrightarrow> 0 < wc_depth c)"

definition ws_inv :: "access_policy \<Rightarrow> ('s, 'm) ws_world \<Rightarrow> bool" where
  "ws_inv P s \<longleftrightarrow> (\<forall>w. conn_granted P (ww_conns s w) \<and> conn_listed w (ww_conns s w) (ww_mgr s))"

lemma ws_gate_Inr:
  "ws_gate T P i u s = Inr p \<Longrightarrow> status p \<noteq> DELETED \<and> ap_is_allowed P (team_context i p) u"
  by (auto simp: ws_gate_def get_team_def load_live_def split: option.splits if_splits)

lemma count_list_filter: "count_list (filter c xs) w = (if c w then count_list xs w else 0)"
  by (induction xs) auto

lemma count_list_remove1: "count_list (remove1 v xs) w = (if v = w then count_list xs w - 1 else count_list xs w)"
  by (induction xs) auto

lemma count_remove_power:
  "count_list (waiting_for j ((cm_remove_waiting i v ^^ n) m)) w =
     (if j = i \<and> v = w then count_list (waiting_for i m) w - n else count_list (waiting_for j m) w)"
  by (induction n) (auto simp: count_list_remove1)

lemma count_unwind:
  "count_list (waiting_for j (ws_unwind v i n m)) w =
     (if j = i \<and> v = w then count_list (waiting_for i m) w - n else count_list (waiting_for j m) w)"
  by (simp add: ws_unwind_def count_remove_power)

text \<open>
  A handler step rewrites its own connection, never its team or user, and the manager only in ways that
  keep the other connections' entries.
\<close>

lemma ws_invI:
  assumes inv: "ws_inv P s"
    and same: "\<And>v. v \<noteq> w \<Longrightarrow> ww_conns t v = ww_conns s v"
    and counts: "\<And>v j. v \<noteq> w \<Longrightarrow> count_list (waiting_for j (ww_mgr t)) v = count_list (waiting_for j (ww_mgr s)) v"
    and own: "conn_granted P (ww_conns t w) \<and> conn_listed w (ww_conns t w) (ww_mgr t)"
  shows "ws_inv P t"
  unfolding ws_inv_def
proof
  fix v
  show "conn_granted P (ww_conns t v) \<and> conn_listed v (ww_conns t v) (ww_mgr t)"
    using inv same [of v] counts [of v] own by (cases "v = w") (simp_all add: ws_inv_def conn_listed_def)
qed

lemma ws_inv_handler:
  assumes "ws_inv P s"
  shows "ws_inv P (ws_handler T P w input s)"
proof (rule ws_invI [OF assms])
  let ?c = "ww_conns s w"
  show "ww_conns (ws_handler T P w input s) v = ww_conns s v" if "v \<noteq> w" for v
    using that by (cases "wc_mode ?c") (simp_all add: ws_handler_def Let_def set_conn_def on_mgr_def
        split: sum.split prod.split option.split)
  show "count_list (waiting_for j (ww_mgr (ws_handler T P w input s))) v = count_list (waiting_for j (ww_mgr s)) v"
    if "v \<noteq> w" for v j
    using that by (cases "wc_mode ?c") (simp_all add: ws_handler_def Let_def set_conn_def on_mgr_def count_unwind
        split: sum.split prod.split option.split)
  have c: "conn_granted P ?c" "conn_listed w ?c (ww_mgr s)"
    using assms by (simp_all add: ws_inv_def)
  show "conn_granted P (ww_conns (ws_handler T P w input s) w) \<and>
      conn_listed w (ww_conns (ws_handler T P w input s) w) (ww_mgr (ws_handler T P w input s))"
  proof (cases "wc_mode ?c")
    case NotConnected
    then show ?thesis
      using c ws_gate_Inr [of T P "wc_team ?c" "wc_user ?c" "ww_tier s"]
      by (auto simp: ws_handler_def Let_def set_conn_def conn_granted_def conn_listed_def split: sum.split)
  next
    case Accepted
    then show ?thesis
      using c by (auto simp: ws_handler_def Let_def set_conn_def on_mgr_def conn_granted_def conn_listed_def
          split: option.split)
  next
    case Subscribing
    then show ?thesis
      using c by (auto simp: ws_handler_def Let_def set_conn_def on_mgr_def conn_granted_def conn_listed_def
          split: sum.split prod.split)
  next
    case (Streaming r)
    obtain out r' x where rd: "reader_read_next r (ww_streams s) = (out, r', x)" by (metis prod_cases3)
    obtain z y where cl: "reader_close r (ww_streams s) = (z, y)" by fastforce
    obtain z' y' where cl': "reader_close r' x = (z', y')" by fastforce
    have g: "conn_granted P (?c\<lparr>wc_mode := k, wc_depth := d, wc_sent := l\<rparr>)" for k d l
      using c(1) Streaming by (auto simp: conn_granted_def)
    have g': "conn_granted P (?c\<lparr>wc_mode := k\<rparr>)" for k
      using c(1) Streaming by (auto simp: conn_granted_def)
    show ?thesis
    proof (cases "input = ClientGone")
      case True
      then show ?thesis
        using c g [where k = Finished and d = 0 and l = "wc_sent ?c"] Streaming cl
        by (simp add: ws_handler_def Let_def set_conn_def on_mgr_def conn_listed_def count_unwind)
    next
      case False
      then show ?thesis
        using c g [where d = "wc_depth ?c"] g' Streaming rd cl'
        by (cases out; cases "projr out")
          (simp_all add: ws_handler_def Let_def set_conn_def on_mgr_def conn_listed_def split: option.split)
    qed
  qed (use c in \<open>auto simp: ws_handler_def Let_def set_conn_def on_mgr_def conn_granted_def conn_listed_def count_unwind\<close>)
qed

lemma ws_inv_step:
  assumes "ws_inv P s" "ws_step T P s t"
  shows "ws_inv P t"
  using assms(2)
proof cases
  case (handler w input)
  then show ?thesis using ws_inv_handler [OF assms(1)] by simp
next
  case (notify i)
  then show ?thesis
    using assms(1)
    by (auto simp: ws_inv_def conn_listed_def on_mgr_def count_list_filter still_open_def)
next
  case (leave w)
  show ?thesis
    by (rule ws_invI [OF assms(1), of w]) (use assms(1) in
      \<open>auto simp: leave set_conn_def ws_inv_def conn_listed_def conn_granted_def\<close>)
next
  case (server tr x)
  then show ?thesis using assms(1) by (simp add: ws_inv_def)
qed

lemma ws_inv_reachable: "ws_reachable T P s \<Longrightarrow> ws_inv P s"
proof (induction rule: ws_reachable.induct)
  case (start s)
  then show ?case
    by (auto simp: ws_start_def ws_inv_def conn_granted_def conn_listed_def cm_new_def waiting_for_def)
next
  case (step s t)
  then show ?case using ws_inv_step by blast
qed

section \<open>What a client is sent, and when it is woken\<close>

text \<open>
  C26. Under every interleaving of handlers, restores and the rest of the server, a client is sent
  events only on a connection the access policy let in: for the team of the connection, as the
  handler read it before accepting, and for the caller of that connection.
\<close>

theorem websocket_streams_only_to_granted:
  assumes "ws_reachable T P s" "wc_sent (ww_conns s w) \<noteq> []"
  shows "\<exists>p. wc_process (ww_conns s w) = Some p \<and> status p \<noteq> DELETED \<and>
     ap_is_allowed P (team_context (wc_team (ww_conns s w)) p) (wc_user (ww_conns s w))"
  using ws_inv_reachable [OF assms(1)] assms(2) by (auto simp: ws_inv_def conn_granted_def)

definition sample_ws :: "team_status \<Rightarrow> (ref_world community, nat) ws_world" where
  "sample_ws st = \<lparr>ww_tier = ref_start_state st, ww_streams = snd (stream_append 7 42 init_streams), ww_mgr = cm_new,
     ww_conns = (\<lambda>_. \<lparr>wc_team = 7, wc_user = anonymous\<lparr>ru_user_id := ''alice''\<rparr>, wc_mode = NotConnected,
       wc_process = None, wc_depth = 0, wc_open = True, wc_sent = []\<rparr>)\<rparr>"

fun ws_run :: "nat \<Rightarrow> ('s, 'm) ws_world \<Rightarrow> 's tier \<Rightarrow> ('s, 'm) ws_world" where
  "ws_run 0 s T = s"
| "ws_run (Suc n) s T = ws_run n (ws_handler T (owner_or_admin True) 1 Proceed s) T"

lemma ws_run_reachable:
  "ws_reachable T (owner_or_admin True) s \<Longrightarrow> ws_reachable T (owner_or_admin True) (ws_run n s T)"
  by (induction n arbitrary: s) (auto intro: ws_reachable.step ws_step.handler)

lemma sample_ws_reachable: "ws_reachable ref_tier (owner_or_admin True) (ws_run n (sample_ws st) ref_tier)"
  by (intro ws_run_reachable ws_reachable.start) (simp add: ws_start_def sample_ws_def)

lemma sample_gate:
  "st \<noteq> DELETED \<Longrightarrow> ws_gate ref_tier (owner_or_admin True) 7 (anonymous\<lparr>ru_user_id := ''alice''\<rparr>) (ref_start_state st) =
     Inr ((new_process 7 sample_args)\<lparr>status := st\<rparr>)"
  by (simp add: ws_gate_def get_team_def load_live_def ref_get_team store_of_def ref_start_state_def
      one_team_world_def init_placement_def owner_or_admin_def owner_or_admin_allowed_def team_context_def
      new_process_def sample_args_def)

lemma sample_ws_streams: "wc_sent (ww_conns (ws_run 4 (sample_ws RUNNING) ref_tier) 1) = [42]"
  by (simp add: numeral_eq_Suc sample_gate ws_handler_def sample_ws_def Let_def set_conn_def on_mgr_def
      stream_subscribe_def ensure_stream_def stream_append_def init_streams_def empty_stream_def
      reader_read_next_def reader_drain_or_raise_def reader_advance_def py_nth_def new_process_def)

theorem websocket_streams_only_to_granted_witness:
  "\<exists>p. wc_process (ww_conns (ws_run 4 (sample_ws RUNNING) ref_tier) 1) = Some p \<and> status p \<noteq> DELETED"
  using websocket_streams_only_to_granted [OF sample_ws_reachable [of 4 RUNNING], of 1] sample_ws_streams by auto

text \<open>
  A restore reaches every idle connection: once the restore has notified, each connection of that
  team that waits and whose client is still there starts streaming at its next turn without
  client input.
\<close>

theorem restore_wakes_idle_connections:
  assumes "ws_reachable T P s" "wc_mode (ww_conns s w) = Idle" "wc_open (ww_conns s w)"
    and "t = on_mgr (notify_restore (still_open s) (wc_team (ww_conns s w))) s"
  shows "wc_mode (ww_conns (ws_handler T P w Proceed t) w) = Subscribing"
proof -
  let ?i = "wc_team (ww_conns s w)"
  have "count_list (waiting_for ?i (ww_mgr s)) w \<noteq> 0"
    using ws_inv_reachable [OF assms(1)] assms(2,3) by (auto simp: ws_inv_def conn_listed_def)
  then have "waiting_for ?i (ww_mgr s) \<noteq> []" by auto
  then have "cm_is_restored ?i (ww_mgr t)" using assms(4) by (simp add: on_mgr_def notify_marks)
  then show ?thesis using assms(2,4) by (simp add: ws_handler_def Let_def set_conn_def on_mgr_def)
qed

lemma sample_ws_idles:
  "wc_mode (ww_conns (ws_run 3 (sample_ws STOPPED) ref_tier) 1) = Idle"
  "wc_open (ww_conns (ws_run 3 (sample_ws STOPPED) ref_tier) 1)"
  "wc_team (ww_conns (ws_run 3 (sample_ws STOPPED) ref_tier) 1) = 7"
  by (simp_all add: numeral_eq_Suc sample_gate ws_handler_def sample_ws_def Let_def set_conn_def on_mgr_def new_process_def)

theorem restore_wakes_idle_connections_witness:
  "let s = ws_run 3 (sample_ws STOPPED) ref_tier
   in wc_mode (ww_conns (ws_handler ref_tier (owner_or_admin True) 1 Proceed
        (on_mgr (notify_restore (still_open s) 7) s)) 1) = Subscribing"
  using restore_wakes_idle_connections [OF sample_ws_reachable sample_ws_idles(1,2) refl] sample_ws_idles(3)
  by (simp add: Let_def)

text \<open>
  A restore that notifies while a connection has seen its stream end but does not wait yet is lost
  on it: the connection clears the restored flag on its way to the idle loop, then waits, although
  its team runs.
\<close>

theorem restore_during_transition_is_lost:
  assumes "wc_mode (ww_conns s w) = StreamEnded"
    and "t = on_mgr (notify_restore (still_open s) (wc_team (ww_conns s w))) s"
    and "u = ws_handler T P w Proceed (ws_handler T P w Proceed t)"
  shows "wc_mode (ww_conns u w) = Idle \<and> ws_handler T P w Proceed u = u"
  using assms
  by (simp add: ws_handler_def Let_def set_conn_def on_mgr_def cm_is_restored_def cm_clear_restored_def cm_add_waiting_def)

end
