(* ===== verification/ChannelText.thy ===== *)
theory ChannelText
  imports Uuid
begin

text \<open>
  The text patterns of \<open>adapters/shared/channel_router.py\<close>: a team id as a whole word, a spawned agent
  name anywhere, and an agent name at the start of a message; and the notice that hands both to the
  user.
\<close>

section \<open>Characters\<close>

text \<open>\<open>\w\<close> on Latin-1: the letters and numeric characters \<open>str.isalnum\<close> accepts, and the underscore.\<close>

definition ascii_alnum :: "char \<Rightarrow> bool" where
  "ascii_alnum c \<longleftrightarrow> (let n = of_char c :: nat in 48 \<le> n \<and> n \<le> 57 \<or> 65 \<le> n \<and> n \<le> 90 \<or> 97 \<le> n \<and> n \<le> 122)"

definition is_word :: "char \<Rightarrow> bool" where
  "is_word c \<longleftrightarrow> ascii_alnum c \<or> c = CHR ''_'' \<or>
     (let n = of_char c :: nat in n \<in> set [0xAA, 0xB2, 0xB3, 0xB5, 0xB9, 0xBA, 0xBC, 0xBD, 0xBE] \<or>
        (0xC0 \<le> n \<and> n \<noteq> 0xD7 \<and> n \<noteq> 0xF7))"

text \<open>\<open>[0-9a-f]\<close> under \<open>re.IGNORECASE\<close>, and \<open>[A-Za-z0-9_]\<close>.\<close>

definition is_hex :: "char \<Rightarrow> bool" where
  "is_hex c \<longleftrightarrow> (let n = of_char c :: nat in 48 \<le> n \<and> n \<le> 57 \<or> 65 \<le> n \<and> n \<le> 70 \<or> 97 \<le> n \<and> n \<le> 102)"

definition name_char :: "char \<Rightarrow> bool" where
  "name_char c \<longleftrightarrow> ascii_alnum c \<or> c = CHR ''_''"

section \<open>Team ids\<close>

text \<open>\<open>_TEAM_ID_RE\<close>: True stands for a dash of the pattern, False for a hexadecimal digit.\<close>

definition team_id_pattern :: "bool list" where
  "team_id_pattern = replicate 8 False @ [True] @ replicate 4 False @ [True] @ replicate 4 False @ [True] @
     replicate 4 False @ [True] @ replicate 12 False"

fun fits :: "bool list \<Rightarrow> string \<Rightarrow> bool" where
  "fits [] s = True"
| "fits (p # ps) [] = False"
| "fits (p # ps) (c # s) = ((if p then c = CHR ''-'' else is_hex c) \<and> fits ps s)"

definition starts_word :: "string \<Rightarrow> bool" where
  "starts_word s = (case s of [] \<Rightarrow> False | c # _ \<Rightarrow> is_word c)"

text \<open>\<open>after_word\<close>: the character before the position is a word character.\<close>

fun search_team_id :: "bool \<Rightarrow> string \<Rightarrow> string option" where
  "search_team_id after_word [] = None"
| "search_team_id after_word (c # s) =
     (if \<not> after_word \<and> fits team_id_pattern (c # s) \<and> \<not> starts_word (drop 35 s)
      then Some (take 36 (c # s))
      else search_team_id (is_word c) s)"

definition team_id_re_search :: "string \<Rightarrow> string option" where
  "team_id_re_search s = search_team_id False s"

section \<open>Agent names\<close>

fun agent_name_re_search :: "string \<Rightarrow> string option" where
  "agent_name_re_search [] = None"
| "agent_name_re_search (c # s) =
     (if c = CHR ''@'' \<and> takeWhile name_char s \<noteq> [] then Some (c # takeWhile name_char s)
      else agent_name_re_search s)"

definition leading_agent_re_match :: "string \<Rightarrow> string option" where
  "leading_agent_re_match s =
     (case dropWhile is_space s of
        c # t \<Rightarrow> if c = CHR ''@'' \<and> takeWhile name_char t \<noteq> [] then Some (c # takeWhile name_char t) else None
      | [] \<Rightarrow> None)"

definition agent_name :: "string \<Rightarrow> bool" where
  "agent_name n \<longleftrightarrow> (\<exists>m. n = CHR ''@'' # m \<and> m \<noteq> [] \<and> list_all name_char m)"

lemma agent_name_found: "agent_name_re_search s = Some n \<Longrightarrow> agent_name n \<and> sublist n s"
proof (induction s rule: agent_name_re_search.induct)
  case (2 c s)
  then show ?case
  proof (cases "c = CHR ''@'' \<and> takeWhile name_char s \<noteq> []")
    case True
    then have "n = c # takeWhile name_char s" using 2(2) by simp
    moreover have "prefix (c # takeWhile name_char s) (c # s)"
      by (simp add: takeWhile_is_prefix)
    ultimately show ?thesis
      using True by (auto simp: agent_name_def list_all_iff dest: set_takeWhileD)
  qed (auto intro: sublist_Cons_right [THEN iffD2])
qed simp

lemma agent_name_search_append:
  assumes "agent_name n" "CHR ''@'' \<notin> set p" "\<not> name_char (hd (q @ ''.''))"
  shows "agent_name_re_search (p @ n @ q) = Some n"
  using assms
proof (induction p)
  case Nil
  then obtain m where m: "n = CHR ''@'' # m" "m \<noteq> []" "list_all name_char m"
    by (auto simp: agent_name_def)
  have "takeWhile name_char (m @ q) = m"
    using m(3) Nil(3) by (cases q) (auto simp: list_all_iff takeWhile_append)
  then show ?case using m by simp
qed (auto split: if_splits)

lemma leading_agentD:
  "leading_agent_re_match s = Some n \<Longrightarrow> agent_name n \<and> (\<exists>w t. s = w @ n @ t \<and> list_all is_space w)"
proof -
  assume "leading_agent_re_match s = Some n"
  then obtain t where t: "dropWhile is_space s = CHR ''@'' # t" "takeWhile name_char t \<noteq> []"
      "n = CHR ''@'' # takeWhile name_char t"
    by (auto simp: leading_agent_re_match_def split: list.splits if_splits)
  have "s = takeWhile is_space s @ n @ dropWhile name_char t"
    using t(1,3) takeWhile_dropWhile_id [of is_space s] by simp
  moreover have "list_all is_space (takeWhile is_space s)" by (auto simp: list_all_iff dest: set_takeWhileD)
  moreover have "agent_name n" using t by (auto simp: agent_name_def list_all_iff dest: set_takeWhileD)
  ultimately show ?thesis by blast
qed

section \<open>A team id in a text\<close>

lemma is_hex_char: "d < 16 \<Longrightarrow> is_hex (hex_char d)"
proof -
  have "list_all (\<lambda>d. is_hex (hex_char d)) [0..<16]" by code_simp
  then show "d < 16 \<Longrightarrow> is_hex (hex_char d)" by (simp add: list_all_iff)
qed

lemma uuid_digits_are_hex: "list_all is_hex (uuid_digits u)"
  unfolding uuid_digits_def by (auto simp: list_all_iff is_hex_char)

lemma fits_append:
  "length s = length ps \<Longrightarrow> fits (ps @ qs) (s @ t) \<longleftrightarrow> fits ps s \<and> fits qs t"
  by (induction s ps rule: list_induct2) auto

lemma fits_prefix: "length s = length ps \<Longrightarrow> fits ps (s @ t) \<longleftrightarrow> fits ps s"
  by (induction s ps rule: list_induct2) auto

lemma fits_hex: "length s = n \<Longrightarrow> list_all is_hex s \<Longrightarrow> fits (replicate n False) s"
  by (induction s arbitrary: n) auto

lemma fits_uuid_str: "fits team_id_pattern (uuid_str u @ t)"
proof -
  let ?h = "uuid_digits u"
  have hex: "list_all is_hex (take n (drop m ?h))" "list_all is_hex (drop m ?h)" for n m
    using uuid_digits_are_hex [of u] by (auto simp: list_all_iff dest: in_set_takeD in_set_dropD)
  have "fits (replicate n False) (take n (drop m ?h))" if "m + n \<le> 32" for n m
    using that by (intro fits_hex hex) simp
  from this [of 0 8] this [of 8 4] this [of 12 4] this [of 16 4] fits_hex [OF _ hex(2), of 20 12]
  have "fits (replicate 8 False) (take 8 ?h)" "fits (replicate 4 False) (take 4 (drop 8 ?h))"
    "fits (replicate 4 False) (take 4 (drop 12 ?h))" "fits (replicate 4 False) (take 4 (drop 16 ?h))"
    "fits (replicate 12 False) (drop 20 ?h)"
    by simp_all
  moreover have "fits (replicate 12 False) (drop 20 ?h @ t) \<longleftrightarrow> fits (replicate 12 False) (drop 20 ?h)"
    by (rule fits_prefix) simp
  ultimately show ?thesis
    by (simp add: team_id_pattern_def uuid_str_def Let_def fits_append del: replicate.simps append_Nil2)
qed

lemma length_uuid_str [simp]: "length (uuid_str u) = 36"
  by (simp add: uuid_str_def Let_def)

lemma fits_chars: "fits ps s \<Longrightarrow> c \<in> set (take (length ps) s) \<Longrightarrow> is_hex c \<or> c = CHR ''-''"
  by (induction ps s rule: fits.induct) (auto split: if_splits)

text \<open>A separator ends no word and is part of no id.\<close>

definition separator :: "char \<Rightarrow> bool" where
  "separator c \<longleftrightarrow> \<not> is_hex c \<and> c \<noteq> CHR ''-'' \<and> \<not> is_word c"

lemma team_id_after:
  assumes "length p \<le> 36" "p \<noteq> [] \<Longrightarrow> separator (last p)" "p = [] \<Longrightarrow> \<not> w" "\<not> starts_word q"
  shows "search_team_id w (p @ uuid_str u @ q) = Some (uuid_str u)"
  using assms
proof (induction p arbitrary: w)
  case Nil
  obtain c s where c: "uuid_str u @ q = c # s" by (cases "uuid_str u @ q") (auto simp flip: length_0_conv)
  then have "drop 36 (uuid_str u @ q) = drop 35 s" by simp
  then have "drop 35 s = q" by simp
  moreover have "take 36 (c # s) = uuid_str u" unfolding c [symmetric] by simp
  moreover have "fits team_id_pattern (c # s)" unfolding c [symmetric] by (rule fits_uuid_str)
  ultimately show ?case using Nil c by simp
next
  case (Cons c p)
  have l: "last (c # p) \<in> set (take 36 ((c # p) @ uuid_str u @ q))"
    using Cons(2) by (metis last_in_set list.discI take_all take_append Un_iff set_append)
  have "\<not> fits team_id_pattern (c # p @ uuid_str u @ q)"
  proof
    assume "fits team_id_pattern (c # p @ uuid_str u @ q)"
    moreover have "length team_id_pattern = 36" by (simp add: team_id_pattern_def)
    ultimately have "is_hex (last (c # p)) \<or> last (c # p) = CHR ''-''"
      using fits_chars l by (metis append_Cons)
    then show False using Cons(3) by (simp add: separator_def)
  qed
  moreover have "search_team_id (is_word c) (p @ uuid_str u @ q) = Some (uuid_str u)"
    using Cons.prems by (intro Cons.IH) (auto simp: separator_def)
  ultimately show ?case by simp
qed

lemma uuid_str_no_at: "CHR ''@'' \<notin> set (uuid_str u)"
proof
  assume "CHR ''@'' \<in> set (uuid_str u)"
  then have "CHR ''@'' \<in> set (uuid_digits u)" using uuid_str_chars by blast
  then have "is_hex CHR ''@''" using uuid_digits_are_hex [of u] by (simp add: list_all_iff)
  then show False by (simp add: is_hex_def)
qed

section \<open>The notice of a new session\<close>

definition started_notice :: "uuid \<Rightarrow> string \<Rightarrow> string" where
  "started_notice i n =
     ''Started a new session '' @ [long_dash] @ '' team '' @ uuid_str i @ '' as '' @ n @ ''.''"

lemma started_notice_reads:
  assumes "agent_name n"
  shows "team_id_re_search (started_notice i n) = Some (uuid_str i)"
    and "agent_name_re_search (started_notice i n) = Some n"
proof -
  let ?p = "''Started a new session '' @ [long_dash] @ '' team ''"
  have p: "length ?p \<le> 36" "separator (last ?p)" "CHR ''@'' \<notin> set ?p"
    by (simp_all add: long_dash_def) code_simp+
  show "team_id_re_search (started_notice i n) = Some (uuid_str i)"
    using team_id_after [of ?p False "'' as '' @ n @ ''.''" i] p
    by (simp add: team_id_re_search_def started_notice_def starts_word_def is_word_def ascii_alnum_def
        del: search_team_id.simps)
  show "agent_name_re_search (started_notice i n) = Some n"
    using agent_name_search_append [OF assms, of "?p @ uuid_str i @ '' as ''" "''.''"] p uuid_str_no_at [of i]
    by (simp add: started_notice_def name_char_def ascii_alnum_def del: agent_name_re_search.simps)
qed

end
