(* ===== verification/Channels.thy ===== *)
theory Channels
  imports Data Uuid
begin

text \<open>
  \<open>protocols/channels.py\<close>: the values that travel between an interaction channel and the server, how
  a binding is stored, and the registry of bindings as the locale \<open>channel_registry\<close>.
\<close>

section \<open>Messages and addresses\<close>

record channel_command =
  cc_name :: string
  cc_rest :: string

record channel_message =
  cm_content :: string
  cm_channel_user_id :: string
  cm_channel_message_id :: "string option"
  cm_catalog_entry :: "string option"
  cm_team_id :: "uuid option"
  cm_team_metadata :: "(string \<times> json) list option"
  cm_binding_metadata :: "(string \<times> json) list option"
  cm_command :: "channel_command option"
  cm_quoted_text :: "string option"

record channel_address =
  ch_channel :: string
  ch_user :: string

record channel_binding = channel_address +
  cb_team_id :: uuid
  cb_agent_name :: string
  cb_metadata :: "(string \<times> json) list"

definition address_of :: "channel_binding \<Rightarrow> channel_address" where
  "address_of b = \<lparr>ch_channel = ch_channel b, ch_user = ch_user b\<rparr>"

section \<open>Adapters\<close>

text \<open>
  What an adapter reads of a \<open>SentMessage\<close>: the recipient's team and name, whether it is a user proxy
  (no value when the attribute raises), the sender's name, the inner message's text. An adapter is
  the record of its methods, over the state of whatever it posts to.
\<close>

record sent_message =
  sm_team :: uuid
  sm_recipient :: string
  sm_user_proxy :: "bool option"
  sm_sender :: "string option"
  sm_content :: "string option"

record 'n adapter =
  ad_matches :: "sent_message \<Rightarrow> channel_binding \<Rightarrow> bool"
  ad_deliver :: "sent_message \<Rightarrow> channel_binding \<Rightarrow> ('n, unit) prog"
  ad_deliver_notice :: "channel_address \<Rightarrow> string \<Rightarrow> ('n, unit) prog"
  ad_on_stop :: "uuid \<Rightarrow> ('n, unit) prog"

section \<open>Stored form\<close>

text \<open>
  \<open>model_dump(mode='json')\<close> and \<open>model_validate\<close> of a binding, after the declared fields: a text field
  takes text, a UUID field text that reads as one, the metadata a mapping that defaults to empty;
  other keys are ignored.
\<close>

definition binding_class :: string where
  "binding_class = ''akgentic.infra.protocols.channels.ChannelBinding''"

definition dump_binding :: "channel_binding \<Rightarrow> (string \<times> json) list" where
  "dump_binding b =
     [(''__model__'', JStr binding_class), (''channel'', JStr (ch_channel b)),
      (''channel_user_id'', JStr (ch_user b)), (''team_id'', JStr (uuid_str (cb_team_id b))),
      (''agent_name'', JStr (cb_agent_name b)), (''metadata'', JObj (cb_metadata b))]"

fun json_str :: "json option \<Rightarrow> string option" where
  "json_str (Some (JStr s)) = Some s"
| "json_str _ = None"

definition validate_binding :: "(string \<times> json) list \<Rightarrow> channel_binding option" where
  "validate_binding d =
     (case (json_str (map_of d ''channel''), json_str (map_of d ''channel_user_id''),
            Option.bind (json_str (map_of d ''team_id'')) parse_uuid,
            json_str (map_of d ''agent_name''),
            case map_of d ''metadata'' of None \<Rightarrow> Some [] | Some j \<Rightarrow> json_obj j) of
        (Some c, Some u, Some i, Some a, Some m) \<Rightarrow>
          Some \<lparr>ch_channel = c, ch_user = u, cb_team_id = i, cb_agent_name = a, cb_metadata = m\<rparr>
      | _ \<Rightarrow> None)"

lemma parse_uuid_uuid_str: "parse_uuid (uuid_str u) = Some u"
  by (rule uuid_str_parses)

lemma validate_dump [simp]: "validate_binding (dump_binding b) = Some b"
  by (simp add: validate_binding_def dump_binding_def parse_uuid_uuid_str)

section \<open>The registry\<close>

record 'r registry_ops =
  ro_register :: "channel_binding \<Rightarrow> ('r, unit) prog"
  ro_find :: "channel_address \<Rightarrow> 'r \<Rightarrow> exn + channel_binding option"
  ro_deregister :: "channel_address \<Rightarrow> ('r, unit) prog"
  ro_deregister_team :: "uuid \<Rightarrow> ('r, unit) prog"
  ro_find_sync :: "uuid \<Rightarrow> string \<Rightarrow> 'r \<Rightarrow> channel_binding option"

text \<open>
  What a registry promises the inbound and the outbound path: a conversation has at most one
  binding, the last one registered for it; a release takes that conversation's only, the end of a
  team takes all of its bindings and no other; the synchronous read answers bindings that are
  stored, by their team and agent.
\<close>

locale channel_registry =
  fixes register :: "channel_binding \<Rightarrow> ('r, unit) prog"
    and find :: "channel_address \<Rightarrow> 'r \<Rightarrow> exn + channel_binding option"
    and deregister :: "channel_address \<Rightarrow> ('r, unit) prog"
    and deregister_team :: "uuid \<Rightarrow> ('r, unit) prog"
    and find_sync :: "uuid \<Rightarrow> string \<Rightarrow> 'r \<Rightarrow> channel_binding option"
    and inv :: "'r \<Rightarrow> bool"
  assumes find_ok: "inv r \<Longrightarrow> \<exists>x. find a r = Inr x"
    and register_ok: "inv r \<Longrightarrow> fst (register b r) = Inr () \<and> inv (snd (register b r))"
    and find_register: "inv r \<Longrightarrow> find a (snd (register b r)) =
          (if a = address_of b then Inr (Some b) else find a r)"
    and deregister_ok: "inv r \<Longrightarrow> fst (deregister a r) = Inr () \<and> inv (snd (deregister a r))"
    and find_deregister: "inv r \<Longrightarrow> find a (snd (deregister c r)) =
          (if a = c then Inr None else find a r)"
    and deregister_team_ok: "inv r \<Longrightarrow> fst (deregister_team i r) = Inr () \<and> inv (snd (deregister_team i r))"
    and find_deregister_team: "inv r \<Longrightarrow> find a (snd (deregister_team i r)) =
          (case find a r of Inr (Some b) \<Rightarrow> if cb_team_id b = i then Inr None else Inr (Some b) | x \<Rightarrow> x)"
    and find_sync_sound: "inv r \<Longrightarrow> find_sync i n r = Some b \<Longrightarrow>
          cb_team_id b = i \<and> cb_agent_name b = n \<and> (\<exists>a. find a r = Inr (Some b))"
begin

text \<open>No binding of a deleted team is left for either path.\<close>

lemma no_binding_after_team_end:
  assumes "inv r"
  shows "find a (snd (deregister_team i r)) \<noteq> Inr (Some b) \<or> cb_team_id b \<noteq> i"
    and "find_sync i n (snd (deregister_team i r)) = None"
proof -
  show *: "find a (snd (deregister_team i r)) \<noteq> Inr (Some b) \<or> cb_team_id b \<noteq> i" for a b
    using find_deregister_team [OF assms, of a i] by (auto split: sum.splits option.splits if_splits)
  show "find_sync i n (snd (deregister_team i r)) = None"
    using find_sync_sound [of "snd (deregister_team i r)" i n] deregister_team_ok [OF assms, of i] *
    by (cases "find_sync i n (snd (deregister_team i r))") auto
qed

lemma register_overwrites:
  assumes "inv r" "address_of b = address_of c"
  shows "find a (snd (register c (snd (register b r)))) = find a (snd (register c r))"
  using assms register_ok [OF assms(1), of b] by (simp add: find_register)

end

end
