(* ===== verification/YamlRegistry.thy ===== *)
theory YamlRegistry
  imports Channels "HOL-Library.Char_ord" "HOL-Library.List_Lexorder" "HOL-Library.Multiset"
begin

text \<open>
  \<open>YamlChannelRegistry\<close> of \<open>adapters/community/yaml_channel_registry.py\<close>: one file of records, re-read by
  every asynchronous operation, and an in-process index of the last snapshot written. The file is
  kept as the document it parses to, with text keys; a document a hand edit broke is any other
  \<^typ>\<open>json\<close>, or \<open>Malformed\<close> when no parser reads it.
\<close>

section \<open>State\<close>

datatype yaml_file = Absent | Malformed string | Parsed json

type_synonym registry_data = "(string, json) dict"

record yaml_registry =
  yr_path :: bool
  yr_file :: yaml_file
  yr_index :: "(uuid \<times> string, channel_binding) dict"

section \<open>Storage\<close>

definition yr_load :: "yaml_registry \<Rightarrow> exn + registry_data" where
  "yr_load r =
     (if \<not> yr_path r then Inr []
      else case yr_file r of
          Absent \<Rightarrow> Inr []
        | Malformed e \<Rightarrow> Inl (OtherError e)
        | Parsed j \<Rightarrow> Inr (case json_obj j of None \<Rightarrow> [] | Some d \<Rightarrow> d))"

text \<open>
  \<open>yaml.safe_dump\<close> writes a mapping in the order of its keys, which is the order it is read back in.
  Only \<open>index_from_data\<close> observes an order, that of channels and users.
\<close>

definition by_key :: "(string, 'v) dict \<Rightarrow> (string, 'v) dict" where
  "by_key d = sort_key fst d"

fun sorted_section :: "json \<Rightarrow> json" where
  "sorted_section (JObj s) = JObj (by_key s)"
| "sorted_section j = j"

definition yr_save :: "registry_data \<Rightarrow> yaml_registry \<Rightarrow> yaml_registry" where
  "yr_save d r = r\<lparr>yr_file := Parsed (JObj (by_key (map (\<lambda>(c, j). (c, sorted_section j)) d)))\<rparr>"

section \<open>Records\<close>

fun binding_from_record :: "json \<Rightarrow> channel_binding option" where
  "binding_from_record (JObj d) = validate_binding d"
| "binding_from_record _ = None"

fun section_bindings :: "json \<Rightarrow> channel_binding list" where
  "section_bindings (JObj s) = List.map_filter (\<lambda>(u, j). binding_from_record j) s"
| "section_bindings _ = []"

definition bindings_of :: "registry_data \<Rightarrow> channel_binding list" where
  "bindings_of d = concat (map (\<lambda>(c, j). section_bindings j) d)"

definition index_from_data :: "registry_data \<Rightarrow> (uuid \<times> string, channel_binding) dict" where
  "index_from_data d =
     foldl (\<lambda>i b. AList.update (cb_team_id b, cb_agent_name b) b i) [] (bindings_of d)"

definition yr_commit :: "registry_data \<Rightarrow> (yaml_registry, unit) prog" where
  "yr_commit d = writing (\<lambda>r. (yr_save d r)\<lparr>yr_index := index_from_data d\<rparr>)"

definition yr_new :: "bool \<Rightarrow> yaml_file \<Rightarrow> exn + yaml_registry" where
  "yr_new path file =
     (let r = \<lparr>yr_path = path, yr_file = file, yr_index = []\<rparr>
      in case yr_load r of Inl e \<Rightarrow> Inl e | Inr d \<Rightarrow> Inr (r\<lparr>yr_index := index_from_data d\<rparr>))"

section \<open>Operations\<close>

definition register_data :: "channel_binding \<Rightarrow> registry_data \<Rightarrow> registry_data" where
  "register_data b d =
     (let s = (case Option.bind (map_of d (ch_channel b)) json_obj of None \<Rightarrow> [] | Some s \<Rightarrow> s)
      in AList.update (ch_channel b) (JObj (AList.update (ch_user b) (JObj (dump_binding b)) s)) d)"

definition yr_register :: "channel_binding \<Rightarrow> (yaml_registry, unit) prog" where
  "yr_register b = (\<lambda>r.
     if \<not> yr_path r then ret () r
     else bnd (reading yr_load) (\<lambda>d. yr_commit (register_data b d)) r)"

definition yr_find_binding :: "channel_address \<Rightarrow> yaml_registry \<Rightarrow> exn + channel_binding option" where
  "yr_find_binding a r =
     (case yr_load r of
        Inl e \<Rightarrow> Inl e
      | Inr d \<Rightarrow> Inr
          (case (case map_of d (ch_channel a) of None \<Rightarrow> JObj [] | Some j \<Rightarrow> j) of
             JObj s \<Rightarrow>
               (case map_of s (ch_user a) of None \<Rightarrow> None | Some j \<Rightarrow> binding_from_record j)
           | _ \<Rightarrow> None))"

definition yr_deregister :: "channel_address \<Rightarrow> (yaml_registry, unit) prog" where
  "yr_deregister a = (\<lambda>r.
     if \<not> yr_path r then ret () r
     else bnd (reading yr_load) (\<lambda>d.
       case map_of d (ch_channel a) of
         Some (JObj s) \<Rightarrow>
           (let s' = AList.delete (ch_user a) s
            in yr_commit (if s' = [] then AList.delete (ch_channel a) d
                          else AList.update (ch_channel a) (JObj s') d))
       | _ \<Rightarrow> ret ()) r)"

text \<open>\<open>_prune_team\<close>: the records of one team, and the sections they leave empty.\<close>

definition of_team :: "uuid \<Rightarrow> json \<Rightarrow> bool" where
  "of_team i j = (case binding_from_record j of None \<Rightarrow> False | Some b \<Rightarrow> cb_team_id b = i)"

fun prune_team :: "uuid \<Rightarrow> registry_data \<Rightarrow> registry_data \<times> bool" where
  "prune_team i [] = ([], False)"
| "prune_team i ((c, j) # d) =
     (case (j, prune_team i d) of
        (JObj s, (d', removed)) \<Rightarrow>
          (let s' = filter (\<lambda>(u, rec). \<not> of_team i rec) s;
               emptied = (\<exists>(u, rec) \<in> set s. of_team i rec)
           in (if emptied \<and> s' = [] then d' else (c, JObj s') # d', emptied \<or> removed))
      | (_, (d', removed)) \<Rightarrow> ((c, j) # d', removed))"

definition yr_deregister_team :: "uuid \<Rightarrow> (yaml_registry, unit) prog" where
  "yr_deregister_team i = (\<lambda>r.
     if \<not> yr_path r then ret () r
     else bnd (reading yr_load) (\<lambda>d.
       case prune_team i d of (d', removed) \<Rightarrow> if removed then yr_commit d' else ret ()) r)"

definition yr_find_binding_sync :: "uuid \<Rightarrow> string \<Rightarrow> yaml_registry \<Rightarrow> channel_binding option" where
  "yr_find_binding_sync i n r = map_of (yr_index r) (i, n)"

section \<open>What the document stores\<close>

text \<open>The abstraction: the binding of each conversation, when its record is readable.\<close>

definition stored :: "registry_data \<Rightarrow> channel_address \<Rightarrow> channel_binding option" where
  "stored d a =
     (case map_of d (ch_channel a) of
        Some (JObj s) \<Rightarrow>
          (case map_of s (ch_user a) of None \<Rightarrow> None | Some j \<Rightarrow> binding_from_record j)
      | _ \<Rightarrow> None)"

fun section_ok :: "json \<Rightarrow> bool" where
  "section_ok (JObj s) = dict_ok s"
| "section_ok _ = True"

definition data_ok :: "registry_data \<Rightarrow> bool" where
  "data_ok d \<longleftrightarrow> dict_ok d \<and> list_all (\<lambda>(c, j). section_ok j) d"

definition file_ok :: "yaml_file \<Rightarrow> bool" where
  "file_ok f = (case f of Absent \<Rightarrow> True | Malformed _ \<Rightarrow> False
                 | Parsed j \<Rightarrow> (case json_obj j of None \<Rightarrow> True | Some d \<Rightarrow> data_ok d))"

definition yr_data :: "yaml_registry \<Rightarrow> registry_data" where
  "yr_data r = (case yr_load r of Inl _ \<Rightarrow> [] | Inr d \<Rightarrow> d)"

definition index_entry_ok :: "registry_data \<Rightarrow> (uuid \<times> string) \<times> channel_binding \<Rightarrow> bool" where
  "index_entry_ok d = (\<lambda>(k, b). k = (cb_team_id b, cb_agent_name b) \<and> b \<in> set (bindings_of d))"

definition yr_inv :: "yaml_registry \<Rightarrow> bool" where
  "yr_inv r \<longleftrightarrow> yr_path r \<and> file_ok (yr_file r) \<and> list_all (index_entry_ok (yr_data r)) (yr_index r)"

lemma map_of_by_key [simp]: "dict_ok d \<Longrightarrow> map_of (by_key d) = map_of d"
proof -
  assume "dict_ok d"
  moreover have "distinct (map fst (by_key d)) = distinct (map fst d)"
    by (rule mset_eq_imp_distinct_iff) (simp add: by_key_def)
  ultimately show ?thesis
    unfolding dict_ok_def by (intro map_of_inject_set [THEN iffD2]) (simp_all add: by_key_def)
qed

lemma dict_ok_by_key [simp]: "dict_ok (by_key d) = dict_ok d"
  unfolding dict_ok_def by (rule mset_eq_imp_distinct_iff) (simp add: by_key_def)

lemma set_by_key [simp]: "set (by_key d) = set d"
  by (simp add: by_key_def)

lemma section_ok_sorted [simp]: "section_ok (sorted_section j) = section_ok j"
  by (cases j) simp_all

lemma section_bindings_sorted [simp]:
  "set (section_bindings (sorted_section j)) = set (section_bindings j)"
  by (cases j) (simp_all add: List.map_filter_def)

definition dumped :: "registry_data \<Rightarrow> registry_data" where
  "dumped d = by_key (map (\<lambda>(c, j). (c, sorted_section j)) d)"

lemma data_ok_dumped [simp]: "data_ok (dumped d) = data_ok d"
  unfolding data_ok_def dumped_def list_all_iff dict_ok_by_key set_by_key
  by (simp add: dict_ok_def case_prod_unfold comp_def)

lemma stored_dumped [simp]: "data_ok d \<Longrightarrow> stored (dumped d) = stored d"
proof
  fix a
  assume ok: "data_ok d"
  then have "dict_ok (map (\<lambda>(c, j). (c, sorted_section j)) d)"
    by (simp add: data_ok_def dict_ok_def case_prod_unfold comp_def)
  then have "map_of (dumped d) = map_option sorted_section \<circ> map_of d"
    unfolding dumped_def by (simp add: map_of_map)
  moreover have "section_ok j" if "map_of d c = Some j" for c j
    using ok map_of_SomeD [OF that] by (auto simp: data_ok_def list_all_iff)
  ultimately show "stored (dumped d) a = stored d a"
    by (fastforce simp: stored_def split: option.splits json.splits elim: sorted_section.elims)
qed

lemma set_bindings_dumped [simp]: "set (bindings_of (dumped d)) = set (bindings_of d)"
  by (auto simp: bindings_of_def dumped_def split_beta)

lemma section_bindings_iff:
  "b \<in> set (section_bindings j) \<longleftrightarrow>
     (\<exists>s u rec. j = JObj s \<and> (u, rec) \<in> set s \<and> binding_from_record rec = Some b)"
  by (cases j) (force simp: List.map_filter_def)+

lemma dict_ok_single [simp]: "dict_ok [x]"
  by (simp add: dict_ok_def)

lemma json_obj_Some [simp]: "json_obj j = Some s \<longleftrightarrow> j = JObj s"
  by (cases j) auto

lemma stored_Some_iff:
  "stored d a = Some b \<longleftrightarrow>
     (\<exists>s rec. map_of d (ch_channel a) = Some (JObj s) \<and> map_of s (ch_user a) = Some rec \<and>
        binding_from_record rec = Some b)"
  unfolding stored_def by (simp split: option.split json.split)

lemma stored_iff_listed:
  assumes "data_ok d"
  shows "b \<in> set (bindings_of d) \<longleftrightarrow> (\<exists>a. stored d a = Some b)"
proof
  assume "b \<in> set (bindings_of d)"
  then obtain c s u rec where m: "(c, JObj s) \<in> set d" "(u, rec) \<in> set s" "binding_from_record rec = Some b"
    by (auto simp: bindings_of_def section_bindings_iff)
  then have "map_of d c = Some (JObj s)" "map_of s u = Some rec"
    using assms by (auto simp: data_ok_def dict_ok_def list_all_iff)
  then have "stored d \<lparr>ch_channel = c, ch_user = u\<rparr> = Some b" using m(3) by (simp add: stored_Some_iff)
  then show "\<exists>a. stored d a = Some b" ..
next
  assume "\<exists>a. stored d a = Some b"
  then obtain a :: channel_address and s rec where m: "map_of d (ch_channel a) = Some (JObj s)" "map_of s (ch_user a) = Some rec"
      "binding_from_record rec = Some b"
    unfolding stored_Some_iff by blast
  have "b \<in> set (section_bindings (JObj s))"
    using m(2,3) unfolding section_bindings_iff by (blast dest: map_of_SomeD)
  then show "b \<in> set (bindings_of d)"
    using map_of_SomeD [OF m(1)] unfolding bindings_of_def by force
qed

lemma index_from_data_sound:
  "e \<in> set (index_from_data d) \<Longrightarrow> index_entry_ok d e"
proof -
  have "e \<in> set (foldl (\<lambda>i b. AList.update (cb_team_id b, cb_agent_name b) b i) i bs) \<Longrightarrow>
      e \<in> set i \<or> (snd e \<in> set bs \<and> fst e = (cb_team_id (snd e), cb_agent_name (snd e)))" for i bs
  proof (induction bs arbitrary: i)
    case (Cons b bs)
    have "set (AList.update k v i) \<subseteq> insert (k, v) (set i)" for k :: "uuid \<times> string" and v :: channel_binding
      by (induction i) auto
    with Cons.IH [of "AList.update (cb_team_id b, cb_agent_name b) b i"] Cons.prems
    show ?case by fastforce
  qed simp
  then show "e \<in> set (index_from_data d) \<Longrightarrow> index_entry_ok d e"
    unfolding index_from_data_def index_entry_ok_def by (cases e) fastforce
qed

lemma index_entry_ok_dumped [simp]: "index_entry_ok (dumped d) = index_entry_ok d"
  by (simp add: index_entry_ok_def)

section \<open>The operations on the abstraction\<close>

lemma yr_load_ok: "yr_inv r \<Longrightarrow> yr_load r = Inr (yr_data r) \<and> data_ok (yr_data r)"
  by (auto simp: yr_inv_def file_ok_def yr_data_def yr_load_def data_ok_def split: yaml_file.splits option.splits)

lemma yr_find_stored: "yr_inv r \<Longrightarrow> yr_find_binding a r = Inr (stored (yr_data r) a)"
  by (simp add: yr_find_binding_def yr_load_ok stored_def split: option.splits json.splits)

lemma yr_commit_data:
  assumes "yr_inv r" "data_ok d"
  shows "fst (yr_commit d r) = Inr ()" and "yr_data (snd (yr_commit d r)) = dumped d"
    and "yr_inv (snd (yr_commit d r))"
  using assms index_from_data_sound
  by (auto simp: yr_commit_def yr_save_def yr_inv_def file_ok_def yr_data_def yr_load_def list_all_iff
      simp flip: dumped_def)

lemma data_ok_update: "data_ok d \<Longrightarrow> section_ok j \<Longrightarrow> data_ok (AList.update c j d)"
proof -
  have "set (AList.update c j d) \<subseteq> insert (c, j) (set d)" by (induction d) auto
  then show "data_ok d \<Longrightarrow> section_ok j \<Longrightarrow> data_ok (AList.update c j d)"
    by (auto simp: data_ok_def list_all_iff)
qed

lemma data_ok_delete: "data_ok d \<Longrightarrow> data_ok (AList.delete c d)"
  by (auto simp: data_ok_def list_all_iff AList.delete_eq dict_ok_def distinct_map_filter case_prod_unfold)

lemma data_ok_section: "data_ok d \<Longrightarrow> map_of d c = Some (JObj s) \<Longrightarrow> dict_ok s"
  by (auto simp: data_ok_def list_all_iff dest!: map_of_SomeD)

lemma data_ok_register: "data_ok d \<Longrightarrow> data_ok (register_data b d)"
  unfolding register_data_def Let_def
  by (intro data_ok_update) (auto simp: bind_eq_Some_conv split: option.splits dest: data_ok_section)

lemma stored_register:
  "data_ok d \<Longrightarrow> stored (register_data b d) a = (if a = address_of b then Some b else stored d a)"
proof -
  assume "data_ok d"
  have s: "map_of (register_data b d) (ch_channel b) = Some (JObj (AList.update (ch_user b) (JObj (dump_binding b))
      (case Option.bind (map_of d (ch_channel b)) json_obj of None \<Rightarrow> [] | Some s \<Rightarrow> s)))"
    by (simp add: register_data_def Let_def)
  have o: "map_of (register_data b d) c = map_of d c" if "c \<noteq> ch_channel b" for c
    using that by (simp add: register_data_def Let_def)
  consider "a = address_of b" | "ch_channel a = ch_channel b" "ch_user a \<noteq> ch_user b" | "ch_channel a \<noteq> ch_channel b"
    by (cases a) (auto simp: address_of_def)
  then show ?thesis
  proof cases
    case 2
    then have "a \<noteq> address_of b" by (auto simp: address_of_def)
    then show ?thesis using 2 s
      by (cases "map_of d (ch_channel b)") (simp_all add: stored_def split: json.split option.split)
  qed (use s o in \<open>auto simp: stored_def address_of_def\<close>)
qed

text \<open>What \<open>deregister\<close> writes, when it writes.\<close>

definition deregister_data :: "channel_address \<Rightarrow> registry_data \<Rightarrow> registry_data" where
  "deregister_data a d =
     (case map_of d (ch_channel a) of
        Some (JObj s) \<Rightarrow>
          (let s' = AList.delete (ch_user a) s
           in if s' = [] then AList.delete (ch_channel a) d else AList.update (ch_channel a) (JObj s') d)
      | _ \<Rightarrow> d)"

lemma data_ok_deregister: "data_ok d \<Longrightarrow> data_ok (deregister_data a d)"
  by (auto simp: deregister_data_def Let_def split: option.split json.split
      intro!: data_ok_delete data_ok_update dest: data_ok_section)

lemma stored_deregister:
  "stored (deregister_data c d) a = (if a = c then None else stored d a)"
proof (cases "Option.bind (map_of d (ch_channel c)) json_obj")
  case None
  then have "deregister_data c d = d" by (auto simp: deregister_data_def split: option.split json.split)
  moreover have "stored d c = None" using None by (auto simp: stored_def split: option.splits json.splits)
  ultimately show ?thesis by simp
next
  case (Some s)
  then have m: "map_of d (ch_channel c) = Some (JObj s)" by (auto simp: bind_eq_Some_conv)
  have same: "a = c" if "ch_channel a = ch_channel c" "ch_user a = ch_user c"
    using that by (cases a; cases c) simp
  have none: "map_of s u = None" if "AList.delete (ch_user c) s = []" "u \<noteq> ch_user c" for u
    using that map_of_delete [of "ch_user c" s] by (metis fun_upd_other map_of_eq_None_iff map_of.simps(1))
  show ?thesis
    using m same none [of "ch_user a"] by (auto simp: stored_def deregister_data_def Let_def)
qed

lemma yr_deregister_eq:
  assumes "yr_inv r"
  shows "yr_deregister a r =
    (case map_of (yr_data r) (ch_channel a) of
       Some (JObj s) \<Rightarrow> yr_commit (deregister_data a (yr_data r)) r | _ \<Rightarrow> (Inr (), r))"
  using assms yr_load_ok [OF assms]
  by (simp add: yr_deregister_def bnd_def yr_inv_def deregister_data_def Let_def split: option.split json.split)

lemma dict_ok_filter: "dict_ok s \<Longrightarrow> dict_ok (filter P s)"
  by (simp add: dict_ok_def distinct_map_filter)

lemma map_of_filter_dict: "dict_ok s \<Longrightarrow> map_of (filter (\<lambda>(u, j). P j) s) u =
    (case map_of s u of None \<Rightarrow> None | Some j \<Rightarrow> if P j then Some j else None)"
  by (induction s) (auto simp: dict_ok_def map_of_eq_None_iff split: option.splits dest: map_of_SomeD)

lemma prune_keys: "fst ` set (fst (prune_team i d)) \<subseteq> fst ` set d"
proof (induction i d rule: prune_team.induct)
  case (2 i c j d)
  then show ?case by (cases "prune_team i d"; cases j) (auto simp: Let_def)
qed simp

lemma data_ok_Cons: "data_ok ((c, j) # d) \<longleftrightarrow> section_ok j \<and> c \<notin> fst ` set d \<and> data_ok d"
  by (auto simp: data_ok_def dict_ok_def)

lemma data_ok_prune: "data_ok d \<Longrightarrow> data_ok (fst (prune_team i d))"
proof (induction i d rule: prune_team.induct)
  case (2 i c j d)
  then have "data_ok (fst (prune_team i d))" "c \<notin> fst ` set (fst (prune_team i d))" "section_ok j"
    using prune_keys [of i d] by (auto simp: data_ok_Cons)
  then show ?case
    by (cases "prune_team i d"; cases j) (simp_all add: data_ok_Cons dict_ok_filter Let_def)
qed simp

definition section_stored :: "json \<Rightarrow> string \<Rightarrow> channel_binding option" where
  "section_stored j u =
     (case j of
        JObj s \<Rightarrow> (case map_of s u of None \<Rightarrow> None | Some rec \<Rightarrow> binding_from_record rec)
      | _ \<Rightarrow> None)"

lemma stored_Nil [simp]: "stored [] a = None"
  by (simp add: stored_def)

lemma stored_Cons:
  "stored ((c, j) # d) a = (if ch_channel a = c then section_stored j (ch_user a) else stored d a)"
  by (simp add: stored_def section_stored_def)

lemma stored_other: "ch_channel a \<notin> fst ` set d \<Longrightarrow> stored d a = None"
  by (simp add: stored_def map_of_eq_None_iff [THEN iffD2])

definition without_team :: "uuid \<Rightarrow> channel_binding option \<Rightarrow> channel_binding option" where
  "without_team i x = (case x of None \<Rightarrow> None | Some b \<Rightarrow> if cb_team_id b = i then None else Some b)"

lemma section_stored_filter:
  "dict_ok s \<Longrightarrow> section_stored (JObj (filter (\<lambda>(u, rec). \<not> of_team i rec) s)) u =
     without_team i (section_stored (JObj s) u)"
  by (auto simp: section_stored_def without_team_def map_of_filter_dict of_team_def split: option.splits)

lemma stored_prune: "data_ok d \<Longrightarrow> stored (fst (prune_team i d)) a = without_team i (stored d a)"
proof (induction i d rule: prune_team.induct)
  case (1 i)
  then show ?case by (simp add: without_team_def)
next
  case (2 i c j d)
  obtain d' removed where p: "prune_team i d = (d', removed)" by fastforce
  then have IH: "stored d' a = without_team i (stored d a)" and ok: "section_ok j" and
      c: "c \<notin> fst ` set d" "c \<notin> fst ` set d'"
    using 2 prune_keys [of i d] by (auto simp: data_ok_Cons)
  show ?case
  proof (cases j)
    case (JObj s)
    then have f: "section_stored (JObj (filter (\<lambda>(u, rec). \<not> of_team i rec) s)) u =
        without_team i (section_stored (JObj s) u)" for u
      using ok by (intro section_stored_filter) simp
    have "without_team i (section_stored (JObj s) u) = None"
      if "filter (\<lambda>(u, rec). \<not> of_team i rec) s = []" for u
      using f [of u] that by (simp add: section_stored_def)
    then show ?thesis
      using JObj p IH c f stored_other [of a d'] by (auto simp: stored_Cons Let_def)
  qed (use p IH in \<open>simp_all add: stored_Cons section_stored_def without_team_def\<close>)
qed

lemma prune_unchanged: "\<not> snd (prune_team i d) \<Longrightarrow> fst (prune_team i d) = d"
proof (induction i d rule: prune_team.induct)
  case (2 i c j d)
  obtain d' removed where p: "prune_team i d = (d', removed)" by fastforce
  then show ?case
    using 2 by (cases j) (auto simp: Let_def filter_id_conv split: if_splits)
qed simp

lemma yr_deregister_team_eq:
  assumes "yr_inv r"
  shows "yr_deregister_team i r =
    (if snd (prune_team i (yr_data r)) then yr_commit (fst (prune_team i (yr_data r))) r else (Inr (), r))"
  using assms yr_load_ok [OF assms]
  by (simp add: yr_deregister_team_def bnd_def yr_inv_def split: prod.split)

section \<open>The registry promises\<close>

lemma yr_register_eq: "yr_inv r \<Longrightarrow> yr_register b r = yr_commit (register_data b (yr_data r)) r"
  using yr_load_ok [of r] by (simp add: yr_register_def bnd_def yr_inv_def)

lemma stored_after_deregister:
  assumes "yr_inv r" "data_ok (yr_data r)"
  shows "stored (yr_data (snd (yr_deregister c r))) = stored (deregister_data c (yr_data r))"
proof (cases "\<exists>s. map_of (yr_data r) (ch_channel c) = Some (JObj s)")
  case True
  then have "yr_deregister c r = yr_commit (deregister_data c (yr_data r)) r"
    using assms by (auto simp: yr_deregister_eq)
  then show ?thesis using assms by (simp add: yr_commit_data data_ok_deregister)
next
  case False
  then have "deregister_data c (yr_data r) = yr_data r" "snd (yr_deregister c r) = r"
    using assms by (auto simp: yr_deregister_eq deregister_data_def split: option.split json.split)
  then show ?thesis by simp
qed

interpretation yaml: channel_registry yr_register yr_find_binding yr_deregister yr_deregister_team
  yr_find_binding_sync yr_inv
proof
  fix r b and a c :: channel_address and i n
  assume inv: "yr_inv r"
  note ok = yr_load_ok [OF inv, THEN conjunct2]
  show "\<exists>x. yr_find_binding a r = Inr x" using inv by (simp add: yr_find_stored)
  show reg: "fst (yr_register b r) = Inr () \<and> yr_inv (snd (yr_register b r))"
    using inv ok by (simp add: yr_register_eq yr_commit_data data_ok_register)
  show "yr_find_binding a (snd (yr_register b r)) =
      (if a = address_of b then Inr (Some b) else yr_find_binding a r)"
    using reg inv ok by (simp add: yr_find_stored yr_register_eq yr_commit_data data_ok_register stored_register)
  show de: "fst (yr_deregister c r) = Inr () \<and> yr_inv (snd (yr_deregister c r))" for c
    using inv ok by (simp add: yr_deregister_eq yr_commit_data data_ok_deregister split: option.split json.split)
  have "stored (yr_data (snd (yr_deregister c r))) = stored (deregister_data c (yr_data r))"
    by (rule stored_after_deregister [OF inv ok])
  then show "yr_find_binding a (snd (yr_deregister c r)) = (if a = c then Inr None else yr_find_binding a r)"
    using inv de by (simp add: yr_find_stored stored_deregister)
  show dt: "fst (yr_deregister_team i r) = Inr () \<and> yr_inv (snd (yr_deregister_team i r))"
    using inv ok by (simp add: yr_deregister_team_eq yr_commit_data data_ok_prune)
  have "stored (yr_data (snd (yr_deregister_team i r))) = stored (fst (prune_team i (yr_data r)))"
    using inv ok prune_unchanged [of i "yr_data r"]
    by (simp add: yr_deregister_team_eq yr_commit_data data_ok_prune)
  then show "yr_find_binding a (snd (yr_deregister_team i r)) =
      (case yr_find_binding a r of Inr (Some b) \<Rightarrow> if cb_team_id b = i then Inr None else Inr (Some b) | x \<Rightarrow> x)"
    using inv dt ok by (simp add: yr_find_stored stored_prune without_team_def split: option.split)
  assume "yr_find_binding_sync i n r = Some b"
  then have "index_entry_ok (yr_data r) ((i, n), b)"
    using inv map_of_SomeD [of "yr_index r" "(i, n)" b]
    by (auto simp: yr_find_binding_sync_def yr_inv_def list_all_iff)
  then show "cb_team_id b = i \<and> cb_agent_name b = n \<and> (\<exists>a. yr_find_binding a r = Inr (Some b))"
    using inv ok stored_iff_listed [OF ok, of b] by (simp add: index_entry_ok_def yr_find_stored)
qed

section \<open>Correctness\<close>

lemma index_from_data_complete:
  "b \<in> set (bindings_of d) \<Longrightarrow> \<exists>b'. map_of (index_from_data d) (cb_team_id b, cb_agent_name b) = Some b'"
proof -
  have "b \<in> set bs \<or> (\<exists>b'. map_of i (cb_team_id b, cb_agent_name b) = Some b') \<Longrightarrow>
      \<exists>b'. map_of (foldl (\<lambda>i b. AList.update (cb_team_id b, cb_agent_name b) b i) i bs)
             (cb_team_id b, cb_agent_name b) = Some b'" for bs i
    by (induction bs arbitrary: i) auto
  then show "b \<in> set (bindings_of d) \<Longrightarrow> ?thesis" unfolding index_from_data_def by blast
qed

lemma yr_new_inv: "file_ok f \<Longrightarrow> yr_new True f = Inr r \<Longrightarrow> yr_inv r"
  using index_from_data_sound
  by (auto simp: yr_new_def yr_inv_def file_ok_def yr_data_def yr_load_def list_all_iff
      split: yaml_file.splits option.splits)

lemma disabled_registry:
  "\<not> yr_path r \<Longrightarrow> yr_register b r = (Inr (), r) \<and> yr_deregister a r = (Inr (), r) \<and>
     yr_deregister_team i r = (Inr (), r) \<and> yr_find_binding a r = Inr None"
  by (simp add: yr_register_def yr_deregister_def yr_deregister_team_def yr_find_binding_def yr_load_def)

lemma sync_after_register:
  assumes "yr_inv r"
  obtains b' where "yr_find_binding_sync (cb_team_id b) (cb_agent_name b) (snd (yr_register b r)) = Some b'"
proof -
  let ?d = "register_data b (yr_data r)"
  have ok: "data_ok ?d" using yr_load_ok [OF assms] by (simp add: data_ok_register)
  moreover have "stored ?d (address_of b) = Some b"
    using yr_load_ok [OF assms] by (simp add: stored_register)
  ultimately have "b \<in> set (bindings_of ?d)" using stored_iff_listed [OF ok] by blast
  then obtain b' where "map_of (index_from_data ?d) (cb_team_id b, cb_agent_name b) = Some b'"
    using index_from_data_complete by blast
  then show ?thesis
    using assms by (intro that) (simp add: yr_find_binding_sync_def yr_register_eq yr_commit_def)
qed

text \<open>A file with a binding, a record of the old format and a section that is not a mapping.\<close>

definition sample_binding :: channel_binding where
  "sample_binding = \<lparr>ch_channel = ''telegram'', ch_user = ''987'', cb_team_id = 7,
     cb_agent_name = ''@HumanProxy_0'', cb_metadata = []\<rparr>"

definition sample_registry :: yaml_registry where
  "sample_registry = \<lparr>yr_path = True,
     yr_file = Parsed (JObj [(''slack'', JStr ''oops''),
       (''telegram'', JObj [(''654'', JStr (uuid_str 8)), (''987'', JObj (dump_binding sample_binding))])]),
     yr_index = [((7, ''@HumanProxy_0''), sample_binding)]\<rparr>"

lemma sample_registry_inv: "yr_inv sample_registry"
  by (simp add: yr_inv_def sample_registry_def file_ok_def data_ok_def dict_ok_def yr_data_def yr_load_def
      index_entry_ok_def bindings_of_def List.map_filter_def)
    (simp add: sample_binding_def)

text \<open>
  A binding that is registered is the one its conversation finds afterwards, whatever stood in the
  file before (a record of the old format, a section that is not a mapping); the outbound path at
  once has a binding for that agent, one that the file stores; no other conversation's binding
  changes.
\<close>

theorem registered_binding_found:
  assumes "yr_inv r"
  shows "fst (yr_register b r) = Inr ()
    \<and> yr_find_binding (address_of b) (snd (yr_register b r)) = Inr (Some b)
    \<and> (\<forall>a. a = address_of b \<or> yr_find_binding a (snd (yr_register b r)) = yr_find_binding a r)
    \<and> (\<exists>b' a. yr_find_binding_sync (cb_team_id b) (cb_agent_name b) (snd (yr_register b r)) = Some b'
         \<and> cb_team_id b' = cb_team_id b \<and> cb_agent_name b' = cb_agent_name b
         \<and> yr_find_binding a (snd (yr_register b r)) = Inr (Some b'))"
proof -
  obtain b' where s: "yr_find_binding_sync (cb_team_id b) (cb_agent_name b) (snd (yr_register b r)) = Some b'"
    using sync_after_register [OF assms] by blast
  then show ?thesis
    using assms yaml.register_ok [OF assms, of b] yaml.find_sync_sound [OF _ s]
    by (simp add: yaml.find_register)
qed

theorem registered_binding_found_witness:
  "yr_find_binding \<lparr>ch_channel = ''slack'', ch_user = ''1''\<rparr>
     (snd (yr_register (sample_binding\<lparr>ch_channel := ''slack'', ch_user := ''1''\<rparr>) sample_registry)) =
   Inr (Some (sample_binding\<lparr>ch_channel := ''slack'', ch_user := ''1''\<rparr>))"
  using registered_binding_found [OF sample_registry_inv, of "sample_binding\<lparr>ch_channel := ''slack'', ch_user := ''1''\<rparr>"]
  by (simp add: address_of_def)



end
