(* ===== verification/ChannelRouter.thy ===== *)
theory ChannelRouter
  imports ChannelText YamlRegistry TeamService
begin

text \<open>
  \<open>adapters/shared/channel_router.py\<close>: the context of one inbound message, with the services of its
  conversation, and the default router's rules. The registry and the adapters are any; the
  properties are proved for every registry that keeps its contract and rest on the YAML one.
\<close>

section \<open>State\<close>

record 's team_ops =
  to_create_team :: "string \<Rightarrow> string \<Rightarrow> uuid option \<Rightarrow> (string \<times> json) list option \<Rightarrow> ('s, process) prog"
  to_send_message :: "uuid \<Rightarrow> delivery \<Rightarrow> ('s, unit) prog"
  to_send_message_from_to :: "uuid \<Rightarrow> string \<Rightarrow> string \<Rightarrow> delivery \<Rightarrow> ('s, unit) prog"
  to_get_team :: "uuid \<Rightarrow> 's \<Rightarrow> process option"

record ('s, 'r, 'n) channels =
  cs_teams :: 's
  cs_registry :: 'r
  cs_adapters :: 'n

record ('s, 'r, 'n) route_context =
  rc_address :: channel_address
  rc_default_entry :: string
  rc_registry :: "'r registry_ops"
  rc_teams :: "'s team_ops"
  rc_adapters :: "'n adapter list"

definition in_teams :: "('s, 'a) prog \<Rightarrow> (('s, 'r, 'n) channels, 'a) prog" where
  "in_teams = on_part cs_teams (\<lambda>t s. s\<lparr>cs_teams := t\<rparr>)"

definition in_registry :: "('r, 'a) prog \<Rightarrow> (('s, 'r, 'n) channels, 'a) prog" where
  "in_registry = on_part cs_registry (\<lambda>t s. s\<lparr>cs_registry := t\<rparr>)"

definition in_adapters :: "('n, 'a) prog \<Rightarrow> (('s, 'r, 'n) channels, 'a) prog" where
  "in_adapters = on_part cs_adapters (\<lambda>t s. s\<lparr>cs_adapters := t\<rparr>)"

section \<open>ChannelRouteContext\<close>

definition is_blank :: "delivery \<Rightarrow> bool" where
  "is_blank content =
     (case (case content of Text t \<Rightarrow> Some t | Msg m \<Rightarrow> msg_content m) of
        None \<Rightarrow> False
      | Some t \<Rightarrow> strip t = [])"

definition ctx_find_binding ::
    "('s, 'r, 'n) route_context \<Rightarrow> (('s, 'r, 'n) channels, channel_binding option) prog" where
  "ctx_find_binding C = in_registry (reading (ro_find (rc_registry C) (rc_address C)))"

definition ctx_release ::
    "('s, 'r, 'n) route_context \<Rightarrow> (('s, 'r, 'n) channels, channel_binding option) prog" where
  "ctx_release C =
     bnd (ctx_find_binding C) (\<lambda>b. case b of
        None \<Rightarrow> ret None
      | Some _ \<Rightarrow> andthen (in_registry (ro_deregister (rc_registry C) (rc_address C))) (ret b))"

definition new_binding ::
    "channel_address \<Rightarrow> uuid \<Rightarrow> string \<Rightarrow> (string \<times> json) list \<Rightarrow> channel_binding" where
  "new_binding a i n md =
     \<lparr>ch_channel = ch_channel a, ch_user = ch_user a, cb_team_id = i, cb_agent_name = n, cb_metadata = md\<rparr>"

definition ctx_initiate_team ::
    "('s, 'r, 'n) route_context \<Rightarrow> delivery option \<Rightarrow> string option \<Rightarrow> uuid option \<Rightarrow>
     (string \<times> json) list option \<Rightarrow> (string \<times> json) list option \<Rightarrow>
     (('s, 'r, 'n) channels, process) prog" where
  "ctx_initiate_team C content entry i team_metadata binding_metadata =
     (let ns = (case entry of Some e \<Rightarrow> if e = [] then rc_default_entry C else e
                 | None \<Rightarrow> rc_default_entry C);
          md = (case binding_metadata of Some m \<Rightarrow> m | None \<Rightarrow> [])
      in bnd (in_teams (to_create_team (rc_teams C) ns (ch_user (rc_address C)) i team_metadata)) (\<lambda>p.
         andthen (in_registry (ro_register (rc_registry C)
                    (new_binding (rc_address C) (team_id p) (entry_point p) md)))
        (andthen
           (case content of
              None \<Rightarrow> ret ()
            | Some c \<Rightarrow> if is_blank c then ret () else in_teams (to_send_message (rc_teams C) (team_id p) c))
           (ret p))))"

definition ctx_default_recipient ::
    "('s, 'r, 'n) route_context \<Rightarrow> channel_binding \<Rightarrow> (('s, 'r, 'n) channels, string) prog" where
  "ctx_default_recipient C b =
     in_teams (reading (\<lambda>t. case to_get_team (rc_teams C) (cb_team_id b) t of
        None \<Rightarrow> Inl (team_not_found (cb_team_id b))
      | Some p \<Rightarrow>
          (case List.find (\<lambda>n. n \<noteq> cb_agent_name b) (supervisors p @ [entry_point p]) of
             None \<Rightarrow> Inl (NoDefaultRecipientError (team_msg (cb_team_id b)
                 ('' has no agent for '' @ cb_agent_name b @
                  '' to address: it is the team's entry point and the team declares no supervisors. '' @
                  ''Name the recipient in the message'')))
           | Some n \<Rightarrow> Inr n)))"

text \<open>\<open>_send_to\<close>.\<close>

definition ctx_dispatch ::
    "('s, 'r, 'n) route_context \<Rightarrow> channel_binding \<Rightarrow> string \<Rightarrow> delivery \<Rightarrow>
     (('s, 'r, 'n) channels, bool) prog" where
  "ctx_dispatch C b recipient content =
     andthen (in_teams (to_send_message_from_to (rc_teams C) (cb_team_id b) (cb_agent_name b) recipient content))
       (ret True)"

definition ctx_send ::
    "('s, 'r, 'n) route_context \<Rightarrow> delivery \<Rightarrow> (('s, 'r, 'n) channels, bool) prog" where
  "ctx_send C content =
     (if is_blank content then ret False
      else bnd (ctx_find_binding C) (\<lambda>b. case b of
             None \<Rightarrow> ret False
           | Some b \<Rightarrow> bnd (ctx_default_recipient C b) (\<lambda>supervisor. ctx_dispatch C b supervisor content)))"

definition ctx_send_to ::
    "('s, 'r, 'n) route_context \<Rightarrow> string \<Rightarrow> delivery \<Rightarrow> (('s, 'r, 'n) channels, bool) prog" where
  "ctx_send_to C recipient content =
     (if is_blank content then ret False
      else bnd (ctx_find_binding C) (\<lambda>b. case b of
             None \<Rightarrow> ret False
           | Some b \<Rightarrow> ctx_dispatch C b recipient content))"

definition ctx_bind_team ::
    "('s, 'r, 'n) route_context \<Rightarrow> uuid \<Rightarrow> string \<Rightarrow> (('s, 'r, 'n) channels, unit) prog" where
  "ctx_bind_team C i n = in_registry (ro_register (rc_registry C) (new_binding (rc_address C) i n []))"

definition ctx_bound_process ::
    "('s, 'r, 'n) route_context \<Rightarrow> (('s, 'r, 'n) channels, process option) prog" where
  "ctx_bound_process C =
     bnd (ctx_find_binding C) (\<lambda>b. case b of
        None \<Rightarrow> ret None
      | Some b \<Rightarrow> in_teams (reading (\<lambda>t. Inr
          (case to_get_team (rc_teams C) (cb_team_id b) t of
             None \<Rightarrow> None
           | Some p \<Rightarrow> if status p = DELETED then None else Some p))))"

definition ctx_notify ::
    "('s, 'r, 'n) route_context \<Rightarrow> string \<Rightarrow> (('s, 'r, 'n) channels, unit) prog" where
  "ctx_notify C text =
     in_adapters (for_each (\<lambda>a. ad_deliver_notice a (rc_address C) text) (rc_adapters C))"

section \<open>DefaultChannelRouter\<close>

text \<open>\<open>__init__\<close>: one key of the channel's configuration is read; anything but ``true'' fails closed.\<close>

definition default_router :: "(string \<times> string) list \<Rightarrow> bool" where
  "default_router config =
     (lower (strip (case map_of config ''allow_register'' of None \<Rightarrow> [] | Some v \<Rightarrow> v)) = ''true'')"

definition team_gone_notice :: "uuid \<Rightarrow> string" where
  "team_gone_notice i = ''Team '' @ uuid_str i @
     '' is no longer available, and I cannot bring it back. Say /new to start a fresh session.''"

definition no_recipient_notice :: string where
  "no_recipient_notice =
     ''This team has nobody for me to pass that to. Name the agent, for example '' @
     quoted ''@Agent your question'' @ ''.''"

definition resolve_bound_team ::
    "channel_binding \<Rightarrow> ('s, 'r, 'n) route_context \<Rightarrow> (('s, 'r, 'n) channels, bool) prog" where
  "resolve_bound_team b C =
     bnd (ctx_bound_process C) (\<lambda>p. case p of
        None \<Rightarrow> andthen (ctx_notify C (team_gone_notice (cb_team_id b))) (ret False)
      | Some _ \<Rightarrow> ret True)"

definition recipient_named_in :: "channel_message \<Rightarrow> string option" where
  "recipient_named_in m =
     (case leading_agent_re_match (cm_content m) of
        Some n \<Rightarrow> Some n
      | None \<Rightarrow> agent_name_re_search (case cm_quoted_text m of None \<Rightarrow> [] | Some q \<Rightarrow> q))"

fun is_no_default_recipient :: "exn \<Rightarrow> bool" where
  "is_no_default_recipient (NoDefaultRecipientError _) = True"
| "is_no_default_recipient _ = False"

definition on_bound ::
    "channel_message \<Rightarrow> channel_binding \<Rightarrow> ('s, 'r, 'n) route_context \<Rightarrow> (('s, 'r, 'n) channels, unit) prog" where
  "on_bound m b C =
     (if is_blank (Text (cm_content m)) then ret ()
      else bnd (resolve_bound_team b C) (\<lambda>found.
        if \<not> found then ret ()
        else (case recipient_named_in m of
            Some n \<Rightarrow> bnd (ctx_send_to C n (Text (cm_content m))) (\<lambda>_. ret ())
          | None \<Rightarrow>
              try_except (bnd (ctx_send C (Text (cm_content m))) (\<lambda>_. ret ()))
                (\<lambda>e. if is_no_default_recipient e then ctx_notify C no_recipient_notice else throw e))))"

definition start_session ::
    "channel_message \<Rightarrow> delivery option \<Rightarrow> ('s, 'r, 'n) route_context \<Rightarrow>
     (('s, 'r, 'n) channels, process) prog" where
  "start_session m content C =
     bnd (ctx_initiate_team C content (cm_catalog_entry m) (cm_team_id m) (cm_team_metadata m)
            (cm_binding_metadata m))
       (\<lambda>p. andthen (ctx_notify C (started_notice (team_id p) (entry_point p))) (ret p))"

definition on_unbound ::
    "channel_message \<Rightarrow> ('s, 'r, 'n) route_context \<Rightarrow> (('s, 'r, 'n) channels, unit) prog" where
  "on_unbound m C = bnd (start_session m (Some (Text (cm_content m))) C) (\<lambda>_. ret ())"

section \<open>Commands\<close>

definition command_new ::
    "channel_message \<Rightarrow> string \<Rightarrow> ('s, 'r, 'n) route_context \<Rightarrow> (('s, 'r, 'n) channels, unit) prog" where
  "command_new m rest C =
     bnd (ctx_release C) (\<lambda>_.
     bnd (start_session m (if rest = [] then None else Some (Text rest)) C) (\<lambda>_. ret ()))"

definition command_unregister ::
    "('s, 'r, 'n) route_context \<Rightarrow> (('s, 'r, 'n) channels, unit) prog" where
  "command_unregister C =
     bnd (ctx_release C) (\<lambda>released. case released of
        None \<Rightarrow> ctx_notify C ''No active session to release.''
      | Some b \<Rightarrow> ctx_notify C (''Released team '' @ uuid_str (cb_team_id b) @ ''.''))"

definition register_disabled_notice :: string where
  "register_disabled_notice = ''Registering to an existing team is not enabled on this channel.''"

definition register_usage_notice :: string where
  "register_usage_notice =
     ''Send '' @ quoted ''/register <team-id> @Agent'' @ '', or reply to a message naming both with '' @
     quoted ''/register'' @ ''. The agent is its spawned name, e.g. @HumanProxy_0.''"

text \<open>\<open>search(rest) or search(quoted)\<close>: each name is looked for in both texts on its own.\<close>

definition or_else :: "'a option \<Rightarrow> 'a option \<Rightarrow> 'a option" where
  "or_else x y = (case x of None \<Rightarrow> y | Some _ \<Rightarrow> x)"

definition command_register ::
    "bool \<Rightarrow> channel_message \<Rightarrow> string \<Rightarrow> ('s, 'r, 'n) route_context \<Rightarrow>
     (('s, 'r, 'n) channels, unit) prog" where
  "command_register allow m rest C =
     (if \<not> allow then ctx_notify C register_disabled_notice
      else
        (let quoted_text = (case cm_quoted_text m of None \<Rightarrow> [] | Some q \<Rightarrow> q)
         in case (or_else (team_id_re_search rest) (team_id_re_search quoted_text),
                  or_else (agent_name_re_search rest) (agent_name_re_search quoted_text)) of
              (Some t, Some n) \<Rightarrow>
                (case parse_uuid t of
                   None \<Rightarrow> throw (ValueError ''badly formed hexadecimal UUID string'')
                 | Some i \<Rightarrow> andthen (ctx_bind_team C i n)
                     (ctx_notify C (''Bound to team '' @ uuid_str i @ '' as '' @ n @ ''.'')))
            | _ \<Rightarrow> ctx_notify C register_usage_notice))"

fun status_value :: "team_status \<Rightarrow> string" where
  "status_value RUNNING = ''running''"
| "status_value STOPPED = ''stopped''"
| "status_value DELETED = ''deleted''"

definition command_status ::
    "('s, 'r, 'n) route_context \<Rightarrow> (('s, 'r, 'n) channels, unit) prog" where
  "command_status C =
     bnd (ctx_find_binding C) (\<lambda>b. case b of
        None \<Rightarrow> ctx_notify C ''No active session.''
      | Some b \<Rightarrow> bnd (ctx_bound_process C) (\<lambda>p. case p of
          None \<Rightarrow> ctx_notify C (''Bound to team '' @ uuid_str (cb_team_id b) @ '', which is no longer known.'')
        | Some p \<Rightarrow> ctx_notify C (''Bound to team '' @ uuid_str (cb_team_id b) @ '' as '' @ cb_agent_name b @
            '' '' @ [long_dash] @ '' '' @ status_value (status p) @ ''.'')))"

definition on_command ::
    "bool \<Rightarrow> channel_message \<Rightarrow> channel_command \<Rightarrow> ('s, 'r, 'n) route_context \<Rightarrow>
     (('s, 'r, 'n) channels, bool) prog" where
  "on_command allow m c C =
     (if cc_name c = ''new'' then andthen (command_new m (cc_rest c) C) (ret True)
      else if cc_name c = ''unregister'' then andthen (command_unregister C) (ret True)
      else if cc_name c = ''status'' then andthen (command_status C) (ret True)
      else if cc_name c = ''register'' then andthen (command_register allow m (cc_rest c) C) (ret True)
      else ret False)"

definition route ::
    "bool \<Rightarrow> channel_message \<Rightarrow> ('s, 'r, 'n) route_context \<Rightarrow> (('s, 'r, 'n) channels, unit) prog" where
  "route allow m C =
     bnd (case cm_command m of None \<Rightarrow> ret False | Some c \<Rightarrow> on_command allow m c C) (\<lambda>consumed.
       if consumed then ret ()
       else bnd (ctx_find_binding C) (\<lambda>b. case b of
              None \<Rightarrow> on_unbound m C
            | Some b \<Rightarrow> on_bound m b C))"

section \<open>What a conversation can reach\<close>

text \<open>
  \<open>confined ok C m\<close>: started in a sound registry, \<open>m\<close> leaves a sound one, in which the binding of
  every conversation but its own is what it was, whatever the outcome.
\<close>

definition confined ::
    "('r \<Rightarrow> bool) \<Rightarrow> ('s, 'r, 'n) route_context \<Rightarrow> (('s, 'r, 'n) channels, 'a) prog \<Rightarrow> bool" where
  "confined ok C m \<longleftrightarrow> (\<forall>s. ok (cs_registry s) \<longrightarrow>
     ok (cs_registry (snd (m s))) \<and>
     (\<forall>a. a \<noteq> rc_address C \<longrightarrow>
        ro_find (rc_registry C) a (cs_registry (snd (m s))) = ro_find (rc_registry C) a (cs_registry s)))"

lemma confined_keeps: "keeps cs_registry m \<Longrightarrow> confined ok C m"
  by (simp add: confined_def keeps_def)

named_theorems confined_intros \<open>programs confined to one conversation\<close>

lemma confined_ret [confined_intros]: "confined ok C (ret x)"
  and confined_throw [confined_intros]: "confined ok C (throw e)"
  by (simp_all add: confined_def)

lemma confined_bnd [confined_intros]:
  "confined ok C m \<Longrightarrow> (\<And>x. confined ok C (f x)) \<Longrightarrow> confined ok C (bnd m f)"
  by (auto simp: confined_def bnd_def split: prod.splits sum.splits)

lemma confined_andthen [confined_intros]:
  "confined ok C m \<Longrightarrow> confined ok C n \<Longrightarrow> confined ok C (andthen m n)"
  by (simp add: andthen_def confined_bnd)

lemma confined_try_except [confined_intros]:
  "confined ok C m \<Longrightarrow> (\<And>e. confined ok C (h e)) \<Longrightarrow> confined ok C (try_except m h)"
  by (auto simp: confined_def try_except_def split: prod.splits sum.splits)

lemma confined_if [confined_intros]:
  "confined ok C m \<Longrightarrow> confined ok C n \<Longrightarrow> confined ok C (if b then m else n)"
  by simp

lemma confined_case_option [confined_intros]:
  "confined ok C m \<Longrightarrow> (\<And>x. confined ok C (n x)) \<Longrightarrow>
     confined ok C (case z of None \<Rightarrow> m | Some x \<Rightarrow> n x)"
  by (cases z) auto

lemma keeps_in_teams: "keeps cs_registry (in_teams m)"
  and keeps_in_adapters: "keeps cs_registry (in_adapters n)"
  by (simp_all add: keeps_def in_teams_def in_adapters_def on_part_def split: prod.split)

lemma confined_teams [confined_intros]: "confined ok C (in_teams m)"
  by (rule confined_keeps) (rule keeps_in_teams)

lemma confined_notify [confined_intros]: "confined ok C (ctx_notify C' t)"
  unfolding ctx_notify_def by (rule confined_keeps) (rule keeps_in_adapters)

lemma confined_find [confined_intros]: "confined ok C (ctx_find_binding C')"
  by (simp add: confined_def ctx_find_binding_def in_registry_def on_part_def)

lemma address_of_new_binding [simp]: "address_of (new_binding a i n md) = a"
  by (cases a) (simp add: address_of_def new_binding_def)

text \<open>The services of one conversation, over a registry that keeps its contract.\<close>

locale routed_channel =
  channel_registry "ro_register (rc_registry C)" "ro_find (rc_registry C)" "ro_deregister (rc_registry C)"
    "ro_deregister_team (rc_registry C)" "ro_find_sync (rc_registry C)" inv
  for C :: "('s, 'r, 'n) route_context" and inv :: "'r \<Rightarrow> bool"
begin

lemma confined_register: "confined inv C (in_registry (ro_register (rc_registry C) (new_binding (rc_address C) i n md)))"
  using register_ok find_register
  by (simp add: confined_def in_registry_def on_part_def split: prod.split) (metis address_of_new_binding snd_conv)

lemma confined_deregister: "confined inv C (in_registry (ro_deregister (rc_registry C) (rc_address C)))"
  using deregister_ok find_deregister
  by (simp add: confined_def in_registry_def on_part_def split: prod.split) (metis snd_conv)

lemma confined_release: "confined inv C (ctx_release C)"
  unfolding ctx_release_def by (intro confined_intros confined_deregister)

lemma confined_initiate: "confined inv C (ctx_initiate_team C content entry i tmd bmd)"
  unfolding ctx_initiate_team_def Let_def by (intro confined_intros confined_register)

lemma confined_start: "confined inv C (start_session m content C)"
  unfolding start_session_def by (intro confined_intros confined_initiate)

lemma confined_sends: "confined inv C (ctx_send C content)" "confined inv C (ctx_send_to C n content)"
  unfolding ctx_send_def ctx_send_to_def ctx_default_recipient_def ctx_dispatch_def
  by (intro confined_intros)+

lemma confined_command_register: "confined inv C (command_register allow m rest C)"
  unfolding command_register_def ctx_bind_team_def Let_def
  by (auto split: option.split intro!: confined_intros confined_register)

lemma confined_commands: "confined inv C (on_command allow m c C)"
  unfolding on_command_def command_new_def command_unregister_def command_status_def ctx_bound_process_def
  by (intro confined_intros confined_release confined_start confined_command_register)

lemma confined_route: "confined inv C (route allow m C)"
  unfolding route_def on_unbound_def on_bound_def resolve_bound_team_def ctx_bound_process_def
  by (intro confined_intros confined_commands confined_start confined_sends)

text \<open>What this conversation finds.\<close>

lemma find_binding_run:
  assumes "inv (cs_registry s)"
  obtains b where "ro_find (rc_registry C) (rc_address C) (cs_registry s) = Inr b" "ctx_find_binding C s = (Inr b, s)"
proof -
  obtain b where "ro_find (rc_registry C) (rc_address C) (cs_registry s) = Inr b" using find_ok [OF assms] by blast
  then show ?thesis by (intro that) (simp_all add: ctx_find_binding_def in_registry_def on_part_def)
qed

lemma release_unbinds:
  assumes "inv (cs_registry s)"
  shows "\<exists>r. ctx_release C s = (Inr (case ro_find (rc_registry C) (rc_address C) (cs_registry s) of Inr b \<Rightarrow> b | Inl _ \<Rightarrow> None),
            s\<lparr>cs_registry := r\<rparr>) \<and> inv r \<and> ro_find (rc_registry C) (rc_address C) r = Inr None"
proof -
  obtain b where b: "ro_find (rc_registry C) (rc_address C) (cs_registry s) = Inr b" "ctx_find_binding C s = (Inr b, s)"
    using find_binding_run [OF assms] by blast
  show ?thesis
  proof (cases b)
    case None
    then show ?thesis using assms b by (intro exI [of _ "cs_registry s"]) (simp add: ctx_release_def bnd_def)
  next
    case (Some x)
    then show ?thesis
      using b deregister_ok [OF assms, of "rc_address C"] find_deregister [OF assms, of "rc_address C" "rc_address C"]
      by (intro exI [of _ "snd (ro_deregister (rc_registry C) (rc_address C) (cs_registry s))"])
        (auto simp: ctx_release_def bnd_def andthen_def in_registry_def on_part_def split: prod.split)
  qed
qed

text \<open>Once the team is created, the conversation is bound to it, whatever becomes of the first message.\<close>

lemma initiate_registry:
  assumes "inv (cs_registry s)"
    and "to_create_team (rc_teams C) ns (ch_user (rc_address C)) i tmd (cs_teams s) = (Inr p, t)"
    and "ns = (case entry of Some e \<Rightarrow> if e = [] then rc_default_entry C else e | None \<Rightarrow> rc_default_entry C)"
  shows "cs_registry (snd (ctx_initiate_team C content entry i tmd bmd s)) =
     snd (ro_register (rc_registry C)
       (new_binding (rc_address C) (team_id p) (entry_point p) (case bmd of Some m \<Rightarrow> m | None \<Rightarrow> []))
       (cs_registry s))"
proof -
  let ?b = "new_binding (rc_address C) (team_id p) (entry_point p) (case bmd of Some m \<Rightarrow> m | None \<Rightarrow> [])"
  obtain r where r: "ro_register (rc_registry C) ?b (cs_registry s) = (Inr (), r)"
    using register_ok [OF assms(1), of ?b] by (metis prod.collapse)
  then show ?thesis
    using assms(2) unfolding ctx_initiate_team_def assms(3) [symmetric]
    by (auto simp: bnd_def andthen_def in_teams_def in_registry_def on_part_def Let_def
        split: option.split prod.split sum.split)
qed

end

end
