(* ===== verification/ChannelRouting.thy ===== *)
theory ChannelRouting
  imports ChannelRouter
begin

text \<open>
  The default router at work: on the YAML registry, with any team service and any adapters. First the
  services of a conversation as \<open>server/routes/webhook.py\<close> puts them together, then what a message
  does: what it can reach, to whom it goes, and what each command leaves behind.
\<close>

section \<open>The context of a request\<close>

definition yaml_ops :: "yaml_registry registry_ops" where
  "yaml_ops = \<lparr>ro_register = yr_register, ro_find = yr_find_binding, ro_deregister = yr_deregister,
     ro_deregister_team = yr_deregister_team, ro_find_sync = yr_find_binding_sync\<rparr>"

definition yaml_context ::
    "channel_address \<Rightarrow> string \<Rightarrow> 's team_ops \<Rightarrow> 'n adapter list \<Rightarrow> ('s, yaml_registry, 'n) route_context" where
  "yaml_context a entry T adapters =
     \<lparr>rc_address = a, rc_default_entry = entry, rc_registry = yaml_ops, rc_teams = T,
      rc_adapters = adapters\<rparr>"

text \<open>\<open>TeamService\<close> as the context calls it.\<close>

definition service_ops :: "('s, 'f) wiring \<Rightarrow> ('s, 'f) service team_ops" where
  "service_ops W =
     \<lparr>to_create_team = (\<lambda>ns user i md. in_tier (create_team W ns user '''' i md)),
      to_send_message = send_message W,
      to_send_message_from_to = (\<lambda>i a b c. in_tier (send_message_from_to (w_tier W) i a b c)),
      to_get_team = (\<lambda>i s. get_team (w_tier W) i (sv_tier s))\<rparr>"

lemma yaml_context_simps [simp]:
  "rc_address (yaml_context a e T A) = a" "rc_default_entry (yaml_context a e T A) = e"
  "rc_registry (yaml_context a e T A) = yaml_ops" "rc_teams (yaml_context a e T A) = T"
  "rc_adapters (yaml_context a e T A) = A"
  by (simp_all add: yaml_context_def)

lemma yaml_ops_simps [simp]:
  "ro_register yaml_ops = yr_register" "ro_find yaml_ops = yr_find_binding"
  "ro_deregister yaml_ops = yr_deregister" "ro_deregister_team yaml_ops = yr_deregister_team"
  "ro_find_sync yaml_ops = yr_find_binding_sync"
  by (simp_all add: yaml_ops_def)

interpretation chat: routed_channel "yaml_context a e T A" yr_inv
  for a :: channel_address and e :: string and T :: "'s team_ops" and A :: "'n adapter list"
  unfolding routed_channel_def by simp (rule yaml.channel_registry_axioms)

section \<open>Samples\<close>

text \<open>An adapter that keeps what it is told to post.\<close>

definition log_adapter :: "(channel_address \<times> string) list adapter" where
  "log_adapter = \<lparr>ad_matches = (\<lambda>m b. True), ad_deliver = (\<lambda>m b. ret ()),
     ad_deliver_notice = (\<lambda>a t. writing (\<lambda>n. n @ [(a, t)])), ad_on_stop = (\<lambda>_. ret ())\<rparr>"

definition sample_chat :: channel_address where
  "sample_chat = \<lparr>ch_channel = ''telegram'', ch_user = ''987''\<rparr>"

definition sample_context where
  "sample_context = yaml_context sample_chat ''ns'' (service_ops ref_wiring) [log_adapter]"

definition sample_channels ::
    "team_status \<Rightarrow> ((ref_world community, path set) service, yaml_registry, (channel_address \<times> string) list) channels" where
  "sample_channels st = \<lparr>cs_teams = ref_service st, cs_registry = sample_registry, cs_adapters = []\<rparr>"

definition text_message :: "string \<Rightarrow> channel_message" where
  "text_message t = \<lparr>cm_content = t, cm_channel_user_id = ''987'', cm_channel_message_id = None,
     cm_catalog_entry = None, cm_team_id = None, cm_team_metadata = None, cm_binding_metadata = None,
     cm_command = None, cm_quoted_text = None\<rparr>"

lemma sample_channels_inv: "yr_inv (cs_registry (sample_channels st))"
  by (simp add: sample_channels_def sample_registry_inv)

lemma sample_bound: "yr_find_binding sample_chat (cs_registry (sample_channels st)) = Inr (Some sample_binding)"
  by (simp add: sample_channels_def yr_find_binding_def yr_load_def sample_registry_def sample_chat_def)

lemma sample_alive: "\<exists>p. to_get_team (service_ops ref_wiring) 7 (ref_service RUNNING) = Some p \<and>
    status p = RUNNING \<and> supervisors p = [''@Boss''] \<and> entry_point p = ''@Human''"
  by (simp add: service_ops_def get_team_def load_live_def ref_get_team ref_service_def store_of_def in_cache_def
      ref_start_state_def one_team_world_def init_placement_def new_process_def sample_args_def)

section \<open>Isolation\<close>

text \<open>
  C33. Whatever a message says and however its handling ends, it changes no other conversation's
  binding, and the registry stays sound.
\<close>

theorem route_touches_own_conversation_only:
  assumes "yr_inv (cs_registry s)"
  shows "yr_inv (cs_registry (snd (route allow m (yaml_context a e T A) s)))
    \<and> (\<forall>b. b = a \<or> yr_find_binding b (cs_registry (snd (route allow m (yaml_context a e T A) s))) =
                   yr_find_binding b (cs_registry s))"
  using chat.confined_route [of a e T A allow m] assms by (auto simp: confined_def)

theorem route_touches_own_conversation_only_witness:
  "yr_find_binding \<lparr>ch_channel = ''slack'', ch_user = ''1''\<rparr>
     (cs_registry (snd (route True (text_message ''hi'') (yaml_context sample_chat ''ns'' (service_ops ref_wiring) [log_adapter])
       (sample_channels RUNNING)))) =
   yr_find_binding \<lparr>ch_channel = ''slack'', ch_user = ''1''\<rparr> sample_registry"
  using route_touches_own_conversation_only [OF sample_channels_inv [of RUNNING], of True "text_message ''hi''"
      sample_chat "''ns''" "service_ops ref_wiring" "[log_adapter]", THEN conjunct2, THEN spec,
      of "\<lparr>ch_channel = ''slack'', ch_user = ''1''\<rparr>"]
  by (simp add: sample_chat_def sample_channels_def)

section \<open>A message to a bound team\<close>

text \<open>A message that is no command of the channel layer.\<close>

definition ordinary :: "channel_message \<Rightarrow> bool" where
  "ordinary m = (case cm_command m of None \<Rightarrow> True
     | Some c \<Rightarrow> cc_name c \<notin> set [''new'', ''unregister'', ''status'', ''register''])"

lemma not_a_command:
  "ordinary m \<Longrightarrow> (case cm_command m of None \<Rightarrow> ret False | Some c \<Rightarrow> on_command allow m c C) = ret False"
  by (auto simp: ordinary_def on_command_def split: option.splits)

text \<open>Whom a message is for: the agent it names, else the default recipient of the bound agent.\<close>

definition recipient_of :: "channel_message \<Rightarrow> channel_binding \<Rightarrow> process \<Rightarrow> string option" where
  "recipient_of m b p =
     (case recipient_named_in m of
        Some n \<Rightarrow> Some n
      | None \<Rightarrow> List.find (\<lambda>n. n \<noteq> cb_agent_name b) (supervisors p @ [entry_point p]))"

lemma find_in_context:
  "yr_find_binding a (cs_registry s) = Inr b \<Longrightarrow> ctx_find_binding (yaml_context a e T A) s = (Inr b, s)"
  by (simp add: ctx_find_binding_def in_registry_def on_part_def)

lemma route_bound:
  assumes "ordinary m" "yr_find_binding a (cs_registry s) = Inr (Some b)"
  shows "route allow m (yaml_context a e T A) s = on_bound m b (yaml_context a e T A) s"
  using find_in_context [OF assms(2), of e T A]
  by (simp add: route_def not_a_command [OF assms(1)] bnd_def)

lemma bound_process_run:
  assumes "yr_find_binding a (cs_registry s) = Inr (Some b)"
  shows "ctx_bound_process (yaml_context a e T A) s =
    (Inr (case to_get_team T (cb_team_id b) (cs_teams s) of None \<Rightarrow> None
          | Some p \<Rightarrow> if status p = DELETED then None else Some p), s)"
  by (simp add: ctx_bound_process_def bnd_def find_in_context [OF assms] in_teams_def on_part_def)

lemma in_adapters_frame: "cs_teams (snd (in_adapters m s)) = cs_teams s \<and> cs_registry (snd (in_adapters m s)) = cs_registry s"
  by (simp add: in_adapters_def on_part_def split: prod.split)

lemma notify_frame: "cs_teams (snd (ctx_notify C t s)) = cs_teams s \<and> cs_registry (snd (ctx_notify C t s)) = cs_registry s"
  unfolding ctx_notify_def by (rule in_adapters_frame)

lemma notify_result: "ctx_notify C t s = (r, s') \<Longrightarrow> cs_teams s' = cs_teams s \<and> cs_registry s' = cs_registry s"
  using notify_frame [of C t s] by simp

text \<open>The outcome of a delivery inside the channel layer.\<close>

definition speak :: "'s team_ops \<Rightarrow> channel_binding \<Rightarrow> string \<Rightarrow> string \<Rightarrow> ('s, unit) prog" where
  "speak T b n t = to_send_message_from_to T (cb_team_id b) (cb_agent_name b) n (Text t)"

lemma on_bound_alive:
  assumes found: "yr_find_binding a (cs_registry s) = Inr (Some b)"
    and alive: "to_get_team T (cb_team_id b) (cs_teams s) = Some p" "status p \<noteq> DELETED"
    and body: "strip (cm_content m) \<noteq> []"
  shows "on_bound m b (yaml_context a e T A) s =
    (case recipient_of m b p of
       None \<Rightarrow> ctx_notify (yaml_context a e T A) no_recipient_notice s
     | Some n \<Rightarrow>
         (if recipient_named_in m = None
          then try_except (in_teams (speak T b n (cm_content m)))
                 (\<lambda>x. if is_no_default_recipient x then ctx_notify (yaml_context a e T A) no_recipient_notice else throw x) s
          else in_teams (speak T b n (cm_content m)) s))"
proof -
  have nb: "\<not> is_blank (Text (cm_content m))" using body by (simp add: is_blank_def)
  have r: "resolve_bound_team b (yaml_context a e T A) s = (Inr True, s)"
    using alive by (simp add: resolve_bound_team_def bnd_def bound_process_run [OF found])
  note run = find_in_context [OF found, of e T A]
  show ?thesis
  proof (cases "recipient_named_in m")
    case None
    show ?thesis
      using nb r run alive None
      by (simp add: on_bound_def bnd_def recipient_of_def ctx_send_def ctx_default_recipient_def ctx_dispatch_def
          in_teams_def on_part_def andthen_def try_except_def speak_def split: option.split prod.split sum.split)
  next
    case (Some n)
    show ?thesis
      using nb r run Some
      by (simp add: on_bound_def bnd_def recipient_of_def ctx_send_to_def ctx_dispatch_def
          in_teams_def on_part_def andthen_def speak_def split: prod.split sum.split)
  qed
qed

text \<open>
  An ordinary message of a bound conversation reaches its own team only, and is spoken by the bound
  agent: the team service is called once, with the binding's team and agent, the text as it was
  typed, and the agent the message names first (or answers), else the first supervisor or the entry
  point that is not the bound agent; with nobody to address it is not called at all. The registry
  does not change.
\<close>

theorem message_speaks_as_bound_agent:
  assumes "ordinary m" "yr_find_binding a (cs_registry s) = Inr (Some b)"
    and "to_get_team T (cb_team_id b) (cs_teams s) = Some p" "status p \<noteq> DELETED"
    and "strip (cm_content m) \<noteq> []"
  shows "cs_teams (snd (route allow m (yaml_context a e T A) s)) =
      (case recipient_of m b p of
         None \<Rightarrow> cs_teams s
       | Some n \<Rightarrow> snd (to_send_message_from_to T (cb_team_id b) (cb_agent_name b) n (Text (cm_content m)) (cs_teams s)))
    \<and> cs_registry (snd (route allow m (yaml_context a e T A) s)) = cs_registry s"
  using notify_frame [of "yaml_context a e T A" no_recipient_notice]
  by (auto simp: route_bound [OF assms(1,2)] on_bound_alive [OF assms(2-5)] in_teams_def on_part_def try_except_def
      speak_def split: option.split prod.split sum.split)

theorem message_speaks_as_bound_agent_witness:
  "cs_teams (snd (route False (text_message ''hi @Expert'') sample_context (sample_channels RUNNING))) =
     snd (to_send_message_from_to (service_ops ref_wiring) 7 ''@HumanProxy_0'' ''@Boss'' (Text ''hi @Expert'')
       (ref_service RUNNING))"
proof -
  obtain p where p: "to_get_team (service_ops ref_wiring) 7 (ref_service RUNNING) = Some p" "status p = RUNNING"
      "supervisors p = [''@Boss'']" "entry_point p = ''@Human''"
    using sample_alive by blast
  have m: "ordinary (text_message ''hi @Expert'')" "strip ''hi @Expert'' \<noteq> []"
    "recipient_of (text_message ''hi @Expert'') sample_binding p = Some ''@Boss''"
    by (simp_all add: ordinary_def text_message_def trim_def is_space_def recipient_of_def recipient_named_in_def
        leading_agent_re_match_def p(3,4) sample_binding_def)
  show ?thesis
    using message_speaks_as_bound_agent [of "text_message ''hi @Expert''" sample_chat "sample_channels RUNNING"
        sample_binding "service_ops ref_wiring" p False "''ns''" "[log_adapter]"] m p sample_bound
    by (simp add: sample_context_def sample_channels_def sample_binding_def text_message_def)
qed

text \<open>
  A message to a team that is gone, unknown to the service or retired, is not delivered and the
  binding is kept: the conversation is told so and nothing else happens. A blank message has no
  effect at all, not even that notice.
\<close>

theorem lost_team_is_reported:
  assumes "ordinary m" "yr_find_binding a (cs_registry s) = Inr (Some b)"
    and "\<forall>p. to_get_team T (cb_team_id b) (cs_teams s) = Some p \<longrightarrow> status p = DELETED"
  shows "route allow m (yaml_context a e T A) s =
     (if strip (cm_content m) = [] then (Inr (), s)
      else ctx_notify (yaml_context a e T A) (team_gone_notice (cb_team_id b)) s)"
proof -
  have "resolve_bound_team b (yaml_context a e T A) s =
      andthen (ctx_notify (yaml_context a e T A) (team_gone_notice (cb_team_id b))) (ret False) s"
    using assms(3) by (auto simp: resolve_bound_team_def bnd_def bound_process_run [OF assms(2)] split: option.split)
  then show ?thesis
    by (simp add: route_bound [OF assms(1,2)] on_bound_def is_blank_def bnd_def andthen_def
        split: prod.split sum.split)
qed

theorem lost_team_is_reported_witness:
  "route False (text_message ''hi'') sample_context (sample_channels DELETED) =
     (Inr (), (sample_channels DELETED)\<lparr>cs_adapters := [(sample_chat, team_gone_notice 7)]\<rparr>)"
proof -
  have "\<forall>p. to_get_team (service_ops ref_wiring) 7 (ref_service DELETED) = Some p \<longrightarrow> status p = DELETED"
    by (simp add: service_ops_def get_team_def load_live_def ref_get_team ref_service_def store_of_def in_cache_def
      ref_start_state_def one_team_world_def init_placement_def)
  then have "route False (text_message ''hi'') sample_context (sample_channels DELETED) =
      ctx_notify sample_context (team_gone_notice 7) (sample_channels DELETED)"
    using lost_team_is_reported [of "text_message ''hi''" sample_chat "sample_channels DELETED" sample_binding
        "service_ops ref_wiring" False "''ns''" "[log_adapter]"] sample_bound [of DELETED]
    by (simp add: sample_context_def sample_channels_def sample_binding_def text_message_def ordinary_def
        trim_def is_space_def)
  then show ?thesis
    by (simp add: ctx_notify_def in_adapters_def on_part_def sample_context_def sample_channels_def
        log_adapter_def andthen_def bnd_def)
qed

section \<open>Sessions\<close>

lemma notify_find: "ro_find R a (cs_registry (snd (ctx_notify C t s))) = ro_find R a (cs_registry s)"
  by (simp add: notify_frame)

lemma start_session_registry:
  "cs_registry (snd (start_session m c C s)) =
     cs_registry (snd (ctx_initiate_team C c (cm_catalog_entry m) (cm_team_id m) (cm_team_metadata m)
       (cm_binding_metadata m) s))"
  by (auto simp: start_session_def bnd_def andthen_def dest: notify_result split: prod.split sum.split)

text \<open>The catalog entry a message starts a team from.\<close>

definition entry_for :: "channel_message \<Rightarrow> string \<Rightarrow> string" where
  "entry_for m default_entry =
     (case cm_catalog_entry m of Some x \<Rightarrow> if x = [] then default_entry else x | None \<Rightarrow> default_entry)"

definition session_binding :: "channel_address \<Rightarrow> channel_message \<Rightarrow> process \<Rightarrow> channel_binding" where
  "session_binding a m p = new_binding a (team_id p) (entry_point p)
     (case cm_binding_metadata m of Some md \<Rightarrow> md | None \<Rightarrow> [])"

lemma start_session_registers:
  assumes "yr_inv (cs_registry s)"
    and "to_create_team T (entry_for m e) (ch_user a) (cm_team_id m) (cm_team_metadata m) (cs_teams s) = (Inr p, t)"
  shows "cs_registry (snd (start_session m c (yaml_context a e T A) s)) =
           snd (yr_register (session_binding a m p) (cs_registry s))"
proof -
  have "cs_registry (snd (ctx_initiate_team (yaml_context a e T A) c (cm_catalog_entry m) (cm_team_id m)
      (cm_team_metadata m) (cm_binding_metadata m) s)) =
    snd (ro_register (rc_registry (yaml_context a e T A)) (session_binding a m p) (cs_registry s))"
    unfolding session_binding_def
    by (rule trans [OF chat.initiate_registry [OF assms(1) _ refl]])
      (use assms(2) in \<open>simp_all add: entry_for_def cong: option.case_cong if_cong\<close>)
  then show ?thesis by (simp add: start_session_registry)
qed

lemma start_session_binds:
  assumes "yr_inv (cs_registry s)"
    and "to_create_team T (entry_for m e) (ch_user a) (cm_team_id m) (cm_team_metadata m) (cs_teams s) = (Inr p, t)"
  shows "yr_find_binding a (cs_registry (snd (start_session m c (yaml_context a e T A) s))) =
           Inr (Some (session_binding a m p))"
  unfolding start_session_registers [OF assms]
  using yaml.find_register [OF assms(1), of a "session_binding a m p"] by (simp add: session_binding_def)

lemma start_session_refused:
  assumes "to_create_team T (entry_for m e) (ch_user a) (cm_team_id m) (cm_team_metadata m) (cs_teams s) = (Inl x, t)"
  shows "start_session m c (yaml_context a e T A) s = (Inl x, s\<lparr>cs_teams := t\<rparr>)"
  unfolding start_session_def ctx_initiate_team_def Let_def yaml_context_simps bnd_def in_teams_def on_part_def
    assms [unfolded entry_for_def] by simp

text \<open>What a command \<open>new\<close> does to the state: the release, then the start.\<close>

definition new_message :: "channel_message \<Rightarrow> string \<Rightarrow> bool" where
  "new_message m rest \<longleftrightarrow> cm_command m = Some \<lparr>cc_name = ''new'', cc_rest = rest\<rparr>"

lemma route_new:
  assumes "yr_inv (cs_registry s)" "new_message m rest"
  obtains r where "yr_inv r" "yr_find_binding a r = Inr None"
    and "\<And>b. b \<noteq> a \<Longrightarrow> yr_find_binding b r = yr_find_binding b (cs_registry s)"
    and "snd (route allow m (yaml_context a e T A) s) =
      snd (start_session m (if rest = [] then None else Some (Text rest)) (yaml_context a e T A) (s\<lparr>cs_registry := r\<rparr>))"
    and "\<And>x u. start_session m (if rest = [] then None else Some (Text rest)) (yaml_context a e T A)
            (s\<lparr>cs_registry := r\<rparr>) = (Inl x, u) \<Longrightarrow> fst (route allow m (yaml_context a e T A) s) = Inl x"
proof -
  let ?C = "yaml_context a e T A"
  let ?c = "if rest = [] then None else Some (Text rest)"
  obtain b r where r: "ctx_release ?C s = (Inr b, s\<lparr>cs_registry := r\<rparr>)" "yr_inv r" "yr_find_binding a r = Inr None"
    using chat.release_unbinds [OF assms(1), of a e T A] by auto
  have keep: "yr_find_binding b' r = yr_find_binding b' (cs_registry s)" if "b' \<noteq> a" for b'
    using chat.confined_release [of a e T A] assms(1) that r(1) by (auto simp: confined_def)
  have c: "(case cm_command m of None \<Rightarrow> ret False | Some c \<Rightarrow> on_command allow m c ?C) =
      andthen (command_new m rest ?C) (ret True)"
    using assms(2) by (simp add: new_message_def on_command_def)
  show ?thesis
    by (rule that [OF r(2,3) keep])
      (simp_all add: route_def c command_new_def bnd_def andthen_def r(1) split: prod.split sum.split)
qed

text \<open>Both ways to a new team: the state is that of a start in a registry where the conversation is unbound.\<close>

definition starts_team :: "channel_message \<Rightarrow> channel_address \<Rightarrow> yaml_registry \<Rightarrow> bool" where
  "starts_team m a r \<longleftrightarrow> (ordinary m \<and> yr_find_binding a r = Inr None) \<or> (\<exists>rest. new_message m rest)"

lemma started_run:
  assumes "yr_inv (cs_registry s)" "starts_team m a (cs_registry s)"
  obtains r c where "yr_inv r" "yr_find_binding a r = Inr None"
    and "\<And>b. b \<noteq> a \<Longrightarrow> yr_find_binding b r = yr_find_binding b (cs_registry s)"
    and "snd (route allow m (yaml_context a e T A) s) =
           snd (start_session m c (yaml_context a e T A) (s\<lparr>cs_registry := r\<rparr>))"
    and "\<And>x u. start_session m c (yaml_context a e T A) (s\<lparr>cs_registry := r\<rparr>) = (Inl x, u) \<Longrightarrow>
           fst (route allow m (yaml_context a e T A) s) = Inl x"
proof -
  let ?C = "yaml_context a e T A"
  consider "ordinary m" "yr_find_binding a (cs_registry s) = Inr None" | rest where "new_message m rest"
    using assms(2) unfolding starts_team_def by blast
  then show thesis
  proof cases
    case 1
    have "route allow m ?C s = bnd (start_session m (Some (Text (cm_content m))) ?C) (\<lambda>_. ret ()) s"
      using find_in_context [OF 1(2), of e T A] by (simp add: route_def not_a_command [OF 1(1)] bnd_def on_unbound_def)
    then show ?thesis
      by (intro that [of "cs_registry s" "Some (Text (cm_content m))"])
        (use assms(1) 1(2) in \<open>simp_all add: bnd_def split: prod.split sum.split\<close>)
  next
    case 2
    from assms(1) 2 show ?thesis by (rule route_new) (rule that)
  qed
qed

text \<open>
  C12. Once a team is started for a conversation (by its first message, or by \<open>new\<close>) the conversation
  is bound to that team and its entry point, whatever becomes of the first message or of the
  notice: the reply of the team finds its way. When the creation is refused, the exception is
  raised; after \<open>new\<close> the old team has already been released.
\<close>

theorem started_team_is_bound:
  assumes "yr_inv (cs_registry s)"
    and "starts_team m a (cs_registry s)"
  shows "case to_create_team T (entry_for m e) (ch_user a) (cm_team_id m) (cm_team_metadata m) (cs_teams s) of
      (Inr p, t) \<Rightarrow>
        yr_find_binding a (cs_registry (snd (route allow m (yaml_context a e T A) s))) = Inr (Some (session_binding a m p))
    | (Inl x, t) \<Rightarrow>
        fst (route allow m (yaml_context a e T A) s) = Inl x
        \<and> yr_find_binding a (cs_registry (snd (route allow m (yaml_context a e T A) s))) = Inr None"
proof -
  obtain r c where r: "yr_inv r" "yr_find_binding a r = Inr None"
      "snd (route allow m (yaml_context a e T A) s) =
         snd (start_session m c (yaml_context a e T A) (s\<lparr>cs_registry := r\<rparr>))"
      "\<And>x u. start_session m c (yaml_context a e T A) (s\<lparr>cs_registry := r\<rparr>) = (Inl x, u) \<Longrightarrow>
         fst (route allow m (yaml_context a e T A) s) = Inl x"
    using started_run [OF assms] by metis
  show ?thesis
    using start_session_binds [of "s\<lparr>cs_registry := r\<rparr>" T m e a _ _ c A]
      start_session_refused [of T m e a "s\<lparr>cs_registry := r\<rparr>" _ _ c A] r
    by (auto split: prod.split sum.split)
qed

definition failing_ops :: "nat team_ops" where
  "failing_ops = \<lparr>to_create_team = (\<lambda>ns u i md n. (Inr (new_process 9 (sample_args\<lparr>ca_user_id := u\<rparr>)), Suc n)),
     to_send_message = (\<lambda>i d. throw (TeamNotFoundError ''gone'')),
     to_send_message_from_to = (\<lambda>i a b d. ret ()), to_get_team = (\<lambda>i n. None)\<rparr>"

definition new_command_message :: channel_message where
  "new_command_message = (text_message ''/new go'')\<lparr>cm_command := Some \<lparr>cc_name = ''new'', cc_rest = ''go''\<rparr>\<rparr>"

theorem started_team_is_bound_witness:
  "yr_find_binding sample_chat (cs_registry (snd (route False new_command_message
       (yaml_context sample_chat ''ns'' failing_ops [log_adapter])
       \<lparr>cs_teams = 0, cs_registry = sample_registry, cs_adapters = []\<rparr>))) =
     Inr (Some (new_binding sample_chat 9 ''@Human'' []))"
  using started_team_is_bound [where s = "\<lparr>cs_teams = 0, cs_registry = sample_registry, cs_adapters = []\<rparr>" and
      m = new_command_message and a = sample_chat and T = failing_ops and e = "''ns''" and
      allow = False and A = "[log_adapter]"] sample_registry_inv
  by (simp add: starts_team_def new_message_def new_command_message_def text_message_def failing_ops_def
      session_binding_def new_process_def sample_args_def)

section \<open>Release and registration\<close>

lemma route_register:
  "cm_command m = Some \<lparr>cc_name = ''register'', cc_rest = rest\<rparr> \<Longrightarrow>
     snd (route allow m C s) = snd (command_register allow m rest C s)"
  by (auto simp: route_def on_command_def bnd_def andthen_def split: prod.split sum.split)

lemma route_unregister:
  "cm_command m = Some \<lparr>cc_name = ''unregister'', cc_rest = rest\<rparr> \<Longrightarrow>
     snd (route allow m C s) = snd (command_unregister C s)"
  by (auto simp: route_def on_command_def bnd_def andthen_def split: prod.split sum.split)

text \<open>
  \<open>unregister\<close> leaves the conversation unbound and the teams as they were: the team keeps running.
\<close>

theorem unregister_releases_only:
  assumes "yr_inv (cs_registry s)" "cm_command m = Some \<lparr>cc_name = ''unregister'', cc_rest = rest\<rparr>"
  shows "yr_find_binding a (cs_registry (snd (route allow m (yaml_context a e T A) s))) = Inr None
    \<and> cs_teams (snd (route allow m (yaml_context a e T A) s)) = cs_teams s"
proof -
  let ?C = "yaml_context a e T A"
  obtain b r where r: "ctx_release ?C s = (Inr b, s\<lparr>cs_registry := r\<rparr>)" "yr_find_binding a r = Inr None"
    using chat.release_unbinds [OF assms(1), of a e T A] by auto
  have "\<exists>t. snd (route allow m ?C s) = snd (ctx_notify ?C t (s\<lparr>cs_registry := r\<rparr>))"
    unfolding route_unregister [OF assms(2)] command_unregister_def bnd_def r(1) by (cases b) auto
  then show ?thesis using r(2) by (auto simp: notify_frame)
qed

theorem unregister_releases_only_witness:
  "yr_find_binding sample_chat (cs_registry (snd (route False
      ((text_message ''/unregister'')\<lparr>cm_command := Some \<lparr>cc_name = ''unregister'', cc_rest = ''''\<rparr>\<rparr>)
      sample_context (sample_channels RUNNING)))) = Inr None"
  unfolding sample_context_def
  by (rule unregister_releases_only [THEN conjunct1]) (simp_all add: sample_channels_inv)

text \<open>
  Where the channel's configuration does not enable it, \<open>register\<close> binds nothing: no team id in an
  unauthenticated message reaches the registry or the team service. Only the word ``true'' enables
  it.
\<close>

theorem register_is_off_by_default:
  assumes "cm_command m = Some \<lparr>cc_name = ''register'', cc_rest = rest\<rparr>"
    and "map_of config ''allow_register'' = None \<or> lower (strip (the (map_of config ''allow_register''))) \<noteq> ''true''"
  shows "cs_registry (snd (route (default_router config) m C s)) = cs_registry s
    \<and> cs_teams (snd (route (default_router config) m C s)) = cs_teams s"
proof -
  have "\<not> default_router config"
    using assms(2) by (auto simp: default_router_def trim_def lower_def split: option.split)
  then show ?thesis by (simp add: route_register [OF assms(1)] command_register_def notify_frame)
qed

definition register_message :: "string \<Rightarrow> string \<Rightarrow> channel_message" where
  "register_message rest reply = (text_message (''/register '' @ rest))
     \<lparr>cm_command := Some \<lparr>cc_name = ''register'', cc_rest = rest\<rparr>, cm_quoted_text := Some reply\<rparr>"

theorem register_is_off_by_default_witness:
  "cs_registry (snd (route (default_router [(''allow_register'', ''yes'')])
     (register_message (uuid_str 8 @ '' @HumanProxy_0'') '''') sample_context (sample_channels RUNNING))) =
   cs_registry (sample_channels RUNNING)"
proof (rule register_is_off_by_default [THEN conjunct1])
  show "map_of [(''allow_register'', ''yes'')] ''allow_register'' = None \<or>
      lower (strip (the (map_of [(''allow_register'', ''yes'')] ''allow_register''))) \<noteq> ''true''"
    by code_simp
qed (simp add: register_message_def)



end
