(* ===== verification/Telegram.thy ===== *)
theory Telegram
  imports Channels PyText
begin

text \<open>
  \<open>adapters/shared/telegram_adapter.py\<close> and \<open>telegram_parser.py\<close>: what is posted to a Telegram chat, and
  how an Update becomes a channel message.
\<close>

section \<open>The adapter\<close>

text \<open>
  \<open>post chat text\<close> is the \<open>sendMessage\<close> call of the HTTP client: it answers the status code or raises.
\<close>

type_synonym 'h post = "string \<Rightarrow> string \<Rightarrow> ('h, nat) prog"

definition telegram_channel :: string where
  "telegram_channel = ''telegram''"

fun is_post_failure :: "exn \<Rightarrow> bool" where
  "is_post_failure (HTTPError _) = True"
| "is_post_failure (RuntimeError _) = True"
| "is_post_failure _ = False"

definition telegram_post :: "'h post \<Rightarrow> string \<Rightarrow> string \<Rightarrow> ('h, unit) prog" where
  "telegram_post post chat t =
     (if strip t = [] then ret ()
      else try_except (bnd (post chat t) (\<lambda>code. ret ()))
             (\<lambda>e. if is_post_failure e then ret () else throw e))"

definition telegram_matches :: "sent_message \<Rightarrow> channel_binding \<Rightarrow> bool" where
  "telegram_matches m b =
     (if ch_channel b \<noteq> telegram_channel then False
      else case sm_user_proxy m of None \<Rightarrow> False | Some p \<Rightarrow> p)"

definition attributed :: "string option \<Rightarrow> string \<Rightarrow> string" where
  "attributed sender t =
     ''You received a message from '' @ (case sender of None \<Rightarrow> ''an unknown sender'' | Some n \<Rightarrow> n) @
     '': '' @ [CHR 0x0A, CHR 0x0A] @ t"

definition telegram_deliver :: "'h post \<Rightarrow> sent_message \<Rightarrow> channel_binding \<Rightarrow> ('h, unit) prog" where
  "telegram_deliver post m b =
     (let t = (case sm_content m of None \<Rightarrow> [] | Some t \<Rightarrow> t)
      in if strip t = [] then ret () else telegram_post post (ch_user b) (attributed (sm_sender m) t))"

definition telegram_deliver_notice :: "'h post \<Rightarrow> channel_address \<Rightarrow> string \<Rightarrow> ('h, unit) prog" where
  "telegram_deliver_notice post a t =
     (if ch_channel a \<noteq> telegram_channel then ret () else telegram_post post (ch_user a) t)"

definition telegram_on_stop :: "uuid \<Rightarrow> ('h, unit) prog" where
  "telegram_on_stop i = ret ()"

definition telegram_adapter :: "'h post \<Rightarrow> 'h adapter" where
  "telegram_adapter post =
     \<lparr>ad_matches = telegram_matches, ad_deliver = telegram_deliver post,
      ad_deliver_notice = telegram_deliver_notice post, ad_on_stop = telegram_on_stop\<rparr>"

lemma telegram_adapter_simps [simp]:
  "ad_matches (telegram_adapter post) = telegram_matches"
  "ad_deliver (telegram_adapter post) = telegram_deliver post"
  "ad_deliver_notice (telegram_adapter post) = telegram_deliver_notice post"
  "ad_on_stop (telegram_adapter post) = telegram_on_stop"
  by (simp_all add: telegram_adapter_def)

section \<open>Text of a JSON value\<close>

text \<open>\<open>str(x)\<close>; inside a list or a mapping a text is shown by \<open>repr\<close>.\<close>

fun json_repr :: "json \<Rightarrow> string" where
  "json_repr JNull = ''None''"
| "json_repr (JBool b) = (if b then ''True'' else ''False'')"
| "json_repr (JInt i) = int_str i"
| "json_repr (JFloat t) = t"
| "json_repr (JStr s) = repr_str s"
| "json_repr (JList xs) = ''['' @ joined '', '' (map json_repr xs) @ '']''"
| "json_repr (JObj d) =
     CHR 0x7B # joined '', '' (map (\<lambda>(k, v). repr_str k @ '': '' @ json_repr v) d) @ [CHR 0x7D]"

definition py_str :: "json \<Rightarrow> string" where
  "py_str j = (case j of JStr s \<Rightarrow> s | _ \<Rightarrow> json_repr j)"

section \<open>The parser\<close>

text \<open>\<open>x != 0\<close> on a JSON value: \<open>False\<close> and a zero floating-point number equal 0.\<close>

definition is_zero :: "json option \<Rightarrow> bool" where
  "is_zero j = (case j of Some (JInt i) \<Rightarrow> i = 0 | Some (JBool b) \<Rightarrow> \<not> b
     | Some (JFloat t) \<Rightarrow> t \<in> set [''0.0'', ''-0.0''] | _ \<Rightarrow> False)"

definition command_name :: "string \<Rightarrow> string" where
  "command_name token =
     lower (takeWhile (\<lambda>c. c \<noteq> CHR ''@'')
       (if startswith token ''/'' then drop 1 token else token))"

definition parse_command :: "string \<Rightarrow> json option \<Rightarrow> channel_command option" where
  "parse_command t entities =
     (case entities of
        Some (JList (JObj first # _)) \<Rightarrow>
          (if map_of first ''type'' \<noteq> Some (JStr ''bot_command'') then None
           else if \<not> is_zero (map_of first ''offset'') then None
           else case map_of first ''length'' of
               Some (JInt n) \<Rightarrow>
                 Some \<lparr>cc_name = command_name (py_take n t), cc_rest = dropWhile is_space (py_drop n t)\<rparr>
             | _ \<Rightarrow> None)
      | _ \<Rightarrow> None)"

definition quoted_text_of :: "json option \<Rightarrow> string option" where
  "quoted_text_of reply = (case reply of Some (JObj d) \<Rightarrow> json_str (map_of d ''text'') | _ \<Rightarrow> None)"

definition field :: "(string \<times> json) list \<Rightarrow> string \<Rightarrow> json" where
  "field d k = (case map_of d k of None \<Rightarrow> JNull | Some j \<Rightarrow> j)"

definition missing :: "string \<Rightarrow> string \<Rightarrow> exn" where
  "missing what name = ValueError (what @ '' '' @ repr_str name @ '' field'')"

definition telegram_parse :: "json \<Rightarrow> exn + channel_message" where
  "telegram_parse payload =
     (case json_obj payload of
        None \<Rightarrow> Inl (AttributeError ''object has no attribute get'')
      | Some d \<Rightarrow>
        (case json_obj (field d ''message'') of
           None \<Rightarrow> Inl (missing ''Telegram Update does not contain a'' ''message'')
         | Some m \<Rightarrow>
             (case json_str (map_of m ''text'') of
                None \<Rightarrow> Inl (missing ''Telegram message does not contain a'' ''text'')
              | Some t \<Rightarrow>
                  (case json_obj (field m ''chat'') of
                     None \<Rightarrow> Inl (missing ''Telegram message does not contain a'' ''chat'')
                   | Some chat \<Rightarrow>
                       if field chat ''id'' = JNull
                       then Inl (missing ''Telegram chat does not contain an'' ''id'')
                       else Inr \<lparr>cm_content = t, cm_channel_user_id = py_str (field chat ''id''),
                              cm_channel_message_id =
                                (if field m ''message_id'' = JNull then None else Some (py_str (field m ''message_id''))),
                              cm_catalog_entry = None, cm_team_id = None, cm_team_metadata = None,
                              cm_binding_metadata = None,
                              cm_command = parse_command t (map_of m ''entities''),
                              cm_quoted_text = quoted_text_of (map_of m ''reply_to_message'')\<rparr>))))"

section \<open>What is posted\<close>

lemma telegram_deliver_when:
  "strip t \<noteq> [] \<Longrightarrow> sm_content m = Some t \<Longrightarrow>
     telegram_deliver post m b = telegram_post post (ch_user b) (attributed (sm_sender m) t)"
  by (simp add: telegram_deliver_def)

lemma telegram_deliver_blank:
  "(\<And>t. sm_content m = Some t \<Longrightarrow> strip t = []) \<Longrightarrow> telegram_deliver post m b = ret ()"
  by (auto simp: telegram_deliver_def trim_def split: option.split)

lemma attributed_not_blank: "strip (attributed n t) \<noteq> []"
  unfolding trim_empty_iff by (simp add: attributed_def is_space_def)

text \<open>A client that fails the way an HTTP client fails never makes the adapter raise.\<close>

lemma telegram_post_total:
  assumes "\<And>c t s e u. post c t s = (Inl e, u) \<Longrightarrow> is_post_failure e"
  shows "fst (telegram_post post chat t s) = Inr ()"
  using assms by (auto simp: telegram_post_def try_except_def bnd_def split: prod.splits sum.splits)

lemma telegram_post_state: "snd (telegram_post post chat t s) = (if strip t = [] then s else snd (post chat t s))"
  by (auto simp: telegram_post_def try_except_def bnd_def split: prod.splits sum.splits)

section \<open>Commands\<close>

lemma takeWhile_until: "c \<notin> set p \<Longrightarrow> takeWhile (\<lambda>x. x \<noteq> c) (p @ q) = p @ takeWhile (\<lambda>x. x \<noteq> c) q"
  by (induction p) auto

lemma dropWhile_blank: "list_all P w \<Longrightarrow> dropWhile P (w @ r) = dropWhile P r"
  by (induction w) auto

text \<open>
  The slash command Telegram marks at the start of a text is lifted out of it: its name without the
  slash and without the bot's own name, in lower case, and the rest as it was typed, one run of
  white space after the command dropped.
\<close>

theorem command_is_lifted:
  assumes entity: "map_of first ''type'' = Some (JStr ''bot_command'')" "map_of first ''offset'' = Some (JInt 0)"
      "map_of first ''length'' = Some (JInt (int (length (''/'' @ name @ after))))"
    and token: "CHR ''@'' \<notin> set name" "after = [] \<or> hd after = CHR ''@''"
    and rest: "list_all is_space w" "rest = [] \<or> \<not> is_space (hd rest)"
  shows "parse_command (''/'' @ name @ after @ w @ rest) (Some (JList (JObj first # es))) =
     Some \<lparr>cc_name = lower name, cc_rest = rest\<rparr>"
proof -
  let ?t = "''/'' @ name @ after"
  have "takeWhile (\<lambda>c. c \<noteq> CHR ''@'') after = []" using token(2) by (cases after) auto
  then have "command_name ?t = lower name"
    using takeWhile_until [OF token(1), of after] by (simp add: command_name_def startswith_def)
  moreover have "py_take (int (length ?t)) (?t @ w @ rest) = ?t" by (simp only: py_take_of_nat) simp
  moreover have "py_drop (int (length ?t)) (?t @ w @ rest) = w @ rest" by (simp only: py_drop_of_nat) simp
  moreover have "dropWhile is_space (w @ rest) = rest"
    unfolding dropWhile_blank [OF rest(1)] using rest(2) by (cases rest) auto
  ultimately show ?thesis
    using entity by (simp add: parse_command_def is_zero_def)
qed

theorem command_is_lifted_witness:
  "parse_command ''/New@my_bot  Hello  there'' (Some (JList [JObj [(''type'', JStr ''bot_command''),
     (''offset'', JInt 0), (''length'', JInt 11)]])) = Some \<lparr>cc_name = ''new'', cc_rest = ''Hello  there''\<rparr>"
proof -
  have l: "lower ''New'' = ''new''" by code_simp
  show ?thesis
    using command_is_lifted [of "[(''type'', JStr ''bot_command''), (''offset'', JInt 0), (''length'', JInt 11)]"
        "''New''" "''@my_bot''" "''  ''" "''Hello  there''" "[]"] l
    by (simp add: is_space_def)
qed

text \<open>An update that is an object is parsed or refused with a \<open>ValueError\<close>, nothing else.\<close>

lemma telegram_parse_error:
  "telegram_parse (JObj d) = Inl x \<Longrightarrow> is_value_error x"
  by (auto simp: telegram_parse_def missing_def split: option.splits if_splits)

lemma json_str_Some: "json_str x = Some t \<longleftrightarrow> x = Some (JStr t)"
  by (cases "(x)" rule: json_str.cases) auto

lemma telegram_parse_content:
  "telegram_parse (JObj d) = Inr m \<Longrightarrow>
     \<exists>u. json_obj (field d ''message'') = Some u \<and> map_of u ''text'' = Some (JStr (cm_content m))"
  by (auto simp: telegram_parse_def json_str_Some split: option.splits if_splits)

end
