(* ===== verification/ChannelDelivery.thy ===== *)
theory ChannelDelivery
  imports ChannelRouting Telegram
begin

text \<open>
  The two ends of the channel layer: \<open>adapters/shared/channel_dispatcher.py\<close>, which offers a team's
  messages to the adapters of the chat bound to their recipient, and
  \<open>adapters/shared/channel_parser_registry.py\<close> with \<open>server/routes/webhook.py\<close>, which turn a request
  into a message for the channel's router.
\<close>

section \<open>ChannelDispatcher\<close>

datatype outbound = Sent sent_message | NotSent

record ('r, 'n) dispatcher =
  cd_restoring :: "uuid set"
  cd_registry :: 'r
  cd_adapters :: 'n

definition with_adapters :: "('n, 'a) prog \<Rightarrow> (('r, 'n) dispatcher, 'a) prog" where
  "with_adapters = on_part cd_adapters (\<lambda>n s. s\<lparr>cd_adapters := n\<rparr>)"

definition cd_set_restoring :: "uuid \<Rightarrow> bool \<Rightarrow> (('r, 'n) dispatcher, unit) prog" where
  "cd_set_restoring i restoring = writing (\<lambda>s. s\<lparr>cd_restoring :=
     (if restoring then insert i (cd_restoring s) else cd_restoring s - {i})\<rparr>)"

definition cd_on_message ::
    "'r registry_ops \<Rightarrow> 'n adapter list \<Rightarrow> outbound \<Rightarrow> (('r, 'n) dispatcher, unit) prog" where
  "cd_on_message R adapters event = (\<lambda>s. case event of
      NotSent \<Rightarrow> ret () s
    | Sent m \<Rightarrow>
        if sm_team m \<in> cd_restoring s then ret () s
        else (case ro_find_sync R (sm_team m) (sm_recipient m) (cd_registry s) of
            None \<Rightarrow> ret () s
          | Some b \<Rightarrow> with_adapters
              (for_each (\<lambda>a. if ad_matches a m b then ad_deliver a m b else ret ()) adapters) s))"

definition cd_on_stop_request :: "uuid \<Rightarrow> (('r, 'n) dispatcher, unit) prog" where
  "cd_on_stop_request i = ret ()"

definition cd_on_stop :: "'n adapter list \<Rightarrow> uuid \<Rightarrow> (('r, 'n) dispatcher, unit) prog" where
  "cd_on_stop adapters i =
     andthen (writing (\<lambda>s. s\<lparr>cd_restoring := cd_restoring s - {i}\<rparr>))
       (with_adapters (for_each (\<lambda>a. ad_on_stop a i) adapters))"

section \<open>Channels from configuration\<close>

record channel_parser =
  pa_channel_name :: string
  pa_default_entry :: string
  pa_parse :: "json \<Rightarrow> exn + channel_message"

definition telegram_parser :: "(string \<times> string) list \<Rightarrow> channel_parser" where
  "telegram_parser config =
     \<lparr>pa_channel_name = telegram_channel,
      pa_default_entry = (case map_of config ''default_catalog_entry'' of None \<Rightarrow> ''default'' | Some e \<Rightarrow> e),
      pa_parse = telegram_parse\<rparr>"

type_synonym ('s, 'r, 'n) router =
  "channel_message \<Rightarrow> ('s, 'r, 'n) route_context \<Rightarrow> (('s, 'r, 'n) channels, unit) prog"

text \<open>What constructing a configured class yields, as the protocols' \<open>isinstance\<close> checks see it.\<close>

datatype ('s, 'r, 'n) made =
    MadeParser channel_parser
  | MadeAdapter "'n adapter"
  | MadeRouter "('s, 'r, 'n) router"
  | MadeOther

record channel_config =
  cf_parser :: string
  cf_router :: "string option"
  cf_adapter :: string
  cf_config :: "(string \<times> string) list"

text \<open>
  \<open>importlib\<close>: a module that is not found has no value, one that is answers its attributes. A class is
  its constructor.
\<close>

type_synonym ('s, 'r, 'n) modules =
  "string \<Rightarrow> (string \<Rightarrow> ((string \<times> string) list \<Rightarrow> exn + ('s, 'r, 'n) made) option) option"

text \<open>\<open>fqcn.rpartition('.')\<close>: what stands before the last dot, and after it.\<close>

definition rpartition_dot :: "string \<Rightarrow> string \<times> string" where
  "rpartition_dot s =
     (if CHR ''.'' \<in> set s
      then (let r = dropWhile (\<lambda>c. c \<noteq> CHR ''.'') (rev s)
            in (rev (tl r), rev (takeWhile (\<lambda>c. c \<noteq> CHR ''.'') (rev s))))
      else ([], s))"

definition import_class ::
    "('s, 'r, 'n) modules \<Rightarrow> string \<Rightarrow> exn + ((string \<times> string) list \<Rightarrow> exn + ('s, 'r, 'n) made)" where
  "import_class M fqcn =
     (case rpartition_dot fqcn of (module_path, class_name) \<Rightarrow>
        if module_path = [] then Inl (ImportError (''Invalid FQCN '' @ quoted fqcn @ '': no module path''))
        else (case M module_path of
            None \<Rightarrow> Inl (ImportError (''Module '' @ quoted module_path @ '' not found for FQCN '' @ quoted fqcn))
          | Some attrs \<Rightarrow>
              (case attrs class_name of
                 None \<Rightarrow> Inl (ImportError (''Class '' @ quoted class_name @ '' not found in module '' @ quoted module_path))
               | Some c \<Rightarrow> Inr c)))"

record ('s, 'r, 'n) parser_registry =
  pr_parsers :: "(string, channel_parser) dict"
  pr_routers :: "(string, ('s, 'r, 'n) router) dict"
  pr_adapters :: "'n adapter list"

definition not_satisfied :: "string \<Rightarrow> string \<Rightarrow> exn" where
  "not_satisfied fqcn protocol = TypeError (''Class '' @ quoted fqcn @ '' does not satisfy '' @ protocol @ '' protocol'')"

definition load_router ::
    "('s, 'r, 'n) modules \<Rightarrow> string \<Rightarrow> (string \<times> string) list \<Rightarrow> exn + ('s, 'r, 'n) router" where
  "load_router M fqcn config =
     (case import_class M fqcn of
        Inl e \<Rightarrow> Inl e
      | Inr c \<Rightarrow>
          (case c config of
             Inl e \<Rightarrow> Inl e
           | Inr (MadeRouter r) \<Rightarrow> Inr r
           | Inr _ \<Rightarrow> Inl (not_satisfied fqcn ''ChannelRouter'')))"

definition load_channel ::
    "('s, 'r, 'n) modules \<Rightarrow> channel_config \<Rightarrow> (('s, 'r, 'n) parser_registry, unit) prog" where
  "load_channel M cfg =
     bnd (reading (\<lambda>_. import_class M (cf_parser cfg))) (\<lambda>parser_cls.
     bnd (reading (\<lambda>_. import_class M (cf_adapter cfg))) (\<lambda>adapter_cls.
     bnd (reading (\<lambda>_. parser_cls (cf_config cfg))) (\<lambda>p. case p of
       MadeParser parser \<Rightarrow>
         bnd (reading (\<lambda>_. adapter_cls (cf_config cfg))) (\<lambda>a. case a of
           MadeAdapter adapter \<Rightarrow>
             andthen (writing (\<lambda>s. s\<lparr>pr_parsers := AList.update (pa_channel_name parser) parser (pr_parsers s)\<rparr>))
             (bnd (reading (\<lambda>_. case cf_router cfg of
                    Some fqcn \<Rightarrow> load_router M fqcn (cf_config cfg)
                  | None \<Rightarrow> Inr (route (default_router (cf_config cfg))))) (\<lambda>r.
              writing (\<lambda>s. s\<lparr>pr_routers := AList.update (pa_channel_name parser) r (pr_routers s),
                pr_adapters := pr_adapters s @ [adapter]\<rparr>)))
         | _ \<Rightarrow> throw (not_satisfied (cf_adapter cfg) ''ChannelAdapter''))
     | _ \<Rightarrow> throw (not_satisfied (cf_parser cfg) ''ChannelParser''))))"

definition new_parser_registry ::
    "('s, 'r, 'n) modules \<Rightarrow> (string, channel_config) dict \<Rightarrow> exn + ('s, 'r, 'n) parser_registry" where
  "new_parser_registry M channels_config =
     (case for_each (load_channel M) (map snd channels_config)
             \<lparr>pr_parsers = [], pr_routers = [], pr_adapters = []\<rparr> of
        (Inl e, _) \<Rightarrow> Inl e
      | (Inr _, s) \<Rightarrow> Inr s)"

definition get_parser :: "string \<Rightarrow> ('s, 'r, 'n) parser_registry \<Rightarrow> channel_parser option" where
  "get_parser channel P = map_of (pr_parsers P) channel"

definition get_router :: "string \<Rightarrow> ('s, 'r, 'n) parser_registry \<Rightarrow> ('s, 'r, 'n) router" where
  "get_router channel P =
     (case map_of (pr_routers P) channel of Some r \<Rightarrow> r | None \<Rightarrow> route (default_router []))"

definition channel_names :: "('s, 'r, 'n) parser_registry \<Rightarrow> string list" where
  "channel_names P = map fst (pr_parsers P)"

section \<open>The webhook\<close>

record webhook_request =
  wr_content_type :: string
  wr_json :: "exn + json"
  wr_form :: "(string \<times> string) list"

definition webhook_payload :: "webhook_request \<Rightarrow> exn + json" where
  "webhook_payload req =
     (if occurs_in ''application/json'' (wr_content_type req) then wr_json req
      else if occurs_in ''application/x-www-form-urlencoded'' (wr_content_type req)
      then Inr (JObj (foldl (\<lambda>d (k, v). AList.update k (JStr v) d) [] (wr_form req)))
      else Inl (HTTPException 415 ''Unsupported content type''))"

definition webhook ::
    "('s, 'r, 'n) parser_registry \<Rightarrow> 'r registry_ops \<Rightarrow> 's team_ops \<Rightarrow> string \<Rightarrow> webhook_request \<Rightarrow>
     (('s, 'r, 'n) channels, unit) prog" where
  "webhook P R T channel req =
     (case get_parser channel P of
        None \<Rightarrow> throw (HTTPException 404 (''Unknown channel: '' @ channel))
      | Some parser \<Rightarrow>
          bnd (reading (\<lambda>_. webhook_payload req)) (\<lambda>payload.
            (case pa_parse parser payload of
               Inl e \<Rightarrow> if is_value_error e then ret () else throw e
             | Inr m \<Rightarrow> get_router channel P m
                 \<lparr>rc_address = \<lparr>ch_channel = channel, ch_user = cm_channel_user_id m\<rparr>,
                  rc_default_entry = pa_default_entry parser, rc_registry = R, rc_teams = T,
                  rc_adapters = pr_adapters P\<rparr>)))"

section \<open>Outbound\<close>

lemma telegram_offer:
  "with_adapters (for_each (\<lambda>a. if ad_matches a m b then ad_deliver a m b else ret ()) [telegram_adapter post]) s =
     (if telegram_matches m b then with_adapters (andthen (telegram_deliver post m b) (ret ())) s else (Inr (), s))"
  by (simp add: with_adapters_def on_part_def andthen_def bnd_def)

lemma snd_with_andthen_ret: "cd_adapters (snd (with_adapters (andthen m (ret ())) s)) = snd (m (cd_adapters s))"
  by (simp add: with_adapters_def on_part_def andthen_def bnd_def split: prod.split sum.split)

lemma telegram_matches_iff: "telegram_matches m b \<longleftrightarrow> ch_channel b = telegram_channel \<and> sm_user_proxy m = Some True"
  by (simp add: telegram_matches_def split: option.split)

text \<open>
  C4. Nothing is posted to Telegram but text, to the chat that is bound on Telegram to the very agent the
  message was sent to, when that agent is a person's seat and its team is not replaying its
  history: not a team's internal traffic, not another channel's chat, nothing blank.
\<close>

theorem telegram_posts_to_bound_humans_only:
  assumes "cd_adapters (snd (cd_on_message R [telegram_adapter post] event s)) \<noteq> cd_adapters s"
  shows "\<exists>m b t. event = Sent m \<and> sm_team m \<notin> cd_restoring s
    \<and> ro_find_sync R (sm_team m) (sm_recipient m) (cd_registry s) = Some b
    \<and> ch_channel b = ''telegram'' \<and> sm_user_proxy m = Some True
    \<and> sm_content m = Some t \<and> strip t \<noteq> []
    \<and> cd_adapters (snd (cd_on_message R [telegram_adapter post] event s)) =
        snd (post (ch_user b) (attributed (sm_sender m) t) (cd_adapters s))"
proof -
  obtain m b where m: "event = Sent m" "sm_team m \<notin> cd_restoring s"
      "ro_find_sync R (sm_team m) (sm_recipient m) (cd_registry s) = Some b" "telegram_matches m b"
    using assms unfolding cd_on_message_def telegram_offer
    by (auto split: outbound.splits if_splits option.splits)
  have d: "cd_adapters (snd (cd_on_message R [telegram_adapter post] event s)) =
      snd (telegram_deliver post m b (cd_adapters s))"
    using m by (simp add: cd_on_message_def telegram_offer snd_with_andthen_ret)
  then obtain t where t: "sm_content m = Some t" "strip t \<noteq> []"
    using assms telegram_deliver_blank [of m post b] by (metis ret_apply snd_conv)
  have "snd (telegram_deliver post m b (cd_adapters s)) =
      snd (post (ch_user b) (attributed (sm_sender m) t) (cd_adapters s))"
    by (simp add: telegram_deliver_when [OF t(2,1)] telegram_post_state attributed_not_blank)
  then show ?thesis using m t d by (auto simp: telegram_matches_iff telegram_channel_def)
qed

definition log_post :: "(string \<times> string) list post" where
  "log_post chat t = (\<lambda>s. (Inr 200, s @ [(chat, t)]))"

definition agent_says :: "uuid \<Rightarrow> string \<Rightarrow> string \<Rightarrow> sent_message" where
  "agent_says i n t = \<lparr>sm_team = i, sm_recipient = n, sm_user_proxy = Some True, sm_sender = Some ''@Boss'',
     sm_content = Some t\<rparr>"

definition sample_dispatcher :: "(yaml_registry, (string \<times> string) list) dispatcher" where
  "sample_dispatcher = \<lparr>cd_restoring = {8}, cd_registry = sample_registry, cd_adapters = []\<rparr>"

lemma sample_post:
  "cd_adapters (snd (cd_on_message yaml_ops [telegram_adapter log_post] (Sent (agent_says 7 ''@HumanProxy_0'' ''done''))
     sample_dispatcher)) = [(''987'', attributed (Some ''@Boss'') ''done'')]"
proof -
  have "strip ''done'' \<noteq> []" by (simp add: trim_def is_space_def)
  then show ?thesis
    using attributed_not_blank [of "Some ''@Boss''" "''done''"]
    by (simp add: cd_on_message_def telegram_offer snd_with_andthen_ret telegram_deliver_def telegram_post_state
        agent_says_def sample_dispatcher_def telegram_matches_iff telegram_channel_def sample_registry_def
        yr_find_binding_sync_def sample_binding_def log_post_def)
qed

theorem telegram_posts_to_bound_humans_only_witness:
  "\<exists>m b t. Sent (agent_says 7 ''@HumanProxy_0'' ''done'') = Sent m \<and> sm_team m \<notin> {8::uuid}
    \<and> yr_find_binding_sync (sm_team m) (sm_recipient m) sample_registry = Some b
    \<and> ch_channel b = ''telegram'' \<and> sm_user_proxy m = Some True
    \<and> sm_content m = Some t \<and> strip t \<noteq> []"
proof -
  have "cd_adapters sample_dispatcher = []" "cd_restoring sample_dispatcher = {8}"
    "cd_registry sample_dispatcher = sample_registry"
    by (simp_all add: sample_dispatcher_def)
  then show ?thesis
    using telegram_posts_to_bound_humans_only [of yaml_ops log_post "Sent (agent_says 7 ''@HumanProxy_0'' ''done'')"
        sample_dispatcher] sample_post by auto
qed

text \<open>
  C32. The answer of a team started from a chat reaches that chat. After the first message of a
  conversation (or \<open>new\<close>) has started a team with a fresh id, a text the team sends to its entry
  point is posted, with its author, to the chat the message came from.
\<close>

theorem answer_reaches_the_chat:
  assumes "yr_inv (cs_registry s)" "starts_team m a (cs_registry s)" "ch_channel a = ''telegram''"
    and created: "to_create_team T (entry_for m e) (ch_user a) (cm_team_id m) (cm_team_metadata m) (cs_teams s) = (Inr p, t)"
    and fresh: "\<And>b x. yr_find_binding b (cs_registry s) = Inr (Some x) \<Longrightarrow> cb_team_id x \<noteq> team_id p"
    and d: "cd_registry d = cs_registry (snd (route allow m (yaml_context a e T A) s))" "team_id p \<notin> cd_restoring d"
    and out: "sm_team msg = team_id p" "sm_recipient msg = entry_point p" "sm_user_proxy msg = Some True"
      "sm_content msg = Some answer" "strip answer \<noteq> []"
  shows "cd_adapters (snd (cd_on_message yaml_ops [telegram_adapter post] (Sent msg) d)) =
    snd (post (ch_user a) (attributed (sm_sender msg) answer) (cd_adapters d))"
proof -
  obtain r c where r: "yr_inv r" "yr_find_binding a r = Inr None"
      "\<And>b. b \<noteq> a \<Longrightarrow> yr_find_binding b r = yr_find_binding b (cs_registry s)"
      "snd (route allow m (yaml_context a e T A) s) =
         snd (start_session m c (yaml_context a e T A) (s\<lparr>cs_registry := r\<rparr>))"
    using started_run [OF assms(1,2)] by metis
  let ?b = "session_binding a m p"
  have key: "address_of ?b = a" "cb_team_id ?b = team_id p" "cb_agent_name ?b = entry_point p"
      "ch_channel ?b = ch_channel a" "ch_user ?b = ch_user a"
    by (simp_all add: session_binding_def) (simp_all add: new_binding_def)
  have reg: "cd_registry d = snd (yr_register ?b r)"
    using start_session_registers [of "s\<lparr>cs_registry := r\<rparr>" T m e a p t c A] r(1,4) created d(1) by simp
  obtain x where x: "yr_find_binding_sync (team_id p) (entry_point p) (cd_registry d) = Some x"
    using sync_after_register [OF r(1), of ?b] by (auto simp: key reg)
  obtain b where b: "cb_team_id x = team_id p" "yr_find_binding b (cd_registry d) = Inr (Some x)"
    using yaml.find_sync_sound [OF _ x] yaml.register_ok [OF r(1), of ?b] by (auto simp: reg)
  have "b = a"
  proof (rule ccontr)
    assume "b \<noteq> a"
    then have "yr_find_binding b (cs_registry s) = Inr (Some x)"
      using b(2) yaml.find_register [OF r(1), of b ?b] r(3) by (simp add: reg key)
    then show False using fresh b(1) by blast
  qed
  then have "x = ?b" using b(2) yaml.find_register [OF r(1), of a ?b] by (simp add: reg key)
  then show ?thesis
    using x out d(2) assms(3) attributed_not_blank [of "sm_sender msg" answer]
    by (simp add: cd_on_message_def telegram_offer snd_with_andthen_ret telegram_deliver_def telegram_post_state
        telegram_matches_iff telegram_channel_def key)
qed

theorem answer_reaches_the_chat_witness:
  "cd_adapters (snd (cd_on_message yaml_ops [telegram_adapter log_post] (Sent (agent_says 9 ''@Human'' ''done''))
     \<lparr>cd_restoring = {}, cd_registry = cs_registry (snd (route False new_command_message
          (yaml_context sample_chat ''ns'' failing_ops [log_adapter])
          \<lparr>cs_teams = 0, cs_registry = sample_registry, cs_adapters = []\<rparr>)), cd_adapters = []\<rparr>)) =
   [(''987'', attributed (Some ''@Boss'') ''done'')]"
proof -
  have fresh: "cb_team_id x \<noteq> 9" if "yr_find_binding b sample_registry = Inr (Some x)" for b x
    using that
    by (auto simp: yr_find_binding_def yr_load_def sample_registry_def sample_binding_def
        split: if_splits option.splits)
  have "strip ''done'' \<noteq> []" by (simp add: trim_def is_space_def)
  then show ?thesis
    using answer_reaches_the_chat [where s = "\<lparr>cs_teams = 0, cs_registry = sample_registry, cs_adapters = []\<rparr>" and
        m = new_command_message and a = sample_chat and T = failing_ops and e = "''ns''" and allow = False and
        A = "[log_adapter]" and msg = "agent_says 9 ''@Human'' ''done''" and answer = "''done''" and post = log_post and
        p = "new_process 9 (sample_args\<lparr>ca_user_id := ''987''\<rparr>)" and t = 1 and
        d = "\<lparr>cd_restoring = {}, cd_registry = cs_registry (snd (route False new_command_message
          (yaml_context sample_chat ''ns'' failing_ops [log_adapter])
          \<lparr>cs_teams = 0, cs_registry = sample_registry, cs_adapters = []\<rparr>)), cd_adapters = []\<rparr>"]
      sample_registry_inv fresh
    by (simp add: starts_team_def new_message_def new_command_message_def text_message_def failing_ops_def
        sample_chat_def new_process_def sample_args_def agent_says_def log_post_def)
qed

section \<open>Inbound\<close>

text \<open>
  A request to one channel changes no binding of another channel, however its handling ends, when
  the channel has the default router.
\<close>

theorem webhook_stays_on_its_channel:
  assumes "yr_inv (cs_registry s)" "get_router channel P = route allow" "ch_channel b \<noteq> channel"
  shows "yr_find_binding b (cs_registry (snd (webhook P yaml_ops T channel req s))) = yr_find_binding b (cs_registry s)"
proof (cases "get_parser channel P")
  case (Some parser)
  show ?thesis
  proof (cases "webhook_payload req")
    case payload: (Inr j)
    show ?thesis
    proof (cases "pa_parse parser j")
      case (Inr m)
      let ?a = "\<lparr>ch_channel = channel, ch_user = cm_channel_user_id m\<rparr>"
      have "webhook P yaml_ops T channel req s =
          route allow m (yaml_context ?a (pa_default_entry parser) T (pr_adapters P)) s"
        using Some payload Inr assms(2) by (simp add: webhook_def bnd_def yaml_context_def)
      moreover have "b \<noteq> ?a" using assms(3) by auto
      ultimately show ?thesis
        using chat.confined_route [of ?a "pa_default_entry parser" T "pr_adapters P" allow m] assms(1)
        by (auto simp: confined_def)
    qed (use Some payload in \<open>auto simp: webhook_def bnd_def\<close>)
  qed (use Some in \<open>auto simp: webhook_def bnd_def\<close>)
qed (simp add: webhook_def)

definition sample_modules ::
    "('s, 'r, (string \<times> string) list) modules" where
  "sample_modules = (\<lambda>m. if m = ''akgentic.telegram'' then Some (\<lambda>c.
       if c = ''Parser'' then Some (\<lambda>config. Inr (MadeParser (telegram_parser config)))
       else if c = ''Adapter'' then Some (\<lambda>config. Inr (MadeAdapter (telegram_adapter log_post)))
       else None) else None)"

definition sample_config :: channel_config where
  "sample_config = \<lparr>cf_parser = ''akgentic.telegram.Parser'', cf_router = None,
     cf_adapter = ''akgentic.telegram.Adapter'', cf_config = [(''allow_register'', ''true'')]\<rparr>"

definition sample_parsers :: "('s, 'r, (string \<times> string) list) parser_registry" where
  "sample_parsers = \<lparr>pr_parsers = [(''telegram'', telegram_parser [(''allow_register'', ''true'')])],
     pr_routers = [(''telegram'', route (default_router [(''allow_register'', ''true'')]))],
     pr_adapters = [telegram_adapter log_post]\<rparr>"

lemma sample_imports:
  "import_class sample_modules ''akgentic.telegram.Parser'' = Inr (\<lambda>config. Inr (MadeParser (telegram_parser config)))"
  "import_class sample_modules ''akgentic.telegram.Adapter'' = Inr (\<lambda>config. Inr (MadeAdapter (telegram_adapter log_post)))"
  by (simp_all add: import_class_def rpartition_dot_def sample_modules_def)

lemma sample_parsers_loaded: "new_parser_registry sample_modules [(''tg'', sample_config)] = Inr sample_parsers"
  by (simp add: new_parser_registry_def load_channel_def sample_config_def sample_imports bnd_def andthen_def
      telegram_parser_def telegram_channel_def sample_parsers_def)

theorem webhook_stays_on_its_channel_witness:
  "yr_find_binding \<lparr>ch_channel = ''slack'', ch_user = ''1''\<rparr> (cs_registry (snd (webhook sample_parsers yaml_ops
      failing_ops ''telegram'' \<lparr>wr_content_type = ''application/json'', wr_json = Inr (JObj []), wr_form = []\<rparr>
      \<lparr>cs_teams = 0, cs_registry = sample_registry, cs_adapters = []\<rparr>))) =
   yr_find_binding \<lparr>ch_channel = ''slack'', ch_user = ''1''\<rparr> sample_registry"
  using webhook_stays_on_its_channel [of "\<lparr>cs_teams = 0, cs_registry = sample_registry, cs_adapters = []\<rparr>" "''telegram''"
      sample_parsers "default_router [(''allow_register'', ''true'')]" "\<lparr>ch_channel = ''slack'', ch_user = ''1''\<rparr>"
      failing_ops]
    sample_registry_inv
  by (simp add: get_router_def sample_parsers_def)

text \<open>
  An update the Telegram parser cannot route (no message, no text, no chat: a photo, an edit, a
  service message) is acknowledged and has no effect: the request succeeds, so Telegram does not
  send it again.
\<close>

theorem unroutable_update_is_acknowledged:
  assumes "get_parser channel P = Some (telegram_parser config)"
    and "occurs_in ''application/json'' (wr_content_type req)" "wr_json req = Inr (JObj d)"
    and "\<And>u t. json_obj (field d ''message'') = Some u \<Longrightarrow>
           map_of u ''text'' \<noteq> Some (JStr t) \<or> json_obj (field u ''chat'') = None"
  shows "webhook P R T channel req s = (Inr (), s)"
proof -
  obtain x where "telegram_parse (JObj d) = Inl x"
  proof (cases "telegram_parse (JObj d)")
    case (Inr m)
    then obtain u where "json_obj (field d ''message'') = Some u" "map_of u ''text'' = Some (JStr (cm_content m))"
        "json_obj (field u ''chat'') \<noteq> None"
      by (auto simp: telegram_parse_def json_str_Some split: option.splits if_splits)
    then show ?thesis using assms(4) [of u "cm_content m"] by auto
  qed (use that in blast)
  then show ?thesis
    using assms(1-3) telegram_parse_error
    by (simp add: webhook_def bnd_def webhook_payload_def telegram_parser_def)
qed

theorem unroutable_update_is_acknowledged_witness:
  "webhook sample_parsers yaml_ops failing_ops ''telegram''
     \<lparr>wr_content_type = ''application/json'', wr_json = Inr (JObj [(''edited_message'', JObj [])]), wr_form = []\<rparr>
     \<lparr>cs_teams = 0, cs_registry = sample_registry, cs_adapters = []\<rparr> =
   (Inr (), \<lparr>cs_teams = 0, cs_registry = sample_registry, cs_adapters = []\<rparr>)"
  by (rule unroutable_update_is_acknowledged [of _ _ "[(''allow_register'', ''true'')]" _ "[(''edited_message'', JObj [])]"])
    (simp_all add: get_parser_def sample_parsers_def occurs_in_def field_def)

text \<open>The routers and parsers a load has put in place.\<close>

definition channel_loaded ::
    "('s, 'r, 'n) modules \<Rightarrow> channel_config \<Rightarrow> string \<Rightarrow> ('s, 'r, 'n) parser_registry \<Rightarrow> bool" where
  "channel_loaded M cfg c P \<longleftrightarrow>
     (\<exists>parser. get_parser c P = Some parser \<and> pa_channel_name parser = c \<and>
        (\<exists>make. import_class M (cf_parser cfg) = Inr make \<and> make (cf_config cfg) = Inr (MadeParser parser)) \<and>
        (case cf_router cfg of
           None \<Rightarrow> get_router c P = route (default_router (cf_config cfg))
         | Some fqcn \<Rightarrow> load_router M fqcn (cf_config cfg) = Inr (get_router c P)))"

lemma load_channel_ok:
  assumes "load_channel M cfg s = (Inr u, t)"
  shows "\<exists>parser :: channel_parser. channel_loaded M cfg (pa_channel_name parser) t \<and>
           (\<forall>c. c \<noteq> pa_channel_name parser \<longrightarrow>
              map_of (pr_parsers t) c = map_of (pr_parsers s) c \<and> map_of (pr_routers t) c = map_of (pr_routers s) c)"
proof -
  from assms obtain make parser where p: "import_class M (cf_parser cfg) = Inr make"
      "make (cf_config cfg) = Inr (MadeParser parser)"
    by (auto simp: load_channel_def bnd_def split: sum.splits made.splits)
  from assms p obtain make' adapter where a: "import_class M (cf_adapter cfg) = Inr make'"
      "make' (cf_config cfg) = Inr (MadeAdapter adapter)"
    by (auto simp: load_channel_def bnd_def split: sum.splits made.splits)
  from assms p a obtain r where r: "(case cf_router cfg of Some fqcn \<Rightarrow> load_router M fqcn (cf_config cfg)
      | None \<Rightarrow> Inr (route (default_router (cf_config cfg)))) = Inr r"
    and t: "t = s\<lparr>pr_parsers := AList.update (pa_channel_name parser) parser (pr_parsers s),
      pr_routers := AList.update (pa_channel_name parser) r (pr_routers s), pr_adapters := pr_adapters s @ [adapter]\<rparr>"
    by (auto simp: load_channel_def bnd_def andthen_def split: sum.splits)
  show ?thesis
    using p r by (intro exI [of _ parser])
      (auto simp: t channel_loaded_def get_parser_def get_router_def split: option.splits)
qed

text \<open>
  Every channel a configuration loads is served by a router of its own: the class its entry names,
  or the default router made with that very entry's keys; the parser of the channel comes from the
  same entry.
\<close>

theorem loaded_channel_has_its_router:
  assumes "new_parser_registry M configs = Inr P" "get_parser c P \<noteq> None"
  shows "\<exists>cfg \<in> snd ` set configs. channel_loaded M cfg c P"
proof -
  have "for_each (load_channel M) cfgs s = (Inr u, t) \<Longrightarrow>
      \<forall>c. map_of (pr_parsers s) c \<noteq> None \<longrightarrow> (\<exists>cfg \<in> A. channel_loaded M cfg c s) \<Longrightarrow>
      \<forall>c. map_of (pr_parsers t) c \<noteq> None \<longrightarrow> (\<exists>cfg \<in> A \<union> set cfgs. channel_loaded M cfg c t)" for cfgs s t u A
  proof (induction cfgs arbitrary: s A)
    case (Cons cfg cfgs)
    then obtain v where v: "load_channel M cfg s = (Inr (), v)" "for_each (load_channel M) cfgs v = (Inr u, t)"
      by (auto simp: andthen_def bnd_Inr_iff)
    obtain parser :: channel_parser where l: "channel_loaded M cfg (pa_channel_name parser) v"
        "\<And>c. c \<noteq> pa_channel_name parser \<Longrightarrow>
           map_of (pr_parsers v) c = map_of (pr_parsers s) c \<and> map_of (pr_routers v) c = map_of (pr_routers s) c"
      using load_channel_ok [OF v(1)] by blast
    have "\<exists>cfg' \<in> insert cfg A. channel_loaded M cfg' c v" if mem: "map_of (pr_parsers v) c \<noteq> None" for c
    proof (cases "c = pa_channel_name parser")
      case False
      then obtain cfg' where "cfg' \<in> A" "channel_loaded M cfg' c s" using l(2) [OF False] mem Cons.prems(2) by auto
      moreover have "channel_loaded M cfg' c v"
      proof -
        have "get_parser c v = get_parser c s" "get_router c v = get_router c s"
          using l(2) [OF False] by (simp_all add: get_parser_def get_router_def)
        then show ?thesis using \<open>channel_loaded M cfg' c s\<close> by (simp only: channel_loaded_def)
      qed
      ultimately show ?thesis by blast
    qed (use l(1) in blast)
    then have "\<forall>c. map_of (pr_parsers t) c \<noteq> None \<longrightarrow> (\<exists>cfg' \<in> insert cfg A \<union> set cfgs. channel_loaded M cfg' c t)"
      using Cons.IH [OF v(2), of "insert cfg A"] by blast
    then show ?case by simp
  qed auto
  from this [of "map snd configs" "\<lparr>pr_parsers = [], pr_routers = [], pr_adapters = []\<rparr>" _ P "{}"]
  show ?thesis
    using assms by (auto simp: new_parser_registry_def get_parser_def split: sum.splits prod.splits)
qed

theorem loaded_channel_has_its_router_witness:
  "\<exists>cfg \<in> snd ` set [(''tg'', sample_config)]. channel_loaded sample_modules cfg ''telegram'' sample_parsers"
  by (rule loaded_channel_has_its_router [OF sample_parsers_loaded]) (simp add: get_parser_def sample_parsers_def)

end
