(* ===== verification/TeamRoutes.thy ===== *)
theory TeamRoutes
  imports WsRoute ChannelDelivery
begin

text \<open>
  \<open>server/routes/teams.py\<close> with \<open>_message_payload.py\<close> and the request models of \<open>server/models.py\<close>: each
  route behind its access gate, over the team service, the channel registry and the connection
  manager of one application, and the status each failure is answered with.
\<close>

section \<open>Requests\<close>

record send_request =
  sr_content :: "string option"
  sr_message :: "(string \<times> json) list option"

text \<open>\<open>_exactly_one_payload\<close>.\<close>

definition valid_send_request :: "send_request \<Rightarrow> bool" where
  "valid_send_request b \<longleftrightarrow> (sr_content b = None) \<noteq> (sr_message b = None)"

definition max_team_description_length :: nat where
  "max_team_description_length = 500"

text \<open>\<open>UpdateTeamDescriptionRequest._normalise\<close>.\<close>

definition normalise_body :: "string option \<Rightarrow> exn + string option" where
  "normalise_body v =
     (case v of
        None \<Rightarrow> Inr None
      | Some t \<Rightarrow>
          (let trimmed = strip t in
           if trimmed = [] then Inr None
           else if length trimmed > max_team_description_length
           then Inl (ValueError (''description is '' @ int_str (int (length trimmed)) @
                '' characters after trimming; the maximum is '' @ int_str (int max_team_description_length)))
           else Inr (Some trimmed)))"

text \<open>
  \<open>deserialize_object\<close> of \<open>akgentic.core\<close>: the message a wire envelope carries, nothing when it carries
  another object, or an exception.
\<close>

type_synonym deserialize = "(string \<times> json) list \<Rightarrow> exn + message option"

fun is_decode_error :: "exn \<Rightarrow> bool" where
  "is_decode_error (TypeError _) = True"
| "is_decode_error (ImportError _) = True"
| "is_decode_error (AttributeError _) = True"
| "is_decode_error e = is_value_error e"

definition decode_message :: "deserialize \<Rightarrow> (string \<times> json) list \<Rightarrow> exn + message" where
  "decode_message D raw =
     (case D raw of
        Inl e \<Rightarrow> if is_decode_error e then Inl (HTTPException 400 ''invalid message payload'') else Inl e
      | Inr None \<Rightarrow> Inl (HTTPException 400 ''payload is not a Message'')
      | Inr (Some m) \<Rightarrow> Inr m)"

definition resolve_send_payload :: "deserialize \<Rightarrow> send_request \<Rightarrow> exn + delivery" where
  "resolve_send_payload D b =
     (case sr_message b of
        Some raw \<Rightarrow> (case decode_message D raw of Inl e \<Rightarrow> Inl e | Inr m \<Rightarrow> Inr (Msg m))
      | None \<Rightarrow> (case sr_content b of None \<Rightarrow> Inl (AssertionError) | Some t \<Rightarrow> Inr (Text t)))"

section \<open>The application\<close>

text \<open>A slot of \<open>app.state\<close> that was never set has no value.\<close>

record ('s, 'f, 'r) app =
  app_service :: "('s, 'f) service"
  app_registry :: "'r option"
  app_mgr :: "conn_mgr option"

definition in_service :: "(('s, 'f) service, 'a) prog \<Rightarrow> (('s, 'f, 'r) app, 'a) prog" where
  "in_service = on_part app_service (\<lambda>t s. s\<lparr>app_service := t\<rparr>)"

definition at_tier :: "('s, 'a) prog \<Rightarrow> (('s, 'f, 'r) app, 'a) prog" where
  "at_tier m = in_service (in_tier m)"

section \<open>Responses\<close>

record team_response =
  tr_team_id :: uuid
  tr_name :: string
  tr_status :: string
  tr_user_id :: string
  tr_created_at :: int
  tr_updated_at :: int
  tr_metadata :: "(string \<times> json) list option"
  tr_catalog_namespace :: "string option"
  tr_description :: "string option"

text \<open>\<open>a or b\<close> on optional texts.\<close>

definition text_or :: "string option \<Rightarrow> string \<Rightarrow> string" where
  "text_or a b = (case a of None \<Rightarrow> b | Some t \<Rightarrow> if t = [] then b else t)"

definition process_to_response :: "process \<Rightarrow> team_response" where
  "process_to_response p =
     \<lparr>tr_team_id = team_id p,
      tr_name = text_or (team_name p) (text_or (catalog_namespace p) (uuid_str (team_id p))),
      tr_status = status_value (status p), tr_user_id = user_id p, tr_created_at = created_at p,
      tr_updated_at = updated_at p, tr_metadata = dump_metadata (metadata p),
      tr_catalog_namespace = catalog_namespace p, tr_description = team_description p\<rparr>"

datatype team_answer =
    NoContent
  | TeamAnswer team_response
  | MetadataAnswer "(string \<times> json) list option"
  | DescriptionAnswer "string option" description_origin int
  | EventsAnswer "persisted_event list"
  | StatesAnswer "agent_state list"

section \<open>Errors\<close>

definition state_conflict :: "string \<Rightarrow> exn" where
  "state_conflict m = HTTPException 409 m"

definition action_error :: "exn \<Rightarrow> exn" where
  "action_error e =
     (let detail = exn_str e in
      if occurs_in ''not found'' detail \<or> occurs_in ''deleted'' detail then HTTPException 404 detail
      else HTTPException 409 detail)"

text \<open>\<open>except ValueError as exc: _raise_action_error(exc)\<close>.\<close>

definition action_guard :: "('s, 'a) prog \<Rightarrow> ('s, 'a) prog" where
  "action_guard m = try_except m (\<lambda>e. if is_value_error e then throw (action_error e) else throw e)"

text \<open>The typed clauses of the read and the delete routes.\<close>

definition read_error :: "exn \<Rightarrow> exn" where
  "read_error e = (case e of TeamStateConflictError m \<Rightarrow> state_conflict m
     | _ \<Rightarrow> if is_value_error e then not_found_404 else e)"

definition read_guard :: "('s, 'a) prog \<Rightarrow> ('s, 'a) prog" where
  "read_guard m = try_except m (\<lambda>e. throw (read_error e))"

section \<open>Routes of one team\<close>

definition route_get_team :: "'s tier \<Rightarrow> uuid \<Rightarrow> (('s, 'f, 'r) app, team_answer) prog" where
  "route_get_team T i = at_tier (reading (\<lambda>s. case get_team T i s of
     None \<Rightarrow> Inl not_found_404 | Some p \<Rightarrow> Inr (TeamAnswer (process_to_response p))))"

text \<open>The release of the team's bindings: no failure of it reaches the caller.\<close>

definition release_bindings :: "'r registry_ops \<Rightarrow> uuid \<Rightarrow> (('s, 'f, 'r) app, unit) prog" where
  "release_bindings R i = best_effort (\<lambda>s. case app_registry s of
     None \<Rightarrow> (Inl (LookupError ''app.state.channel_registry is not set''), s)
   | Some r \<Rightarrow> on_part (\<lambda>_. r) (\<lambda>r s. s\<lparr>app_registry := Some r\<rparr>) (ro_deregister_team R i) s)"

definition route_delete_team ::
    "('s, 'f) wiring \<Rightarrow> 'r registry_ops \<Rightarrow> uuid \<Rightarrow> (('s, 'f, 'r) app, team_answer) prog" where
  "route_delete_team W R i =
     andthen (read_guard (in_service (delete_team W i)))
       (andthen (release_bindings R i) (ret NoContent))"

definition route_update_metadata ::
    "('s, 'f) wiring \<Rightarrow> uuid \<Rightarrow> (string \<times> json) list \<Rightarrow> (('s, 'f, 'r) app, team_answer) prog" where
  "route_update_metadata W i body =
     bnd (try_except (at_tier (update_team_metadata W i body))
            (\<lambda>e. case e of MetadataValidationError d \<Rightarrow> throw (HTTPException 422 d)
               | _ \<Rightarrow> if is_value_error e then throw (action_error e) else throw e))
       (\<lambda>md. ret (MetadataAnswer (dump_metadata md)))"

definition route_update_description ::
    "'s tier \<Rightarrow> uuid \<Rightarrow> string option \<Rightarrow> (('s, 'f, 'r) app, team_answer) prog" where
  "route_update_description T i d =
     bnd (try_except (at_tier (update_team_description T i d))
            (\<lambda>e. case e of TeamNotFoundError _ \<Rightarrow> throw not_found_404
               | TeamStateConflictError m \<Rightarrow> throw (state_conflict m) | _ \<Rightarrow> throw e))
       (\<lambda>p. ret (DescriptionAnswer (team_description p) (description_origin p) (updated_at p)))"

definition no_content :: "('s, unit) prog \<Rightarrow> ('s, team_answer) prog" where
  "no_content m = andthen m (ret NoContent)"

definition route_send_message ::
    "('s, 'f) wiring \<Rightarrow> deserialize \<Rightarrow> uuid \<Rightarrow> send_request \<Rightarrow> (('s, 'f, 'r) app, team_answer) prog" where
  "route_send_message W D i b = no_content (action_guard
     (bnd (reading (\<lambda>_. resolve_send_payload D b)) (\<lambda>c. in_service (send_message W i c))))"

definition route_send_message_to ::
    "('s, 'f) wiring \<Rightarrow> deserialize \<Rightarrow> uuid \<Rightarrow> string \<Rightarrow> send_request \<Rightarrow> (('s, 'f, 'r) app, team_answer) prog" where
  "route_send_message_to W D i n b = no_content (action_guard
     (bnd (reading (\<lambda>_. resolve_send_payload D b)) (\<lambda>c. in_service (send_message_to W i n c))))"

definition route_send_message_from_to ::
    "('s, 'f) wiring \<Rightarrow> deserialize \<Rightarrow> uuid \<Rightarrow> string \<Rightarrow> string \<Rightarrow> send_request \<Rightarrow>
     (('s, 'f, 'r) app, team_answer) prog" where
  "route_send_message_from_to W D i a n b = no_content (action_guard
     (bnd (reading (\<lambda>_. resolve_send_payload D b)) (\<lambda>c. at_tier (send_message_from_to (w_tier W) i a n c))))"

definition route_emit_notification ::
    "'s tier \<Rightarrow> deserialize \<Rightarrow> uuid \<Rightarrow> (string \<times> json) list \<Rightarrow> (('s, 'f, 'r) app, team_answer) prog" where
  "route_emit_notification T D i raw = no_content
     (bnd (reading (\<lambda>_. decode_message D raw)) (\<lambda>m. action_guard (at_tier (emit_message T i m))))"

definition route_human_input ::
    "'s tier \<Rightarrow> uuid \<Rightarrow> string \<Rightarrow> string \<Rightarrow> (('s, 'f, 'r) app, team_answer) prog" where
  "route_human_input T i content mid = no_content (action_guard (at_tier (process_human_input T i content mid)))"

definition route_stop_team :: "'s tier \<Rightarrow> uuid \<Rightarrow> (('s, 'f, 'r) app, team_answer) prog" where
  "route_stop_team T i = no_content (action_guard (at_tier (stop_team T i)))"

definition route_restore_team ::
    "'s tier \<Rightarrow> (nat \<Rightarrow> bool) \<Rightarrow> uuid \<Rightarrow> (('s, 'f, 'r) app, team_answer) prog" where
  "route_restore_team T connected i =
     bnd (action_guard (at_tier (restore_team T i))) (\<lambda>p.
     andthen (writing (\<lambda>s. case app_mgr s of None \<Rightarrow> s
         | Some m \<Rightarrow> s\<lparr>app_mgr := Some (notify_restore connected i m)\<rparr>))
       (ret (TeamAnswer (process_to_response p))))"

definition route_get_events :: "'s tier \<Rightarrow> uuid \<Rightarrow> uuid option \<Rightarrow> (('s, 'f, 'r) app, team_answer) prog" where
  "route_get_events T i after =
     bnd (try_except (at_tier (reading (get_events T i after)))
            (\<lambda>e. case e of EventNotFoundError _ \<Rightarrow> throw (HTTPException 400
                (''Unknown after_event_id cursor: '' @ (case after of None \<Rightarrow> ''None'' | Some a \<Rightarrow> uuid_str a)))
              | _ \<Rightarrow> throw (read_error e)))
       (\<lambda>evs. ret (EventsAnswer evs))"

definition route_get_agent_states :: "'s tier \<Rightarrow> uuid \<Rightarrow> uuid option \<Rightarrow> (('s, 'f, 'r) app, team_answer) prog" where
  "route_get_agent_states T i agent =
     bnd (read_guard (at_tier (reading (get_agent_states T i agent)))) (\<lambda>xs. ret (StatesAnswer xs))"

section \<open>One team: gate, validation, route\<close>

datatype team_action =
    GetTeam
  | DeleteTeam
  | PatchMetadata "(string \<times> json) list"
  | PatchDescription "string option"
  | PostMessage send_request
  | PostMessageTo string send_request
  | PostMessageFromTo string string send_request
  | PostNotification "(string \<times> json) list"
  | PostHumanInput string string
  | PostStop
  | PostRestore
  | GetEvents "uuid option"
  | GetAgentStates "uuid option"

text \<open>What the routes are wired to.\<close>

record ('s, 'f, 'r) server_wiring =
  rw_service :: "('s, 'f) wiring"
  rw_policy :: access_policy
  rw_registry :: "'r registry_ops"
  rw_deserialize :: deserialize
  rw_connected :: "nat \<Rightarrow> bool"

definition unprocessable :: exn where
  "unprocessable = HTTPException 422 ''Unprocessable Entity''"

definition serve_action ::
    "('s, 'f, 'r) server_wiring \<Rightarrow> uuid \<Rightarrow> team_action \<Rightarrow> (('s, 'f, 'r) app, team_answer) prog" where
  "serve_action V i act =
     (let W = rw_service V; T = w_tier W; D = rw_deserialize V in
      case act of
        GetTeam \<Rightarrow> route_get_team T i
      | DeleteTeam \<Rightarrow> route_delete_team W (rw_registry V) i
      | PatchMetadata d \<Rightarrow> route_update_metadata W i d
      | PatchDescription v \<Rightarrow>
          (case normalise_body v of Inl _ \<Rightarrow> throw unprocessable | Inr d \<Rightarrow> route_update_description T i d)
      | PostMessage b \<Rightarrow> if valid_send_request b then route_send_message W D i b else throw unprocessable
      | PostMessageTo n b \<Rightarrow> if valid_send_request b then route_send_message_to W D i n b else throw unprocessable
      | PostMessageFromTo a n b \<Rightarrow>
          if valid_send_request b then route_send_message_from_to W D i a n b else throw unprocessable
      | PostNotification raw \<Rightarrow> route_emit_notification T D i raw
      | PostHumanInput c mid \<Rightarrow> route_human_input T i c mid
      | PostStop \<Rightarrow> route_stop_team T i
      | PostRestore \<Rightarrow> route_restore_team T (rw_connected V) i
      | GetEvents after \<Rightarrow> route_get_events T i after
      | GetAgentStates a \<Rightarrow> route_get_agent_states T i a)"

definition team_endpoint ::
    "('s, 'f, 'r) server_wiring \<Rightarrow> request_user \<Rightarrow> uuid \<Rightarrow> team_action \<Rightarrow> (('s, 'f, 'r) app, team_answer) prog" where
  "team_endpoint V user i act = (\<lambda>s.
     case require_team_access (w_tier (rw_service V)) (rw_policy V) i user (sv_tier (app_service s)) no_slots of
       (Inl e, _) \<Rightarrow> (Inl e, s)
     | (Inr _, _) \<Rightarrow> serve_action V i act s)"

section \<open>Creation and listing\<close>

record create_request =
  cr_namespace :: string
  cr_metadata :: "(string \<times> json) list option"

text \<open>The except clauses of the creation route, in their order.\<close>

definition create_error :: "exn \<Rightarrow> exn" where
  "create_error e =
     (case e of
        MetadataValidationError d \<Rightarrow> HTTPException 422 d
      | CatalogTeamEntryMissingError m \<Rightarrow> HTTPException 404 m
      | EntryNotFoundError _ \<Rightarrow> HTTPException 404 ''Catalog namespace not found''
      | _ \<Rightarrow> e)"

definition route_create_team ::
    "('s, 'f, 'r) server_wiring \<Rightarrow> request_user \<Rightarrow> create_request \<Rightarrow> (('s, 'f, 'r) app, team_answer) prog" where
  "route_create_team V user b =
     (let W = rw_service V in
      bnd (try_except
        (bnd (at_tier (reading (resolve_team_metadata W (cr_namespace b) (cr_metadata b)))) (\<lambda>r.
           if \<not> ap_can_create (rw_policy V) (rs_indexes r) user
           then throw (HTTPException 403 ''Team creation not allowed'')
           else at_tier (create_resolved_team W r (ru_user_id user) (ru_email user) None)))
        (\<lambda>e. throw (create_error e)))
      (\<lambda>p. ret (TeamAnswer (process_to_response p))))"

definition metadata_filter_prefix :: string where
  "metadata_filter_prefix = ''meta.''"

definition no_metadata_key :: "string \<Rightarrow> exn" where
  "no_metadata_key name = HTTPException 422 (''query parameter '' @ quoted name @ '' names no metadata key'')"

text \<open>One query parameter, then all of them.\<close>

definition add_term :: "string \<Rightarrow> string \<Rightarrow> metadata_search \<Rightarrow> metadata_search" where
  "add_term key value filters =
     AList.update key ((case map_of filters key of None \<Rightarrow> [] | Some ts \<Rightarrow> ts) @ [value]) filters"

fun collect_filters :: "(string \<times> string) list \<Rightarrow> metadata_search \<Rightarrow> exn + metadata_search" where
  "collect_filters [] filters = Inr filters"
| "collect_filters ((name, value) # items) filters =
     (if \<not> startswith name metadata_filter_prefix then collect_filters items filters
      else let key = drop (length metadata_filter_prefix) name in
        if key = [] then Inl (no_metadata_key name)
        else if value = [] then collect_filters items filters
        else collect_filters items (add_term key value filters))"

definition parse_metadata_filter :: "(string \<times> string) list \<Rightarrow> exn + metadata_search option" where
  "parse_metadata_filter items =
     (case collect_filters items [] of
        Inl e \<Rightarrow> Inl e
      | Inr d \<Rightarrow> Inr (if d = [] then None else Some d))"

definition route_list_teams ::
    "('s, 'f, 'r) server_wiring \<Rightarrow> index_ops \<Rightarrow> request_user \<Rightarrow> (string \<times> string) list \<Rightarrow> team_status option \<Rightarrow>
     string option \<Rightarrow> int \<Rightarrow> int \<Rightarrow> ('s, 'f, 'r) app \<Rightarrow> exn + team_response list \<times> nat" where
  "route_list_teams V X user items st ns page sz s =
     (case parse_metadata_filter items of
        Inl e \<Rightarrow> Inl e
      | Inr md \<Rightarrow>
          (case list_teams_for_policy X (w_tier (rw_service V)) (ap_list_filters (rw_policy V) user) st md ns page sz
                  (sv_tier (app_service s)) of
             Inl e \<Rightarrow> Inl e
           | Inr (rows, n) \<Rightarrow> Inr (map process_to_response rows, n)))"

section \<open>The server\<close>

text \<open>\<open>_handle_server_error\<close> of \<open>server/errors.py\<close>: status and body of a mapped error.\<close>

definition shared_workspace_detail :: string where
  "shared_workspace_detail =
     ''This workspace is shared across principals, and no policy yet decides who may reach '' @
     ''a shared workspace: that is akgentic-infra-auth's metadata-entitlement policy, which '' @
     ''does not exist yet. Shared workspaces are refused to every caller until it does.''"

definition server_error_response :: "exn \<Rightarrow> (nat \<times> string \<times> string option) option" where
  "server_error_response e =
     (case e of
        ServerError d st code \<Rightarrow> Some (st, d, code)
      | PlacementError d st code \<Rightarrow> Some (st, d, code)
      | PlacementConsistencyError d \<Rightarrow> Some (502, d, Some ''placement_consistency'')
      | MetadataValidationError d \<Rightarrow> Some (422, d, Some ''invalid_metadata'')
      | SharedWorkspaceRefusedError \<Rightarrow> Some (403, shared_workspace_detail, Some ''shared_workspace_entitlement_undecided'')
      | _ \<Rightarrow> None)"

section \<open>The gate\<close>

lemma endpoint_denied:
  "require_team_access T P i user t no_slots = (Inl e, rq) \<Longrightarrow> e = not_found_404"
  by (auto simp: require_team_access_def split: option.splits if_splits)

text \<open>
  A caller the policy does not let reach a team gets, from each of its routes, the very answer an
  unknown id gets, and nothing changes: the refusal tells nothing about the team.
\<close>

theorem denied_caller_learns_nothing:
  assumes "\<And>p. get_team (w_tier (rw_service V)) i (sv_tier (app_service s)) = Some p \<Longrightarrow>
             \<not> ap_is_allowed (rw_policy V) (team_context i p) user"
  shows "team_endpoint V user i act s = (Inl (HTTPException 404 ''Team not found''), s)"
  using assms by (auto simp: team_endpoint_def require_team_access_def not_found_404_def split: option.split)

definition ref_server :: "(ref_world community, path set, yaml_registry) server_wiring" where
  "ref_server = \<lparr>rw_service = ref_wiring, rw_policy = owner_or_admin False, rw_registry = yaml_ops,
     rw_deserialize = (\<lambda>_. Inr None), rw_connected = (\<lambda>_. True)\<rparr>"

definition ref_app :: "team_status \<Rightarrow> (ref_world community, path set, yaml_registry) app" where
  "ref_app st = \<lparr>app_service = ref_service st, app_registry = Some sample_registry, app_mgr = Some cm_new\<rparr>"

lemma ref_app_team:
  "t_get_team ref_tier 7 (sv_tier (app_service (ref_app st))) = Some ((new_process 7 sample_args)\<lparr>status := st\<rparr>)"
  by (simp add: ref_get_team ref_app_def ref_service_def store_of_def in_cache_def ref_start_state_def
      one_team_world_def init_placement_def)

lemma ref_app_get_team:
  "get_team ref_tier 7 (sv_tier (app_service (ref_app st))) =
     (if st = DELETED then None else Some ((new_process 7 sample_args)\<lparr>status := st\<rparr>))"
  by (simp add: get_team_def load_live_def ref_app_team)

theorem denied_caller_learns_nothing_witness:
  "team_endpoint ref_server (anonymous\<lparr>ru_user_id := ''mallory''\<rparr>) 7 PostStop (ref_app RUNNING) =
     (Inl (HTTPException 404 ''Team not found''), ref_app RUNNING)"
  by (rule denied_caller_learns_nothing)
    (auto simp: ref_server_def ref_app_get_team owner_or_admin_def owner_or_admin_allowed_def team_context_def
      new_process_def sample_args_def anonymous_def)

section \<open>Statuses\<close>

lemma not_value_http [simp]: "\<not> is_value_error (HTTPException k m)"
  by simp

lemma action_guard_error:
  "action_guard m s = (Inl e, t) \<Longrightarrow> \<not> is_value_error e"
  by (auto simp: action_guard_def try_except_def action_error_def Let_def split: prod.splits sum.splits if_splits)

lemma read_error_not_value: "\<not> is_value_error (read_error e)"
  by (cases e) (simp_all add: read_error_def state_conflict_def not_found_404_def)

lemma read_guard_error: "read_guard m s = (Inl e, t) \<Longrightarrow> \<not> is_value_error e"
  using read_error_not_value by (auto simp: read_guard_def try_except_def split: prod.splits sum.splits)

lemma no_content_error: "no_content m s = (Inl e, t) \<Longrightarrow> m s = (Inl e, t)"
  by (auto simp: no_content_def andthen_def bnd_def split: prod.splits sum.splits)

lemma bnd_ret_error: "bnd m (\<lambda>x. ret (f x)) s = (Inl e, t) \<Longrightarrow> m s = (Inl e, t)"
  by (auto simp: bnd_def split: prod.splits sum.splits)

lemma metadata_guard_error:
  "try_except m (\<lambda>e. case e of MetadataValidationError d \<Rightarrow> throw (HTTPException 422 d)
     | _ \<Rightarrow> if is_value_error e then throw (action_error e) else throw e) s = (Inl x, t) \<Longrightarrow> \<not> is_value_error x"
  by (auto simp: try_except_def action_error_def Let_def split: prod.splits sum.splits exn.splits if_splits)

lemma events_guard_error:
  "try_except m (\<lambda>e. case e of EventNotFoundError _ \<Rightarrow> throw (HTTPException 400 d)
     | _ \<Rightarrow> throw (read_error e)) s = (Inl x, t) \<Longrightarrow> \<not> is_value_error x"
  using read_error_not_value by (auto simp: try_except_def split: prod.splits sum.splits exn.splits)

lemma decode_message_error: "decode_message D raw = Inl e \<Longrightarrow> \<not> is_value_error e"
  by (auto simp: decode_message_def split: sum.splits option.splits if_splits elim: is_value_error.elims)

lemma release_bindings_ok: "fst (release_bindings R i s) = Inr ()"
  unfolding release_bindings_def by (rule best_effort_total)

lemma release_bindings_no_error: "release_bindings R i s \<noteq> (Inl e, t)"
  using release_bindings_ok [of R i s] by auto

lemma restore_error: "route_restore_team T c i s = (Inl e, t) \<Longrightarrow> action_guard (at_tier (restore_team T i)) s = (Inl e, t)"
  by (auto simp: route_restore_team_def bnd_def andthen_def split: prod.splits sum.splits)

lemma delete_error:
  "route_delete_team W R i s = (Inl e, t) \<Longrightarrow> read_guard (in_service (delete_team W i)) s = (Inl e, t)"
  by (auto simp: route_delete_team_def bnd_def andthen_def release_bindings_no_error split: prod.splits sum.splits)

lemma notification_error:
  "route_emit_notification T D i raw s = (Inl e, t) \<Longrightarrow> \<not> is_value_error e"
  by (auto simp: route_emit_notification_def no_content_def andthen_def bnd_def
      dest: decode_message_error action_guard_error split: prod.splits sum.splits)

text \<open>
  No failure of the team service surfaces as an unmapped \<open>ValueError\<close>: from every route of a team but
  the description update, each one reaches the caller as an HTTP status.
\<close>

theorem value_errors_become_statuses:
  assumes "team_endpoint V user i act s = (Inl e, t)" "\<And>d. act \<noteq> PatchDescription d"
  shows "\<not> is_value_error e"
proof (cases "require_team_access (w_tier (rw_service V)) (rw_policy V) i user (sv_tier (app_service s)) no_slots")
  case (Pair r rq)
  show ?thesis
  proof (cases r)
    case (Inl x)
    then have "e = not_found_404"
      using assms(1) Pair endpoint_denied by (fastforce simp: team_endpoint_def)
    then show ?thesis by (simp add: not_found_404_def)
  next
    case (Inr u)
    then have serve: "serve_action V i act s = (Inl e, t)"
      using assms(1) Pair by (simp add: team_endpoint_def)
    show ?thesis
      using serve assms(2)
      by (cases act) (auto simp: serve_action_def Let_def unprocessable_def route_send_message_def
          route_send_message_to_def route_send_message_from_to_def route_human_input_def route_stop_team_def
          route_update_metadata_def route_get_events_def route_get_agent_states_def route_get_team_def at_tier_def
          in_service_def in_tier_def on_part_def not_found_404_def
          dest!: no_content_error restore_error delete_error bnd_ret_error
          dest: action_guard_error read_guard_error notification_error metadata_guard_error events_guard_error
          split: if_splits option.splits prod.splits)
  qed
qed

section \<open>Conflicts\<close>

lemma occurs_in_chars: "occurs_in p s \<Longrightarrow> set p \<subseteq> set s"
  unfolding occurs_in_def by (rule sublist_set_mono)

lemma uuid_str_plain: "c \<in> set (uuid_str i) \<Longrightarrow> c = CHR ''-'' \<or> is_hex c"
  using uuid_str_chars uuid_digits_are_hex [of i] by (auto simp: list_all_iff)

lemma not_in_uuid: "\<not> is_hex c \<Longrightarrow> c \<noteq> CHR ''-'' \<Longrightarrow> c \<notin> set (uuid_str i)"
  using uuid_str_plain by blast

lemma no_hex: "\<not> is_hex CHR ''u''" "\<not> is_hex CHR ''o''" "\<not> is_hex CHR ''t''" "\<not> is_hex CHR ''l''"
  by (simp_all add: is_hex_def)

lemma stopped_message_plain:
  "\<not> occurs_in ''not found'' (team_msg i '' is already stopped'')"
  "\<not> occurs_in ''deleted'' (team_msg i '' is already stopped'')"
proof -
  show "\<not> occurs_in ''not found'' (team_msg i '' is already stopped'')"
    using occurs_in_chars [of "''not found''"] no_hex(1)
    by (fastforce simp: team_msg_def dest: not_in_uuid)
  show "\<not> occurs_in ''deleted'' (team_msg i '' is already stopped'')"
  proof
    assume "occurs_in ''deleted'' (team_msg i '' is already stopped'')"
    then obtain x y where "team_msg i '' is already stopped'' = x @ ''deleted'' @ y"
      by (auto simp: occurs_in_def sublist_def)
    then have "(''Team '' @ uuid_str i @ '' is a'') @ CHR ''l'' # ''ready stopped'' = (x @ ''de'') @ CHR ''l'' # (''eted'' @ y)"
      by (simp add: team_msg_def)
    moreover have "CHR ''l'' \<notin> set (''Team '' @ uuid_str i @ '' is a'')" "CHR ''l'' \<notin> set ''ready stopped''"
      using not_in_uuid [OF no_hex(4)] by simp_all
    ultimately have "''ready stopped'' = ''eted'' @ y"
      using append_Cons_eq_iff [of "CHR ''l''" "''Team '' @ uuid_str i @ '' is a''" "''ready stopped''" "x @ ''de''" "''eted'' @ y"]
      by blast
    then show False by simp
  qed
qed

lemma running_message_plain:
  "\<not> occurs_in ''not found'' (team_msg i '' is already running'')"
  "\<not> occurs_in ''deleted'' (team_msg i '' is already running'')"
  using occurs_in_chars [of "''not found''"] occurs_in_chars [of "''deleted''"] no_hex(2,3)
  by (fastforce simp: team_msg_def dest: not_in_uuid)+

lemma at_tier_error: "m (sv_tier (app_service s)) = (Inl e, sv_tier (app_service s)) \<Longrightarrow> at_tier m s = (Inl e, s)"
  by (simp add: at_tier_def in_service_def in_tier_def on_part_def)

lemma endpoint_allowed:
  assumes "get_team (w_tier (rw_service V)) i (sv_tier (app_service s)) = Some p"
    and "ap_is_allowed (rw_policy V) (team_context i p) user"
  shows "team_endpoint V user i act s = serve_action V i act s"
  using assms by (simp add: team_endpoint_def require_team_access_def)

lemma live_team: "get_team T i s = Some p \<Longrightarrow> t_get_team T i s = Some p \<and> status p \<noteq> DELETED"
  by (auto simp: get_team_def load_live_def split: option.splits if_splits)

lemma conflict_answer:
  "m (sv_tier (app_service s)) = (Inl (TeamStateConflictError d), sv_tier (app_service s)) \<Longrightarrow>
     \<not> occurs_in ''not found'' d \<Longrightarrow> \<not> occurs_in ''deleted'' d \<Longrightarrow>
     action_guard (at_tier m) s = (Inl (HTTPException 409 d), s)"
  by (simp add: action_guard_def try_except_def action_error_def at_tier_error)

text \<open>
  To stop a team that is stopped, or restore one that runs, is a conflict: the route answers 409 with
  the team's state, and nothing changes. The two words the mapping looks for are not in these
  messages, whatever the team's id.
\<close>

theorem state_conflicts_answer_409:
  assumes "get_team (w_tier (rw_service V)) i (sv_tier (app_service s)) = Some p"
    and "ap_is_allowed (rw_policy V) (team_context i p) user"
  shows "(status p = STOPPED \<longrightarrow> team_endpoint V user i PostStop s =
            (Inl (HTTPException 409 (team_msg i '' is already stopped'')), s))
       \<and> (status p = RUNNING \<longrightarrow> team_endpoint V user i PostRestore s =
            (Inl (HTTPException 409 (team_msg i '' is already running'')), s))"
proof -
  let ?T = "w_tier (rw_service V)"
  note live = live_team [OF assms(1)]
  have "route_stop_team ?T i s = (Inl (HTTPException 409 (team_msg i '' is already stopped'')), s)" if "status p = STOPPED"
    using conflict_answer [of "stop_team ?T i" s, OF _ stopped_message_plain] live that
    by (simp add: route_stop_team_def no_content_def andthen_def bnd_def stop_team_def)
  moreover have "route_restore_team ?T c i s = (Inl (HTTPException 409 (team_msg i '' is already running'')), s)"
    if "status p = RUNNING" for c
    using conflict_answer [of "restore_team ?T i" s, OF _ running_message_plain] live that
    by (simp add: route_restore_team_def bnd_def restore_team_def)
  ultimately show ?thesis
    unfolding endpoint_allowed [OF assms] by (simp add: serve_action_def)
qed

definition alice :: request_user where
  "alice = anonymous\<lparr>ru_user_id := ''alice''\<rparr>"

lemma ref_allowed: "ap_is_allowed (rw_policy ref_server) (team_context 7 ((new_process 7 sample_args)\<lparr>status := st\<rparr>)) alice"
  by (simp add: ref_server_def owner_or_admin_def owner_or_admin_allowed_def team_context_def new_process_def
      sample_args_def alice_def)

lemma ref_server_service [simp]: "rw_service ref_server = ref_wiring"
  by (simp add: ref_server_def)

lemma sample_conflict:
  "team_endpoint ref_server alice 7 PostStop (ref_app STOPPED) =
     (Inl (HTTPException 409 (team_msg 7 '' is already stopped'')), ref_app STOPPED)"
  using endpoint_allowed [of ref_server 7 "ref_app STOPPED" _ alice] ref_allowed [of STOPPED]
    conflict_answer [of "stop_team ref_tier 7" "ref_app STOPPED", OF _ stopped_message_plain]
  by (simp add: ref_app_get_team ref_app_team serve_action_def route_stop_team_def no_content_def andthen_def
      bnd_def stop_team_def)

theorem state_conflicts_answer_409_witness:
  "team_endpoint ref_server alice 7 PostStop (ref_app STOPPED) =
     (Inl (HTTPException 409 (team_msg 7 '' is already stopped'')), ref_app STOPPED)
   \<and> team_endpoint ref_server alice 7 PostRestore (ref_app RUNNING) =
     (Inl (HTTPException 409 (team_msg 7 '' is already running'')), ref_app RUNNING)"
  using state_conflicts_answer_409 [of ref_server 7 "ref_app STOPPED", OF _ ref_allowed]
    state_conflicts_answer_409 [of ref_server 7 "ref_app RUNNING", OF _ ref_allowed]
  by (simp add: ref_app_get_team)

theorem value_errors_become_statuses_witness:
  "\<not> is_value_error (HTTPException 409 (team_msg 7 '' is already stopped''))"
  by (rule value_errors_become_statuses [OF sample_conflict]) simp

section \<open>Deletion and the chats\<close>

lemma in_service_registry: "app_registry (snd (in_service m s)) = app_registry s"
  by (simp add: in_service_def on_part_def split: prod.split)

lemma read_guard_run: "read_guard m s = (case m s of (Inl e, t) \<Rightarrow> (Inl (read_error e), t) | (Inr x, t) \<Rightarrow> (Inr x, t))"
  by (simp add: read_guard_def try_except_def split: prod.split sum.split)

lemma release_bindings_run:
  "app_registry s = Some r \<Longrightarrow>
     release_bindings R i s = (Inr (), s\<lparr>app_registry := Some (snd (ro_deregister_team R i r))\<rparr>)"
  by (auto simp: release_bindings_def best_effort_def try_except_def on_part_def split: prod.split sum.split)

text \<open>
  A deletion that succeeds leaves no chat bound to the team, inbound or outbound, and every other
  chat as it was; one that fails keeps all bindings. What the route answers depends on the
  deletion alone, not on the release.
\<close>

theorem deletion_releases_chats:
  assumes "rw_registry V = yaml_ops" "app_registry s = Some r" "yr_inv r"
  shows "case team_endpoint V user i DeleteTeam s of
      (Inl e, t) \<Rightarrow> app_registry t = Some r
    | (Inr answer, t) \<Rightarrow> answer = NoContent \<and> (\<exists>q. app_registry t = Some q
        \<and> (\<forall>n. yr_find_binding_sync i n q = None)
        \<and> (\<forall>a. yr_find_binding a q =
             (case yr_find_binding a r of Inr (Some b) \<Rightarrow> if cb_team_id b = i then Inr None else Inr (Some b) | x \<Rightarrow> x)))"
proof (cases "require_team_access (w_tier (rw_service V)) (rw_policy V) i user (sv_tier (app_service s)) no_slots")
  case (Pair out rq)
  show ?thesis
  proof (cases out)
    case (Inl e)
    then show ?thesis using Pair assms(2) by (simp add: team_endpoint_def)
  next
    case (Inr u)
    obtain res t where d: "in_service (delete_team (rw_service V) i) s = (res, t)" by fastforce
    have reg: "app_registry t = Some r"
      using in_service_registry [of "delete_team (rw_service V) i" s] d assms(2) by simp
    have "team_endpoint V user i DeleteTeam s =
        (case res of Inl e \<Rightarrow> (Inl (read_error e), t)
         | Inr _ \<Rightarrow> (Inr NoContent, t\<lparr>app_registry := Some (snd (yr_deregister_team i r))\<rparr>))"
      using Pair Inr d release_bindings_run [OF reg, of yaml_ops i] assms(1)
      by (cases res) (simp_all add: team_endpoint_def serve_action_def Let_def route_delete_team_def andthen_def bnd_def
          read_guard_run)
    then show ?thesis
      using reg yaml.find_deregister_team [OF assms(3), of _ i] yaml.no_binding_after_team_end(2) [OF assms(3), of i]
      by (cases res) simp_all
  qed
qed

theorem deletion_releases_chats_witness:
  "case team_endpoint ref_server alice 7 DeleteTeam (ref_app STOPPED) of
      (Inl e, t) \<Rightarrow> app_registry t = Some sample_registry
    | (Inr answer, t) \<Rightarrow> answer = NoContent \<and> (\<exists>q. app_registry t = Some q \<and> yr_find_binding_sync 7 ''@HumanProxy_0'' q = None)"
  using deletion_releases_chats [where V = ref_server and s = "ref_app STOPPED" and r = sample_registry and
      user = alice and i = 7] sample_registry_inv
  by (auto simp: ref_server_def ref_app_def split: sum.splits prod.splits)

section \<open>The metadata filter\<close>

text \<open>The terms a request gives for one key, in the order of its parameters.\<close>

definition terms_for :: "(string \<times> string) list \<Rightarrow> string \<Rightarrow> string list" where
  "terms_for items key = map snd (filter (\<lambda>(name, value). name = ''meta.'' @ key \<and> value \<noteq> []) items)"

definition group_of :: "string list \<Rightarrow> string list option" where
  "group_of ts = (if ts = [] then None else Some ts)"

lemma meta_name: "startswith name metadata_filter_prefix \<longleftrightarrow> (\<exists>key. name = ''meta.'' @ key)"
  by (auto simp: startswith_def metadata_filter_prefix_def prefix_def)

lemma collect_refuses:
  "''meta.'' \<in> fst ` set items \<Longrightarrow> collect_filters items filters = Inl (no_metadata_key ''meta.'')"
proof (induction items filters rule: collect_filters.induct)
  case (2 name v items filters)
  show ?case
  proof (cases "startswith name metadata_filter_prefix")
    case True
    then obtain key where "name = ''meta.'' @ key" by (auto simp: meta_name)
    then show ?thesis using 2 True by (auto simp: metadata_filter_prefix_def)
  next
    case False
    then show ?thesis using 2 by (auto simp: meta_name)
  qed
qed simp

lemma collect_groups:
  "''meta.'' \<notin> fst ` set items \<Longrightarrow> dict_ok filters \<Longrightarrow> (\<forall>k. map_of filters k \<noteq> Some []) \<Longrightarrow>
   \<exists>d. collect_filters items filters = Inr d \<and> dict_ok d \<and>
     (\<forall>k. map_of d k = group_of ((case map_of filters k of None \<Rightarrow> [] | Some ts \<Rightarrow> ts) @ terms_for items k))"
proof (induction items arbitrary: filters)
  case Nil
  then show ?case by (auto simp: terms_for_def group_of_def split: option.split)
next
  case (Cons item items)
  obtain name v where item: "item = (name, v)" by fastforce
  show ?case
  proof (cases "startswith name metadata_filter_prefix \<and> v \<noteq> []")
    case True
    then obtain key where key: "name = ''meta.'' @ key" by (auto simp: meta_name)
    then have "key \<noteq> []" using Cons.prems(1) item by auto
    let ?f = "add_term key v filters"
    have f: "dict_ok ?f" "\<forall>k. map_of ?f k \<noteq> Some []" using Cons.prems by (simp_all add: add_term_def)
    have "terms_for (item # items) k = (if k = key then v # terms_for items k else terms_for items k)" for k
      using True key item by (simp add: terms_for_def)
    then show ?thesis
      using Cons.IH [OF _ f] Cons.prems(1) True key \<open>key \<noteq> []\<close> item
      by (fastforce simp: metadata_filter_prefix_def add_term_def split: option.splits)
  next
    case False
    then have "terms_for (item # items) k = terms_for items k" for k
      using item by (auto simp: terms_for_def meta_name)
    moreover have "collect_filters (item # items) filters = collect_filters items filters"
    proof (cases "startswith name metadata_filter_prefix")
      case True
      then obtain key where "name = ''meta.'' @ key" by (auto simp: meta_name)
      then show ?thesis using True False item Cons.prems(1) by (auto simp: metadata_filter_prefix_def)
    qed (use item in simp)
    ultimately show ?thesis using Cons by simp
  qed
qed

text \<open>
  The \<open>meta.\<close> parameters of a listing become exactly the search they spell: under each key every
  term given for it, in order and unchanged, blank terms dropped and a key without terms absent;
  a parameter that names no key refuses the request.
\<close>

theorem metadata_filter_is_what_was_asked:
  "if ''meta.'' \<in> fst ` set items then parse_metadata_filter items = Inl (no_metadata_key ''meta.'')
   else \<exists>d. parse_metadata_filter items = Inr (if d = [] then None else Some d) \<and> dict_ok d \<and>
          (\<forall>k. map_of d k = group_of (terms_for items k))"
proof (cases "''meta.'' \<in> fst ` set items")
  case True
  then show ?thesis using collect_refuses [of items "[]"] by (simp add: parse_metadata_filter_def)
next
  case False
  then obtain d where d: "collect_filters items [] = Inr d" "dict_ok d" "\<forall>k. map_of d k = group_of (terms_for items k)"
    using collect_groups [of items "[]"] by auto
  then have "parse_metadata_filter items = Inr (if d = [] then None else Some d)"
    by (simp add: parse_metadata_filter_def)
  then show ?thesis unfolding if_not_P [OF False] using d(2,3) by blast
qed

section \<open>Creation\<close>

text \<open>
  A refused creation changes nothing and says why: 422 for the metadata, 404 for a namespace that
  is empty or holds no team, 403 when the policy refuses the caller; the policy is asked about the
  metadata the team would carry, before any placement.
\<close>

theorem refused_creation_changes_nothing:
  assumes "case resolve_team_metadata (rw_service V) (cr_namespace b) (cr_metadata b) (sv_tier (app_service s)) of
      Inl _ \<Rightarrow> True | Inr r \<Rightarrow> \<not> ap_can_create (rw_policy V) (rs_indexes r) user"
  shows "route_create_team V user b s =
    (Inl (case resolve_team_metadata (rw_service V) (cr_namespace b) (cr_metadata b) (sv_tier (app_service s)) of
       Inl (MetadataValidationError d) \<Rightarrow> HTTPException 422 d
     | Inl (CatalogTeamEntryMissingError m) \<Rightarrow> HTTPException 404 m
     | Inl (EntryNotFoundError _) \<Rightarrow> HTTPException 404 ''Catalog namespace not found''
     | Inl e \<Rightarrow> e
     | Inr _ \<Rightarrow> HTTPException 403 ''Team creation not allowed''), s)"
  using assms
  by (cases "resolve_team_metadata (rw_service V) (cr_namespace b) (cr_metadata b) (sv_tier (app_service s))")
    (simp_all add: route_create_team_def Let_def at_tier_def in_service_def in_tier_def on_part_def bnd_def try_except_def
      create_error_def, simp split: exn.split)

theorem refused_creation_changes_nothing_witness:
  "route_create_team ref_server alice \<lparr>cr_namespace = ''empty'', cr_metadata = None\<rparr> (ref_app RUNNING) =
     (Inl (HTTPException 404 ''Catalog namespace not found''), ref_app RUNNING)"
proof -
  have r: "resolve_team_metadata ref_wiring ''empty'' None (sv_tier (app_service (ref_app RUNNING))) =
      Inl (EntryNotFoundError ''empty'')"
    by (simp add: resolve_team_metadata_def ref_tier_defs)
  show ?thesis
    using refused_creation_changes_nothing [where V = ref_server and user = alice and s = "ref_app RUNNING" and
        b = "\<lparr>cr_namespace = ''empty'', cr_metadata = None\<rparr>"] r
    by simp
qed

end
