(* ===== verification/ServerAuth.thy ===== *)
theory ServerAuth
  imports TeamRoutes "HOL-Library.List_Lexorder"
begin

text \<open>
  Identity before routing: \<open>server/middleware/require_auth.py\<close>, the strategy and its loader
  (\<open>adapters/community/no_auth.py\<close>, \<open>server/auth_loader.py\<close>) and the gate of the admin routes
  (\<open>_auth_dep.py\<close>). The resolver and the guarded application are any programs.
\<close>

section \<open>The middleware\<close>

text \<open>What the middleware reads of an ASGI scope, and the principal stashed on it.\<close>

record scope =
  sc_type :: string
  sc_method :: "string option"
  sc_path :: string
  sc_user :: "request_user option"

datatype 'r reply = AppReply 'r | WsClose nat | JsonReply nat string

text \<open>\<open>AuthStrategy\<close>: the resolver of a connection.\<close>

type_synonym 's auth_strategy = "scope \<Rightarrow> ('s, request_user) prog"

record auth_middleware =
  rm_requires_principal :: "scope \<Rightarrow> bool"
  rm_on_reject :: "scope \<Rightarrow> nat \<Rightarrow> string \<Rightarrow> nat \<times> string"

definition ws_policy_violation :: nat where
  "ws_policy_violation = 1008"

definition default_requires_principal :: "string set \<Rightarrow> string list \<Rightarrow> scope \<Rightarrow> bool" where
  "default_requires_principal allowed opened sc =
     (if sc_path sc \<in> allowed then False else \<not> list_ex (startswith (sc_path sc)) opened)"

definition default_on_reject :: "scope \<Rightarrow> nat \<Rightarrow> string \<Rightarrow> nat \<times> string" where
  "default_on_reject sc code detail = (code, detail)"

definition new_auth_middleware ::
    "string set \<Rightarrow> string list \<Rightarrow> (scope \<Rightarrow> bool) option \<Rightarrow> (scope \<Rightarrow> nat \<Rightarrow> string \<Rightarrow> nat \<times> string) option \<Rightarrow>
     auth_middleware" where
  "new_auth_middleware allowed opened requires_principal on_reject =
     \<lparr>rm_requires_principal = (case requires_principal of Some p \<Rightarrow> p
        | None \<Rightarrow> default_requires_principal allowed opened),
      rm_on_reject = (case on_reject of Some r \<Rightarrow> r | None \<Rightarrow> default_on_reject)\<rparr>"

definition auth_reject :: "auth_middleware \<Rightarrow> scope \<Rightarrow> nat \<Rightarrow> string \<Rightarrow> 'r reply" where
  "auth_reject M sc code detail =
     (if sc_type sc = ''websocket'' then WsClose ws_policy_violation
      else (case rm_on_reject M sc code detail of (c, body) \<Rightarrow> JsonReply c body))"

definition pass_on :: "(scope \<Rightarrow> ('s, 'r) prog) \<Rightarrow> scope \<Rightarrow> ('s, 'r reply) prog" where
  "pass_on app sc = bnd (app sc) (\<lambda>r. ret (AppReply r))"

definition auth_middleware_call ::
    "auth_middleware \<Rightarrow> 's auth_strategy \<Rightarrow> (scope \<Rightarrow> ('s, 'r) prog) \<Rightarrow> scope \<Rightarrow> ('s, 'r reply) prog" where
  "auth_middleware_call M resolve app sc = (\<lambda>s.
     if sc_type sc \<notin> {''http'', ''websocket''} \<or> sc_method sc = Some ''OPTIONS'' then pass_on app sc s
     else if \<not> rm_requires_principal M sc then pass_on app sc s
     else (case resolve sc s of
         (Inl (HTTPException code detail), t) \<Rightarrow> (Inr (auth_reject M sc code detail), t)
       | (Inl e, t) \<Rightarrow> (Inl e, t)
       | (Inr user, t) \<Rightarrow> pass_on app (sc\<lparr>sc_user := Some user\<rparr>) t))"

section \<open>Strategies\<close>

text \<open>\<open>NoAuth\<close>.\<close>

definition no_auth :: "'s auth_strategy" where
  "no_auth sc = ret anonymous"

definition noauth :: string where
  "noauth = ''noauth''"

definition auth_strategy_group :: string where
  "auth_strategy_group = ''akgentic.infra.auth.strategies''"

text \<open>
  An entry point of the group: its name, and what loading it and calling the factory gives, a strategy
  or an object of another type, shown by its text.
\<close>

type_synonym 's entry_point = "string \<times> (exn + (string + 's auth_strategy))"

definition unknown_strategy :: "string \<Rightarrow> 's entry_point list \<Rightarrow> exn" where
  "unknown_strategy n eps = UnknownAuthStrategyError (''No auth strategy named '' @ repr_str n @
     '' under entry-point group '' @ repr_str auth_strategy_group @ ''. Discoverable: ['' @
     joined '', '' (map repr_str (sort (map fst eps))) @ ''].'')"

definition wrong_strategy :: "string \<Rightarrow> string \<Rightarrow> exn" where
  "wrong_strategy n shown = UnknownAuthStrategyError (''Entry point '' @ repr_str n @ '' under group '' @
     repr_str auth_strategy_group @ '' produced '' @ shown @ '', which does not satisfy the AuthStrategy protocol.'')"

definition load_auth_strategy :: "'s entry_point list \<Rightarrow> string \<Rightarrow> exn + 's auth_strategy" where
  "load_auth_strategy eps n =
     (if n = noauth then Inr no_auth
      else (case filter (\<lambda>ep. fst ep = n) eps of
          [] \<Rightarrow> Inl (unknown_strategy n eps)
        | ep # _ \<Rightarrow> (case snd ep of
              Inl e \<Rightarrow> Inl e
            | Inr (Inl shown) \<Rightarrow> Inl (wrong_strategy n shown)
            | Inr (Inr strategy) \<Rightarrow> Inr strategy)))"

text \<open>\<open>require_authenticated_principal\<close>: the principal is stashed again for the mutation log.\<close>

definition require_authenticated_principal :: "request_user \<Rightarrow> (request_user option, string) prog" where
  "require_authenticated_principal user = andthen (writing (\<lambda>_. Some user)) (ret (ru_user_id user))"

section \<open>What a guarded request carries\<close>

definition guarded :: "auth_middleware \<Rightarrow> scope \<Rightarrow> bool" where
  "guarded M sc \<longleftrightarrow> sc_type sc \<in> {''http'', ''websocket''} \<and> sc_method sc \<noteq> Some ''OPTIONS'' \<and>
     rm_requires_principal M sc"

lemma guarded_call:
  "guarded M sc \<Longrightarrow> auth_middleware_call M resolve app sc s =
     (case resolve sc s of
        (Inl (HTTPException code detail), t) \<Rightarrow> (Inr (auth_reject M sc code detail), t)
      | (Inl e, t) \<Rightarrow> (Inl e, t)
      | (Inr user, t) \<Rightarrow> pass_on app (sc\<lparr>sc_user := Some user\<rparr>) t)"
  by (auto simp: guarded_def auth_middleware_call_def)

text \<open>The team routes behind the middleware.\<close>

definition identified_endpoint ::
    "('s, 'f, 'r) server_wiring \<Rightarrow> uuid \<Rightarrow> team_action \<Rightarrow> scope \<Rightarrow> (('s, 'f, 'r) app, team_answer) prog" where
  "identified_endpoint V i act sc = team_endpoint V (get_request_user (sc_user sc)) i act"

text \<open>
  C5. Behind the middleware a request speaks for the principal its credentials resolve to, and for nobody
  else: a principal already on the scope plays no part, a request whose resolver refuses it reaches no
  route, and one whose principal the policy does not let reach the team gets 404.
\<close>

theorem guarded_request_is_identified:
  assumes "guarded M sc" "\<And>x. resolve (sc\<lparr>sc_user := x\<rparr>) = resolve sc"
    and "\<And>x. rm_requires_principal M (sc\<lparr>sc_user := x\<rparr>) = rm_requires_principal M sc"
    and "\<And>x. rm_on_reject M (sc\<lparr>sc_user := x\<rparr>) = rm_on_reject M sc"
  shows "auth_middleware_call M resolve (identified_endpoint V i act) (sc\<lparr>sc_user := forged\<rparr>) s =
    (case resolve sc s of
       (Inl (HTTPException code detail), t) \<Rightarrow> (Inr (auth_reject M sc code detail), t)
     | (Inl e, t) \<Rightarrow> (Inl e, t)
     | (Inr user, t) \<Rightarrow>
         if \<exists>p. get_team (w_tier (rw_service V)) i (sv_tier (app_service t)) = Some p \<and>
               ap_is_allowed (rw_policy V) (team_context i p) user
         then bnd (serve_action V i act) (\<lambda>r. ret (AppReply r)) t
         else (Inl not_found_404, t))"
proof -
  have g: "guarded M (sc\<lparr>sc_user := forged\<rparr>)" using assms(1,3) by (simp add: guarded_def)
  have r: "auth_reject M (sc\<lparr>sc_user := forged\<rparr>) c d = auth_reject M sc c d" for c d
    using assms(4) by (simp add: auth_reject_def)
  have e: "pass_on (identified_endpoint V i act) (sc\<lparr>sc_user := Some user\<rparr>) t =
      (if \<exists>p. get_team (w_tier (rw_service V)) i (sv_tier (app_service t)) = Some p \<and>
             ap_is_allowed (rw_policy V) (team_context i p) user
       then bnd (serve_action V i act) (\<lambda>r. ret (AppReply r)) t else (Inl not_found_404, t))" for user t
    by (auto simp: pass_on_def identified_endpoint_def get_request_user_def team_endpoint_def
        require_team_access_def bnd_def split: option.splits)
  show ?thesis
    unfolding guarded_call [OF g] assms(2)
    by (simp add: r e split: prod.split sum.split exn.split)
qed

text \<open>A tier whose resolver reads the path of a request; alice owns team 7.\<close>

definition sample_resolver :: "'s auth_strategy" where
  "sample_resolver sc = (if sc_path sc = ''/teams/7/stop'' then ret alice
     else throw (HTTPException 401 ''Unauthorized''))"

definition sample_scope :: "string \<Rightarrow> scope" where
  "sample_scope path = \<lparr>sc_type = ''http'', sc_method = Some ''POST'', sc_path = path, sc_user = None\<rparr>"

definition sample_middleware :: auth_middleware where
  "sample_middleware = new_auth_middleware {''/readiness''} [''/auth/''] None None"

lemma sample_guarded:
  "guarded sample_middleware (sample_scope ''/teams/7/stop'')"
  "guarded sample_middleware (sample_scope ''/teams'')"
  by (simp_all add: guarded_def sample_middleware_def new_auth_middleware_def default_requires_principal_def
      sample_scope_def startswith_def)

lemma sample_middleware_stash:
  "rm_requires_principal sample_middleware (sc\<lparr>sc_user := x\<rparr>) = rm_requires_principal sample_middleware sc"
  "rm_on_reject sample_middleware (sc\<lparr>sc_user := x\<rparr>) = rm_on_reject sample_middleware sc"
  "sample_resolver (sc\<lparr>sc_user := x\<rparr>) = sample_resolver sc"
  by (simp_all add: sample_middleware_def new_auth_middleware_def default_requires_principal_def
      default_on_reject_def sample_resolver_def fun_eq_iff)

theorem guarded_request_is_identified_witness:
  "auth_middleware_call sample_middleware sample_resolver (identified_endpoint ref_server 7 GetTeam)
     ((sample_scope ''/teams'')\<lparr>sc_user := Some alice\<rparr>) (ref_app RUNNING) =
     (Inr (JsonReply 401 ''Unauthorized''), ref_app RUNNING)
   \<and> auth_middleware_call sample_middleware sample_resolver (identified_endpoint ref_server 7 PostStop)
     ((sample_scope ''/teams/7/stop'')\<lparr>sc_user := Some anonymous\<rparr>) (ref_app STOPPED) =
     (Inl (HTTPException 409 (team_msg 7 '' is already stopped'')), ref_app STOPPED)"
proof -
  have serve: "serve_action ref_server 7 PostStop (ref_app STOPPED) =
      (Inl (HTTPException 409 (team_msg 7 '' is already stopped'')), ref_app STOPPED)"
    using sample_conflict endpoint_allowed [of ref_server 7 "ref_app STOPPED" _ alice PostStop] ref_allowed [of STOPPED]
    by (simp add: ref_app_get_team)
  show ?thesis
    using guarded_request_is_identified [where resolve = sample_resolver, OF sample_guarded(2) sample_middleware_stash(3,1,2),
        of ref_server 7 GetTeam "Some alice" "ref_app RUNNING"]
      guarded_request_is_identified [where resolve = sample_resolver, OF sample_guarded(1) sample_middleware_stash(3,1,2),
        of ref_server 7 PostStop "Some anonymous" "ref_app STOPPED"] serve ref_allowed [of STOPPED]
    by (simp add: sample_resolver_def sample_scope_def auth_reject_def sample_middleware_def new_auth_middleware_def
        default_on_reject_def ref_app_get_team bnd_def)
qed

end
