(* ===== verification/AdminCatalog.thy ===== *)
theory AdminCatalog
  imports ServerAuth
begin

text \<open>
  The admin catalog as the server mounts it: the gates of \<open>server/routes/_catalog_authz.py\<close>, the caller
  scope of \<open>_catalog_caller_identity.py\<close>, their attachment to the catalog's router in
  \<open>server/modules/core.py\<close>, and the mutation log of \<open>_admin_mutation_log.py\<close>. The catalog itself, its
  handlers and the YAML reader are any.
\<close>

section \<open>Owners\<close>

record catalog_entry =
  ce_kind :: string
  ce_user_id :: string

definition of_kind :: "string \<Rightarrow> catalog_entry list \<Rightarrow> catalog_entry list" where
  "of_kind k es = filter (\<lambda>e. ce_kind e = k) es"

definition resolve_namespace_owner :: "(string \<Rightarrow> catalog_entry list) \<Rightarrow> string \<Rightarrow> string option" where
  "resolve_namespace_owner list_by_namespace ns =
     (let entries = list_by_namespace ns in
      case of_kind ''team'' entries of
        e # _ \<Rightarrow> Some (ce_user_id e)
      | [] \<Rightarrow> (case of_kind ''meta'' entries of e # _ \<Rightarrow> Some (ce_user_id e) | [] \<Rightarrow> None))"

section \<open>Gates\<close>

definition not_your_namespace :: exn where
  "not_your_namespace = HTTPException 403 ''not authorized to modify this namespace''"

definition require_namespace_owner_or_admin ::
    "(string \<Rightarrow> catalog_entry list) \<Rightarrow> string \<Rightarrow> request_user \<Rightarrow> exn + unit" where
  "require_namespace_owner_or_admin entries ns user =
     (if ''admin'' \<in> set (ru_roles user) then Inr ()
      else case resolve_namespace_owner entries ns of
          None \<Rightarrow> Inl not_your_namespace
        | Some owner \<Rightarrow> if owner \<noteq> ru_user_id user then Inl not_your_namespace else Inr ())"

text \<open>A body is read by \<open>decode\<close>, nothing when it is not UTF-8, and \<open>safe_load\<close>, nothing when it is not YAML.\<close>

record 'b body_reader =
  br_decode :: "'b \<Rightarrow> string option"
  br_safe_load :: "string \<Rightarrow> json option"

definition extract_bundle_namespace :: "'b body_reader \<Rightarrow> 'b \<Rightarrow> string option" where
  "extract_bundle_namespace B raw =
     (case br_decode B raw of
        None \<Rightarrow> None
      | Some t \<Rightarrow>
          (case br_safe_load B t of
             Some (JObj d) \<Rightarrow>
               (case map_of d ''namespace'' of
                  Some (JStr ns) \<Rightarrow> if ns \<noteq> [] then Some ns else None
                | _ \<Rightarrow> None)
           | _ \<Rightarrow> None))"

definition require_import_owner_or_admin ::
    "'b body_reader \<Rightarrow> (string \<Rightarrow> catalog_entry list) \<Rightarrow> 'b \<Rightarrow> request_user \<Rightarrow> exn + unit" where
  "require_import_owner_or_admin B entries raw user =
     (if ''admin'' \<in> set (ru_roles user) then Inr ()
      else case extract_bundle_namespace B raw of
          None \<Rightarrow> Inr ()
        | Some ns \<Rightarrow>
            (case resolve_namespace_owner entries ns of
               None \<Rightarrow> Inr ()
             | Some owner \<Rightarrow> if owner = ru_user_id user then Inr () else Inl not_your_namespace))"

text \<open>The caller the request runs as; nobody when an administrator reads everything.\<close>

definition scope_catalog_caller_identity :: "bool \<Rightarrow> request_user \<Rightarrow> string \<Rightarrow> string option" where
  "scope_catalog_caller_identity see_all user verb =
     (let unscoped = see_all \<and> ''admin'' \<in> set (ru_roles user) \<and> verb = ''GET''
      in if unscoped then None else Some (ru_user_id user))"

section \<open>The mounted router\<close>

datatype gate = NamespaceGate | ImportGate

record admin_route =
  ar_path :: string
  ar_methods :: "string list option"
  ar_api_route :: bool
  ar_gates :: "gate list"

definition owner_or_admin_gated_routes :: "(string \<times> string) list" where
  "owner_or_admin_gated_routes =
     [(''PUT'', ''/catalog/{kind}/{id}''), (''DELETE'', ''/catalog/{kind}/{id}''),
      (''PUT'', ''/catalog/namespace/{namespace}/meta''), (''DELETE'', ''/catalog/namespace/{namespace}'')]"

definition import_owner_or_admin_gated_route :: "string \<times> string" where
  "import_owner_or_admin_gated_route = (''POST'', ''/catalog/namespace/import'')"

definition serves :: "string \<times> string \<Rightarrow> admin_route \<Rightarrow> bool" where
  "serves mp r = (case mp of (m, p) \<Rightarrow> ar_path r = p \<and>
     (case ar_methods r of None \<Rightarrow> False | Some ms \<Rightarrow> m \<in> set ms))"

definition attach_gate :: "gate \<Rightarrow> string \<times> string \<Rightarrow> admin_route list \<Rightarrow> admin_route list" where
  "attach_gate g mp rs =
     map (\<lambda>r. if ar_api_route r \<and> serves mp r then r\<lparr>ar_gates := ar_gates r @ [g]\<rparr> else r) rs"

definition attach_owner_or_admin_gate :: "admin_route list \<Rightarrow> admin_route list" where
  "attach_owner_or_admin_gate rs = fold (attach_gate NamespaceGate) owner_or_admin_gated_routes rs"

definition attach_import_owner_or_admin_gate :: "admin_route list \<Rightarrow> admin_route list" where
  "attach_import_owner_or_admin_gate rs = attach_gate ImportGate import_owner_or_admin_gated_route rs"

definition admin_prefix :: string where
  "admin_prefix = ''/admin''"

definition build_admin_catalog_router :: "admin_route list \<Rightarrow> admin_route list" where
  "build_admin_catalog_router catalog_router =
     map (\<lambda>r. r\<lparr>ar_path := admin_prefix @ ar_path r\<rparr>)
       (attach_import_owner_or_admin_gate (attach_owner_or_admin_gate catalog_router))"

section \<open>A request\<close>

text \<open>
  \<open>aq_namespace\<close> is what the framework binds from the path or the query; a gate that needs it answers 422
  without it. The router-level dependencies run first, then the route's gates, then the handler, as
  the caller.
\<close>

record 'b admin_request =
  aq_method :: string
  aq_route :: string
  aq_url_path :: string
  aq_namespace :: "string option"
  aq_query_namespace :: "string option"
  aq_all :: bool
  aq_body :: 'b

record ('c, 'b, 'r) admin_catalog =
  ac_routes :: "admin_route list"
  ac_entries :: "'c \<Rightarrow> string \<Rightarrow> catalog_entry list"
  ac_reader :: "'b body_reader"
  ac_handler :: "string option \<Rightarrow> 'b admin_request \<Rightarrow> ('c, 'r) prog"

definition run_gate ::
    "('c, 'b, 'r) admin_catalog \<Rightarrow> request_user \<Rightarrow> 'b admin_request \<Rightarrow> gate \<Rightarrow> ('c, unit) prog" where
  "run_gate A user q g = reading (\<lambda>c. case g of
     NamespaceGate \<Rightarrow>
       (case aq_namespace q of
          None \<Rightarrow> Inl (HTTPException 422 ''Unprocessable Entity'')
        | Some ns \<Rightarrow> require_namespace_owner_or_admin (ac_entries A c) ns user)
   | ImportGate \<Rightarrow> require_import_owner_or_admin (ac_reader A) (ac_entries A c) (aq_body q) user)"

definition admin_call ::
    "('c, 'b, 'r) admin_catalog \<Rightarrow> request_user \<Rightarrow> 'b admin_request \<Rightarrow> ('c, 'r) prog" where
  "admin_call A user q =
     (case List.find (serves (aq_method q, aq_route q)) (build_admin_catalog_router (ac_routes A)) of
        None \<Rightarrow> throw (HTTPException 404 ''Not Found'')
      | Some r \<Rightarrow>
          andthen (for_each (run_gate A user q) (ar_gates r))
            (ac_handler A (scope_catalog_caller_identity (aq_all q) user (aq_method q)) q))"

section \<open>The mutation log\<close>

definition admin_catalog_prefix :: string where
  "admin_catalog_prefix = ''/admin/catalog/''"

definition mutation_methods :: "(string \<times> string) list" where
  "mutation_methods = [(''POST'', ''create''), (''PUT'', ''update''), (''DELETE'', ''delete'')]"

record log_record =
  lr_principal_id :: string
  lr_kind :: string
  lr_namespace :: string
  lr_entry_id :: string
  lr_operation :: string
  lr_status_code :: nat

text \<open>\<open>split('/')\<close>.\<close>

fun split_slash :: "string \<Rightarrow> string list" where
  "split_slash [] = [[]]"
| "split_slash (c # s) =
     (if c = CHR ''/'' then [] # split_slash s
      else (case split_slash s of [] \<Rightarrow> [[c]] | seg # segs \<Rightarrow> (c # seg) # segs))"

definition parse_kind_and_id :: "string \<Rightarrow> string \<times> string" where
  "parse_kind_and_id path =
     (case filter (\<lambda>seg. seg \<noteq> []) (split_slash (drop (length admin_catalog_prefix) path)) of
        [] \<Rightarrow> ([], [])
      | kind # rest \<Rightarrow> (kind, (case rest of [] \<Rightarrow> [] | i # _ \<Rightarrow> i)))"

definition is_logged :: "'b admin_request \<Rightarrow> bool" where
  "is_logged q \<longleftrightarrow>
     (if map_of mutation_methods (aq_method q) = None then False
      else startswith (aq_url_path q) admin_catalog_prefix)"

definition resolve_principal_id :: "request_user option \<Rightarrow> string" where
  "resolve_principal_id stash = (case stash of Some user \<Rightarrow> ru_user_id user | None \<Rightarrow> [])"

definition emit_log :: "request_user option \<Rightarrow> 'b admin_request \<Rightarrow> nat \<Rightarrow> log_record" where
  "emit_log stash q status_code =
     (case parse_kind_and_id (aq_url_path q) of (kind, entry_id) \<Rightarrow>
        \<lparr>lr_principal_id = resolve_principal_id stash, lr_kind = kind,
         lr_namespace = (case aq_query_namespace q of None \<Rightarrow> [] | Some ns \<Rightarrow> ns), lr_entry_id = entry_id,
         lr_operation = (case map_of mutation_methods (aq_method q) of None \<Rightarrow> [] | Some op \<Rightarrow> op),
         lr_status_code = status_code\<rparr>)"

text \<open>
  \<open>dispatch\<close>: the application below answers with a status, or an exception no handler maps passes
  through; the log is the list of records written so far.
\<close>

definition log_dispatch ::
    "('c, exn + nat) prog \<Rightarrow> request_user option \<Rightarrow> 'b admin_request \<Rightarrow> ('c \<times> log_record list, nat) prog" where
  "log_dispatch call_next stash q = (\<lambda>(c, log).
     (case call_next c of
        (Inl e, d) \<Rightarrow> (Inl e, (d, log))
      | (Inr (Inl e), d) \<Rightarrow> (Inl e, (d, log))
      | (Inr (Inr status_code), d) \<Rightarrow>
          if \<not> is_logged q then (Inr status_code, (d, log))
          else (Inr status_code, (d, log @ [emit_log stash q status_code]))))"

text \<open>The exception handlers of the application, for the errors a catalog request may raise.\<close>

definition answered :: "('r \<Rightarrow> nat) \<Rightarrow> ('c, 'r) prog \<Rightarrow> ('c, exn + nat) prog" where
  "answered status_of m = (\<lambda>c. case m c of
     (Inr r, d) \<Rightarrow> (Inr (Inr (status_of r)), d)
   | (Inl (HTTPException code _), d) \<Rightarrow> (Inr (Inr code), d)
   | (Inl e, d) \<Rightarrow> (Inr (case server_error_response e of Some (st, _, _) \<Rightarrow> Inr st | None \<Rightarrow> Inl e), d))"

definition admin_endpoint ::
    "('c, 'b, 'r) admin_catalog \<Rightarrow> ('r \<Rightarrow> nat) \<Rightarrow> request_user \<Rightarrow> 'b admin_request \<Rightarrow>
     ('c \<times> log_record list, nat) prog" where
  "admin_endpoint A status_of user q =
     log_dispatch (answered status_of (admin_call A user q))
       (snd (require_authenticated_principal user None)) q"

section \<open>The gates of a route\<close>

lemma serves_gates [simp]:
  "serves mp (r\<lparr>ar_gates := gs\<rparr>) = serves mp r"
  by (simp add: serves_def)

lemma attach_gates:
  "fold (attach_gate g) mps rs =
     map (\<lambda>r. r\<lparr>ar_gates := ar_gates r @ map (\<lambda>_. g) (filter (\<lambda>mp. ar_api_route r \<and> serves mp r) mps)\<rparr>) rs"
proof (induction mps arbitrary: rs)
  case (Cons mp mps)
  show ?case by (simp add: Cons) (simp add: attach_gate_def)
qed simp

lemma serves_admin: "serves (m, admin_prefix @ p) (r\<lparr>ar_path := admin_prefix @ ar_path r\<rparr>) = serves (m, p) r"
  by (simp add: serves_def)

lemma admin_router:
  "build_admin_catalog_router rs = map (\<lambda>r. r\<lparr>ar_path := admin_prefix @ ar_path r, ar_gates := ar_gates r @
     map (\<lambda>_. NamespaceGate) (filter (\<lambda>mp. ar_api_route r \<and> serves mp r) owner_or_admin_gated_routes) @
     (if ar_api_route r \<and> serves import_owner_or_admin_gated_route r then [ImportGate] else [])\<rparr>) rs"
  unfolding build_admin_catalog_router_def attach_owner_or_admin_gate_def attach_import_owner_or_admin_gate_def attach_gates
  by (simp add: attach_gate_def)

lemma find_map: "List.find P (map f xs) = map_option f (List.find (P \<circ> f) xs)"
  by (induction xs) simp_all

text \<open>The catalog's router serves the route; its routes come without gates.\<close>

definition catalog_serves :: "admin_route list \<Rightarrow> string \<times> string \<Rightarrow> bool" where
  "catalog_serves rs mp \<longleftrightarrow> list_all (\<lambda>r. ar_api_route r \<and> ar_gates r = []) rs \<and> list_ex (serves mp) rs"

lemma found_route:
  assumes "catalog_serves rs (m, p)"
  obtains r where "serves (m, p) r" "List.find (serves (m, admin_prefix @ p)) (build_admin_catalog_router rs) =
      Some (r\<lparr>ar_path := admin_prefix @ ar_path r, ar_gates :=
        map (\<lambda>_. NamespaceGate) (filter (\<lambda>mp. serves mp r) owner_or_admin_gated_routes) @
        (if serves import_owner_or_admin_gated_route r then [ImportGate] else [])\<rparr>)"
proof -
  obtain r where r: "List.find (serves (m, p)) rs = Some r"
    using assms find_None_iff [of "serves (m, p)" rs] by (cases "List.find (serves (m, p)) rs") (auto simp: catalog_serves_def list_ex_iff)
  then have "r \<in> set rs" "serves (m, p) r" by (auto simp: find_Some_iff)
  moreover from this have "ar_api_route r" "ar_gates r = []" using assms by (auto simp: catalog_serves_def list_all_iff)
  ultimately show ?thesis
    using that [of r] r by (simp add: admin_router find_map comp_def serves_admin)
qed

lemma namespace_gates:
  "gs \<noteq> [] \<Longrightarrow> for_each (run_gate A user q) (map (\<lambda>_. NamespaceGate) gs) c = run_gate A user q NamespaceGate c"
proof (induction gs)
  case (Cons g gs)
  have "snd (run_gate A user q NamespaceGate c) = c" by (simp add: run_gate_def)
  then obtain x where x: "run_gate A user q NamespaceGate c = (x, c)" by (metis surjective_pairing)
  show ?case
  proof (cases "gs = []")
    case False
    then show ?thesis using Cons x by (cases x) (simp_all add: andthen_def bnd_def)
  qed (use x in \<open>cases x; simp add: andthen_def bnd_def\<close>)
qed simp

lemma gated_not_import: "mp \<in> set owner_or_admin_gated_routes \<Longrightarrow> serves mp r \<Longrightarrow> \<not> serves import_owner_or_admin_gated_route r"
  by (auto simp: owner_or_admin_gated_routes_def import_owner_or_admin_gated_route_def serves_def)

lemma import_not_gated: "serves import_owner_or_admin_gated_route r \<Longrightarrow> filter (\<lambda>mp. serves mp r) owner_or_admin_gated_routes = []"
  using gated_not_import by (auto simp: filter_empty_conv)

section \<open>Who may change a namespace\<close>

definition may_change :: "(string \<Rightarrow> catalog_entry list) \<Rightarrow> request_user \<Rightarrow> string \<Rightarrow> bool" where
  "may_change entries user ns \<longleftrightarrow>
     ''admin'' \<in> set (ru_roles user) \<or> resolve_namespace_owner entries ns = Some (ru_user_id user)"

lemma namespace_gate_run:
  "aq_namespace q = Some ns \<Longrightarrow> run_gate A user q NamespaceGate c =
     (if may_change (ac_entries A c) user ns then Inr () else Inl not_your_namespace, c)"
  by (auto simp: run_gate_def require_namespace_owner_or_admin_def may_change_def split: option.split)

lemma scoped_write: "verb \<noteq> ''GET'' \<Longrightarrow> scope_catalog_caller_identity see_all user verb = Some (ru_user_id user)"
  by (simp add: scope_catalog_caller_identity_def)

lemma gated_call:
  assumes "catalog_serves (ac_routes A) (aq_method q, p)" "(aq_method q, p) \<in> set owner_or_admin_gated_routes"
    and "aq_route q = admin_prefix @ p" "aq_namespace q = Some ns"
  shows "admin_call A user q c =
    (if may_change (ac_entries A c) user ns then ac_handler A (Some (ru_user_id user)) q c
     else (Inl not_your_namespace, c))"
proof -
  obtain r where r: "serves (aq_method q, p) r"
      "List.find (serves (aq_method q, admin_prefix @ p)) (build_admin_catalog_router (ac_routes A)) =
        Some (r\<lparr>ar_path := admin_prefix @ ar_path r, ar_gates :=
          map (\<lambda>_. NamespaceGate) (filter (\<lambda>mp. serves mp r) owner_or_admin_gated_routes) @
          (if serves import_owner_or_admin_gated_route r then [ImportGate] else [])\<rparr>)"
    using found_route [OF assms(1)] by blast
  have "filter (\<lambda>mp. serves mp r) owner_or_admin_gated_routes \<noteq> []"
    using r(1) assms(2) by (auto simp: filter_empty_conv)
  moreover have "\<not> serves import_owner_or_admin_gated_route r" using gated_not_import [OF assms(2) r(1)] .
  moreover have "aq_method q \<noteq> ''GET''" using assms(2) by (auto simp: owner_or_admin_gated_routes_def)
  ultimately show ?thesis
    using r(2) assms(3)
    by (simp add: admin_call_def andthen_def bnd_def namespace_gates namespace_gate_run [OF assms(4)] scoped_write)
qed

text \<open>
  C7. A change or a deletion in the admin catalog is carried out only for an administrator or the owner of
  the namespace, as that caller; for anyone else it is refused with 403, the catalog stays as it was,
  and the refusal is logged with the principal.
\<close>

theorem catalog_mutation_needs_ownership:
  assumes "catalog_serves (ac_routes A) (aq_method q, p)" "(aq_method q, p) \<in> set owner_or_admin_gated_routes"
    and "aq_route q = admin_prefix @ p" "aq_namespace q = Some ns"
    and "startswith (aq_url_path q) ''/admin/catalog/''"
  shows "admin_endpoint A status_of user q (c, log) =
    (if may_change (ac_entries A c) user ns
     then (case answered status_of (ac_handler A (Some (ru_user_id user)) q) c of
         (Inr (Inr k), d) \<Rightarrow> (Inr k, (d, log @ [emit_log (Some user) q k]))
       | (Inr (Inl e), d) \<Rightarrow> (Inl e, (d, log))
       | (Inl e, d) \<Rightarrow> (Inl e, (d, log)))
     else (Inr 403, (c, log @ [emit_log (Some user) q 403])))"
proof -
  have l: "is_logged q"
    using assms(2,5) by (auto simp: is_logged_def mutation_methods_def admin_catalog_prefix_def owner_or_admin_gated_routes_def)
  have "answered status_of (admin_call A user q) c =
      (if may_change (ac_entries A c) user ns then answered status_of (ac_handler A (Some (ru_user_id user)) q) c
       else (Inr (Inr 403), c))"
    by (simp add: answered_def gated_call [OF assms(1-4)] not_your_namespace_def)
  then show ?thesis
    using l by (simp add: admin_endpoint_def log_dispatch_def require_authenticated_principal_def andthen_def bnd_def
        split: prod.split sum.split)
qed


section \<open>A small catalog\<close>

text \<open>The namespace \<open>shop\<close> belongs to alice; every handler empties the catalog and answers 200. A body is a YAML document.\<close>

definition small_route :: "string \<times> string \<Rightarrow> admin_route" where
  "small_route mp = \<lparr>ar_path = snd mp, ar_methods = Some [fst mp], ar_api_route = True, ar_gates = []\<rparr>"

definition small_catalog :: "(catalog_entry list, json, nat) admin_catalog" where
  "small_catalog = \<lparr>ac_routes = map small_route
       [(''GET'', ''/catalog/{kind}''), (''DELETE'', ''/catalog/{kind}/{id}''), import_owner_or_admin_gated_route],
     ac_entries = (\<lambda>c ns. if ns = ''shop'' then c else []),
     ac_reader = \<lparr>br_decode = (\<lambda>_. Some []), br_safe_load = (\<lambda>_. Some (JObj [(''namespace'', JStr ''shop'')]))\<rparr>,
     ac_handler = (\<lambda>_ _ _. (Inr 200, []))\<rparr>"

definition shop :: "catalog_entry list" where
  "shop = [\<lparr>ce_kind = ''meta'', ce_user_id = ''bob''\<rparr>, \<lparr>ce_kind = ''team'', ce_user_id = ''alice''\<rparr>]"

definition small_request :: "string \<Rightarrow> string \<Rightarrow> string \<Rightarrow> json admin_request" where
  "small_request verb rt url = \<lparr>aq_method = verb, aq_route = rt, aq_url_path = url, aq_namespace = Some ''shop'',
     aq_query_namespace = Some ''shop'', aq_all = True, aq_body = JNull\<rparr>"

abbreviation delete_request :: "json admin_request" where
  "delete_request \<equiv> small_request ''DELETE'' ''/admin/catalog/{kind}/{id}'' ''/admin/catalog/agent/seller''"

lemmas small_defs = small_catalog_def small_route_def shop_def small_request_def may_change_def
  resolve_namespace_owner_def of_kind_def alice_def anonymous_def Let_def

lemma small_serves:
  "catalog_serves (ac_routes small_catalog) (''DELETE'', ''/catalog/{kind}/{id}'')"
  "catalog_serves (ac_routes small_catalog) import_owner_or_admin_gated_route"
  by (simp_all add: catalog_serves_def small_catalog_def small_route_def serves_def import_owner_or_admin_gated_route_def)

theorem catalog_mutation_needs_ownership_witness:
  "admin_endpoint small_catalog id alice delete_request (shop, []) =
     (Inr 200, ([], [emit_log (Some alice) delete_request 200]))
   \<and> admin_endpoint small_catalog id (alice\<lparr>ru_user_id := ''bob''\<rparr>) delete_request (shop, []) =
     (Inr 403, (shop, [\<lparr>lr_principal_id = ''bob'', lr_kind = ''agent'', lr_namespace = ''shop'', lr_entry_id = ''seller'',
        lr_operation = ''delete'', lr_status_code = 403\<rparr>]))"
proof -
  have "admin_endpoint small_catalog id u delete_request (shop, []) =
    (if may_change (ac_entries small_catalog shop) u ''shop''
     then (case answered id (ac_handler small_catalog (Some (ru_user_id u)) delete_request) shop of
         (Inr (Inr k), d) \<Rightarrow> (Inr k, (d, [] @ [emit_log (Some u) delete_request k]))
       | (Inr (Inl e), d) \<Rightarrow> (Inl e, (d, []))
       | (Inl e, d) \<Rightarrow> (Inl e, (d, [])))
     else (Inr 403, (shop, [] @ [emit_log (Some u) delete_request 403])))" for u
    by (rule catalog_mutation_needs_ownership [where p = "''/catalog/{kind}/{id}''"])
      (simp_all add: small_serves(1) small_request_def owner_or_admin_gated_routes_def admin_prefix_def startswith_def)
  then show ?thesis
    by (simp add: small_defs answered_def)
      (simp add: emit_log_def parse_kind_and_id_def admin_catalog_prefix_def resolve_principal_id_def mutation_methods_def)
qed


end
