(* ===== verification/CoreApp.thy ===== *)
theory CoreApp
  imports AppRoutes AdminCatalog
begin

text \<open>
  The community application: typed slots of \<open>app.state\<close> (\<open>utils.py\<close>, \<open>server/state_keys.py\<close>), the
  validators of \<open>server/settings.py\<close> it is configured by, the core module and its drain lifespan
  (\<open>server/modules/core.py\<close>), the readiness probe and the application factory (\<open>server/app.py\<close>).
\<close>

section \<open>State keys\<close>

text \<open>A slot that was set holds a value or \<open>None\<close>.\<close>

record 'v state_key =
  sk_name :: string
  sk_default :: "'v option"
  sk_required :: bool

definition not_set :: "'v state_key \<Rightarrow> exn" where
  "not_set k = LookupError (''app.state.'' @ sk_name k @ '' is not set'')"

definition key_set :: "'v state_key \<Rightarrow> 'v option \<Rightarrow> (string, 'v option) dict \<Rightarrow> (string, 'v option) dict" where
  "key_set k v slots = AList.update (sk_name k) v slots"

definition key_get :: "'v state_key \<Rightarrow> (string, 'v option) dict \<Rightarrow> exn + 'v option" where
  "key_get k slots =
     (case map_of slots (sk_name k) of
        None \<Rightarrow> if sk_required k then Inl (not_set k) else Inr (sk_default k)
      | Some v \<Rightarrow> Inr v)"

definition key_require :: "'v state_key \<Rightarrow> (string, 'v option) dict \<Rightarrow> exn + 'v" where
  "key_require k slots =
     (case key_get k slots of Inl e \<Rightarrow> Inl e | Inr None \<Rightarrow> Inl (not_set k) | Inr (Some v) \<Rightarrow> Inr v)"

definition key_entry :: "'v state_key \<Rightarrow> 'v \<Rightarrow> string \<times> 'v option" where
  "key_entry k v = (sk_name k, Some v)"

section \<open>Settings\<close>

definition valid_log_levels :: "string list" where
  "valid_log_levels = [''DEBUG'', ''INFO'', ''WARNING'', ''ERROR'', ''CRITICAL'']"

text \<open>\<open>str.upper\<close> on the letters of ASCII, the only ones a valid level has.\<close>

definition upper :: "string \<Rightarrow> string" where
  "upper s = map (\<lambda>c. let n = of_char c :: nat in if 97 \<le> n \<and> n \<le> 122 then char_of (n - 32) else c) s"

definition normalize_log_level :: "string \<Rightarrow> string" where
  "normalize_log_level v =
     (let up = upper v in if up \<notin> set valid_log_levels then ''INFO'' else up)"

record server_settings =
  st_log_level :: string
  st_cors_origins :: "string list"
  st_drain_timeout :: int
  st_pre_drain_delay :: int
  st_reader_pool_size :: int
  st_type_prefixes :: "string list"

definition valid_settings :: "server_settings \<Rightarrow> bool" where
  "valid_settings c \<longleftrightarrow> 0 \<le> st_drain_timeout c \<and> 0 \<le> st_pre_drain_delay c \<and> 1 \<le> st_reader_pool_size c"

section \<open>The slots of the server\<close>

datatype slot =
    VServices
  | VTeamService
  | VSettings server_settings
  | VConnMgr conn_mgr
  | VParsers
  | VRegistry
  | VDraining bool

definition required_key :: "string \<Rightarrow> slot state_key" where
  "required_key n = \<lparr>sk_name = n, sk_default = None, sk_required = True\<rparr>"

definition DRAINING :: "slot state_key" where
  "DRAINING = \<lparr>sk_name = ''draining'', sk_default = Some (VDraining False), sk_required = False\<rparr>"

definition SERVICES :: "slot state_key" where
  "SERVICES = required_key ''services''"

definition TEAM_SERVICE :: "slot state_key" where
  "TEAM_SERVICE = required_key ''team_service''"

definition SETTINGS :: "slot state_key" where
  "SETTINGS = required_key ''settings''"

definition CONNECTION_MANAGER :: "slot state_key" where
  "CONNECTION_MANAGER = required_key ''connection_manager''"

definition CHANNEL_REGISTRY :: "slot state_key" where
  "CHANNEL_REGISTRY = required_key ''channel_registry''"

definition CHANNEL_PARSERS :: "slot state_key" where
  "CHANNEL_PARSERS = required_key ''channel_parser_registry''"

lemmas state_keys = DRAINING_def SERVICES_def TEAM_SERVICE_def SETTINGS_def CONNECTION_MANAGER_def
  CHANNEL_REGISTRY_def CHANNEL_PARSERS_def required_key_def

section \<open>Readiness\<close>

definition readiness :: "(string, slot option) dict \<Rightarrow> nat \<times> string" where
  "readiness slots =
     (let draining = (case map_of slots ''draining'' of Some (Some (VDraining b)) \<Rightarrow> b | _ \<Rightarrow> False)
      in if draining then (503, ''draining'') else (200, ''ready''))"

section \<open>The drain lifespan\<close>

text \<open>
  Stopping all teams ends, takes longer than the timeout, or raises. \<open>cw_pool\<close> is the module-level
  pool of stream readers, once one exists; \<open>cw_log\<close> records what the shutdown did, in order.
\<close>

datatype stop_outcome = Stopped | TimedOut | StopFailed exn

datatype shutdown_event = DrainingSet bool | Slept int | ClientsClosed "nat set" | TeamsStopped | PoolClosed

record 't core_world =
  cw_teams :: 't
  cw_pool :: "int option"
  cw_log :: "shutdown_event list"

type_synonym 't core_host = "(slot option, 't core_world) host"

definition logged :: "shutdown_event \<Rightarrow> 't core_host \<Rightarrow> 't core_host" where
  "logged e s = s\<lparr>ho_world := (ho_world s)\<lparr>cw_log := cw_log (ho_world s) @ [e]\<rparr>\<rparr>"

definition set_draining :: "bool \<Rightarrow> ('t core_host, unit) prog" where
  "set_draining b = writing (\<lambda>s. logged (DrainingSet b)
     (s\<lparr>ho_slots := key_set DRAINING (Some (VDraining b)) (ho_slots s)\<rparr>))"

text \<open>\<open>_get_reader_pool\<close> and \<open>shutdown_reader_pool\<close>.\<close>

definition get_reader_pool :: "('t core_host, int) prog" where
  "get_reader_pool = (\<lambda>s. case cw_pool (ho_world s) of
     Some n \<Rightarrow> (Inr n, s)
   | None \<Rightarrow> (case key_require SETTINGS (ho_slots s) of
         Inl e \<Rightarrow> (Inl e, s)
       | Inr (VSettings c) \<Rightarrow> (Inr (st_reader_pool_size c),
           s\<lparr>ho_world := (ho_world s)\<lparr>cw_pool := Some (st_reader_pool_size c)\<rparr>\<rparr>)
       | Inr _ \<Rightarrow> (Inl (AttributeError ''ws_reader_pool_size''), s)))"

definition shutdown_reader_pool :: "('t core_host, unit) prog" where
  "shutdown_reader_pool = writing (\<lambda>s. case cw_pool (ho_world s) of
     None \<Rightarrow> s
   | Some n \<Rightarrow> logged PoolClosed (s\<lparr>ho_world := (ho_world s)\<lparr>cw_pool := None\<rparr>\<rparr>))"

definition disconnect_clients :: "(nat \<Rightarrow> bool) \<Rightarrow> ('t core_host, unit) prog" where
  "disconnect_clients closes = (\<lambda>s. case key_require CONNECTION_MANAGER (ho_slots s) of
     Inl e \<Rightarrow> (Inl e, s)
   | Inr (VConnMgr m) \<Rightarrow>
       (case cm_disconnect_all closes m of ((closed, failed), m') \<Rightarrow>
          (Inr (), logged (ClientsClosed closed)
             (s\<lparr>ho_slots := key_set CONNECTION_MANAGER (Some (VConnMgr m')) (ho_slots s)\<rparr>)))
   | Inr _ \<Rightarrow> (Inl (AttributeError ''disconnect_all''), s))"

definition stop_all_teams :: "(int \<Rightarrow> 't \<Rightarrow> stop_outcome \<times> 't) \<Rightarrow> int \<Rightarrow> ('t core_host, unit) prog" where
  "stop_all_teams stop_all timeout = (\<lambda>s. case stop_all timeout (cw_teams (ho_world s)) of (out, t) \<Rightarrow>
     (let s' = s\<lparr>ho_world := (ho_world s)\<lparr>cw_teams := t\<rparr>\<rparr> in
      case out of
        Stopped \<Rightarrow> (Inr (), logged TeamsStopped s')
      | TimedOut \<Rightarrow> (Inr (), s')
      | StopFailed e \<Rightarrow> (Inl e, s')))"

definition drain_sequence ::
    "(nat \<Rightarrow> bool) \<Rightarrow> (int \<Rightarrow> 't \<Rightarrow> stop_outcome \<times> 't) \<Rightarrow> ('t core_host, unit) prog" where
  "drain_sequence closes stop_all =
     andthen (set_draining True) (\<lambda>s. case key_require SETTINGS (ho_slots s) of
       Inl e \<Rightarrow> (Inl e, s)
     | Inr (VSettings c) \<Rightarrow>
         andthen (if 0 < st_pre_drain_delay c then writing (logged (Slept (st_pre_drain_delay c))) else ret ())
        (andthen (disconnect_clients closes)
        (andthen (stop_all_teams stop_all (st_drain_timeout c)) shutdown_reader_pool)) s
     | Inr _ \<Rightarrow> (Inl (AttributeError ''shutdown_pre_drain_delay''), s))"

text \<open>The generator has no handler around its \<open>yield\<close>: an exception thrown in there ends it at once.\<close>

definition drain_exit ::
    "(nat \<Rightarrow> bool) \<Rightarrow> (int \<Rightarrow> 't \<Rightarrow> stop_outcome \<times> 't) \<Rightarrow> exn option \<Rightarrow> 't core_host \<Rightarrow> exn option \<times> 't core_host" where
  "drain_exit closes stop_all pending s =
     (case pending of
        Some e \<Rightarrow> (Some e, s)
      | None \<Rightarrow> (case drain_sequence closes stop_all s of (Inl e, t) \<Rightarrow> (Some e, t) | (Inr _, t) \<Rightarrow> (None, t)))"

section \<open>The core module\<close>

definition api_route :: "string \<Rightarrow> string \<Rightarrow> router_route" where
  "api_route verb path = \<lparr>ro_path = Some path, ro_methods = Some [verb]\<rparr>"

definition ws_route :: "string \<Rightarrow> router_route" where
  "ws_route path = \<lparr>ro_path = Some path, ro_methods = None\<rparr>"

definition teams_router :: "router_route list" where
  "teams_router = [api_route ''POST'' ''/teams'', api_route ''GET'' ''/teams'', api_route ''GET'' ''/teams/{team_id}'',
     api_route ''DELETE'' ''/teams/{team_id}'', api_route ''PATCH'' ''/teams/{team_id}/metadata'',
     api_route ''PATCH'' ''/teams/{team_id}/description'', api_route ''POST'' ''/teams/{team_id}/message'',
     api_route ''POST'' ''/teams/{team_id}/message/{agent_name}'',
     api_route ''POST'' ''/teams/{team_id}/message/from/{sender_name}/to/{recipient_name}'',
     api_route ''POST'' ''/teams/{team_id}/notification'', api_route ''POST'' ''/teams/{team_id}/human-input'',
     api_route ''POST'' ''/teams/{team_id}/stop'', api_route ''POST'' ''/teams/{team_id}/restore'',
     api_route ''GET'' ''/teams/{team_id}/events'', api_route ''GET'' ''/teams/{team_id}/agent-states'']"

definition workspace_router :: "router_route list" where
  "workspace_router = [api_route ''GET'' ''/workspace/{team_id}/tree'', api_route ''GET'' ''/workspace/{team_id}/file'',
     api_route ''POST'' ''/workspace/{team_id}/file'']"

definition admin_router_routes :: "admin_route list \<Rightarrow> router_route list" where
  "admin_router_routes catalog_router =
     map (\<lambda>r. \<lparr>ro_path = Some (ar_path r), ro_methods = ar_methods r\<rparr>) (build_admin_catalog_router catalog_router)"

definition plain_spec :: "router_route list \<Rightarrow> route_spec" where
  "plain_spec rs = \<lparr>sp_router = rs, sp_prefix = [], sp_overrides = []\<rparr>"

definition core_routes :: "admin_route list \<Rightarrow> route_spec list" where
  "core_routes catalog_router =
     [plain_spec [api_route ''GET'' ''/readiness''], plain_spec teams_router, plain_spec workspace_router,
      plain_spec [ws_route ''/ws/{team_id}''], plain_spec [api_route ''POST'' ''/webhook/{channel}''],
      plain_spec (admin_router_routes catalog_router)]"

definition core_middleware :: "server_settings \<Rightarrow> allowlist \<Rightarrow> middleware_spec list" where
  "core_middleware c context =
     (if st_cors_origins c \<noteq> []
      then [\<lparr>ms_class = ''CORSMiddleware'', ms_layer = 100,
             ms_options = map (Pair ''allow_origins'') (st_cors_origins c) @ [(''allow_credentials'', ''True''),
               (''allow_methods'', ''*''), (''allow_headers'', ''*'')], ms_requires_state = []\<rparr>]
      else []) @
     [\<lparr>ms_class = ''AdminCatalogMutationLogMiddleware'', ms_layer = 600, ms_options = [], ms_requires_state = []\<rparr>]"

definition core_state :: "bool \<Rightarrow> server_settings \<Rightarrow> (string \<times> slot option) list" where
  "core_state has_parsers c =
     [key_entry SERVICES VServices, key_entry TEAM_SERVICE VTeamService, key_entry SETTINGS (VSettings c),
      key_entry CONNECTION_MANAGER (VConnMgr cm_new)] @
     (if has_parsers then [key_entry CHANNEL_PARSERS VParsers] else []) @
     [key_entry CHANNEL_REGISTRY VRegistry]"

text \<open>The services a core module is made with, and what it reaches through them.\<close>

record ('t, 'h) core_services =
  co_team_service :: bool
  co_parsers :: bool
  co_catalog_router :: "admin_route list"
  co_handlers :: "'h handler_spec list"
  co_closes :: "nat \<Rightarrow> bool"
  co_stop_all :: "int \<Rightarrow> 't \<Rightarrow> stop_outcome \<times> 't"

type_synonym ('t, 'h) core_app_module = "(slot option, 't core_world, 'h) app_module"

definition core_module :: "('t, 'h) core_services \<Rightarrow> server_settings \<Rightarrow> exn + ('t, 'h) core_app_module" where
  "core_module V c =
     (if \<not> co_team_service V
      then Inl (ValueError (''services.team_service is not set '' @ [long_dash] @
          '' wire_* must construct TeamService and assign it before composing CoreModule''))
      else Inr \<lparr>am_name = ''core'', am_provides_state = [''draining''], am_routes = core_routes (co_catalog_router V),
        am_middleware = core_middleware c, am_allowlist = \<lparr>al_exact = {''/readiness''}, al_prefixes = []\<rparr>,
        am_handlers = co_handlers V, am_state = core_state (co_parsers V) c,
        am_enter = set_draining False, am_exit = drain_exit (co_closes V) (co_stop_all V)\<rparr>)"

section \<open>The factory\<close>

definition server_modules :: "('t, 'h) core_services \<Rightarrow> server_settings \<Rightarrow> exn + ('t, 'h) core_app_module list" where
  "server_modules V c = (case core_module V c of Inl e \<Rightarrow> Inl e | Inr m \<Rightarrow> Inr [m])"

text \<open>
  \<open>configure_logging\<close>: the root logger's level and handlers, the handler this function installed itself,
  the loggers kept at WARNING, and whether the shutdown filter is in place. A handler is a number.
\<close>

record logging =
  lg_level :: string
  lg_handlers :: "nat list"
  lg_managed :: "nat option"
  lg_next :: nat
  lg_levels :: "string \<rightharpoonup> string"
  lg_filtered :: bool

definition third_party_loggers :: "string list" where
  "third_party_loggers = [''uvicorn'', ''uvicorn.error'', ''httpx'', ''httpcore'', ''pydantic_ai'']"

definition configure_logging :: "string \<Rightarrow> logging \<Rightarrow> logging" where
  "configure_logging level g =
     (let g1 = g\<lparr>lg_level := level\<rparr>;
          g2 = (case lg_managed g1 of
                  Some h \<Rightarrow> if h \<in> set (lg_handlers g1) then g1
                    else g1\<lparr>lg_handlers := lg_handlers g1 @ [lg_next g1], lg_managed := Some (lg_next g1),
                            lg_next := Suc (lg_next g1)\<rparr>
                | None \<Rightarrow> g1\<lparr>lg_handlers := lg_handlers g1 @ [lg_next g1], lg_managed := Some (lg_next g1),
                            lg_next := Suc (lg_next g1)\<rparr>);
          g3 = g2\<lparr>lg_levels := (\<lambda>n. if n \<in> set third_party_loggers then Some ''WARNING'' else lg_levels g2 n)\<rparr>
      in g3\<lparr>lg_filtered := True\<rparr>)"

text \<open>The process globals the factory sets before it composes.\<close>

record process_globals =
  pg_logging :: logging
  pg_prefixes :: "string list"

definition create_app ::
    "'h handlers \<Rightarrow> ('t, 'h) core_services \<Rightarrow> server_settings \<Rightarrow> ('t, 'h) core_app_module list option \<Rightarrow>
     (server_settings \<Rightarrow> (process_globals, unit) prog) \<Rightarrow>
     (process_globals, (slot option, 't core_world, 'h) built_app) prog" where
  "create_app defaults V c modules configure_process =
     andthen (writing (\<lambda>g. g\<lparr>pg_logging := configure_logging (st_log_level c) (pg_logging g)\<rparr>))
    (andthen (writing (\<lambda>g. g\<lparr>pg_prefixes := st_type_prefixes c\<rparr>))
    (andthen (configure_process c)
       (reading (\<lambda>_. case (case modules of None \<Rightarrow> server_modules V c | Some [] \<Rightarrow> server_modules V c | Some ms \<Rightarrow> Inr ms) of
          Inl e \<Rightarrow> Inl e
        | Inr ms \<Rightarrow> build_app defaults ms))))"

section \<open>The community composition\<close>

lemma declared_distinct:
  assumes "distinct (concat (map (\<lambda>e. remdups (route_keys (cr_spec e))) es))"
  shows "declared key es"
proof -
  have "length (claimants key es) \<le> 1 \<and> (key \<notin> (\<Union>e \<in> set es. set (route_keys (cr_spec e))) \<longrightarrow> claimants key es = [])"
    using assms by (induction es) (auto simp: claimants_def filter_empty_conv)
  then have "length (claimants key es) \<le> 1" ..
  then show ?thesis by (auto simp: declared_def split: list.split)
qed

text \<open>What follows the method in a key.\<close>

definition key_path :: "string \<Rightarrow> string" where
  "key_path key = dropWhile (\<lambda>c. c \<noteq> CHR '' '') key"

definition plain_methods :: "admin_route list \<Rightarrow> bool" where
  "plain_methods rs \<longleftrightarrow> list_all (\<lambda>r. case ar_methods r of None \<Rightarrow> True
     | Some ms \<Rightarrow> list_all (\<lambda>m. CHR '' '' \<notin> set m) ms) rs"

lemma key_path_append: "CHR '' '' \<notin> set m \<Longrightarrow> key_path (m @ '' '' @ p) = '' '' @ p"
  by (induction m) (auto simp: key_path_def)

lemma admin_keys:
  assumes "plain_methods rs" "key \<in> set (route_keys (plain_spec (admin_router_routes rs)))"
  shows "take 7 (key_path key) = '' /admin''"
proof -
  obtain r m where r: "r \<in> set rs" "m \<in> set (sorted_methods \<lparr>ro_path = Some (admin_prefix @ ar_path r), ro_methods = ar_methods r\<rparr>)"
      "key = m @ '' '' @ admin_prefix @ ar_path r"
    using assms(2) by (auto simp: route_keys_def plain_spec_def admin_router_routes_def admin_router)
  have "CHR '' '' \<notin> set m"
    using r(1,2) assms(1) by (auto simp: plain_methods_def list_all_iff sorted_methods_def split: option.splits if_splits)
  then show ?thesis using key_path_append [of m "admin_prefix @ ar_path r"] r(3) by (simp add: admin_prefix_def)
qed

definition own_specs :: "route_spec list" where
  "own_specs = [plain_spec [api_route ''GET'' ''/readiness''], plain_spec teams_router,
     plain_spec workspace_router, plain_spec [ws_route ''/ws/{team_id}''], plain_spec [api_route ''POST'' ''/webhook/{channel}'']]"

lemma core_routes_own: "core_routes rs = own_specs @ [plain_spec (admin_router_routes rs)]"
  by (simp add: core_routes_def own_specs_def)

definition own_keys :: "string list" where
  "own_keys = concat (map route_keys own_specs)"

lemma remdups_parts: "distinct (concat xss) \<Longrightarrow> concat (map remdups xss) = concat xss"
  by (induction xss) (simp_all add: distinct_remdups_id)

lemma own_keys_distinct: "distinct own_keys"
  by code_simp

lemma own_keys_not_admin: "list_all (\<lambda>k. take 7 (key_path k) \<noteq> '' /admin'') own_keys"
  by code_simp

lemma core_collisions:
  assumes "plain_methods rs"
  shows "validate_route_collisions (map (\<lambda>spec. \<lparr>cr_module = n, cr_spec = spec\<rparr>) (core_routes rs)) = Inr ()"
proof -
  let ?admin = "route_keys (plain_spec (admin_router_routes rs))"
  have "set own_keys \<inter> set ?admin = {}"
    using admin_keys [OF assms] own_keys_not_admin by (auto simp: list_all_iff)
  then have "distinct (own_keys @ remdups ?admin)"
    using own_keys_distinct by simp
  moreover have "concat (map (\<lambda>e. remdups (route_keys (cr_spec e)))
      (map (\<lambda>spec. \<lparr>cr_module = n, cr_spec = spec\<rparr>) (core_routes rs))) = own_keys @ remdups ?admin"
    using remdups_parts [OF own_keys_distinct [unfolded own_keys_def]]
    by (simp add: core_routes_own own_keys_def comp_def)
  ultimately have "distinct (concat (map (\<lambda>e. remdups (route_keys (cr_spec e)))
      (map (\<lambda>spec. \<lparr>cr_module = n, cr_spec = spec\<rparr>) (core_routes rs))))"
    by simp
  then show ?thesis using declared_distinct by (simp add: collisions_declared)
qed

lemma core_module_Inr:
  "core_module V c = Inr m \<Longrightarrow> co_team_service V \<and> am_name m = ''core'' \<and> am_provides_state m = [''draining''] \<and>
     am_routes m = core_routes (co_catalog_router V) \<and> am_middleware m = core_middleware c \<and>
     am_state m = core_state (co_parsers V) c \<and> am_enter m = set_draining False \<and>
     am_exit m = drain_exit (co_closes V) (co_stop_all V)"
  by (auto simp: core_module_def split: if_splits)

lemma core_requires_nothing: "spec \<in> set (core_middleware c ctx) \<Longrightarrow> ms_requires_state spec = []"
  by (auto simp: core_middleware_def split: if_splits)

lemma core_composition:
  assumes "core_module V c = Inr m" "plain_methods (co_catalog_router V)"
  obtains app where "build_app defaults [m] = Inr app" "ba_modules app = [m]" "ba_requirements app = []"
    "ba_slots app = core_state (co_parsers V) c"
    "ba_routes app = mount_routes (collect_routes [m])"
proof -
  note m = core_module_Inr [OF assms(1)]
  have v: "\<exists>p. validate_composition [m] = Inr p"
    using m by (cases "co_parsers V")
      (simp_all add: validate_composition_def core_state_def key_entry_def state_keys)
  have r: "validate_route_collisions (collect_routes [m]) = Inr ()"
    using m core_collisions [OF assms(2)] by (simp add: collect_routes_def)
  have "validate_required_state (collect_middleware [m] ctx) p = Inr []" for ctx p
  proof -
    have specs: "\<forall>e \<in> set (collect_middleware [m] ctx). ms_requires_state (om_spec e) = []"
    proof
      fix e
      assume "e \<in> set (collect_middleware [m] ctx)"
      then have "om_spec e \<in> set (map om_spec (contributed_middleware [m] ctx))" by (simp add: collect_middleware_def)
      then have "om_spec e \<in> set (core_middleware c ctx)" using m by (simp only: contributed_specs) simp
      then show "ms_requires_state (om_spec e) = []" by (rule core_requires_nothing)
    qed
    have "traverse (state_requirements p) es = Inr (map (\<lambda>_. []) es)"
      if "\<forall>e \<in> set es. ms_requires_state (om_spec e) = []" for es
      using that by (induction es) (simp_all add: state_requirements_def)
    then show ?thesis using specs by (simp add: validate_required_state_def)
  qed
  moreover have "apply_state_entries [m] = core_state (co_parsers V) c"
    using m by (cases "co_parsers V") (simp_all add: apply_state_entries_def core_state_def key_entry_def state_keys)
  ultimately show ?thesis
    using that v r by (auto simp: build_app_def Let_def)
qed

text \<open>
  The community composition builds, whatever routes the catalog's router has: no two routes collide,
  no slot has two producers. Started, it answers the readiness probe with 200 and every slot its
  requests read is set; its manager of WebSocket connections is empty.
\<close>

theorem community_app_starts_ready:
  assumes "core_module V c = Inr m" "plain_methods (co_catalog_router V)"
  shows "\<exists>app s. build_app defaults [m] = Inr app
    \<and> lifespan_enter (ba_modules app) (ba_requirements app) \<lparr>ho_slots = ba_slots app, ho_world = w\<rparr> = (Inr [m], s)
    \<and> readiness (ho_slots s) = (200, ''ready'')
    \<and> key_require SERVICES (ho_slots s) = Inr VServices \<and> key_require TEAM_SERVICE (ho_slots s) = Inr VTeamService
    \<and> key_require SETTINGS (ho_slots s) = Inr (VSettings c) \<and> key_require CHANNEL_REGISTRY (ho_slots s) = Inr VRegistry
    \<and> key_require CONNECTION_MANAGER (ho_slots s) = Inr (VConnMgr cm_new)"
proof -
  obtain app where app: "build_app defaults [m] = Inr app" "ba_modules app = [m]" "ba_requirements app = []"
      "ba_slots app = core_state (co_parsers V) c"
    using core_composition [OF assms] by blast
  then show ?thesis
    using core_module_Inr [OF assms(1)]
    by (cases "co_parsers V") (simp_all add: lifespan_enter_def verify_startup_state_def set_draining_def logged_def
        key_set_def readiness_def key_require_def key_get_def core_state_def key_entry_def state_keys)
qed

section \<open>Shutdown\<close>

lemma core_slots:
  "key_require SETTINGS (key_set DRAINING v slots) = key_require SETTINGS slots"
  "key_require CONNECTION_MANAGER (key_set DRAINING v slots) = key_require CONNECTION_MANAGER slots"
  "map_of (key_set CONNECTION_MANAGER u (key_set DRAINING v slots)) ''draining'' = Some v"
  "key_require CONNECTION_MANAGER (key_set CONNECTION_MANAGER (Some x) slots) = Inr x"
  by (simp_all add: key_set_def key_require_def key_get_def state_keys)

text \<open>
  C37. The shutdown drains before it stops: the readiness probe answers 503 before anything is torn down,
  then come the configured delay, the WebSocket clients, the teams and the reader pool, in this
  order. No connection stays tracked. Teams that take too long do not hold the rest up; an
  exception of their shutdown is raised, and only the reader pool is left as it was.
\<close>

theorem shutdown_drains_before_stopping:
  assumes "core_module V c = Inr m"
    and "key_require SETTINGS (ho_slots s) = Inr (VSettings c)"
    and "key_require CONNECTION_MANAGER (ho_slots s) = Inr (VConnMgr mgr)"
    and "co_stop_all V (st_drain_timeout c) (cw_teams (ho_world s)) = (out, teams)"
  shows "\<exists>t mgr'. lifespan_exit [m] None s = (case out of StopFailed e \<Rightarrow> Some e | _ \<Rightarrow> None, t)
    \<and> readiness (ho_slots t) = (503, ''draining'')
    \<and> key_require CONNECTION_MANAGER (ho_slots t) = Inr (VConnMgr mgr') \<and> cm_active mgr' = {}
    \<and> cw_teams (ho_world t) = teams
    \<and> cw_log (ho_world t) = cw_log (ho_world s) @ [DrainingSet True] @
        (if 0 < st_pre_drain_delay c then [Slept (st_pre_drain_delay c)] else []) @
        [ClientsClosed {w \<in> cm_active mgr. co_closes V w}] @
        (case out of Stopped \<Rightarrow> [TeamsStopped] | _ \<Rightarrow> []) @
        (case out of StopFailed _ \<Rightarrow> [] | _ \<Rightarrow> if cw_pool (ho_world s) = None then [] else [PoolClosed])"
  using core_module_Inr [OF assms(1)] assms(2-)
  by (cases out; cases "cw_pool (ho_world s)")
    (simp_all add: lifespan_exit_def drain_exit_def drain_sequence_def andthen_def bnd_def set_draining_def logged_def
      core_slots disconnect_clients_def cm_disconnect_all_def stop_all_teams_def shutdown_reader_pool_def
      readiness_def)

section \<open>Logging\<close>

text \<open>
  Configuring the logging again changes nothing but the level: one handler is installed at most, and
  a handler someone else attached in between stays.
\<close>

theorem logging_is_configured_once:
  "configure_logging level (configure_logging level g) = configure_logging level g
   \<and> set (lg_handlers g) \<subseteq> set (lg_handlers (configure_logging level g))
   \<and> lg_handlers (configure_logging other ((configure_logging level g)\<lparr>lg_handlers := lg_handlers (configure_logging level g) @ hs\<rparr>))
       = lg_handlers (configure_logging level g) @ hs"
  by (auto simp: configure_logging_def Let_def fun_eq_iff split: option.splits if_splits)

section \<open>A small server\<close>

definition small_settings :: server_settings where
  "small_settings = \<lparr>st_log_level = ''INFO'', st_cors_origins = [''*''], st_drain_timeout = 30, st_pre_drain_delay = 5,
     st_reader_pool_size = 256, st_type_prefixes = []\<rparr>"

definition small_services :: "(nat, unit) core_services" where
  "small_services = \<lparr>co_team_service = True, co_parsers = True, co_catalog_router = ac_routes small_catalog,
     co_handlers = [], co_closes = (\<lambda>w. w \<noteq> 2), co_stop_all = (\<lambda>_ _. (Stopped, 0))\<rparr>"

definition small_core :: "(nat, unit) core_app_module" where
  "small_core = (case core_module small_services small_settings of Inr m \<Rightarrow> m)"

lemma small_core_module: "core_module small_services small_settings = Inr small_core"
  by (simp add: small_core_def core_module_def small_services_def)

theorem community_app_starts_ready_witness:
  "\<exists>app. build_app [] [small_core] = Inr app"
  using community_app_starts_ready [OF small_core_module, of "[]"]
  by (auto simp: plain_methods_def small_services_def small_catalog_def small_route_def import_owner_or_admin_gated_route_def)

definition busy_host :: "nat core_host" where
  "busy_host = \<lparr>ho_slots = key_set CONNECTION_MANAGER (Some (VConnMgr (cm_track 2 (cm_track 1 cm_new))))
       (core_state True small_settings),
     ho_world = \<lparr>cw_teams = 3, cw_pool = Some 256, cw_log = []\<rparr>\<rparr>"

theorem shutdown_drains_before_stopping_witness:
  "\<exists>t. lifespan_exit [small_core] None busy_host = (None, t)
    \<and> cw_log (ho_world t) = [DrainingSet True, Slept 5, ClientsClosed {1}, TeamsStopped, PoolClosed]"
proof -
  have s: "key_require SETTINGS (ho_slots busy_host) = Inr (VSettings small_settings)"
    by (simp add: busy_host_def key_require_def key_get_def key_set_def core_state_def key_entry_def state_keys)
  have m: "key_require CONNECTION_MANAGER (ho_slots busy_host) = Inr (VConnMgr (cm_track 2 (cm_track 1 cm_new)))"
    by (simp add: busy_host_def core_slots)
  have c: "{w \<in> cm_active (cm_track 2 (cm_track 1 cm_new)). w \<noteq> 2} = {1}"
    by (auto simp: cm_track_def cm_new_def)
  show ?thesis
    using shutdown_drains_before_stopping [OF small_core_module s m, of Stopped 0] c
    by (auto simp: small_services_def busy_host_def small_settings_def)
qed

end
