(* ===== verification/Wiring.thy ===== *)
theory Wiring
  imports CoreApp ChannelDelivery
begin

text \<open>
  \<open>wiring.py\<close>: how the community tier is put together and boots, and of \<open>server/settings.py\<close>, \<open>worker/settings.py\<close> and
  \<open>worker/routes/readiness.py\<close> what decides something. The catalog's repository and its parser of prefixes, the
  actor system and the reading of the environment are libraries.
\<close>

section \<open>Settings\<close>

record community_settings =
  sg_auth_strategy :: string
  sg_channels :: "(string, channel_config) dict"
  sg_registry_path :: bool
  sg_admin_list_all :: bool
  sg_workspace_delete_mode :: delete_mode

definition default_settings :: community_settings where
  "default_settings = \<lparr>sg_auth_strategy = noauth, sg_channels = [], sg_registry_path = False,
     sg_admin_list_all = False, sg_workspace_delete_mode = HARD\<rparr>"

text \<open>The catalog's parser takes nothing, a string, or a sequence of strings.\<close>

fun is_string_sequence :: "json \<Rightarrow> bool" where
  "is_string_sequence (JList vs) = list_all (\<lambda>v. case v of JStr _ \<Rightarrow> True | _ \<Rightarrow> False) vs"
| "is_string_sequence _ = False"

definition normalize_model_type_prefixes ::
    "(json \<Rightarrow> exn + string list) \<Rightarrow> (json \<Rightarrow> string) \<Rightarrow> json \<Rightarrow> exn + string list" where
  "normalize_model_type_prefixes parse_prefixes repr v =
     (if v = JNull \<or> (case v of JStr _ \<Rightarrow> True | _ \<Rightarrow> False) \<or> is_string_sequence v then parse_prefixes v
      else Inl (ValueError (''invalid model_type prefix: '' @ repr v @ '' is not a string or a sequence of strings'')))"

section \<open>Wiring\<close>

text \<open>The services that hold a decision of the wiring; the tier and its state are those of \<open>TeamTier\<close>.\<close>

record ('a, 's, 'r, 'n) wired =
  wi_auth :: "'a auth_strategy"
  wi_policy :: access_policy
  wi_registry :: yaml_registry
  wi_parsers :: "('s, 'r, 'n) parser_registry"
  wi_dispatcher :: "(yaml_registry, 'n) dispatcher"
  wi_deletion :: deletion_policy

text \<open>\<open>LocalRuntimeCache.warm\<close> over the services of the tier.\<close>

definition boot :: "'s tier \<Rightarrow> ('s, unit) prog" where
  "boot T = warm (t_list_teams T None (Some RUNNING) None) (t_stop_team T) (t_resume T) (t_store T)"

definition wired_services ::
    "'a auth_strategy \<Rightarrow> yaml_registry \<Rightarrow> ('s, 'r, 'n) parser_registry \<Rightarrow> access_policy option \<Rightarrow> 'n \<Rightarrow>
     community_settings \<Rightarrow> ('a, 's, 'r, 'n) wired" where
  "wired_services auth registry parsers policy network c = \<lparr>wi_auth = auth,
     wi_policy = (case policy of Some P \<Rightarrow> P | None \<Rightarrow> owner_or_admin (sg_admin_list_all c)),
     wi_registry = registry, wi_parsers = parsers,
     wi_dispatcher = \<lparr>cd_restoring = {}, cd_registry = registry, cd_adapters = network\<rparr>,
     wi_deletion = workspace_deletion_policy_for (sg_workspace_delete_mode c)\<rparr>"

definition wire_community ::
    "'a entry_point list \<Rightarrow> ('s, 'r, 'n) modules \<Rightarrow> yaml_file \<Rightarrow> 'w community tier \<Rightarrow> access_policy option \<Rightarrow> 'n \<Rightarrow>
     community_settings \<Rightarrow> 'w \<Rightarrow> (exn + ('a, 's, 'r, 'n) wired) \<times> 'w community" where
  "wire_community eps modules registry_file T policy network c w =
     (let s = init_placement \<lparr>ls_store = w, ls_cache = [], ls_streams = init_streams\<rparr> in
      case load_auth_strategy eps (sg_auth_strategy c) of
        Inl e \<Rightarrow> (Inl e, s)
      | Inr auth \<Rightarrow>
          (case yr_new (sg_registry_path c) registry_file of
             Inl e \<Rightarrow> (Inl e, s)
           | Inr registry \<Rightarrow>
               (case new_parser_registry modules (sg_channels c) of
                  Inl e \<Rightarrow> (Inl e, s)
                | Inr parsers \<Rightarrow> andthen (boot T) (ret (wired_services auth registry parsers policy network c)) s)))"

text \<open>A wiring that fails on the configuration has started no team.\<close>

lemma misconfigured_wiring_starts_nothing:
  assumes "load_auth_strategy eps (sg_auth_strategy c) = Inl e \<or> yr_new (sg_registry_path c) registry_file = Inl e
    \<or> new_parser_registry modules (sg_channels c) = Inl e"
  shows "\<exists>e'. wire_community eps modules registry_file T policy network c w =
    (Inl e', init_placement \<lparr>ls_store = w, ls_cache = [], ls_streams = init_streams\<rparr>)"
  using assms by (auto simp: wire_community_def Let_def split: sum.split)

text \<open>With the default settings no entry point and no channel module is looked at.\<close>

lemma default_wiring_loads_nothing:
  assumes "sg_auth_strategy c = noauth" "sg_channels c = []"
  shows "wire_community eps modules registry_file T policy network c w =
    wire_community [] (\<lambda>_. None) registry_file T policy network c w"
  using assms by (simp add: wire_community_def load_auth_strategy_def new_parser_registry_def Let_def split: sum.split)

text \<open>
  A boot ends wired as long as the store answers: no team that cannot be stopped or resumed keeps the
  server from starting, and what is wired does not depend on the teams.
\<close>

lemma broken_team_does_not_stop_the_boot:
  assumes "t_list_teams T None (Some RUNNING) None (init_placement \<lparr>ls_store = w, ls_cache = [], ls_streams = init_streams\<rparr>) = Inr ps"
    and "load_auth_strategy eps (sg_auth_strategy c) = Inr auth" "yr_new (sg_registry_path c) registry_file = Inr registry"
    and "new_parser_registry modules (sg_channels c) = Inr parsers"
  shows "fst (wire_community eps modules registry_file T policy network c w) =
    Inr (wired_services auth registry parsers policy network c)"
  using assms
  by (simp add: wire_community_def boot_def warm_def bnd_def andthen_def for_each_ok warm_one_ok Let_def)

section \<open>The worker process\<close>

record worker_settings =
  wt_log_level :: string
  wt_drain_timeout :: int
  wt_pre_drain_delay :: int
  wt_labels :: "(string, string) dict"
  wt_delete_mode :: delete_mode

definition valid_worker_settings :: "worker_settings \<Rightarrow> bool" where
  "valid_worker_settings c \<longleftrightarrow> 0 \<le> wt_drain_timeout c \<and> 0 \<le> wt_pre_drain_delay c"

definition worker_log_levels :: "string list" where
  "worker_log_levels = [''DEBUG'', ''INFO'', ''WARNING'', ''ERROR'', ''CRITICAL'']"

definition worker_log_level :: "string \<Rightarrow> string" where
  "worker_log_level v = (let up = upper v in if up \<notin> set worker_log_levels then ''INFO'' else up)"

definition team_delete_mode_env :: string where
  "team_delete_mode_env = ''AKGENTIC_TEAM_DELETE_MODE''"

text \<open>What a validator is given: a dictionary or something else.\<close>

definition accept_team_delete_mode_by_name :: "'x + (string, 'v) dict \<Rightarrow> 'x + (string, 'v) dict" where
  "accept_team_delete_mode_by_name data = (case data of
     Inl x \<Rightarrow> Inl x
   | Inr d \<Rightarrow> (case map_of d ''team_delete_mode'' of
       None \<Rightarrow> Inr d
     | Some v \<Rightarrow> Inr (AList.update team_delete_mode_env v (AList.delete ''team_delete_mode'' d))))"

definition worker_draining :: "slot state_key" where
  "worker_draining = \<lparr>sk_name = ''draining'', sk_default = Some (VDraining False), sk_required = False\<rparr>"

definition worker_services_key :: "slot state_key" where
  "worker_services_key = required_key ''services''"

definition worker_readiness :: "(string, slot option) dict \<Rightarrow> nat \<times> string" where
  "worker_readiness slots =
     (let draining = (case map_of slots (sk_name worker_draining) of Some (Some (VDraining b)) \<Rightarrow> b | _ \<Rightarrow> False)
      in if draining then (503, ''draining'') else (200, ''ready''))"

text \<open>A mode given by name wins over the environment's, and nothing else changes.\<close>

lemma named_delete_mode_wins:
  assumes "map_of d ''team_delete_mode'' = Some v" "accept_team_delete_mode_by_name (Inr d) = Inr d'"
  shows "map_of d' = (map_of d)(''team_delete_mode'' := None, team_delete_mode_env \<mapsto> v)"
  using assms
  by (auto simp: accept_team_delete_mode_by_name_def update_conv' delete_conv' team_delete_mode_env_def fun_upd_def fun_eq_iff)

text \<open>Server and worker agree on levels and on readiness.\<close>

lemma worker_agrees: "worker_log_level v = normalize_log_level v" "worker_readiness slots = readiness slots"
  by (simp_all add: worker_log_level_def normalize_log_level_def worker_log_levels_def valid_log_levels_def
      worker_readiness_def readiness_def worker_draining_def)

end
