(* ===== verification/WorkerRoutes.thy ===== *)
theory WorkerRoutes
  imports TeamRoutes
begin

text \<open>
  \<open>worker/routes/teams.py\<close>: the routes of a worker process, over the services of \<open>worker/deps.py\<close>. A
  worker holds the live teams: it delivers to a cached handle only, creates and resumes through its
  team manager, and does not check who calls.
\<close>

section \<open>WorkerServices\<close>

record 's worker =
  wk_create_team :: "create_args \<Rightarrow> ('s, team_runtime) prog"
  wk_resume_team :: "uuid \<Rightarrow> ('s, team_runtime) prog"
  wk_get_team :: "uuid \<Rightarrow> 's \<Rightarrow> process option"
  wk_stop_team :: "uuid \<Rightarrow> ('s, unit) prog"
  wk_delete_team :: "uuid \<Rightarrow> ('s, unit) prog"
  wk_update_metadata :: "uuid \<Rightarrow> metadata option \<Rightarrow> ('s, process) prog"
  wk_store :: "uuid \<Rightarrow> team_handle \<Rightarrow> 's \<Rightarrow> 's"
  wk_get :: "uuid \<Rightarrow> 's \<Rightarrow> team_handle option"
  wk_remove :: "uuid \<Rightarrow> 's \<Rightarrow> 's"
  wk_load_events :: "uuid \<Rightarrow> uuid option \<Rightarrow> 's \<Rightarrow> exn + persisted_event list"
  wk_runtime :: "'s runtime_ops"

section \<open>Requests\<close>

record worker_create_request =
  wc_team_card :: team_card
  wc_user_id :: string
  wc_user_email :: string
  wc_team_id :: "uuid option"
  wc_catalog_namespace :: "string option"
  wc_metadata :: "(string \<times> json) list option"

definition worker_error :: "exn \<Rightarrow> exn" where
  "worker_error e =
     (let detail = exn_str e in
      if occurs_in ''not found'' detail \<or> occurs_in ''deleted'' detail then HTTPException 404 detail
      else HTTPException 409 detail)"

definition worker_guard :: "('s, 'a) prog \<Rightarrow> ('s, 'a) prog" where
  "worker_guard m = try_except m (\<lambda>e. if is_value_error e then throw (worker_error e) else throw e)"

definition not_in_cache :: exn where
  "not_in_cache = HTTPException 404 ''Team not found in worker cache''"

section \<open>Routes\<close>

definition worker_create_team ::
    "'s worker \<Rightarrow> model_validate \<Rightarrow> worker_create_request \<Rightarrow> ('s, team_answer) prog" where
  "worker_create_team K V b =
     bnd (try_except (reading (\<lambda>_. validate_metadata V (tc_metadata_type (wc_team_card b)) (wc_metadata b)))
            (\<lambda>e. case e of MetadataValidationError d \<Rightarrow> throw (HTTPException 422 d) | _ \<Rightarrow> throw e)) (\<lambda>md.
     bnd (wk_create_team K \<lparr>ca_card = wc_team_card b, ca_user_id = wc_user_id b, ca_user_email = wc_user_email b,
            ca_team_id = wc_team_id b, ca_namespace = wc_catalog_namespace b, ca_metadata = md\<rparr>) (\<lambda>rt.
     andthen (writing (wk_store K (rt_id rt) (LocalTeamHandle rt)))
       (\<lambda>s. case wk_get_team K (rt_id rt) s of
          None \<Rightarrow> (Inl (RuntimeError (team_msg (rt_id rt) '' was created but not found in event store'')), s)
        | Some p \<Rightarrow> (Inr (TeamAnswer (process_to_response p)), s))))"

definition with_cached :: "'s worker \<Rightarrow> uuid \<Rightarrow> (team_handle \<Rightarrow> ('s, 'a) prog) \<Rightarrow> ('s, 'a) prog" where
  "with_cached K i f = (\<lambda>s. case wk_get K i s of None \<Rightarrow> (Inl not_in_cache, s) | Some h \<Rightarrow> f h s)"

definition worker_send_message ::
    "'s worker \<Rightarrow> deserialize \<Rightarrow> uuid \<Rightarrow> send_request \<Rightarrow> ('s, team_answer) prog" where
  "worker_send_message K D i b = no_content (with_cached K i (\<lambda>h. worker_guard
     (bnd (reading (\<lambda>_. resolve_send_payload D b)) (\<lambda>c. handle_send (wk_runtime K) h c))))"

definition worker_send_message_to ::
    "'s worker \<Rightarrow> deserialize \<Rightarrow> uuid \<Rightarrow> string \<Rightarrow> send_request \<Rightarrow> ('s, team_answer) prog" where
  "worker_send_message_to K D i agent b = no_content (with_cached K i (\<lambda>h. worker_guard
     (bnd (reading (\<lambda>_. resolve_send_payload D b)) (\<lambda>c. handle_send_to (wk_runtime K) h agent c))))"

definition worker_send_message_from_to ::
    "'s worker \<Rightarrow> deserialize \<Rightarrow> uuid \<Rightarrow> string \<Rightarrow> string \<Rightarrow> send_request \<Rightarrow> ('s, team_answer) prog" where
  "worker_send_message_from_to K D i sender recipient b = no_content (with_cached K i (\<lambda>h. worker_guard
     (bnd (reading (\<lambda>_. resolve_send_payload D b)) (\<lambda>c. handle_send_from_to (wk_runtime K) h sender recipient c))))"

definition worker_emit_notification ::
    "'s worker \<Rightarrow> deserialize \<Rightarrow> uuid \<Rightarrow> (string \<times> json) list \<Rightarrow> ('s, team_answer) prog" where
  "worker_emit_notification K D i raw = no_content
     (bnd (reading (\<lambda>_. decode_message D raw)) (\<lambda>m.
        with_cached K i (\<lambda>h. worker_guard (handle_emit (wk_runtime K) h m))))"

definition worker_find_message :: "'s worker \<Rightarrow> uuid \<Rightarrow> string \<Rightarrow> 's \<Rightarrow> exn + message" where
  "worker_find_message K i mid s =
     (case wk_load_events K i None s of
        Inl e \<Rightarrow> Inl e
      | Inr evs \<Rightarrow>
          (case find_in_events mid evs of
             Some m \<Rightarrow> Inr m
           | None \<Rightarrow> Inl (ValueError (''Message '' @ mid @ '' not found''))))"

definition worker_human_input ::
    "'s worker \<Rightarrow> uuid \<Rightarrow> string \<Rightarrow> string \<Rightarrow> ('s, team_answer) prog" where
  "worker_human_input K i content mid = no_content (with_cached K i (\<lambda>h. worker_guard
     (bnd (reading (worker_find_message K i mid)) (\<lambda>m. handle_human_input (wk_runtime K) h content m))))"

definition worker_stop_team :: "'s worker \<Rightarrow> uuid \<Rightarrow> ('s, team_answer) prog" where
  "worker_stop_team K i = no_content (worker_guard (andthen (wk_stop_team K i) (writing (wk_remove K i))))"

definition worker_delete_team :: "'s worker \<Rightarrow> uuid \<Rightarrow> ('s, team_answer) prog" where
  "worker_delete_team K i = no_content (worker_guard (andthen (wk_delete_team K i) (writing (wk_remove K i))))"

text \<open>The stored record goes back as it is, with its type tag.\<close>

definition worker_update_metadata ::
    "'s worker \<Rightarrow> model_validate \<Rightarrow> uuid \<Rightarrow> (string \<times> json) list \<Rightarrow> ('s, process) prog" where
  "worker_update_metadata K V i raw s =
     (case wk_get_team K i s of
        None \<Rightarrow> (Inl not_found_404, s)
      | Some p \<Rightarrow>
          (case validate_metadata V (metadata_type p) (Some raw) of
             Inl (MetadataValidationError d) \<Rightarrow> (Inl (HTTPException 422 d), s)
           | Inl e \<Rightarrow> (Inl e, s)
           | Inr md \<Rightarrow> worker_guard (wk_update_metadata K i md) s))"

definition worker_resume_team :: "'s worker \<Rightarrow> uuid \<Rightarrow> ('s, team_answer) prog" where
  "worker_resume_team K i =
     bnd (worker_guard (wk_resume_team K i)) (\<lambda>rt.
     andthen (writing (wk_store K i (LocalTeamHandle rt)))
       (\<lambda>s. case wk_get_team K i s of
          None \<Rightarrow> (Inl (HTTPException 404 ''Team not found after resume''), s)
        | Some p \<Rightarrow> (Inr (TeamAnswer (process_to_response p)), s)))"

section \<open>Worker and server\<close>

lemma worker_guard_action: "worker_guard = action_guard"
proof -
  have "worker_error = action_error"
    by (rule ext) (simp add: worker_error_def action_error_def Let_def)
  then show ?thesis by (intro ext) (simp only: worker_guard_def action_guard_def)
qed

text \<open>The worker of a tier that shares its cache, store and runtime with the server.\<close>

definition worker_of ::
    "'s tier \<Rightarrow> (create_args \<Rightarrow> ('s, team_runtime) prog) \<Rightarrow> (uuid \<Rightarrow> ('s, team_runtime) prog) \<Rightarrow> 's worker" where
  "worker_of T create resume =
     \<lparr>wk_create_team = create, wk_resume_team = resume, wk_get_team = t_get_team T, wk_stop_team = t_stop_team T,
      wk_delete_team = t_delete_team T, wk_update_metadata = t_update_metadata T, wk_store = t_store T,
      wk_get = t_get T, wk_remove = t_remove T, wk_load_events = t_load_events T, wk_runtime = t_runtime T\<rparr>"

text \<open>The same answer, and the same state of the tier, the registry and the connections.\<close>

definition agree :: "(exn + team_answer) \<times> ('s, 'f, 'r) app \<Rightarrow> (exn + team_answer) \<times> ('s, 'f, 'r) app \<Rightarrow> bool" where
  "agree x y \<longleftrightarrow> fst x = fst y \<and> sv_tier (app_service (snd x)) = sv_tier (app_service (snd y)) \<and>
     sv_fs (app_service (snd x)) = sv_fs (app_service (snd y)) \<and>
     app_registry (snd x) = app_registry (snd y) \<and> app_mgr (snd x) = app_mgr (snd y)"

lemma revive_cached:
  "get_team T i s = Some p \<Longrightarrow> t_get T i s = Some h \<Longrightarrow> get_or_revive_handle T i s = (Inr (p, h), s)"
  by (auto simp: get_team_def load_live_def get_or_revive_handle_def split: option.splits if_splits)

lemma trigger_frame:
  "fst (trigger_description W p c sv) = Inr ()"
  "sv_tier (snd (trigger_description W p c sv)) = sv_tier sv"
  "sv_fs (snd (trigger_description W p c sv)) = sv_fs sv"
  using maybe_generate_ok [of p c "sv_executor sv"]
  by (auto simp: trigger_description_def in_executor_def on_part_def split: prod.splits)

lemma cached_worker: "t_get T i s = Some h \<Longrightarrow> with_cached (worker_of T cr rs) i f s = f h s"
  by (simp add: with_cached_def worker_of_def)

lemma guard_at_tier: "action_guard (at_tier m) s = at_tier (action_guard m) s"
  by (simp add: action_guard_def try_except_def at_tier_def in_service_def in_tier_def on_part_def
      split: prod.split sum.split)

lemma no_content_at_tier: "no_content (at_tier m) s = at_tier (no_content m) s"
  by (simp add: no_content_def andthen_def bnd_def at_tier_def in_service_def in_tier_def on_part_def
      split: prod.split sum.split)

lemma at_tier_cong: "m (sv_tier (app_service s)) = n (sv_tier (app_service s)) \<Longrightarrow> at_tier m s = at_tier n s"
  by (simp add: at_tier_def in_service_def in_tier_def on_part_def)

lemma no_content_cong: "m s = n s \<Longrightarrow> no_content m s = no_content n s"
  by (simp add: no_content_def andthen_def bnd_def)

lemma guard_cong: "m s = n s \<Longrightarrow> action_guard m s = action_guard n s"
  by (simp add: action_guard_def try_except_def)

lemma agree_refl [simp]: "agree x x"
  by (simp add: agree_def)

text \<open>A human answer too: the two services raise different exceptions for an unknown message, with one text.\<close>

lemma human_input_same:
  assumes "get_team T i (sv_tier (app_service s)) = Some p" "t_get T i (sv_tier (app_service s)) = Some h"
  shows "route_human_input T i content mid s = at_tier (worker_human_input (worker_of T cr rs) i content mid) s"
proof -
  let ?s = "sv_tier (app_service s)" let ?K = "worker_of T cr rs"
  have fm: "find_message T i mid ?s = Inl e \<Longrightarrow> \<exists>e'. worker_find_message ?K i mid ?s = Inl e' \<and>
      is_value_error e' = is_value_error e \<and> exn_str e' = exn_str e \<and> (is_value_error e \<or> e' = e)" for e
    by (auto simp: find_message_def worker_find_message_def worker_of_def split: sum.splits option.splits)
  have fr: "find_message T i mid ?s = Inr m \<Longrightarrow> worker_find_message ?K i mid ?s = Inr m" for m
    by (auto simp: find_message_def worker_find_message_def worker_of_def split: sum.splits option.splits)
  have rt: "wk_runtime ?K = t_runtime T" by (simp add: worker_of_def)
  have guarded: "action_guard (process_human_input T i content mid) ?s =
      with_cached ?K i (\<lambda>h. worker_guard (bnd (reading (worker_find_message ?K i mid))
        (\<lambda>m. handle_human_input (wk_runtime ?K) h content m))) ?s"
  proof (cases "find_message T i mid ?s")
    case (Inl e)
    then obtain e' where "worker_find_message ?K i mid ?s = Inl e'" "is_value_error e' = is_value_error e"
        "exn_str e' = exn_str e" "is_value_error e \<or> e' = e"
      using fm by blast
    then show ?thesis
      using Inl revive_cached [OF assms]
      by (auto simp: cached_worker [OF assms(2)] worker_guard_action action_guard_def try_except_def
          process_human_input_def bnd_def action_error_def)
  next
    case (Inr m)
    then show ?thesis
      using revive_cached [OF assms] fr [OF Inr]
      by (simp add: cached_worker [OF assms(2)] worker_guard_action action_guard_def try_except_def
          process_human_input_def bnd_def rt)
  qed
  show ?thesis
    unfolding route_human_input_def worker_human_input_def guard_at_tier [abs_def] no_content_at_tier
    by (intro at_tier_cong no_content_cong) (rule guarded)
qed

text \<open>A delivery and then the description trigger, against the delivery alone.\<close>

lemma agree_trigger:
  assumes "m (sv_tier (app_service s)) = (case n (sv_tier (app_service s)) of (Inl e, t) \<Rightarrow> (Inl e, t) | (Inr _, t) \<Rightarrow> (Inr p, t))"
  shows "agree (no_content (action_guard (in_service (bnd (in_tier m) (\<lambda>p. trigger_description W p c)))) s)
     (at_tier (no_content (action_guard n)) s)"
proof (cases "n (sv_tier (app_service s))")
  case (Pair r t)
  obtain v where v: "trigger_description W p c ((app_service s)\<lparr>sv_tier := t\<rparr>) = (Inr (), v)"
      "sv_tier v = t" "sv_fs v = sv_fs (app_service s)"
    using trigger_frame [of W p c "(app_service s)\<lparr>sv_tier := t\<rparr>"]
    by (cases "trigger_description W p c ((app_service s)\<lparr>sv_tier := t\<rparr>)") auto
  show ?thesis
    using assms Pair v
    by (cases r) (auto simp: agree_def no_content_def andthen_def bnd_def action_guard_def try_except_def at_tier_def
        in_service_def in_tier_def on_part_def)
qed

lemma worker_of_runtime: "wk_runtime (worker_of T cr rs) = t_runtime T"
  by (simp add: worker_of_def)

lemma message_delivered_alike:
  assumes "get_team (w_tier W) i (sv_tier (app_service s)) = Some p"
    and "t_get (w_tier W) i (sv_tier (app_service s)) = Some h"
  shows "agree (route_send_message W D i b s) (at_tier (worker_send_message (worker_of (w_tier W) cr rs) D i b) s)"
proof (cases "resolve_send_payload D b")
  case (Inl e)
  then show ?thesis
    by (simp add: cached_worker [OF assms(2)] route_send_message_def worker_send_message_def worker_guard_action agree_def no_content_def
        andthen_def bnd_def action_guard_def try_except_def at_tier_def in_service_def in_tier_def on_part_def)
next
  case (Inr c)
  have w: "at_tier (worker_send_message (worker_of (w_tier W) cr rs) D i b) s = at_tier (no_content (action_guard (handle_send (t_runtime (w_tier W)) h c))) s"
    using Inr by (intro at_tier_cong) (simp add: cached_worker [OF assms(2)] worker_send_message_def worker_guard_action worker_of_runtime no_content_def
        andthen_def bnd_def action_guard_def try_except_def)
  have r: "route_send_message W D i b s = no_content (action_guard (in_service (send_message W i c))) s"
    using Inr by (simp add: route_send_message_def no_content_def andthen_def bnd_def action_guard_def try_except_def)
  have d: "bnd (get_or_revive_handle (w_tier W) i) (\<lambda>(p, h). andthen (handle_send (t_runtime (w_tier W)) h c) (ret p)) (sv_tier (app_service s)) =
      (case handle_send (t_runtime (w_tier W)) h c (sv_tier (app_service s)) of (Inl e, t) \<Rightarrow> (Inl e, t) | (Inr _, t) \<Rightarrow> (Inr p, t))"
    using revive_cached [OF assms] by (simp add: bnd_def andthen_def split: prod.split sum.split)
  show ?thesis
    unfolding w r send_message_def by (rule agree_trigger, rule d)
qed

lemma message_to_delivered_alike:
  assumes "get_team (w_tier W) i (sv_tier (app_service s)) = Some p"
    and "t_get (w_tier W) i (sv_tier (app_service s)) = Some h"
  shows "agree (route_send_message_to W D i n b s) (at_tier (worker_send_message_to (worker_of (w_tier W) cr rs) D i n b) s)"
proof (cases "resolve_send_payload D b")
  case (Inl e)
  then show ?thesis
    by (simp add: cached_worker [OF assms(2)] route_send_message_to_def worker_send_message_to_def worker_guard_action agree_def no_content_def
        andthen_def bnd_def action_guard_def try_except_def at_tier_def in_service_def in_tier_def on_part_def)
next
  case (Inr c)
  have w: "at_tier (worker_send_message_to (worker_of (w_tier W) cr rs) D i n b) s = at_tier (no_content (action_guard (handle_send_to (t_runtime (w_tier W)) h n c))) s"
    using Inr by (intro at_tier_cong) (simp add: cached_worker [OF assms(2)] worker_send_message_to_def worker_guard_action worker_of_runtime no_content_def
        andthen_def bnd_def action_guard_def try_except_def)
  have r: "route_send_message_to W D i n b s = no_content (action_guard (in_service (send_message_to W i n c))) s"
    using Inr by (simp add: route_send_message_to_def no_content_def andthen_def bnd_def action_guard_def try_except_def)
  have d: "bnd (get_or_revive_handle (w_tier W) i) (\<lambda>(p, h). andthen (handle_send_to (t_runtime (w_tier W)) h n c) (ret p)) (sv_tier (app_service s)) =
      (case handle_send_to (t_runtime (w_tier W)) h n c (sv_tier (app_service s)) of (Inl e, t) \<Rightarrow> (Inl e, t) | (Inr _, t) \<Rightarrow> (Inr p, t))"
    using revive_cached [OF assms] by (simp add: bnd_def andthen_def split: prod.split sum.split)
  show ?thesis
    unfolding w r send_message_to_def by (rule agree_trigger, rule d)
qed

text \<open>
  C31. For a live team whose handle is cached, the routes that deliver to it do on a worker what they do on
  the server: the same answer, the same status for each failure, and the same effect on the team. The
  server's description generator is the only difference, and it does not touch the team.
\<close>

theorem worker_delivers_like_server:
  assumes "get_team (w_tier W) i (sv_tier (app_service s)) = Some p"
    and "t_get (w_tier W) i (sv_tier (app_service s)) = Some h"
  shows "agree (route_send_message W D i b s) (at_tier (worker_send_message (worker_of (w_tier W) cr rs) D i b) s)
    \<and> agree (route_send_message_to W D i n b s) (at_tier (worker_send_message_to (worker_of (w_tier W) cr rs) D i n b) s)
    \<and> route_send_message_from_to W D i a n b s =
        at_tier (worker_send_message_from_to (worker_of (w_tier W) cr rs) D i a n b) s
    \<and> route_emit_notification (w_tier W) D i raw s =
        at_tier (worker_emit_notification (worker_of (w_tier W) cr rs) D i raw) s
    \<and> route_human_input (w_tier W) i content mid s =
        at_tier (worker_human_input (worker_of (w_tier W) cr rs) i content mid) s"
proof -
  let ?T = "w_tier W" let ?s = "sv_tier (app_service s)" let ?K = "worker_of ?T cr rs"
  note rv = revive_cached [OF assms]
  note cached = cached_worker [OF assms(2)]
  have rt: "wk_runtime ?K = t_runtime ?T" by (rule worker_of_runtime)
  show ?thesis
  proof (intro conjI)
    show "agree (route_send_message W D i b s) (at_tier (worker_send_message ?K D i b) s)"
      by (rule message_delivered_alike [OF assms])
    show "agree (route_send_message_to W D i n b s) (at_tier (worker_send_message_to ?K D i n b) s)"
      by (rule message_to_delivered_alike [OF assms])
    show "route_send_message_from_to W D i a n b s = at_tier (worker_send_message_from_to ?K D i a n b) s"
      using rv rt by (cases "resolve_send_payload D b")
        (simp_all add: cached route_send_message_from_to_def worker_send_message_from_to_def worker_guard_action send_message_from_to_def
          no_content_def andthen_def bnd_def action_guard_def try_except_def at_tier_def in_service_def in_tier_def on_part_def
          split: prod.split sum.split)
    show "route_emit_notification ?T D i raw s = at_tier (worker_emit_notification ?K D i raw) s"
      using rv rt by (cases "decode_message D raw")
        (simp_all add: cached route_emit_notification_def worker_emit_notification_def worker_guard_action emit_message_def
          no_content_def andthen_def bnd_def action_guard_def try_except_def at_tier_def in_service_def in_tier_def on_part_def
          split: prod.split sum.split)
    show "route_human_input ?T i content mid s = at_tier (worker_human_input ?K i content mid) s"
      by (rule human_input_same [OF assms])
  qed
qed

text \<open>The reference tier's worker: its team manager creates and resumes without placement.\<close>

definition ref_worker :: "ref_world community worker" where
  "ref_worker = worker_of ref_tier (\<lambda>a. on_world (tm_create_team ref_manager a)) (\<lambda>i. on_world (tm_resume_team ref_manager i))"

definition hello :: send_request where
  "hello = \<lparr>sr_content = Some ''hello'', sr_message = None\<rparr>"

theorem worker_delivers_like_server_witness:
  "agree (route_send_message ref_wiring (\<lambda>_. Inr None) 7 hello (ref_app RUNNING))
     (at_tier (worker_send_message ref_worker (\<lambda>_. Inr None) 7 hello) (ref_app RUNNING))"
proof -
  have live: "get_team (w_tier ref_wiring) 7 (sv_tier (app_service (ref_app RUNNING))) =
      Some ((new_process 7 sample_args)\<lparr>status := RUNNING\<rparr>)"
    by (simp add: ref_app_get_team)
  have held: "t_get (w_tier ref_wiring) 7 (sv_tier (app_service (ref_app RUNNING))) =
      Some (LocalTeamHandle \<lparr>rt_id = 7, rt_object = 0\<rparr>)"
    by (simp add: ref_app_def ref_service_def ref_tier_defs cache_defs)
  show ?thesis
    using worker_delivers_like_server [OF live held] unfolding ref_worker_def ref_wiring_tier by blast
qed

section \<open>What a worker does not do\<close>

text \<open>
  A worker delivers to the teams it holds and starts none: without a cached handle each delivery is
  answered with 404 (or 400, for a notification that is no message) and nothing changes. A team it
  creates is held at once, so that the next delivery reaches the runtime that was created.
\<close>

theorem worker_serves_held_teams_only:
  assumes "handle_store (wk_store K) (wk_get K)"
  shows "(wk_get K i s = None \<longrightarrow>
      worker_send_message K D i b s = (Inl not_in_cache, s) \<and> worker_send_message_to K D i n b s = (Inl not_in_cache, s)
      \<and> worker_send_message_from_to K D i a n b s = (Inl not_in_cache, s)
      \<and> worker_human_input K i content mid s = (Inl not_in_cache, s)
      \<and> worker_emit_notification K D i raw s = (Inl (case decode_message D raw of Inl e \<Rightarrow> e | Inr _ \<Rightarrow> not_in_cache), s))
    \<and> (\<forall>answer u. worker_create_team K V req s = (Inr answer, u) \<longrightarrow>
        (\<exists>md rt. validate_metadata V (tc_metadata_type (wc_team_card req)) (wc_metadata req) = Inr md
          \<and> fst (wk_create_team K \<lparr>ca_card = wc_team_card req, ca_user_id = wc_user_id req,
                ca_user_email = wc_user_email req, ca_team_id = wc_team_id req,
                ca_namespace = wc_catalog_namespace req, ca_metadata = md\<rparr> s) = Inr rt
          \<and> worker_send_message K D (rt_id rt) b u =
              no_content (worker_guard (bnd (reading (\<lambda>_. resolve_send_payload D b)) (run_send (wk_runtime K) rt))) u))"
proof (intro conjI impI allI)
  fix answer u
  assume run: "worker_create_team K V req s = (Inr answer, u)"
  obtain md where md: "validate_metadata V (tc_metadata_type (wc_team_card req)) (wc_metadata req) = Inr md"
    using run by (auto simp: worker_create_team_def bnd_def try_except_def split: sum.splits exn.splits)
  define args where "args = \<lparr>ca_card = wc_team_card req, ca_user_id = wc_user_id req, ca_user_email = wc_user_email req,
      ca_team_id = wc_team_id req, ca_namespace = wc_catalog_namespace req, ca_metadata = md\<rparr>"
  obtain rt t where rt: "wk_create_team K args s = (Inr rt, t)" "u = wk_store K (rt_id rt) (LocalTeamHandle rt) t"
    using run md by (auto simp: worker_create_team_def args_def bnd_def andthen_def try_except_def
        split: sum.splits prod.splits option.splits)
  have "wk_get K (rt_id rt) u = Some (LocalTeamHandle rt)"
    using rt(2) handle_store.get_store [OF assms] by simp
  then have "worker_send_message K D (rt_id rt) b u =
      no_content (worker_guard (bnd (reading (\<lambda>_. resolve_send_payload D b)) (run_send (wk_runtime K) rt))) u"
    by (cases "resolve_send_payload D b")
      (simp_all add: worker_send_message_def no_content_def andthen_def bnd_def with_cached_def handle_send_def
        worker_guard_def try_except_def)
  then show "\<exists>md rt. validate_metadata V (tc_metadata_type (wc_team_card req)) (wc_metadata req) = Inr md
      \<and> fst (wk_create_team K \<lparr>ca_card = wc_team_card req, ca_user_id = wc_user_id req,
            ca_user_email = wc_user_email req, ca_team_id = wc_team_id req,
            ca_namespace = wc_catalog_namespace req, ca_metadata = md\<rparr> s) = Inr rt
      \<and> worker_send_message K D (rt_id rt) b u =
          no_content (worker_guard (bnd (reading (\<lambda>_. resolve_send_payload D b)) (run_send (wk_runtime K) rt))) u"
    using md rt(1) by (auto simp: args_def)
qed (simp_all add: worker_send_message_def worker_send_message_to_def worker_send_message_from_to_def
    worker_human_input_def worker_emit_notification_def with_cached_def no_content_def andthen_def bnd_def
    split: sum.split)

lemma ref_worker_store: "handle_store (wk_store ref_worker) (wk_get ref_worker)"
  by unfold_locales
    (simp add: ref_worker_def worker_of_def ref_tier_def community_defs Let_def local_cache.get_store)

definition ref_create :: worker_create_request where
  "ref_create = \<lparr>wc_team_card = ca_card sample_args, wc_user_id = ''alice'', wc_user_email = '''',
     wc_team_id = Some 8, wc_catalog_namespace = None, wc_metadata = None\<rparr>"

text \<open>Team 8 is created and answered; before, its messages are answered with 404.\<close>

theorem worker_serves_held_teams_only_witness:
  "worker_send_message ref_worker (\<lambda>_. Inr None) 8 hello (ref_start_state STOPPED) =
     (Inl not_in_cache, ref_start_state STOPPED)
   \<and> (\<exists>answer u rt. worker_create_team ref_worker sample_validate ref_create (ref_start_state STOPPED) = (Inr answer, u)
        \<and> rt_id rt = 8
        \<and> worker_send_message ref_worker (\<lambda>_. Inr None) 8 hello u =
            no_content (worker_guard (bnd (reading (\<lambda>_. resolve_send_payload (\<lambda>_. Inr None) hello)) (run_send (wk_runtime ref_worker) rt))) u)"
proof -
  let ?s = "ref_start_state STOPPED"
  let ?args = "\<lparr>ca_card = wc_team_card ref_create, ca_user_id = wc_user_id ref_create,
      ca_user_email = wc_user_email ref_create, ca_team_id = wc_team_id ref_create,
      ca_namespace = wc_catalog_namespace ref_create, ca_metadata = None\<rparr>"
  let ?rt = "\<lparr>rt_id = 8, rt_object = 1\<rparr> :: team_runtime"
  have absent: "wk_get ref_worker 8 ?s = None"
    by (simp add: ref_worker_def worker_of_def ref_tier_defs cache_defs)
  have no_md: "validate_metadata sample_validate (tc_metadata_type (wc_team_card ref_create)) (wc_metadata ref_create) = Inr None"
    by (simp add: ref_create_def sample_args_def validate_metadata_def)
  have "\<exists>t p. wk_create_team ref_worker ?args ?s = (Inr ?rt, t) \<and>
      map_of (rw_teams (store_of t)) 8 = Some p"
    by (simp add: ref_worker_def worker_of_def ref_create_def ref_manager_def in_ref_def ref_tm_def on_world_def on_part_def
      ref_start_state_def init_placement_def ref_start_def one_team_world_def store_of_def)
  then obtain t p where t: "wk_create_team ref_worker ?args ?s = (Inr ?rt, t)"
      "map_of (rw_teams (store_of t)) 8 = Some p"
    by blast
  have found: "wk_get_team ref_worker 8 (wk_store ref_worker 8 h t) = Some p" for h
    using t(2) by (simp add: ref_worker_def worker_of_def ref_get_team)
      (simp add: ref_tier_def community_defs Let_def)
  have run: "worker_create_team ref_worker sample_validate ref_create ?s =
      (Inr (TeamAnswer (process_to_response p)), wk_store ref_worker 8 (LocalTeamHandle ?rt) t)"
    by (simp add: worker_create_team_def no_md bnd_def andthen_def try_except_def t(1) found)
  note th = worker_serves_held_teams_only [OF ref_worker_store, of 8 ?s "\<lambda>_. Inr None" hello
      _ _ _ _ _ sample_validate ref_create]
  from th have 1: "worker_send_message ref_worker (\<lambda>_. Inr None) 8 hello ?s = (Inl not_in_cache, ?s)"
    using absent by blast
  from th run obtain rt where "fst (wk_create_team ref_worker ?args ?s) = Inr rt"
     "worker_send_message ref_worker (\<lambda>_. Inr None) (rt_id rt) hello
        (wk_store ref_worker 8 (LocalTeamHandle ?rt) t) =
      no_content (worker_guard (bnd (reading (\<lambda>_. resolve_send_payload (\<lambda>_. Inr None) hello)) (run_send (wk_runtime ref_worker) rt)))
        (wk_store ref_worker 8 (LocalTeamHandle ?rt) t)"
    unfolding no_md by blast
  moreover from this have "rt = ?rt" using t(1) by simp
  ultimately have 2: "worker_send_message ref_worker (\<lambda>_. Inr None) 8 hello (wk_store ref_worker 8 (LocalTeamHandle ?rt) t) =
      no_content (worker_guard (bnd (reading (\<lambda>_. resolve_send_payload (\<lambda>_. Inr None) hello)) (run_send (wk_runtime ref_worker) ?rt)))
        (wk_store ref_worker 8 (LocalTeamHandle ?rt) t)"
    by simp
  show ?thesis
    by (rule conjI [OF 1], rule exI, rule exI, rule exI [of _ ?rt], rule conjI [OF run], rule conjI [OF _ 2]) simp
qed

text \<open>
  The worker takes nobody's word for a team's metadata: whatever sent the request, a creation whose
  metadata the card's type refuses, or which names a type itself, is answered with 422 and creates
  nothing, and so is an update.
\<close>

theorem worker_revalidates_metadata:
  assumes "validate_metadata V (tc_metadata_type (wc_team_card req)) (wc_metadata req) = Inl (MetadataValidationError d)"
    and "wk_get_team K i s = Some p" "validate_metadata V (metadata_type p) (Some raw) = Inl (MetadataValidationError d')"
  shows "worker_create_team K V req s = (Inl (HTTPException 422 d), s)
    \<and> worker_update_metadata K V i raw s = (Inl (HTTPException 422 d'), s)"
  using assms by (simp add: worker_create_team_def worker_update_metadata_def bnd_def try_except_def)

text \<open>A card that declares a type, an untagged and a tagged payload.\<close>

theorem worker_revalidates_metadata_witness:
  "worker_create_team ref_worker sample_validate (ref_create\<lparr>wc_metadata := Some [(model_tag, JStr ''X'')]\<rparr>)
       (ref_start_state RUNNING) = (Inl (HTTPException 422 (exn_str tag_refused)), ref_start_state RUNNING)
   \<and> worker_update_metadata ref_worker sample_validate 7 [(model_tag, JStr ''X'')] (ref_start_state RUNNING) =
       (Inl (HTTPException 422 (exn_str tag_refused)), ref_start_state RUNNING)"
proof -
  have held: "wk_get_team ref_worker 7 (ref_start_state RUNNING) = Some ((new_process 7 sample_args)\<lparr>status := RUNNING\<rparr>)"
    by (simp add: ref_worker_def worker_of_def ref_get_team store_of_def ref_start_state_def one_team_world_def init_placement_def)
  show ?thesis
    by (rule worker_revalidates_metadata [OF _ held])
      (simp_all add: validate_metadata_def tag_refused_def)
qed

end
