(* ===== verification/Subscribers.thy ===== *)
theory Subscribers
  imports EventStream
begin

text \<open>
  The shared subscribers of the orchestrators of all teams: \<open>adapters/shared/event_stream_subscriber.py\<close>,
  which feeds the event stream, and \<open>adapters/shared/telemetry_subscriber.py\<close>, with its queue and its
  worker thread. \<open>adapters/shared/null_event_stream.py\<close> is the stream that records nothing.

  An orchestrator calls the hooks of the core package's \<open>EventSubscriber\<close>; of a message the
  subscribers read the team, the sender's name, the class and whether it is a \<open>StateChangedMessage\<close>.
\<close>

record orch_message =
  om_team :: "uuid option"
  om_sender :: "string option"
  om_class :: string
  om_state_changed :: bool
  om_payload :: string

datatype hook = SetRestoring uuid bool | OnMessage orch_message | OnStopRequest uuid | OnStop uuid

section \<open>EventStreamSubscriber\<close>

definition stream_on_message :: "(uuid \<Rightarrow> orch_message \<Rightarrow> ('e, int) prog) \<Rightarrow> orch_message \<Rightarrow> ('e, unit) prog" where
  "stream_on_message add msg =
     (case om_team msg of
        None \<Rightarrow> ret ()
      | Some i \<Rightarrow> if om_state_changed msg then ret () else andthen (add i msg) (ret ()))"

definition stream_on_stop :: "(uuid \<Rightarrow> ('e, unit) prog) \<Rightarrow> uuid \<Rightarrow> ('e, unit) prog" where
  "stream_on_stop rem i = best_effort (rem i)"

text \<open>\<open>set_restoring\<close> and \<open>on_stop_request\<close> do nothing: a restored team's replay refills its stream.\<close>

fun stream_hook ::
    "(uuid \<Rightarrow> orch_message \<Rightarrow> ('e, int) prog) \<Rightarrow> (uuid \<Rightarrow> ('e, unit) prog) \<Rightarrow> hook \<Rightarrow> ('e, unit) prog" where
  "stream_hook add rem (SetRestoring i b) = ret ()"
| "stream_hook add rem (OnMessage msg) = stream_on_message add msg"
| "stream_hook add rem (OnStopRequest i) = ret ()"
| "stream_hook add rem (OnStop i) = stream_on_stop rem i"

section \<open>NullEventStream\<close>

definition null_append :: "uuid \<Rightarrow> 'm \<Rightarrow> ('e, int) prog" where
  "null_append i event = ret 0"

definition null_read_from :: "uuid \<Rightarrow> int \<Rightarrow> 'e \<Rightarrow> 'm list" where
  "null_read_from i cursor s = []"

definition null_subscribe :: "uuid \<Rightarrow> int \<Rightarrow> ('e, unit) prog" where
  "null_subscribe i cursor = ret ()"

definition null_read_next :: "unit \<Rightarrow> ('e, 'm option) prog" where
  "null_read_next rd = ret None"

definition null_remove :: "uuid \<Rightarrow> ('e, unit) prog" where
  "null_remove i = ret ()"

section \<open>TelemetrySubscriber\<close>

text \<open>A queue item: what \<open>on_message\<close> read off a message, or a \<open>_FlushBarrier\<close> by its event.\<close>

datatype telemetry_item = Record string string "uuid option" | FlushBarrier nat

record telemetry =
  tl_restoring :: "uuid set"
  tl_queue :: "telemetry_item list"
  tl_flushed :: "nat set"

definition new_telemetry :: telemetry where
  "new_telemetry = \<lparr>tl_restoring = {}, tl_queue = [], tl_flushed = {}\<rparr>"

definition telemetry_set_restoring :: "uuid \<Rightarrow> bool \<Rightarrow> telemetry \<Rightarrow> telemetry" where
  "telemetry_set_restoring i restoring t =
     t\<lparr>tl_restoring := (if restoring then insert i (tl_restoring t) else tl_restoring t - {i})\<rparr>"

definition telemetry_record :: "orch_message \<Rightarrow> telemetry_item" where
  "telemetry_record msg = Record (case om_sender msg of Some n \<Rightarrow> n | None \<Rightarrow> ''unknown'') (om_class msg) (om_team msg)"

definition telemetry_on_message :: "orch_message \<Rightarrow> telemetry \<Rightarrow> telemetry" where
  "telemetry_on_message msg t =
     (if \<exists>i \<in> tl_restoring t. om_team msg = Some i then t
      else t\<lparr>tl_queue := tl_queue t @ [telemetry_record msg]\<rparr>)"

fun telemetry_hook :: "hook \<Rightarrow> telemetry \<Rightarrow> telemetry" where
  "telemetry_hook (SetRestoring i b) t = telemetry_set_restoring i b t"
| "telemetry_hook (OnMessage msg) t = telemetry_on_message msg t"
| "telemetry_hook (OnStopRequest i) t = t"
| "telemetry_hook (OnStop i) t = t"

definition telemetry_flush :: "nat \<Rightarrow> telemetry \<Rightarrow> telemetry" where
  "telemetry_flush n t = t\<lparr>tl_queue := tl_queue t @ [FlushBarrier n]\<rparr>"

text \<open>
  One turn of the worker's loop; on an empty queue it waits. \<open>logfire.info\<close> is a parameter that may
  raise, and its exceptions stay in the loop.
\<close>

definition telemetry_run :: "(telemetry_item \<Rightarrow> ('l, unit) prog) \<Rightarrow> telemetry \<times> 'l \<Rightarrow> telemetry \<times> 'l" where
  "telemetry_run info = (\<lambda>(t, l).
     case tl_queue t of
       [] \<Rightarrow> (t, l)
     | FlushBarrier n # q \<Rightarrow> (t\<lparr>tl_queue := q, tl_flushed := insert n (tl_flushed t)\<rparr>, l)
     | Record s c i # q \<Rightarrow> (t\<lparr>tl_queue := q\<rparr>, snd (best_effort (info (Record s c i)) l)))"

section \<open>A team's conversation\<close>

text \<open>The messages of a sequence of hooks, and those of one team since it last stopped.\<close>

fun hook_messages :: "hook list \<Rightarrow> orch_message list" where
  "hook_messages [] = []"
| "hook_messages (OnMessage m # hs) = m # hook_messages hs"
| "hook_messages (SetRestoring i b # hs) = hook_messages hs"
| "hook_messages (OnStopRequest i # hs) = hook_messages hs"
| "hook_messages (OnStop i # hs) = hook_messages hs"

definition since_stop :: "uuid \<Rightarrow> hook list \<Rightarrow> hook list" where
  "since_stop i hs = rev (takeWhile (\<lambda>h. h \<noteq> OnStop i) (rev hs))"

definition conversation :: "uuid \<Rightarrow> hook list \<Rightarrow> orch_message list" where
  "conversation i hs = filter (\<lambda>m. om_team m = Some i \<and> \<not> om_state_changed m) (hook_messages (since_stop i hs))"

lemma hook_messages_append [simp]: "hook_messages (hs @ gs) = hook_messages hs @ hook_messages gs"
  by (induction hs rule: hook_messages.induct) simp_all

lemma conversation_snoc:
  "conversation i (hs @ [h]) = (if h = OnStop i then [] else conversation i hs @
     (case h of OnMessage m \<Rightarrow> if om_team m = Some i \<and> \<not> om_state_changed m then [m] else [] | _ \<Rightarrow> []))"
  by (cases h) (auto simp: conversation_def since_stop_def)

lemma for_each_snoc:
  "for_each f (xs @ [x]) = andthen (for_each f xs) (andthen (f x) (ret ()))"
  by (induction xs) (auto simp: andthen_def bnd_def fun_eq_iff split: prod.split sum.split)

text \<open>The stream the subscriber is given: one that records orchestrator messages.\<close>

locale message_stream = event_stream append read_from remove inv
  for append :: "uuid \<Rightarrow> orch_message \<Rightarrow> ('e, int) prog" and read_from :: "uuid \<Rightarrow> int \<Rightarrow> 'e \<Rightarrow> orch_message list"
    and remove :: "uuid \<Rightarrow> ('e, unit) prog" and inv :: "'e \<Rightarrow> bool"
begin

lemma conversation_kept:
  assumes "inv s" "\<And>j. read_from j 0 s = []"
  shows "\<exists>t. for_each (stream_hook append remove) hs s = (Inr (), t) \<and> inv t \<and>
    (\<forall>j. read_from j 0 t = conversation j hs)"
proof (induction hs rule: rev_induct)
  case Nil
  then show ?case using assms by (simp add: conversation_def since_stop_def)
next
  case (snoc h hs)
  then obtain t where t: "for_each (stream_hook append remove) hs s = (Inr (), t)" "inv t"
      "\<And>j. read_from j 0 t = conversation j hs"
    by blast
  have app: "\<exists>n u. append i m t = (Inr n, u) \<and> inv u \<and>
      (\<forall>j. read_from j 0 u = (if j = i then conversation i hs @ [m] else conversation j hs))" for i m
    using append_result [OF t(2), of i m] append_inv [OF t(2), of i m] append_read [OF t(2), of _ 0 i m] t(3)
    by (cases "append i m t") (simp add: py_drop_def)
  have rem: "\<exists>u. remove i t = (Inr (), u) \<and> inv u \<and>
      (\<forall>j. read_from j 0 u = (if j = i then [] else conversation j hs))" for i
    using remove_result [OF t(2), of i] remove_inv [OF t(2), of i] remove_read [OF t(2), of _ 0 i] t(3)
    by (cases "remove i t") simp
  have "\<exists>u. stream_hook append remove h t = (Inr (), u) \<and> inv u \<and> (\<forall>j. read_from j 0 u = conversation j (hs @ [h]))"
  proof (cases h)
    case (OnMessage m)
    show ?thesis
    proof (cases "om_team m = None \<or> om_state_changed m")
      case True
      then show ?thesis
        using OnMessage t by (auto simp: stream_on_message_def conversation_snoc ret_def split: option.split)
    next
      case False
      then obtain i where i: "om_team m = Some i" by auto
      then show ?thesis
        using OnMessage False app [of i m]
        by (auto simp: stream_on_message_def conversation_snoc andthen_def bnd_def ret_def)
    qed
  next
    case (OnStop i)
    then show ?thesis
      using rem [of i] by (auto simp: stream_on_stop_def conversation_snoc best_effort_def try_except_def)
  qed (use t in \<open>auto simp: conversation_snoc ret_def\<close>)
  then show ?case
    using t(1) by (auto simp: for_each_snoc andthen_def bnd_def ret_def)
qed

end

interpretation orch_stream: message_stream stream_append stream_read_from stream_remove es_inv
  by unfold_locales

text \<open>
  Whatever the orchestrators of all teams send, in any order, no hook of the stream subscriber raises,
  and a team's stream holds exactly that team's messages since it last stopped, in their order, without
  the state snapshots; a restored team's replay is among them. Reading from a cursor gives their tail.
\<close>

theorem stream_holds_the_conversation:
  "\<exists>s. for_each (stream_hook stream_append stream_remove) hs init_streams = (Inr (), s) \<and>
     (\<forall>i c. stream_read_from i c s = py_drop c (conversation i hs))"
proof -
  obtain s where s: "for_each (stream_hook stream_append stream_remove) hs init_streams = (Inr (), s)"
      "\<And>j. stream_read_from j 0 s = conversation j hs"
    using orch_stream.conversation_kept [OF es_inv_init, of hs]
    by (auto simp: read_from_contents py_drop_def)
  have "contents s j = conversation j hs" for j
    using s(2) [of j] by (simp add: read_from_contents py_drop_def)
  then show ?thesis using s(1) by (simp add: read_from_contents)
qed

section \<open>Telemetry\<close>

text \<open>What reaches the queue: a message of a team that is not being restored. A sequence of worker turns
  may fall between any two hooks.\<close>

datatype telemetry_event = Hook hook | Turn | Flush nat

fun telemetry_event_step :: "(telemetry_item \<Rightarrow> ('l, unit) prog) \<Rightarrow> telemetry_event \<Rightarrow> telemetry \<times> 'l \<Rightarrow> telemetry \<times> 'l" where
  "telemetry_event_step info (Hook h) (t, l) = (telemetry_hook h t, l)"
| "telemetry_event_step info Turn (t, l) = telemetry_run info (t, l)"
| "telemetry_event_step info (Flush n) (t, l) = (telemetry_flush n t, l)"

text \<open>A team is being restored when the last \<open>set_restoring\<close> of that team said so.\<close>

definition restoring :: "uuid \<Rightarrow> hook list \<Rightarrow> bool" where
  "restoring i hs = fold (\<lambda>h b. case h of SetRestoring j c \<Rightarrow> if j = i then c else b | _ \<Rightarrow> b) hs False"

fun live_records :: "hook list \<Rightarrow> hook list \<Rightarrow> telemetry_item list" where
  "live_records before [] = []"
| "live_records before (h # hs) = (case h of
      OnMessage m \<Rightarrow> if \<exists>i. om_team m = Some i \<and> restoring i before then [] else [telemetry_record m]
    | _ \<Rightarrow> []) @ live_records (before @ [h]) hs"

fun hooks_of :: "telemetry_event list \<Rightarrow> hook list" where
  "hooks_of [] = []"
| "hooks_of (Hook h # es) = h # hooks_of es"
| "hooks_of (Turn # es) = hooks_of es"
| "hooks_of (Flush n # es) = hooks_of es"

fun is_record :: "telemetry_item \<Rightarrow> bool" where
  "is_record (Record s c i) = True"
| "is_record (FlushBarrier n) = False"

lemma restoring_snoc:
  "restoring i (hs @ [h]) = (case h of SetRestoring j b \<Rightarrow> if j = i then b else restoring i hs | _ \<Rightarrow> restoring i hs)"
  by (cases h) (simp_all add: restoring_def)

lemma live_records_append:
  "live_records before (hs @ [h]) = live_records before hs @ (case h of
      OnMessage m \<Rightarrow> if \<exists>i. om_team m = Some i \<and> restoring i (before @ hs) then [] else [telemetry_record m]
    | _ \<Rightarrow> [])"
  by (induction hs arbitrary: before) (auto split: hook.split)

lemma hooks_of_append [simp]: "hooks_of (es @ fs) = hooks_of es @ hooks_of fs"
  by (induction es rule: hooks_of.induct) simp_all

text \<open>The exporter's own log: every item it was handed, kept even when it then raises.\<close>

definition logging_exporter :: "(telemetry_item \<Rightarrow> bool) \<Rightarrow> telemetry_item \<Rightarrow> (telemetry_item list, unit) prog" where
  "logging_exporter fails item l = ((if fails item then Inl (OtherError ''logfire'') else Inr ()), l @ [item])"

text \<open>
  Telemetry loses, repeats and reorders nothing, however its worker is scheduled and whichever
  exports raise: what was handed to the exporter followed by what is queued is the record of every
  message whose team was not being restored, in order. One team's restore hides no other team's messages.
\<close>

theorem telemetry_keeps_live_messages:
  "\<exists>t l. fold (telemetry_event_step (logging_exporter fails)) es (new_telemetry, []) = (t, l) \<and>
     l @ filter is_record (tl_queue t) = live_records [] (hooks_of es) \<and>
     (\<forall>i. i \<in> tl_restoring t \<longleftrightarrow> restoring i (hooks_of es))"
proof (induction es rule: rev_induct)
  case Nil
  then show ?case by (simp add: new_telemetry_def restoring_def)
next
  case (snoc e es)
  then obtain t l where t: "fold (telemetry_event_step (logging_exporter fails)) es (new_telemetry, []) = (t, l)"
      "l @ filter is_record (tl_queue t) = live_records [] (hooks_of es)"
      "\<And>i. i \<in> tl_restoring t \<longleftrightarrow> restoring i (hooks_of es)"
    by blast
  show ?case
  proof (cases e)
    case (Hook h)
    then show ?thesis
      using t by (cases h) (auto simp: live_records_append restoring_snoc telemetry_set_restoring_def
        telemetry_on_message_def telemetry_record_def)
  next
    case Turn
    obtain t' l' where turn: "telemetry_run (logging_exporter fails) (t, l) = (t', l')" by force
    then have "l' @ filter is_record (tl_queue t') = l @ filter is_record (tl_queue t) \<and> tl_restoring t' = tl_restoring t"
      by (auto simp: telemetry_run_def logging_exporter_def best_effort_state
          split: list.splits telemetry_item.splits)
    then show ?thesis using Turn t turn by simp
  qed (use t in \<open>simp add: telemetry_flush_def\<close>)
qed

end
