(* ===== verification/DeviceFlow.thy ===== *)
theory DeviceFlow
  imports PyText
begin

text \<open>
  \<open>cli/auth/oidc.py\<close>: discovery of the endpoints, the start of the device flow, and the polling loop. The
  HTTP client, the clock and the validation of the payloads are parameters; a body is any \<open>'b\<close>.
\<close>

section \<open>Payloads\<close>

record oidc_endpoints =
  ep_device_authorization :: string
  ep_token :: string

record device_auth =
  da_device_code :: string
  da_user_code :: string
  da_verification_uri :: string
  da_verification_uri_complete :: "string option"
  da_expires_in :: int
  da_interval :: "int option"

record token_response =
  tr_access_token :: string
  tr_refresh_token :: "string option"
  tr_expires_in :: int
  tr_token_type :: string

record oidc_error =
  oe_error :: string
  oe_description :: "string option"

text \<open>The interval of RFC 8628 when the server omits it.\<close>

definition poll_interval :: "device_auth \<Rightarrow> int" where
  "poll_interval d = (case da_interval d of Some i \<Rightarrow> i | None \<Rightarrow> 5)"

section \<open>The world outside\<close>

record 'b http_reply =
  hr_status :: nat
  hr_content :: 'b

record ('w, 'b) http_client =
  hc_get :: "string \<Rightarrow> ('w, 'b http_reply) prog"
  hc_post :: "string \<Rightarrow> (string \<times> string) list \<Rightarrow> ('w, 'b http_reply) prog"

text \<open>\<open>model_validate_json\<close> of the four models: the value or the text of the validation error.\<close>

record 'b parsers =
  pa_error :: "'b \<Rightarrow> oidc_error option"
  pa_endpoints :: "'b \<Rightarrow> string + oidc_endpoints"
  pa_device :: "'b \<Rightarrow> string + device_auth"
  pa_token :: "'b \<Rightarrow> string + token_response"

record 'w timer =
  ti_clock :: "'w \<Rightarrow> int"
  ti_sleep :: "int \<Rightarrow> ('w, unit) prog"

text \<open>\<open>except httpx.HTTPError as exc\<close>: the error is raised again as one of the protocol, any other passes.\<close>

definition on_http_error :: "('w, 'a) prog \<Rightarrow> (string \<Rightarrow> exn) \<Rightarrow> ('w, 'a) prog" where
  "on_http_error m wrap = try_except m (\<lambda>e. case e of HTTPError t \<Rightarrow> throw (wrap t) | _ \<Rightarrow> throw e)"

section \<open>Discovery\<close>

definition rstrip_slash :: "string \<Rightarrow> string" where
  "rstrip_slash s = rev (dropWhile (\<lambda>c. c = CHR ''/'') (rev s))"

definition discovery_url :: "string \<Rightarrow> string" where
  "discovery_url issuer = rstrip_slash issuer @ ''/.well-known/openid-configuration''"

definition discover_endpoints ::
    "('w, 'b) http_client \<Rightarrow> 'b parsers \<Rightarrow> string \<Rightarrow> ('w, oidc_endpoints) prog" where
  "discover_endpoints C P issuer =
     (let url = discovery_url issuer in
      bnd (on_http_error (hc_get C url) (\<lambda>t. OidcDiscoveryError (''Failed to fetch OIDC discovery document from '' @ url @ '': '' @ t)))
        (\<lambda>r. if 400 \<le> hr_status r
             then throw (OidcDiscoveryError (''OIDC discovery document at '' @ url @ '' returned HTTP '' @ int_str (int (hr_status r))))
             else (case pa_endpoints P (hr_content r) of
                Inl err \<Rightarrow> throw (OidcDiscoveryError (''OIDC discovery document at '' @ url @ '' is missing required endpoints: '' @ err))
              | Inr eps \<Rightarrow> ret eps)))"

section \<open>The start of the flow\<close>

text \<open>The description of an error after a long dash, when there is one.\<close>

definition described :: "oidc_error \<Rightarrow> string" where
  "described err = (case oe_description err of
     None \<Rightarrow> [] | Some d \<Rightarrow> if d = [] then [] else [CHR '' '', long_dash, CHR '' ''] @ d)"

definition device_scope :: string where
  "device_scope = ''openid offline_access''"

definition initiate_device_flow ::
    "('w, 'b) http_client \<Rightarrow> 'b parsers \<Rightarrow> oidc_endpoints \<Rightarrow> string \<Rightarrow> ('w, device_auth) prog" where
  "initiate_device_flow C P eps client_id =
     bnd (on_http_error (hc_post C (ep_device_authorization eps) [(''client_id'', client_id), (''scope'', device_scope)])
            (\<lambda>t. OidcProtocolError (''Device-authorization request to '' @ ep_device_authorization eps @ '' failed: '' @ t)))
       (\<lambda>r. if 400 \<le> hr_status r
            then (case pa_error P (hr_content r) of
                Some err \<Rightarrow> throw (OidcProtocolError (''Device-authorization request failed: '' @ oe_error err @ described err))
              | None \<Rightarrow> throw (OidcProtocolError (''Device-authorization request failed with HTTP '' @ int_str (int (hr_status r)))))
            else (case pa_device P (hr_content r) of
                Inl err \<Rightarrow> throw (OidcProtocolError (''Device-authorization response from '' @ ep_device_authorization eps @
                  '' is malformed: '' @ err))
              | Inr d \<Rightarrow> ret d))"

section \<open>Token requests\<close>

definition classify_token_error :: "oidc_error \<Rightarrow> exn" where
  "classify_token_error err =
     (let code = oe_error err; t = code @ described err in
      if code = ''authorization_pending'' then AuthorizationPendingError t
      else if code = ''slow_down'' then SlowDownError t
      else if code = ''access_denied'' then AccessDeniedError t
      else if code = ''expired_token'' then ExpiredTokenError t
      else OidcProtocolError t)"

definition request_token ::
    "('w, 'b) http_client \<Rightarrow> 'b parsers \<Rightarrow> oidc_endpoints \<Rightarrow> (string \<times> string) list \<Rightarrow> ('w, token_response) prog" where
  "request_token C P eps data =
     bnd (on_http_error (hc_post C (ep_token eps) data)
            (\<lambda>t. OidcProtocolError (''Token request to '' @ ep_token eps @ '' failed: '' @ t)))
       (\<lambda>r. if 400 \<le> hr_status r
            then (case pa_error P (hr_content r) of
                Some err \<Rightarrow> throw (classify_token_error err)
              | None \<Rightarrow> throw (OidcProtocolError (''Token request failed with HTTP '' @ int_str (int (hr_status r)))))
            else (case pa_token P (hr_content r) of
                Inl err \<Rightarrow> throw (OidcProtocolError (''Token response from '' @ ep_token eps @ '' is malformed: '' @ err))
              | Inr t \<Rightarrow> ret t))"

section \<open>Polling\<close>

fun is_pending :: "exn \<Rightarrow> bool" where
  "is_pending (AuthorizationPendingError _) = True"
| "is_pending _ = False"

fun is_slow_down :: "exn \<Rightarrow> bool" where
  "is_slow_down (SlowDownError _) = True"
| "is_slow_down _ = False"

definition flow_timed_out :: exn where
  "flow_timed_out = ExpiredTokenError ''Device-code flow timed out before the user completed authorization''"

text \<open>The loop; \<open>None\<close> would be a loop that never returns.\<close>

partial_function (option) poll_loop ::
    "('w, 'b) http_client \<Rightarrow> 'b parsers \<Rightarrow> 'w timer \<Rightarrow> oidc_endpoints \<Rightarrow> (string \<times> string) list \<Rightarrow> int \<Rightarrow> int \<Rightarrow> 'w \<Rightarrow>
     ((exn + token_response) \<times> 'w) option" where
  "poll_loop C P TI eps data deadline interval w =
     (if deadline \<le> ti_clock TI w then Some (Inl flow_timed_out, w)
      else case ti_sleep TI interval w of
        (Inl e, w1) \<Rightarrow> Some (Inl e, w1)
      | (Inr _, w1) \<Rightarrow>
          (case request_token C P eps data w1 of
             (Inr t, w2) \<Rightarrow> Some (Inr t, w2)
           | (Inl e, w2) \<Rightarrow>
               if is_pending e then poll_loop C P TI eps data deadline interval w2
               else if is_slow_down e then poll_loop C P TI eps data deadline (interval + 5) w2
               else Some (Inl e, w2)))"

definition poll_data :: "string \<Rightarrow> string \<Rightarrow> (string \<times> string) list" where
  "poll_data client_id device_code =
     [(''grant_type'', ''urn:ietf:params:oauth:grant-type:device_code''), (''device_code'', device_code), (''client_id'', client_id)]"

definition poll_for_token ::
    "('w, 'b) http_client \<Rightarrow> 'b parsers \<Rightarrow> 'w timer \<Rightarrow> oidc_endpoints \<Rightarrow> string \<Rightarrow> string \<Rightarrow> int \<Rightarrow> int \<Rightarrow> 'w \<Rightarrow>
     ((exn + token_response) \<times> 'w) option" where
  "poll_for_token C P TI eps client_id device_code initial_interval expires_in w =
     poll_loop C P TI eps (poll_data client_id device_code) (ti_clock TI w + expires_in) initial_interval w"

section \<open>The loop ends\<close>

text \<open>
  Time passes: sleeping for \<open>n\<close> seconds takes \<open>n\<close> seconds at least, a request does not turn the clock
  back. \<open>sent\<close> counts the requests.
\<close>

definition time_passes :: "('w, 'b) http_client \<Rightarrow> 'w timer \<Rightarrow> bool" where
  "time_passes C TI \<longleftrightarrow>
     (\<forall>n w. 0 \<le> n \<longrightarrow> (\<exists>w'. ti_sleep TI n w = (Inr (), w') \<and> ti_clock TI w + n \<le> ti_clock TI w')) \<and>
     (\<forall>url data w. ti_clock TI w \<le> ti_clock TI (snd (hc_post C url data w)))"

definition counts_posts :: "('w, 'b) http_client \<Rightarrow> 'w timer \<Rightarrow> ('w \<Rightarrow> nat) \<Rightarrow> bool" where
  "counts_posts C TI sent \<longleftrightarrow>
     (\<forall>n w. sent (snd (ti_sleep TI n w)) = sent w) \<and> (\<forall>url data w. sent (snd (hc_post C url data w)) = Suc (sent w))"

lemma request_token_world: "snd (request_token C P eps data w) = snd (hc_post C (ep_token eps) data w)"
  by (auto simp: request_token_def on_http_error_def bnd_def try_except_def throw_def ret_def
      split: prod.split sum.split exn.split option.split)

text \<open>One turn of the loop before its deadline: a sleep, a request, and the end or another turn.\<close>

lemma poll_turn:
  assumes "time_passes C TI" "counts_posts C TI sent" "0 \<le> interval" "ti_clock TI w < deadline"
  obtains r w2 where "ti_clock TI w + interval \<le> ti_clock TI w2" "sent w2 = Suc (sent w)"
    "poll_loop C P TI eps data deadline interval w =
       (case r of Inr t \<Rightarrow> Some (Inr t, w2)
        | Inl e \<Rightarrow> if is_pending e then poll_loop C P TI eps data deadline interval w2
            else if is_slow_down e then poll_loop C P TI eps data deadline (interval + 5) w2
            else Some (Inl e, w2))"
proof -
  obtain w1 where w1: "ti_sleep TI interval w = (Inr (), w1)" "ti_clock TI w + interval \<le> ti_clock TI w1"
    using assms(1,3) unfolding time_passes_def by blast
  obtain r w2 where rq: "request_token C P eps data w1 = (r, w2)" by force
  then have w2: "w2 = snd (hc_post C (ep_token eps) data w1)" using request_token_world by (metis snd_conv)
  have "ti_clock TI w1 \<le> ti_clock TI w2" using assms(1) w2 by (auto simp: time_passes_def)
  moreover have "sent w2 = Suc (sent w)"
    using assms(2) w1(1) w2 unfolding counts_posts_def by (metis snd_conv)
  ultimately show ?thesis
    using that [of w2 r] w1 rq assms(4)
    by (simp add: poll_loop.simps [of C P TI eps data deadline interval w] split: sum.split)
qed

lemma poll_loop_ends:
  assumes "time_passes C TI" "counts_posts C TI sent" "1 \<le> i0" "i0 \<le> interval"
  shows "\<exists>r w'. poll_loop C P TI eps data deadline interval w = Some (r, w')
    \<and> (\<forall>e. r = Inl e \<longrightarrow> \<not> is_pending e \<and> \<not> is_slow_down e)
    \<and> (sent w' = sent w \<or> (int (sent w') - int (sent w) - 1) * i0 < deadline - ti_clock TI w)"
  using assms(4)
proof (induction "nat (deadline - ti_clock TI w)" arbitrary: interval w rule: less_induct)
  case less
  show ?case
  proof (cases "deadline \<le> ti_clock TI w")
    case True
    then show ?thesis by (simp add: poll_loop.simps [of C P TI eps data deadline interval w] flow_timed_out_def)
  next
    case False
    then have before: "ti_clock TI w < deadline" "0 \<le> interval" using less.prems assms(3) by auto
    obtain r w2 where turn: "ti_clock TI w + interval \<le> ti_clock TI w2" "sent w2 = Suc (sent w)"
        "poll_loop C P TI eps data deadline interval w =
           (case r of Inr t \<Rightarrow> Some (Inr t, w2)
            | Inl e \<Rightarrow> if is_pending e then poll_loop C P TI eps data deadline interval w2
                else if is_slow_down e then poll_loop C P TI eps data deadline (interval + 5) w2
                else Some (Inl e, w2))"
      using poll_turn [OF assms(1,2) before(2,1), of P eps data] by blast
    have again: ?thesis if unf: "poll_loop C P TI eps data deadline interval w = poll_loop C P TI eps data deadline j w2"
      and j: "i0 \<le> j" for j
    proof -
      have "nat (deadline - ti_clock TI w2) < nat (deadline - ti_clock TI w)"
        using turn(1) less.prems assms(3) False by linarith
      from less.hyps [OF this j] obtain r' w' where run: "poll_loop C P TI eps data deadline j w2 = Some (r', w')"
          "\<forall>e. r' = Inl e \<longrightarrow> \<not> is_pending e \<and> \<not> is_slow_down e"
          "sent w' = sent w2 \<or> (int (sent w') - int (sent w2) - 1) * i0 < deadline - ti_clock TI w2"
        by blast
      have "(int (sent w') - int (sent w) - 1) * i0 = (int (sent w') - int (sent w2) - 1) * i0 + i0"
        using turn(2) by (simp add: algebra_simps)
      then have "(int (sent w') - int (sent w) - 1) * i0 < deadline - ti_clock TI w"
        using run(3) turn(1,2) less.prems False by (cases "sent w' = sent w2") auto
      then show ?thesis using unf run by metis
    qed
    show ?thesis
    proof (cases "\<exists>e. r = Inl e \<and> (is_pending e \<or> is_slow_down e)")
      case True
      then show ?thesis using turn(3) again [of interval] again [of "interval + 5"] less.prems by auto
    next
      case stop: False
      then show ?thesis using turn(2,3) False by (cases r) auto
    qed
  qed
qed

text \<open>
  C19. Polling for the token always ends. With an interval of a second or more, and a clock that moves while
  the program sleeps, it returns a token or an error that is neither \<open>authorization_pending\<close> nor
  \<open>slow_down\<close>, after no more requests than fit into the lifetime of the device code at that interval.
\<close>

theorem polling_ends:
  assumes "time_passes C TI" "counts_posts C TI sent" "1 \<le> interval"
  shows "\<exists>r w'. poll_for_token C P TI eps client_id device_code interval expires_in w = Some (r, w')
    \<and> (\<forall>e. r = Inl e \<longrightarrow> \<not> is_pending e \<and> \<not> is_slow_down e)
    \<and> (sent w' = sent w \<or> (int (sent w') - int (sent w) - 1) * interval < expires_in)"
  using poll_loop_ends [OF assms order.refl, where w = w and deadline = "ti_clock TI w + expires_in"]
  by (simp add: poll_for_token_def)

text \<open>A server that answers from a script, and then that authorization is pending.\<close>

datatype wire = WireError oidc_error | WireEndpoints oidc_endpoints | WireDevice device_auth | WireToken token_response

record script_world =
  sw_time :: int
  sw_sent :: nat
  sw_script :: "wire http_reply list"

definition oidc_failure :: "string \<Rightarrow> wire http_reply" where
  "oidc_failure code = \<lparr>hr_status = 400, hr_content = WireError \<lparr>oe_error = code, oe_description = None\<rparr>\<rparr>"

definition script_answer :: "(script_world, wire http_reply) prog" where
  "script_answer w = (case sw_script w of
     [] \<Rightarrow> (Inr (oidc_failure ''authorization_pending''), w\<lparr>sw_sent := Suc (sw_sent w)\<rparr>)
   | r # rs \<Rightarrow> (Inr r, w\<lparr>sw_sent := Suc (sw_sent w), sw_script := rs\<rparr>))"

definition script_client :: "(script_world, wire) http_client" where
  "script_client = \<lparr>hc_get = (\<lambda>_. script_answer), hc_post = (\<lambda>_ _. script_answer)\<rparr>"

definition script_timer :: "script_world timer" where
  "script_timer = \<lparr>ti_clock = sw_time, ti_sleep = (\<lambda>n w.
     if n < 0 then (Inl (ValueError ''sleep length must be non-negative''), w) else (Inr (), w\<lparr>sw_time := sw_time w + n\<rparr>))\<rparr>"

definition wire_parsers :: "wire parsers" where
  "wire_parsers = \<lparr>
     pa_error = (\<lambda>b. case b of WireError e \<Rightarrow> Some e | _ \<Rightarrow> None),
     pa_endpoints = (\<lambda>b. case b of WireEndpoints e \<Rightarrow> Inr e | _ \<Rightarrow> Inl ''missing''),
     pa_device = (\<lambda>b. case b of WireDevice d \<Rightarrow> Inr d | _ \<Rightarrow> Inl ''missing''),
     pa_token = (\<lambda>b. case b of WireToken t \<Rightarrow> Inr t | _ \<Rightarrow> Inl ''missing'')\<rparr>"

lemma script_laws: "time_passes script_client script_timer" "counts_posts script_client script_timer sw_sent"
  by (auto simp: time_passes_def counts_posts_def script_client_def script_timer_def script_answer_def split: list.split)

definition sample_endpoints :: oidc_endpoints where
  "sample_endpoints = \<lparr>ep_device_authorization = ''https://idp/device'', ep_token = ''https://idp/token''\<rparr>"

definition sample_token :: token_response where
  "sample_token = \<lparr>tr_access_token = ''new'', tr_refresh_token = Some ''r'', tr_expires_in = 3600, tr_token_type = ''Bearer''\<rparr>"

text \<open>A user who never answers: the code expires after 30 seconds and at most six requests.\<close>

theorem polling_ends_witness:
  "\<exists>r w'. poll_for_token script_client wire_parsers script_timer sample_endpoints ''cli'' ''dc'' 5 30
      \<lparr>sw_time = 100, sw_sent = 0, sw_script = []\<rparr> = Some (r, w') \<and> sw_sent w' \<le> 6"
proof -
  obtain r w' where run: "poll_for_token script_client wire_parsers script_timer sample_endpoints ''cli'' ''dc'' 5 30
        \<lparr>sw_time = 100, sw_sent = 0, sw_script = []\<rparr> = Some (r, w')"
      "sw_sent w' = 0 \<or> (int (sw_sent w') - 1) * 5 < 30"
    using polling_ends [OF script_laws, of 5 wire_parsers sample_endpoints "''cli''" "''dc''" 30
        "\<lparr>sw_time = 100, sw_sent = 0, sw_script = []\<rparr>"] by auto
  then have "sw_sent w' \<le> 6" by auto
  then show ?thesis using run(1) by blast
qed

text \<open>A slow user: one request to slow down, one pending, then the token.\<close>

lemma sample_poll:
  "poll_for_token script_client wire_parsers script_timer sample_endpoints ''cli'' ''dc'' 5 30
     \<lparr>sw_time = 100, sw_sent = 0, sw_script = [oidc_failure ''slow_down'', oidc_failure ''authorization_pending'',
        \<lparr>hr_status = 200, hr_content = WireToken sample_token\<rparr>]\<rparr> =
   Some (Inr sample_token, \<lparr>sw_time = 125, sw_sent = 3, sw_script = []\<rparr>)"
  by (simp add: poll_for_token_def poll_loop.simps script_client_def script_timer_def script_answer_def wire_parsers_def
      request_token_def on_http_error_def classify_token_error_def oidc_failure_def bnd_def try_except_def numeral_eq_Suc)

end
