(* ===== verification/TokenCache.thy ===== *)
theory TokenCache
  imports PyText
begin

text \<open>
  \<open>cli/auth/cache.py\<close>: the token cache of a profile, one file in the credentials directory. A save is a
  sequence of operating system calls, and the process may be killed after any of them and in the middle
  of the write. File names are those of one directory; modes are the nine permission bits (\<open>0o600\<close> is \<open>0x180\<close>).
\<close>

unbundle bit_operations_syntax

section \<open>Files\<close>

type_synonym mode = "9 word"

record cache_file =
  fi_content :: string
  fi_mode :: mode

record cache_fs =
  fs_dir :: "mode option"
  fs_files :: "string \<rightharpoonup> cache_file"
  fs_umask :: mode

definition owner_only :: mode where
  "owner_only = 0x180"

definition owner_dir :: mode where
  "owner_dir = 0x1C0"

definition group_other :: mode where
  "group_other = 0x3F"

section \<open>Entries\<close>

record token_entry =
  te_access_token :: string
  te_refresh_token :: string
  te_expires_at :: int

text \<open>What the model library does with an entry, and how the directory and a failed read are shown.\<close>

record cache_codec =
  co_dump :: "token_entry \<Rightarrow> string"
  co_validate :: "string \<Rightarrow> string + token_entry"
  co_dir :: string
  co_denied :: string

definition cache_name :: "string \<Rightarrow> string" where
  "cache_name profile_name = profile_name @ ''.json''"

definition tmp_name :: "string \<Rightarrow> string" where
  "tmp_name profile_name = profile_name @ ''.json.tmp''"

definition shown_path :: "cache_codec \<Rightarrow> string \<Rightarrow> string" where
  "shown_path K profile_name = co_dir K @ ''/'' @ cache_name profile_name"

section \<open>Load and delete\<close>

definition owner_reads :: mode where
  "owner_reads = 0x100"

definition load_token_cache :: "cache_codec \<Rightarrow> string \<Rightarrow> cache_fs \<Rightarrow> exn + token_entry option" where
  "load_token_cache K profile_name fs =
     (case fs_files fs (cache_name profile_name) of
        None \<Rightarrow> Inr None
      | Some f \<Rightarrow>
          if fi_mode f AND owner_reads = 0
          then Inl (TokenCacheCorruptError (''Cannot read cache file '' @ shown_path K profile_name @ '': '' @ co_denied K))
          else (case co_validate K (fi_content f) of
            Inl err \<Rightarrow> Inl (TokenCacheCorruptError (''Cache file '' @ shown_path K profile_name @
              '' is corrupt or schema-incompatible: '' @ err))
          | Inr entry \<Rightarrow> Inr (Some entry)))"

definition delete_token_cache :: "string \<Rightarrow> (cache_fs, unit) prog" where
  "delete_token_cache profile_name = writing (\<lambda>fs. fs\<lparr>fs_files := (fs_files fs)(cache_name profile_name := None)\<rparr>)"

section \<open>Save\<close>

text \<open>\<open>mkdir\<close> makes the directory under the mask when it is not there; \<open>chmod\<close> ignores the mask.\<close>

definition make_dir :: "cache_fs \<Rightarrow> cache_fs" where
  "make_dir fs = fs\<lparr>fs_dir := (case fs_dir fs of None \<Rightarrow> Some (owner_dir AND NOT (fs_umask fs)) | Some m \<Rightarrow> Some m)\<rparr>"

definition chmod_dir :: "cache_fs \<Rightarrow> cache_fs" where
  "chmod_dir fs = fs\<lparr>fs_dir := Some owner_dir\<rparr>"

definition ensure_restrictive_dir :: "cache_fs \<Rightarrow> cache_fs" where
  "ensure_restrictive_dir fs = chmod_dir (make_dir fs)"

text \<open>\<open>os.open\<close> with \<open>O_CREAT | O_TRUNC\<close>: a file that is there keeps its mode.\<close>

definition open_trunc :: "string \<Rightarrow> cache_fs \<Rightarrow> cache_fs" where
  "open_trunc n fs = fs\<lparr>fs_files := (fs_files fs)(n \<mapsto>
     (case fs_files fs n of
        None \<Rightarrow> \<lparr>fi_content = [], fi_mode = owner_only AND NOT (fs_umask fs)\<rparr>
      | Some f \<Rightarrow> f\<lparr>fi_content := []\<rparr>))\<rparr>"

definition write_file :: "string \<Rightarrow> string \<Rightarrow> cache_fs \<Rightarrow> cache_fs" where
  "write_file n payload fs =
     fs\<lparr>fs_files := (fs_files fs)(n := map_option (\<lambda>f. f\<lparr>fi_content := payload\<rparr>) (fs_files fs n))\<rparr>"

definition replace_file :: "string \<Rightarrow> string \<Rightarrow> cache_fs \<Rightarrow> cache_fs" where
  "replace_file src dst fs = fs\<lparr>fs_files := (fs_files fs)(dst := fs_files fs src, src := None)\<rparr>"

definition chmod_file :: "string \<Rightarrow> mode \<Rightarrow> cache_fs \<Rightarrow> cache_fs" where
  "chmod_file n m fs = fs\<lparr>fs_files := (fs_files fs)(n := map_option (\<lambda>f. f\<lparr>fi_mode := m\<rparr>) (fs_files fs n))\<rparr>"

definition unlink :: "string \<Rightarrow> cache_fs \<Rightarrow> cache_fs" where
  "unlink n fs = fs\<lparr>fs_files := (fs_files fs)(n := None)\<rparr>"

text \<open>A write may raise: the temporary file is removed and the exception raised again.\<close>

definition save_token_cache ::
    "cache_codec \<Rightarrow> exn option \<Rightarrow> string \<Rightarrow> token_entry \<Rightarrow> (cache_fs, unit) prog" where
  "save_token_cache K fault profile_name entry =
     andthen (writing ensure_restrictive_dir)
    (andthen (writing (open_trunc (tmp_name profile_name)))
    (andthen (case fault of
         Some e \<Rightarrow> andthen (writing (unlink (tmp_name profile_name))) (throw e)
       | None \<Rightarrow> writing (write_file (tmp_name profile_name) (co_dump K entry)))
    (andthen (writing (replace_file (tmp_name profile_name) (cache_name profile_name)))
       (writing (chmod_file (cache_name profile_name) owner_only)))))"

text \<open>The states a save passes through, the file half written included.\<close>

inductive saving :: "cache_codec \<Rightarrow> string \<Rightarrow> token_entry \<Rightarrow> cache_fs \<Rightarrow> cache_fs \<Rightarrow> bool"
  for K p entry fs where
  sv_start: "saving K p entry fs fs"
| sv_mkdir: "saving K p entry fs (make_dir fs)"
| sv_chmod_dir: "saving K p entry fs (ensure_restrictive_dir fs)"
| sv_open: "saving K p entry fs (open_trunc (tmp_name p) (ensure_restrictive_dir fs))"
| sv_write: "prefix part (co_dump K entry) \<Longrightarrow>
    saving K p entry fs (write_file (tmp_name p) part (open_trunc (tmp_name p) (ensure_restrictive_dir fs)))"
| sv_replace: "saving K p entry fs (replace_file (tmp_name p) (cache_name p)
    (write_file (tmp_name p) (co_dump K entry) (open_trunc (tmp_name p) (ensure_restrictive_dir fs))))"
| sv_chmod: "saving K p entry fs (chmod_file (cache_name p) owner_only (replace_file (tmp_name p) (cache_name p)
    (write_file (tmp_name p) (co_dump K entry) (open_trunc (tmp_name p) (ensure_restrictive_dir fs)))))"

lemmas fs_defs = make_dir_def chmod_dir_def ensure_restrictive_dir_def open_trunc_def write_file_def
  replace_file_def chmod_file_def unlink_def

section \<open>A save is atomic and private\<close>

lemma cache_name_inj [simp]: "cache_name p = cache_name q \<longleftrightarrow> p = q"
  by (simp add: cache_name_def)

text \<open>No profile's cache is another one's temporary file.\<close>

lemma last_of_names: "last (cache_name p) = CHR ''n''" "last (tmp_name p) = CHR ''p''"
  by (simp_all add: cache_name_def tmp_name_def)

lemma tmp_not_cache [simp]: "tmp_name p \<noteq> cache_name q" "cache_name q \<noteq> tmp_name p"
proof -
  show "tmp_name p \<noteq> cache_name q"
  proof
    assume "tmp_name p = cache_name q"
    then have "last (tmp_name p) = last (cache_name q)" by simp
    then show False by (simp add: last_of_names)
  qed
  then show "cache_name q \<noteq> tmp_name p" by metis
qed

text \<open>Nobody but the owner has any permission on a file.\<close>

definition unshared :: "cache_fs \<Rightarrow> bool" where
  "unshared fs \<longleftrightarrow> (\<forall>n f. fs_files fs n = Some f \<longrightarrow> fi_mode f AND group_other = 0)"

lemma mask_unshared: "owner_only AND group_other = 0" "(owner_only AND m) AND group_other = 0"
proof -
  show o: "owner_only AND group_other = 0" by (simp add: owner_only_def group_other_def)
  have "(owner_only AND m) AND group_other = (owner_only AND group_other) AND m"
    by (simp only: and.assoc and.commute [of m])
  then show "(owner_only AND m) AND group_other = 0" by (simp add: o)
qed

lemma unshared_saving: "saving K p entry fs s \<Longrightarrow> unshared fs \<Longrightarrow> unshared s"
  by (induction rule: saving.induct)
    (auto simp: unshared_def fs_defs mask_unshared split: option.splits if_splits)

lemma saving_final:
  assumes "saving K p entry fs s"
  shows "fs_files s (cache_name p) = fs_files fs (cache_name p)
    \<or> (\<exists>f. fs_files s (cache_name p) = Some f \<and> fi_content f = co_dump K entry \<and>
         (fi_mode f = owner_only \<or> fi_mode f = (case fs_files fs (tmp_name p) of
            None \<Rightarrow> owner_only AND NOT (fs_umask fs) | Some t \<Rightarrow> fi_mode t)))"
  using assms by cases (auto simp: fs_defs split: option.split)

lemma saving_others: "saving K p entry fs s \<Longrightarrow> q \<noteq> p \<Longrightarrow> fs_files s (cache_name q) = fs_files fs (cache_name q)"
  by (induction rule: saving.induct) (auto simp: fs_defs)

text \<open>The owner can read what the owner creates.\<close>

definition usable :: "string \<Rightarrow> cache_fs \<Rightarrow> bool" where
  "usable p fs \<longleftrightarrow> fs_umask fs AND owner_reads = 0 \<and>
     (\<forall>f. fs_files fs (tmp_name p) = Some f \<longrightarrow> fi_mode f AND owner_reads \<noteq> 0)"

lemma owner_can_read:
  assumes "fs_umask fs AND owner_reads = 0"
  shows "(owner_only AND NOT (fs_umask fs)) AND owner_reads \<noteq> 0" "owner_only AND owner_reads \<noteq> 0"
proof -
  show o: "owner_only AND owner_reads \<noteq> 0" by (simp add: owner_only_def owner_reads_def)
  have "\<not> bit (fs_umask fs) 8"
    using arg_cong [OF assms, of "\<lambda>w. bit w 8"] by (simp add: bit_and_iff owner_reads_def)
  then have "bit ((owner_only AND NOT (fs_umask fs)) AND owner_reads) 8"
    by (simp add: bit_and_iff bit_not_iff owner_only_def owner_reads_def)
  then show "(owner_only AND NOT (fs_umask fs)) AND owner_reads \<noteq> 0" by (metis bit_0_eq bot_apply bot_bool_def)
qed

text \<open>
  C10. A save can be cut off at any point: whoever loads the profile's cache then gets what was there
  before or the new entry, whole; no other profile's cache changes, and no file becomes accessible to
  anyone but its owner.
\<close>

theorem save_is_atomic:
  assumes "saving K p entry fs s" "unshared fs" "usable p fs" "co_validate K (co_dump K entry) = Inr entry"
  shows "load_token_cache K p s \<in> {load_token_cache K p fs, Inr (Some entry)}
    \<and> (q \<noteq> p \<longrightarrow> load_token_cache K q s = load_token_cache K q fs)
    \<and> unshared s"
proof (intro conjI impI)
  have r: "fi_mode f AND owner_reads \<noteq> 0"
    if "fi_mode f = owner_only \<or> fi_mode f = (case fs_files fs (tmp_name p) of
          None \<Rightarrow> owner_only AND NOT (fs_umask fs) | Some t \<Rightarrow> fi_mode t)" for f
    using that assms(3) owner_can_read [of fs] by (auto simp: usable_def split: option.splits)
  show "load_token_cache K p s \<in> {load_token_cache K p fs, Inr (Some entry)}"
    using saving_final [OF assms(1)]
  proof
    assume "fs_files s (cache_name p) = fs_files fs (cache_name p)"
    then show ?thesis by (simp only: load_token_cache_def) simp
  next
    assume "\<exists>f. fs_files s (cache_name p) = Some f \<and> fi_content f = co_dump K entry \<and>
         (fi_mode f = owner_only \<or> fi_mode f = (case fs_files fs (tmp_name p) of
            None \<Rightarrow> owner_only AND NOT (fs_umask fs) | Some t \<Rightarrow> fi_mode t))"
    then obtain f where "fs_files s (cache_name p) = Some f" "fi_content f = co_dump K entry"
        "fi_mode f AND owner_reads \<noteq> 0"
      using r by blast
    then show ?thesis using assms(4) by (simp add: load_token_cache_def)
  qed
  show "load_token_cache K q s = load_token_cache K q fs" if "q \<noteq> p"
    using saving_others [OF assms(1) that] by (simp add: load_token_cache_def)
  show "unshared s" by (rule unshared_saving [OF assms(1,2)])
qed

text \<open>A save that ends has written the entry; one whose write raised has changed no cache.\<close>

lemma save_ends:
  "save_token_cache K None p entry fs = (Inr (), chmod_file (cache_name p) owner_only
     (replace_file (tmp_name p) (cache_name p) (write_file (tmp_name p) (co_dump K entry)
       (open_trunc (tmp_name p) (ensure_restrictive_dir fs)))))"
  by (simp add: save_token_cache_def andthen_def bnd_def)

lemma save_then_load:
  assumes "co_validate K (co_dump K entry) = Inr entry"
  shows "load_token_cache K p (snd (save_token_cache K None p entry fs)) = Inr (Some entry)"
    and "q \<noteq> p \<Longrightarrow> load_token_cache K q (snd (save_token_cache K None p entry fs)) = load_token_cache K q fs"
  using assms owner_can_read [of "fs\<lparr>fs_umask := 0\<rparr>"]
  by (auto simp: save_ends load_token_cache_def fs_defs split: option.split)

lemma save_fault:
  "save_token_cache K (Some e) p entry fs = (Inl e, unlink (tmp_name p) (open_trunc (tmp_name p) (ensure_restrictive_dir fs)))"
  by (simp add: save_token_cache_def andthen_def bnd_def)

lemma load_after_delete [simp]:
  "load_token_cache K q (snd (delete_token_cache p fs)) = (if q = p then Inr None else load_token_cache K q fs)"
  by (simp add: delete_token_cache_def load_token_cache_def)

text \<open>A codec over a one-line format, and a directory with the cache of another profile.\<close>

definition sample_codec :: cache_codec where
  "sample_codec = \<lparr>
     co_dump = (\<lambda>e. te_access_token e),
     co_validate = (\<lambda>t. if t = ''new'' then Inr \<lparr>te_access_token = ''new'', te_refresh_token = ''r'', te_expires_at = 3600\<rparr>
       else Inl ''not an entry''),
     co_dir = ''/home/user/.akgentic/credentials'', co_denied = ''denied''\<rparr>"

definition sample_entry :: token_entry where
  "sample_entry = \<lparr>te_access_token = ''new'', te_refresh_token = ''r'', te_expires_at = 3600\<rparr>"

definition sample_fs :: cache_fs where
  "sample_fs = \<lparr>fs_dir = None, fs_files = [''work.json'' \<mapsto> \<lparr>fi_content = ''new'', fi_mode = owner_only\<rparr>], fs_umask = 0x12\<rparr>"

theorem save_is_atomic_witness:
  "saving sample_codec ''home'' sample_entry sample_fs
     (write_file (tmp_name ''home'') ''ne'' (open_trunc (tmp_name ''home'') (ensure_restrictive_dir sample_fs))) \<and>
   load_token_cache sample_codec ''home''
     (write_file (tmp_name ''home'') ''ne'' (open_trunc (tmp_name ''home'') (ensure_restrictive_dir sample_fs))) = Inr None"
proof -
  let ?s = "write_file (tmp_name ''home'') ''ne'' (open_trunc (tmp_name ''home'') (ensure_restrictive_dir sample_fs))"
  have cut: "saving sample_codec ''home'' sample_entry sample_fs ?s"
    by (rule sv_write) (simp add: sample_codec_def sample_entry_def)
  have "unshared sample_fs" "usable ''home'' sample_fs"
    by (simp_all add: unshared_def usable_def sample_fs_def mask_unshared owner_reads_def tmp_name_def)
  moreover have "co_validate sample_codec (co_dump sample_codec sample_entry) = Inr sample_entry"
    by (simp add: sample_codec_def sample_entry_def)
  ultimately have "load_token_cache sample_codec ''home'' ?s \<in> {load_token_cache sample_codec ''home'' sample_fs, Inr (Some sample_entry)}"
    using save_is_atomic [OF cut] by blast
  moreover have "load_token_cache sample_codec ''home'' sample_fs = Inr None"
    by (simp add: load_token_cache_def sample_fs_def cache_name_def)
  moreover have "fs_files ?s (cache_name ''home'') = None"
    by (simp add: fs_defs sample_fs_def cache_name_def tmp_name_def)
  ultimately show ?thesis using cut by (simp add: load_token_cache_def)
qed

end
