(* ===== verification/CliProfile.thy ===== *)
theory CliProfile
  imports PyText Data "HOL-Library.Char_ord" "HOL-Library.List_Lexorder"
begin

text \<open>
  \<open>cli/config/profile.py\<close>: the profiles of the command line client, how the file of profiles is read and how
  the active one is chosen. Reading the file, YAML and the validation of the models are parameters.
\<close>

section \<open>Models\<close>

record auth_config =
  au_issuer :: string
  au_client_id :: string
  au_tenant :: "string option"

record profile =
  pr_endpoint :: string
  pr_auth :: "auth_config option"

record cli_config =
  cc_profiles :: "(string, profile) dict"
  cc_default :: "string option"

section \<open>Loading\<close>

text \<open>A validation error: for each entry its location and its type, and the whole as text.\<close>

record validation_failure =
  vf_entries :: "(string list \<times> string) list"
  vf_text :: string

definition is_unsupported_auth_type :: "validation_failure \<Rightarrow> bool" where
  "is_unsupported_auth_type err \<longleftrightarrow> list_ex (\<lambda>(loc, ty).
     ty = ''literal_error'' \<and> 2 \<le> length loc \<and> drop (length loc - 2) loc = [''auth'', ''type'']) (vf_entries err)"

text \<open>
  The file as the loader finds it: missing, or read with its text or an error; what YAML makes of the
  text; what validation makes of a mapping.
\<close>

record config_source =
  cf_path :: string
  cf_text :: "(string + string) option"
  cf_safe_load :: "string \<Rightarrow> string + json"
  cf_validate :: "(string \<times> json) list \<Rightarrow> validation_failure + cli_config"

definition type_name :: "json \<Rightarrow> string" where
  "type_name j = (case j of JNull \<Rightarrow> ''NoneType'' | JBool _ \<Rightarrow> ''bool'' | JInt _ \<Rightarrow> ''int'' | JFloat _ \<Rightarrow> ''float''
     | JStr _ \<Rightarrow> ''str'' | JList _ \<Rightarrow> ''list'' | JObj _ \<Rightarrow> ''dict'')"

definition load_config :: "config_source \<Rightarrow> exn + cli_config" where
  "load_config F =
     (case cf_text F of
        None \<Rightarrow> Inl (ConfigFileNotFoundError (''Config file not found: '' @ cf_path F))
      | Some (Inl err) \<Rightarrow> Inl (MalformedConfigError (''Cannot read config file '' @ cf_path F @ '': '' @ err))
      | Some (Inr raw_text) \<Rightarrow>
          (case cf_safe_load F raw_text of
             Inl err \<Rightarrow> Inl (MalformedConfigError (''Invalid YAML in '' @ cf_path F @ '': '' @ err))
           | Inr JNull \<Rightarrow> Inl (MalformedConfigError (''Config file is empty: '' @ cf_path F))
           | Inr (JObj d) \<Rightarrow>
               (case cf_validate F d of
                  Inl err \<Rightarrow>
                    if is_unsupported_auth_type err
                    then Inl (UnsupportedAuthTypeError (''Unsupported auth.type in '' @ cf_path F @
                      '': only '' @ quoted ''oidc'' @ '' is supported''))
                    else Inl (MalformedConfigError (''Invalid config in '' @ cf_path F @ '': '' @ vf_text err))
                | Inr config \<Rightarrow> Inr config)
           | Inr j \<Rightarrow> Inl (MalformedConfigError (''Config file top level must be a mapping, got '' @ type_name j @
               '': '' @ cf_path F))))"

section \<open>Choosing\<close>

text \<open>\<open>{names}\<close> of a list of text.\<close>

definition shown_names :: "string list \<Rightarrow> string" where
  "shown_names xs = ''['' @ joined '', '' (map repr_str xs) @ '']''"

definition available :: "cli_config \<Rightarrow> string list" where
  "available config = sort (map fst (cc_profiles config))"

definition lookup_profile :: "cli_config \<Rightarrow> string \<Rightarrow> exn + profile" where
  "lookup_profile config n =
     (case map_of (cc_profiles config) n of
        None \<Rightarrow> Inl (UnknownProfileError (''Unknown profile: '' @ repr_str n @ ''. Available profiles: '' @
          shown_names (available config)))
      | Some p \<Rightarrow> Inr p)"

definition env_profile_var :: string where
  "env_profile_var = ''AKGENTIC_PROFILE''"

definition named :: "cli_config \<Rightarrow> string \<Rightarrow> exn + string \<times> profile" where
  "named config n = (case lookup_profile config n of Inl e \<Rightarrow> Inl e | Inr p \<Rightarrow> Inr (n, p))"

definition resolve_profile :: "cli_config \<Rightarrow> string option \<Rightarrow> (string \<Rightarrow> string option) \<Rightarrow> exn + string \<times> profile" where
  "resolve_profile config cli_profile env =
     (case cli_profile of
        Some n \<Rightarrow> named config n
      | None \<Rightarrow>
          (let env_name = (case env env_profile_var of Some n \<Rightarrow> n | None \<Rightarrow> []) in
           if env_name \<noteq> [] then named config env_name
           else (case cc_default config of
                   Some n \<Rightarrow> named config n
                 | None \<Rightarrow>
                     (case cc_profiles config of
                        [p] \<Rightarrow> Inr p
                      | _ \<Rightarrow> Inl (AmbiguousProfileError (
                          ''No profile selected (no --profile, no AKGENTIC_PROFILE, no default_profile) '' @
                          ''and more than one profile is defined. Available profiles: '' @
                          shown_names (available config)))))))"

text \<open>The selectors, strongest first.\<close>

definition selectors :: "cli_config \<Rightarrow> string option \<Rightarrow> (string \<Rightarrow> string option) \<Rightarrow> string list" where
  "selectors config cli_profile env =
     (case cli_profile of Some n \<Rightarrow> [n] | None \<Rightarrow> []) @
     (case env env_profile_var of Some n \<Rightarrow> if n = [] then [] else [n] | None \<Rightarrow> []) @
     (case cc_default config of Some n \<Rightarrow> [n] | None \<Rightarrow> [])"

text \<open>
  The active profile is the one the strongest selector names, and only a profile of the file: a
  selector that names none ends the command, weaker ones are not tried. Without a selector only a file
  with exactly one profile has an active one.
\<close>

theorem profile_is_the_strongest_selected:
  "case resolve_profile config cli_profile env of
     Inr (n, p) \<Rightarrow> (n, p) \<in> set (cc_profiles config) \<and>
       (case selectors config cli_profile env of [] \<Rightarrow> cc_profiles config = [(n, p)] | s # _ \<Rightarrow> n = s)
   | Inl e \<Rightarrow> (case selectors config cli_profile env of
         [] \<Rightarrow> length (cc_profiles config) \<noteq> 1 \<and> (\<exists>m. e = AmbiguousProfileError m)
       | s # _ \<Rightarrow> map_of (cc_profiles config) s = None \<and> (\<exists>m. e = UnknownProfileError m))"
proof -
  have n: "case named config s of Inr (n, p) \<Rightarrow> n = s \<and> (n, p) \<in> set (cc_profiles config)
      | Inl e \<Rightarrow> map_of (cc_profiles config) s = None \<and> (\<exists>m. e = UnknownProfileError m)" for s
    by (auto simp: named_def lookup_profile_def dest: map_of_SomeD split: option.split)
  show ?thesis
  proof (cases "selectors config cli_profile env")
    case Nil
    then have "cli_profile = None" "env env_profile_var = None \<or> env env_profile_var = Some []" "cc_default config = None"
      by (auto simp: selectors_def split: option.splits if_splits)
    then show ?thesis
      using Nil by (cases "cc_profiles config" rule: remdups_adj.cases) (auto simp: resolve_profile_def)
  next
    case (Cons s rest)
    then have "resolve_profile config cli_profile env = named config s"
      by (auto simp: selectors_def resolve_profile_def split: option.splits if_splits)
    then show ?thesis using n [of s] Cons by (auto split: sum.splits)
  qed
qed

end
