(* ===== verification/TokenProvider.thy ===== *)
theory TokenProvider
  imports DeviceFlow TokenCache CliProfile
begin

text \<open>
  \<open>cli/auth/token_provider.py\<close>: the source of bearer tokens of a profile, over the token cache, the OIDC
  requests and the clock. \<open>get_access_token\<close> never asks the user; the device flow does.
\<close>

section \<open>State\<close>

text \<open>The credentials directory, the endpoints the provider has resolved, and everything outside.\<close>

record 'w auth_world =
  aw_fs :: cache_fs
  aw_endpoints :: "oidc_endpoints option"
  aw_net :: 'w

definition on_net :: "('w, 'a) prog \<Rightarrow> ('w auth_world, 'a) prog" where
  "on_net m = on_part aw_net (\<lambda>w s. s\<lparr>aw_net := w\<rparr>) m"

definition on_fs :: "(cache_fs, 'a) prog \<Rightarrow> ('w auth_world, 'a) prog" where
  "on_fs m = on_part aw_fs (\<lambda>f s. s\<lparr>aw_fs := f\<rparr>) m"

text \<open>The provider; \<open>pv_fault\<close> is the exception a write to the disk raises, if it does.\<close>

record ('w, 'b) provider =
  pv_profile_name :: string
  pv_auth :: auth_config
  pv_client :: "('w, 'b) http_client"
  pv_parsers :: "'b parsers"
  pv_timer :: "'w timer"
  pv_codec :: cache_codec
  pv_fault :: "exn option"

definition refresh_leeway :: int where
  "refresh_leeway = 30"

definition new_token_provider ::
    "profile \<Rightarrow> string \<Rightarrow> (auth_config \<Rightarrow> ('w, 'b) provider) \<Rightarrow> exn + ('w, 'b) provider" where
  "new_token_provider p profile_name build =
     (case pr_auth p of
        None \<Rightarrow> Inl (ValueError (''OidcTokenProvider requires a profile with an `auth` block; profile '' @
          repr_str profile_name @ '' has none.''))
      | Some a \<Rightarrow> Inr (build a))"

definition load_cache :: "('w, 'b) provider \<Rightarrow> 'w auth_world \<Rightarrow> exn + token_entry option" where
  "load_cache V s = load_token_cache (pv_codec V) (pv_profile_name V) (aw_fs s)"

definition purge_cache :: "('w, 'b) provider \<Rightarrow> ('w auth_world, unit) prog" where
  "purge_cache V = on_fs (delete_token_cache (pv_profile_name V))"

definition save_cache :: "('w, 'b) provider \<Rightarrow> token_entry \<Rightarrow> ('w auth_world, unit) prog" where
  "save_cache V e = on_fs (save_token_cache (pv_codec V) (pv_fault V) (pv_profile_name V) e)"

section \<open>Operations\<close>

definition ensure_endpoints :: "('w, 'b) provider \<Rightarrow> ('w auth_world, oidc_endpoints) prog" where
  "ensure_endpoints V = (\<lambda>s. case aw_endpoints s of
     Some eps \<Rightarrow> (Inr eps, s)
   | None \<Rightarrow> bnd (on_net (discover_endpoints (pv_client V) (pv_parsers V) (au_issuer (pv_auth V))))
       (\<lambda>eps. andthen (writing (\<lambda>s. s\<lparr>aw_endpoints := Some eps\<rparr>)) (ret eps)) s)"

definition token_response_to_cache_entry ::
    "('w, 'b) provider \<Rightarrow> token_response \<Rightarrow> int option \<Rightarrow> ('w auth_world, token_entry) prog" where
  "token_response_to_cache_entry V response fallback_now =
     (case tr_refresh_token response of
        None \<Rightarrow> andthen (purge_cache V) (throw (ReAuthRequiredError (
          ''Token endpoint did not return a refresh_token for profile '' @ repr_str (pv_profile_name V) @ ''; cache purged.'')))
      | Some refresh \<Rightarrow>
          if casefold (tr_token_type response) \<noteq> ''bearer''
          then andthen (purge_cache V) (throw (OidcProtocolError (''Token endpoint returned unsupported token_type='' @
            repr_str (tr_token_type response) @ ''; only '' @ quoted ''Bearer'' @ '' is supported.'')))
          else (\<lambda>s. let now = (case fallback_now of Some n \<Rightarrow> n | None \<Rightarrow> ti_clock (pv_timer V) (aw_net s))
            in (Inr \<lparr>te_access_token = tr_access_token response, te_refresh_token = refresh,
                     te_expires_at = now + tr_expires_in response\<rparr>, s)))"

definition refresh_failed :: "string \<Rightarrow> exn \<Rightarrow> exn" where
  "refresh_failed profile_name e = ReAuthRequiredError (''Refresh failed for profile '' @ repr_str profile_name @ '': '' @
     exn_str e @ ''. Cache purged '' @ [long_dash] @ '' re-run the device-code flow to authenticate.'')"

definition refresh_data :: "token_entry \<Rightarrow> string \<Rightarrow> (string \<times> string) list" where
  "refresh_data entry client_id =
     [(''grant_type'', ''refresh_token''), (''refresh_token'', te_refresh_token entry), (''client_id'', client_id)]"

definition refresh_and_return :: "('w, 'b) provider \<Rightarrow> token_entry \<Rightarrow> int \<Rightarrow> ('w auth_world, string) prog" where
  "refresh_and_return V entry now =
     bnd (ensure_endpoints V) (\<lambda>eps.
     bnd (try_except (on_net (request_token (pv_client V) (pv_parsers V) eps (refresh_data entry (au_client_id (pv_auth V)))))
            (\<lambda>e. if is_oidc_error e then andthen (purge_cache V) (throw (refresh_failed (pv_profile_name V) e)) else throw e))
       (\<lambda>response.
     bnd (token_response_to_cache_entry V response (Some now)) (\<lambda>new_entry.
     andthen (save_cache V new_entry) (ret (te_access_token new_entry)))))"

definition no_credentials :: "string \<Rightarrow> exn" where
  "no_credentials profile_name = ReAuthRequiredError (''No cached credentials for profile '' @ repr_str profile_name @
     ''; run the device-code flow to authenticate.'')"

definition get_access_token :: "('w, 'b) provider \<Rightarrow> ('w auth_world, string) prog" where
  "get_access_token V = (\<lambda>s. case load_cache V s of
     Inl e \<Rightarrow> (Inl e, s)
   | Inr None \<Rightarrow> (Inl (no_credentials (pv_profile_name V)), s)
   | Inr (Some entry) \<Rightarrow>
       (let now = ti_clock (pv_timer V) (aw_net s) in
        if now + refresh_leeway < te_expires_at entry then (Inr (te_access_token entry), s)
        else refresh_and_return V entry now s))"

text \<open>The text that asks the user to sign in, \<open>_default_on_user_code\<close>.\<close>

definition device_code_message :: "device_auth \<Rightarrow> string" where
  "device_code_message d =
     ''To authenticate, visit: '' @ da_verification_uri d @ [CHR 0x0A] @ ''And enter the code: '' @ da_user_code d @ [CHR 0x0A] @
     (case da_verification_uri_complete d of
        None \<Rightarrow> []
      | Some u \<Rightarrow> if u = [] then [] else ''Or open directly: '' @ u @ [CHR 0x0A])"

text \<open>\<open>run_device_code_flow\<close>; \<open>None\<close> when the polling does not return.\<close>

definition start_flow ::
    "('w, 'b) provider \<Rightarrow> (device_auth \<Rightarrow> ('w, unit) prog) \<Rightarrow> ('w auth_world, oidc_endpoints \<times> device_auth) prog" where
  "start_flow V on_user_code =
     bnd (ensure_endpoints V) (\<lambda>eps.
     bnd (on_net (initiate_device_flow (pv_client V) (pv_parsers V) eps (au_client_id (pv_auth V)))) (\<lambda>d.
     andthen (on_net (on_user_code d)) (ret (eps, d))))"

definition finish_flow :: "('w, 'b) provider \<Rightarrow> token_response \<Rightarrow> ('w auth_world, token_entry) prog" where
  "finish_flow V response =
     bnd (token_response_to_cache_entry V response None) (\<lambda>entry. andthen (save_cache V entry) (ret entry))"

definition run_device_code_flow ::
    "('w, 'b) provider \<Rightarrow> (device_auth \<Rightarrow> ('w, unit) prog) \<Rightarrow> 'w auth_world \<Rightarrow> ((exn + token_entry) \<times> 'w auth_world) option" where
  "run_device_code_flow V on_user_code s =
     (case start_flow V on_user_code s of
        (Inl e, t) \<Rightarrow> Some (Inl e, t)
      | (Inr (eps, d), t) \<Rightarrow>
          (case poll_for_token (pv_client V) (pv_parsers V) (pv_timer V) eps (au_client_id (pv_auth V))
                  (da_device_code d) (poll_interval d) (da_expires_in d) (aw_net t) of
             None \<Rightarrow> None
           | Some (Inl e, w) \<Rightarrow> Some (Inl e, t\<lparr>aw_net := w\<rparr>)
           | Some (Inr response, w) \<Rightarrow> Some (finish_flow V response (t\<lparr>aw_net := w\<rparr>))))"

section \<open>What the steps keep\<close>

definition faithful :: "cache_codec \<Rightarrow> bool" where
  "faithful K \<longleftrightarrow> (\<forall>e. co_validate K (co_dump K e) = Inr e)"

lemma ensure_endpoints_frame:
  "ensure_endpoints V s = (r, t) \<Longrightarrow> aw_fs t = aw_fs s"
  "ensure_endpoints V s = (Inr eps, t) \<Longrightarrow> aw_endpoints t = Some eps"
  by (auto simp: ensure_endpoints_def on_net_def on_part_def bnd_def andthen_def split: option.splits prod.splits sum.splits)

lemma on_net_frame: "on_net m s = (r, t) \<Longrightarrow> aw_fs t = aw_fs s \<and> aw_endpoints t = aw_endpoints s"
  by (auto simp: on_net_def on_part_def split: prod.splits)

lemma purge_cache_run: "purge_cache V s = (Inr (), s\<lparr>aw_fs := (aw_fs s)\<lparr>fs_files := (fs_files (aw_fs s))(cache_name (pv_profile_name V) := None)\<rparr>\<rparr>)"
  by (simp add: purge_cache_def on_fs_def on_part_def delete_token_cache_def)

text \<open>The cache of another profile, which nothing here touches.\<close>

definition foreign :: "('w, 'b) provider \<Rightarrow> string \<Rightarrow> 'w auth_world \<Rightarrow> exn + token_entry option" where
  "foreign V q s = load_token_cache (pv_codec V) q (aw_fs s)"

lemma purged:
  "purge_cache V s = (r, t) \<Longrightarrow> r = Inr () \<and> load_cache V t = Inr None \<and> (q \<noteq> pv_profile_name V \<longrightarrow> foreign V q t = foreign V q s)"
  by (auto simp: purge_cache_run load_cache_def foreign_def load_token_cache_def)

lemma saved:
  assumes "faithful (pv_codec V)" "save_cache V e s = (r, t)"
  shows "r = (case pv_fault V of None \<Rightarrow> Inr () | Some x \<Rightarrow> Inl x)"
    and "r = Inr () \<Longrightarrow> load_cache V t = Inr (Some e)"
    and "aw_net t = aw_net s"
    and "r \<noteq> Inr () \<Longrightarrow> load_cache V t = load_cache V s"
    and "q \<noteq> pv_profile_name V \<Longrightarrow> foreign V q t = foreign V q s"
proof -
  let ?p = "pv_profile_name V" let ?K = "pv_codec V"
  obtain f where f: "save_token_cache ?K (pv_fault V) ?p e (aw_fs s) = (r, f)" "t = s\<lparr>aw_fs := f\<rparr>"
    using assms(2) by (auto simp: save_cache_def on_fs_def on_part_def split: prod.splits)
  show r: "r = (case pv_fault V of None \<Rightarrow> Inr () | Some x \<Rightarrow> Inl x)"
    using f(1) by (cases "pv_fault V") (auto simp: save_fault save_ends)
  show "aw_net t = aw_net s" using f(2) by simp
  have v: "co_validate ?K (co_dump ?K e) = Inr e" using assms(1) by (simp add: faithful_def)
  show "load_cache V t = Inr (Some e)" if "r = Inr ()"
    using save_then_load(1) [OF v, of ?p "aw_fs s"] f that r
    by (auto simp: load_cache_def split: option.splits)
  show "load_cache V t = load_cache V s" if "r \<noteq> Inr ()"
    using f that r by (auto simp: load_cache_def save_fault load_token_cache_def fs_defs split: option.splits)
  show "foreign V q t = foreign V q s" if "q \<noteq> ?p"
    using save_then_load(2) [OF v that, of "aw_fs s"] f that
    by (cases "pv_fault V") (auto simp: foreign_def save_fault load_token_cache_def fs_defs)
qed

section \<open>Tokens\<close>

text \<open>The HTTP client and the disk raise errors of their own, none of the protocol's.\<close>

definition plain_failures :: "('w, 'b) provider \<Rightarrow> bool" where
  "plain_failures V \<longleftrightarrow>
     (\<forall>url w e. fst (hc_get (pv_client V) url w) = Inl e \<longrightarrow> \<not> is_oidc_error e) \<and>
     (\<forall>e. pv_fault V = Some e \<longrightarrow> \<not> is_oidc_error e)"

fun is_reauth :: "exn \<Rightarrow> bool" where
  "is_reauth (ReAuthRequiredError _) = True"
| "is_reauth _ = False"

lemma reauth_is_oidc: "\<not> is_oidc_error e \<Longrightarrow> \<not> is_reauth e"
  by (cases e) auto

lemma ensure_endpoints_error:
  assumes "plain_failures V" "ensure_endpoints V s = (Inl e, t)"
  shows "\<not> is_reauth e"
proof -
  have g: "\<not> is_reauth x" if "fst (hc_get (pv_client V) url w) = Inl x" for url w x
    using assms(1) that reauth_is_oidc unfolding plain_failures_def by blast
  obtain w where d: "fst (discover_endpoints (pv_client V) (pv_parsers V) (au_issuer (pv_auth V)) w) = Inl e"
    using assms(2) by (auto simp: ensure_endpoints_def on_net_def on_part_def bnd_def andthen_def
        split: option.splits prod.splits sum.splits) (metis fst_conv)
  obtain r w' where r: "hc_get (pv_client V) (discovery_url (au_issuer (pv_auth V))) w = (r, w')" by force
  show ?thesis
  proof (cases r)
    case (Inl x)
    then have "\<not> is_reauth x" using g r by (metis fst_conv)
    then show ?thesis
      using d r Inl by (auto simp: discover_endpoints_def Let_def on_http_error_def bnd_def try_except_def split: exn.splits)
  next
    case (Inr b)
    then show ?thesis
      using d r by (auto simp: discover_endpoints_def Let_def on_http_error_def bnd_def try_except_def split: if_splits sum.splits)
  qed
qed

text \<open>What the conversion of a response leaves in the cache.\<close>

lemma to_entry_outcome:
  assumes "token_response_to_cache_entry V response fallback s = (r, t)"
  shows "aw_net t = aw_net s" "aw_endpoints t = aw_endpoints s"
    and "\<exists>e. r = Inl e \<and> load_cache V t = Inr None \<or> (\<exists>n. r = Inr n \<and> t = s \<and>
        te_access_token n = tr_access_token response \<and>
        te_expires_at n = (case fallback of Some k \<Rightarrow> k | None \<Rightarrow> ti_clock (pv_timer V) (aw_net s)) + tr_expires_in response)"
    and "q \<noteq> pv_profile_name V \<Longrightarrow> foreign V q t = foreign V q s"
  using assms
  by (auto simp: token_response_to_cache_entry_def andthen_def bnd_def purge_cache_run load_cache_def foreign_def
      load_token_cache_def Let_def split: option.splits if_splits)

text \<open>The claim about one call: from \<open>s\<close> to the result \<open>r\<close> in \<open>t\<close>.\<close>

definition token_outcome :: "('w, 'b) provider \<Rightarrow> 'w auth_world \<Rightarrow> exn + string \<Rightarrow> 'w auth_world \<Rightarrow> bool" where
  "token_outcome V s r t \<longleftrightarrow>
     (case r of
        Inr token \<Rightarrow> \<exists>e. load_cache V t = Inr (Some e) \<and> te_access_token e = token
      | Inl e \<Rightarrow> load_cache V t = Inr None \<or> \<not> is_reauth e \<and> load_cache V t = load_cache V s)
   \<and> (\<forall>q. q \<noteq> pv_profile_name V \<longrightarrow> foreign V q t = foreign V q s)"

lemma refresh_outcome:
  assumes "faithful (pv_codec V)" "plain_failures V" "refresh_and_return V entry now s = (r, t)"
  shows "token_outcome V s r t"
proof -
  have same: "load_cache V v = load_cache V u" "foreign V q v = foreign V q u" if "aw_fs v = aw_fs u" for u v q
    using that by (simp_all add: load_cache_def foreign_def)
  obtain er u where ep: "ensure_endpoints V s = (er, u)" by force
  note fu = ensure_endpoints_frame(1) [OF ep]
  show ?thesis
  proof (cases er)
    case (Inl e)
    then show ?thesis
      using assms(3) ep ensure_endpoints_error [OF assms(2)] same [OF fu]
      by (auto simp: refresh_and_return_def bnd_def token_outcome_def)
  next
    case (Inr eps)
    let ?rq = "on_net (request_token (pv_client V) (pv_parsers V) eps (refresh_data entry (au_client_id (pv_auth V))))"
    obtain rr v where rq: "?rq u = (rr, v)" by force
    have fv: "aw_fs v = aw_fs s" using on_net_frame [OF rq] fu by simp
    show ?thesis
    proof (cases rr)
      case (Inl e)
      then show ?thesis
        using assms(3) ep Inr rq same [OF fv] reauth_is_oidc [of e]
        by (auto simp: refresh_and_return_def bnd_def try_except_def andthen_def purge_cache_run token_outcome_def
            load_cache_def foreign_def load_token_cache_def split: if_splits)
    next
      case (Inr response)
      obtain nr x where te: "token_response_to_cache_entry V response (Some now) v = (nr, x)" by force
      note conv = to_entry_outcome(3,4) [OF te]
      have run: "refresh_and_return V entry now s = (case nr of Inl e \<Rightarrow> (Inl e, x)
          | Inr n \<Rightarrow> (case save_cache V n x of (Inl e, y) \<Rightarrow> (Inl e, y) | (Inr _, y) \<Rightarrow> (Inr (te_access_token n), y)))"
        using ep \<open>er = Inr eps\<close> rq Inr te
        by (simp add: refresh_and_return_def bnd_def try_except_def andthen_def split: prod.split sum.split)
      show ?thesis
      proof (cases nr)
        case (Inl e)
        then show ?thesis
          using run assms(3) conv same [OF fv] by (auto simp: token_outcome_def)
      next
        case (Inr n)
        then have x: "x = v" using conv(1) by auto
        obtain sr y where sv: "save_cache V n x = (sr, y)" by force
        note sd = saved [OF assms(1) sv]
        show ?thesis
          using run assms(3) Inr sv sd x same [OF fv] assms(2) reauth_is_oidc
          by (auto simp: token_outcome_def plain_failures_def split: sum.splits option.splits)
      qed
    qed
  qed
qed

lemma load_error: "load_cache V s = Inl e \<Longrightarrow> \<not> is_reauth e"
  by (auto simp: load_cache_def load_token_cache_def split: option.splits sum.splits if_splits)

lemma get_access_token_outcome:
  assumes "faithful (pv_codec V)" "plain_failures V" "get_access_token V s = (r, t)"
  shows "token_outcome V s r t"
proof (cases "\<exists>entry. load_cache V s = Inr (Some entry)")
  case True
  then show ?thesis
    using assms(3) refresh_outcome [OF assms(1,2), of _ _ s r t]
    by (auto simp: get_access_token_def token_outcome_def Let_def split: if_splits)
next
  case False
  then show ?thesis
    using assms(3) load_error [of V s]
    by (cases "load_cache V s") (auto simp: get_access_token_def token_outcome_def split: option.splits)
qed

text \<open>
  C21. A token that is handed out is the one in the profile's cache, and an entry good for more than thirty
  seconds is used as it is. The user is asked to sign in again only when no usable entry is left: a
  refresh that the server refused has emptied the cache, and any other failure either emptied it or left
  it as it was. Without an entry, or with one that cannot be read, nothing is sent. No other profile's cache
  changes.
\<close>

theorem token_is_the_cached_one:
  assumes "faithful (pv_codec V)" "plain_failures V" "get_access_token V s = (r, t)"
  shows "token_outcome V s r t
    \<and> (\<forall>e. load_cache V s = Inr (Some e) \<and> ti_clock (pv_timer V) (aw_net s) + 30 < te_expires_at e
         \<longrightarrow> r = Inr (te_access_token e) \<and> t = s)
    \<and> ((\<forall>e. load_cache V s \<noteq> Inr (Some e)) \<longrightarrow> t = s)"
  using get_access_token_outcome [OF assms] assms(3)
  by (auto simp: get_access_token_def Let_def refresh_leeway_def split: sum.splits option.splits)

section \<open>Signing in\<close>

lemma finish_flow_ok:
  assumes "faithful (pv_codec V)" "finish_flow V response s = (Inr e, t)"
  shows "load_cache V t = Inr (Some e)" "aw_net t = aw_net s"
    "te_access_token e = tr_access_token response" "te_expires_at e = ti_clock (pv_timer V) (aw_net s) + tr_expires_in response"
proof -
  obtain r u where te: "token_response_to_cache_entry V response None s = (r, u)" by force
  note c = to_entry_outcome(3) [OF te]
  obtain n where n: "r = Inr n" "u = s" using assms(2) te c by (auto simp: finish_flow_def bnd_def)
  obtain sr y where sv: "save_cache V n u = (sr, y)" by force
  have y: "sr = Inr ()" "e = n" "t = y"
    using assms(2) te n sv by (auto simp: finish_flow_def bnd_def andthen_def split: sum.splits)
  note sd = saved(2,3) [OF assms(1) sv]
  show "load_cache V t = Inr (Some e)" "aw_net t = aw_net s" using sd y n by simp_all
  show "te_access_token e = tr_access_token response"
    "te_expires_at e = ti_clock (pv_timer V) (aw_net s) + tr_expires_in response"
    using c n y by auto
qed

lemma device_flow_entry:
  assumes "faithful (pv_codec V)" "run_device_code_flow V hook s = Some (Inr e, t)"
  shows "load_cache V t = Inr (Some e)"
  using assms(2) finish_flow_ok(1) [OF assms(1)]
  by (auto simp: run_device_code_flow_def split: option.splits prod.splits sum.splits)

text \<open>
  Signing in leaves the profile able to work: when the device flow succeeds, the entry it returns is the
  cached one, it expires as long after now as the server said, and with a lifetime of more than thirty
  seconds the next request for a token is answered from it without any other call.
\<close>

theorem login_gives_the_token:
  assumes "faithful (pv_codec V)" "run_device_code_flow V hook s = Some (Inr e, t)"
  shows "load_cache V t = Inr (Some e)
    \<and> (30 < te_expires_at e - ti_clock (pv_timer V) (aw_net t) \<longrightarrow> get_access_token V t = (Inr (te_access_token e), t))
    \<and> (\<exists>eps d u response. start_flow V hook s = (Inr (eps, d), u) \<and>
         te_access_token e = tr_access_token response \<and>
         te_expires_at e = ti_clock (pv_timer V) (aw_net t) + tr_expires_in response \<and>
         poll_for_token (pv_client V) (pv_parsers V) (pv_timer V) eps (au_client_id (pv_auth V))
           (da_device_code d) (poll_interval d) (da_expires_in d) (aw_net u) = Some (Inr response, aw_net t))"
proof -
  obtain eps d u where st: "start_flow V hook s = (Inr (eps, d), u)"
    using assms(2) by (auto simp: run_device_code_flow_def split: prod.splits sum.splits)
  obtain response w where po: "poll_for_token (pv_client V) (pv_parsers V) (pv_timer V) eps (au_client_id (pv_auth V))
        (da_device_code d) (poll_interval d) (da_expires_in d) (aw_net u) = Some (Inr response, w)"
      "finish_flow V response (u\<lparr>aw_net := w\<rparr>) = (Inr e, t)"
    using assms(2) st by (auto simp: run_device_code_flow_def split: option.splits prod.splits sum.splits)
  note f = finish_flow_ok [OF assms(1) po(2)]
  have "get_access_token V t = (Inr (te_access_token e), t)"
    if "30 < te_expires_at e - ti_clock (pv_timer V) (aw_net t)"
    using that f(1) by (simp add: get_access_token_def refresh_leeway_def)
  then show ?thesis using st po f by auto
qed

text \<open>The scripted server, with the entry of a signed-in profile that has expired.\<close>

definition sample_auth :: auth_config where
  "sample_auth = \<lparr>au_issuer = ''https://idp/'', au_client_id = ''cli'', au_tenant = None\<rparr>"

text \<open>A codec that loses nothing: two texts, each character marked and the text closed, then the number.\<close>

definition put_text :: "string \<Rightarrow> string" where
  "put_text t = concat (map (\<lambda>c. [CHR ''x'', c]) t) @ ''.''"

fun get_text :: "string \<Rightarrow> (string \<times> string) option" where
  "get_text [] = None"
| "get_text [a] = (if a = CHR ''.'' then Some ([], []) else None)"
| "get_text (a # c # s) =
     (if a = CHR ''.'' then Some ([], c # s)
      else if a = CHR ''x'' then map_option (\<lambda>(t, u). (c # t, u)) (get_text s) else None)"

definition put_number :: "int \<Rightarrow> string" where
  "put_number n = (if n < 0 then CHR ''-'' # replicate (nat (- n)) CHR ''1'' else CHR ''+'' # replicate (nat n) CHR ''1'')"

definition get_number :: "string \<Rightarrow> int" where
  "get_number t = (case t of [] \<Rightarrow> 0 | c # u \<Rightarrow> if c = CHR ''-'' then - int (length u) else int (length u))"

definition plain_codec :: cache_codec where
  "plain_codec = \<lparr>
     co_dump = (\<lambda>e. put_text (te_access_token e) @ put_text (te_refresh_token e) @ put_number (te_expires_at e)),
     co_validate = (\<lambda>t. case get_text t of
         None \<Rightarrow> Inl ''no access token''
       | Some (a, u) \<Rightarrow> (case get_text u of
           None \<Rightarrow> Inl ''no refresh token''
         | Some (r, n) \<Rightarrow> Inr \<lparr>te_access_token = a, te_refresh_token = r, te_expires_at = get_number n\<rparr>)),
     co_dir = ''/home/user/.akgentic/credentials'', co_denied = ''denied''\<rparr>"

lemma get_put_text: "get_text (put_text t @ u) = Some (t, u)"
proof (induction t)
  case Nil
  then show ?case by (cases u) (simp_all add: put_text_def)
qed (simp add: put_text_def)

lemma get_put_number: "get_number (put_number n) = n"
  by (simp add: get_number_def put_number_def)

lemma plain_codec_faithful: "faithful plain_codec"
  by (simp add: faithful_def plain_codec_def get_put_text get_put_number)

definition script_provider :: "string \<Rightarrow> (script_world, wire) provider" where
  "script_provider profile_name = \<lparr>pv_profile_name = profile_name, pv_auth = sample_auth, pv_client = script_client,
     pv_parsers = wire_parsers, pv_timer = script_timer, pv_codec = plain_codec, pv_fault = None\<rparr>"

lemma script_provider_laws: "faithful (pv_codec (script_provider p))" "plain_failures (script_provider p)"
  by (simp_all add: script_provider_def plain_codec_faithful plain_failures_def script_client_def script_answer_def
      split: list.split)

text \<open>A signed-in profile at time 1000, and the answers of the server to come.\<close>

definition signed_in :: "token_entry \<Rightarrow> wire http_reply list \<Rightarrow> script_world auth_world" where
  "signed_in e script = \<lparr>
     aw_fs = \<lparr>fs_dir = Some owner_dir,
       fs_files = [cache_name ''home'' \<mapsto> \<lparr>fi_content = co_dump plain_codec e, fi_mode = owner_only\<rparr>], fs_umask = 0x12\<rparr>,
     aw_endpoints = Some sample_endpoints,
     aw_net = \<lparr>sw_time = 1000, sw_sent = 0, sw_script = script\<rparr>\<rparr>"

lemma signed_in_cache:
  "load_cache (script_provider ''home'') (signed_in e script) = Inr (Some e)"
  using plain_codec_faithful owner_can_read(2) [of "fs\<lparr>fs_umask := 0\<rparr>" for fs]
  by (simp add: load_cache_def script_provider_def signed_in_def load_token_cache_def faithful_def)

text \<open>An entry about to expire: the server refuses the refresh, the cache is emptied and the user has to sign in.\<close>

definition stale_entry :: token_entry where
  "stale_entry = \<lparr>te_access_token = ''old'', te_refresh_token = ''r'', te_expires_at = 1030\<rparr>"

theorem token_is_the_cached_one_witness:
  "(let V = script_provider ''home''; t = snd (get_access_token V (signed_in stale_entry [oidc_failure ''invalid_grant'']))
    in load_cache V t = Inr None)
 \<and> get_access_token (script_provider ''home'') (signed_in sample_entry []) = (Inr ''new'', signed_in sample_entry [])"
proof
  let ?V = "script_provider ''home''" let ?s = "signed_in stale_entry [oidc_failure ''invalid_grant'']"
  obtain r t where run: "get_access_token ?V ?s = (r, t)" by force
  have err: "\<exists>m. r = Inl (ReAuthRequiredError m)"
    using run signed_in_cache
    by (auto simp: get_access_token_def refresh_and_return_def ensure_endpoints_def signed_in_def script_provider_def
        stale_entry_def script_timer_def refresh_leeway_def bnd_def try_except_def andthen_def on_net_def on_part_def
        request_token_def on_http_error_def script_client_def script_answer_def oidc_failure_def wire_parsers_def
        classify_token_error_def refresh_failed_def purge_cache_run load_cache_def load_token_cache_def Let_def
        split: sum.splits option.splits if_splits)
  have out: "token_outcome ?V ?s r t" using token_is_the_cached_one [OF script_provider_laws run] by blast
  then have "load_cache ?V t = Inr None" using err by (auto simp: token_outcome_def)
  then show "let V = ?V; t = snd (get_access_token V ?s) in load_cache V t = Inr None" using run by simp
next
  let ?V = "script_provider ''home''" let ?s = "signed_in sample_entry []"
  obtain r t where run: "get_access_token ?V ?s = (r, t)" by force
  have "ti_clock (pv_timer ?V) (aw_net ?s) + 30 < te_expires_at sample_entry"
    by (simp add: script_provider_def script_timer_def signed_in_def sample_entry_def)
  then show "get_access_token ?V ?s = (Inr ''new'', ?s)"
    using run token_is_the_cached_one [OF script_provider_laws run] signed_in_cache
    by (simp add: sample_entry_def)
qed

text \<open>A profile that was never signed in, and a user who signs in at the first poll.\<close>

definition sample_device :: device_auth where
  "sample_device = \<lparr>da_device_code = ''dc'', da_user_code = ''AB-CD'', da_verification_uri = ''https://idp/verify'',
     da_verification_uri_complete = None, da_expires_in = 600, da_interval = None\<rparr>"

definition signed_out :: "script_world auth_world" where
  "signed_out = \<lparr>aw_fs = \<lparr>fs_dir = None, fs_files = (\<lambda>_. None), fs_umask = 0x12\<rparr>, aw_endpoints = None,
     aw_net = \<lparr>sw_time = 1000, sw_sent = 0, sw_script =
       [\<lparr>hr_status = 200, hr_content = WireEndpoints sample_endpoints\<rparr>,
        \<lparr>hr_status = 200, hr_content = WireDevice sample_device\<rparr>,
        \<lparr>hr_status = 200, hr_content = WireToken sample_token\<rparr>]\<rparr>\<rparr>"

lemma fold_bearer: "casefold ''Bearer'' = ''bearer''"
  by code_simp

lemma sample_login:
  "\<exists>t. run_device_code_flow (script_provider ''home'') (\<lambda>_. ret ()) signed_out =
     Some (Inr \<lparr>te_access_token = ''new'', te_refresh_token = ''r'', te_expires_at = 4605\<rparr>, t) \<and> sw_time (aw_net t) = 1005"
  by (simp add: run_device_code_flow_def start_flow_def ensure_endpoints_def discover_endpoints_def initiate_device_flow_def
      poll_for_token_def poll_loop.simps poll_interval_def finish_flow_def token_response_to_cache_entry_def save_cache_def
      on_fs_def on_net_def on_part_def save_ends script_provider_def signed_out_def sample_device_def sample_token_def
      script_client_def script_timer_def script_answer_def wire_parsers_def request_token_def on_http_error_def
      bnd_def try_except_def andthen_def fold_bearer Let_def)

theorem login_gives_the_token_witness:
  "\<exists>e t. run_device_code_flow (script_provider ''home'') (\<lambda>_. ret ()) signed_out = Some (Inr e, t)
     \<and> get_access_token (script_provider ''home'') t = (Inr ''new'', t)"
proof -
  let ?V = "script_provider ''home''"
  obtain e t where run: "run_device_code_flow ?V (\<lambda>_. ret ()) signed_out = Some (Inr e, t)"
      and e: "te_access_token e = ''new''" "te_expires_at e = 4605" "sw_time (aw_net t) = 1005"
    using sample_login by auto
  have "30 < te_expires_at e - ti_clock (pv_timer ?V) (aw_net t)"
    using e by (simp add: script_provider_def script_timer_def)
  then have "get_access_token ?V t = (Inr ''new'', t)"
    using login_gives_the_token [OF script_provider_laws(1) run] e(1) by simp
  then show ?thesis using run by blast
qed

end
