(* ===== verification/AutoAuth.thy ===== *)
theory AutoAuth
  imports TokenProvider
begin

text \<open>
  \<open>cli/http/client.py\<close>, \<open>auto_auth.py\<close> and \<open>errors.py\<close>: the HTTP client of a profile with its bearer
  token, the hook that turns a 401 into an error, and the transport that signs in again once;
  \<open>cli/commands/login.py\<close> and \<open>logout.py\<close>. The transport below, the redirects and the terminal are
  parameters.
\<close>

section \<open>Requests\<close>

record request =
  rq_method :: string
  rq_url :: string
  rq_headers :: "(string \<times> string) list"
  rq_body :: string

record response =
  rp_status :: nat
  rp_body :: string

text \<open>Header names are compared without case. Setting one keeps its first place and drops the others.\<close>

definition same_header :: "string \<Rightarrow> string \<Rightarrow> bool" where
  "same_header n m \<longleftrightarrow> lower n = lower m"

fun set_header :: "string \<Rightarrow> string \<Rightarrow> (string \<times> string) list \<Rightarrow> (string \<times> string) list" where
  "set_header n v [] = [(n, v)]"
| "set_header n v ((k, w) # hs) =
     (if same_header k n then (n, v) # filter (\<lambda>(k', _). \<not> same_header k' n) hs else (k, w) # set_header n v hs)"

definition header_values :: "string \<Rightarrow> request \<Rightarrow> string list" where
  "header_values n rq = map snd (filter (\<lambda>(k, _). same_header k n) (rq_headers rq))"

definition authorization :: string where
  "authorization = ''Authorization''"

definition set_bearer :: "string \<Rightarrow> request \<Rightarrow> request" where
  "set_bearer token rq = rq\<lparr>rq_headers := set_header authorization (''Bearer '' @ token) (rq_headers rq)\<rparr>"

lemma set_header_values:
  "map snd (filter (\<lambda>(k, _). same_header k n) (set_header n v hs)) = [v]"
  by (induction n v hs rule: set_header.induct) (auto simp: same_header_def filter_empty_conv)

lemma set_bearer_value [simp]: "header_values authorization (set_bearer token rq) = [''Bearer '' @ token]"
  by (simp add: header_values_def set_bearer_def set_header_values)

lemma set_bearer_rest [simp]:
  "rq_method (set_bearer token rq) = rq_method rq" "rq_url (set_bearer token rq) = rq_url rq"
  "rq_body (set_bearer token rq) = rq_body rq"
  by (simp_all add: set_bearer_def)

section \<open>Calls that may not return\<close>

text \<open>A program that may loop: \<open>None\<close> when it does not return. One that returns is lifted by \<open>returns\<close>.\<close>

type_synonym ('s, 'a) looping = "'s \<Rightarrow> ((exn + 'a) \<times> 's) option"

definition returns :: "('s, 'a) prog \<Rightarrow> ('s, 'a) looping" where
  "returns m = (\<lambda>s. Some (m s))"

definition follow :: "('s, 'a) looping \<Rightarrow> ('a \<Rightarrow> ('s, 'b) looping) \<Rightarrow> ('s, 'b) looping" where
  "follow m f = (\<lambda>s. case m s of
     None \<Rightarrow> None
   | Some (Inl e, t) \<Rightarrow> Some (Inl e, t)
   | Some (Inr x, t) \<Rightarrow> f x t)"

lemma returns_apply [simp]: "returns m s = Some (m s)"
  by (simp add: returns_def)

lemma follow_Some_iff:
  "follow m f s = Some (r, t) \<longleftrightarrow>
     (\<exists>e. m s = Some (Inl e, t) \<and> r = Inl e) \<or> (\<exists>x u. m s = Some (Inr x, u) \<and> f x u = Some (r, t))"
  by (auto simp: follow_def split: option.splits prod.splits sum.splits)

section \<open>The HTTP client\<close>

text \<open>The transport below: one exchange, and the reading of the body of a response.\<close>

record 'w transport =
  ht_handle :: "request \<Rightarrow> ('w, response) prog"
  ht_read :: "response \<Rightarrow> ('w, unit) prog"

text \<open>What the code gives to \<open>httpx.Client\<close>: the auth flow, the transport and the response hook.\<close>

record 'w client =
  cl_base_url :: string
  cl_auth :: "request \<Rightarrow> ('w auth_world, request) prog"
  cl_handle :: "request \<Rightarrow> ('w auth_world, response) looping"
  cl_hook :: "request \<Rightarrow> response \<Rightarrow> ('w auth_world, unit) prog"

definition bearer_auth :: "('w, 'b) provider \<Rightarrow> request \<Rightarrow> ('w auth_world, request) prog" where
  "bearer_auth V rq = bnd (get_access_token V) (\<lambda>token. ret (set_bearer token rq))"

definition enforce_misuse_guards :: "profile \<Rightarrow> ('w, 'b) provider option \<Rightarrow> exn + unit" where
  "enforce_misuse_guards p token_provider =
     (if pr_auth p = None \<and> token_provider \<noteq> None
      then Inl (InvalidClientConfigurationError (
        ''Profile has no `auth` block (OSS profile) but a token_provider was '' @
        ''supplied. OSS profiles must never attach an Authorization header; '' @
        ''pass token_provider=None or configure an `auth:` block on the profile.''))
      else if pr_auth p \<noteq> None \<and> token_provider = None
      then Inl (InvalidClientConfigurationError (
        ''Profile declares an `auth` block but no token_provider was supplied. '' @
        ''Pass a TokenProvider (Story 21.3 provides OidcTokenProvider) so the '' @
        ''factory can attach bearer tokens on outgoing requests.''))
      else Inr ())"

definition raise_on_401 :: "profile \<Rightarrow> string \<Rightarrow> request \<Rightarrow> response \<Rightarrow> ('s, unit) prog" where
  "raise_on_401 p profile_name rq response =
     (if rp_status response \<noteq> 401 then ret ()
      else if pr_auth p = None then throw (ServerConfigurationError profile_name (rq_url rq))
      else throw (AuthenticationError profile_name (rq_url rq)))"

text \<open>The messages of the two errors.\<close>

definition http_error_message :: "exn \<Rightarrow> string" where
  "http_error_message e = (case e of
     ServerConfigurationError profile_name url \<Rightarrow>
       ''The server at '' @ url @ '' returned 401 but profile '' @ quoted profile_name @ '' has no auth '' @
       ''configured. Check the profile'' @ [CHR 0x27] @ ''s `auth:` block in ~/.akgentic/config.yaml '' @
       ''(profile configuration error).''
   | AuthenticationError profile_name url \<Rightarrow>
       ''Authentication failed for profile '' @ quoted profile_name @ '' at '' @ url @ '' (HTTP 401). '' @
       ''The access token was rejected by the server.''
   | _ \<Rightarrow> exn_str e)"

definition build_http_client ::
    "profile \<Rightarrow> ('w, 'b) provider option \<Rightarrow> string option \<Rightarrow>
     (request \<Rightarrow> ('w auth_world, response) looping) \<Rightarrow> exn + 'w client" where
  "build_http_client p token_provider profile_name transport =
     (case enforce_misuse_guards p token_provider of
        Inl e \<Rightarrow> Inl e
      | Inr _ \<Rightarrow> Inr \<lparr>
          cl_base_url = pr_endpoint p,
          cl_auth = (case token_provider of Some V \<Rightarrow> bearer_auth V | None \<Rightarrow> ret),
          cl_handle = transport,
          cl_hook = raise_on_401 p (case profile_name of Some n \<Rightarrow> n | None \<Rightarrow> ''<unknown>'')\<rparr>)"

text \<open>
  \<open>Client.send\<close>: the auth flow rewrites the request, then each hop goes through the transport and the
  hook. \<open>next_request\<close> says whether a response redirects and where to; at most \<open>n\<close> hops are made.
\<close>

fun send_hops ::
    "(request \<Rightarrow> response \<Rightarrow> request option) \<Rightarrow> nat \<Rightarrow> 'w client \<Rightarrow> request \<Rightarrow> ('w auth_world, response) looping" where
  "send_hops next_request 0 C rq = returns (throw (HTTPError ''Exceeded maximum allowed redirects.''))"
| "send_hops next_request (Suc n) C rq =
     follow (cl_handle C rq) (\<lambda>response.
     follow (returns (cl_hook C rq response)) (\<lambda>_.
       (case next_request rq response of
          None \<Rightarrow> returns (ret response)
        | Some rq' \<Rightarrow> send_hops next_request n C rq')))"

definition client_send ::
    "(request \<Rightarrow> response \<Rightarrow> request option) \<Rightarrow> nat \<Rightarrow> 'w client \<Rightarrow> request \<Rightarrow> ('w auth_world, response) looping" where
  "client_send next_request n C rq = follow (returns (cl_auth C rq)) (\<lambda>rq'. send_hops next_request n C rq')"

section \<open>Signing in again, once\<close>

definition plain_handle :: "'w transport \<Rightarrow> request \<Rightarrow> ('w auth_world, response) looping" where
  "plain_handle T rq = returns (on_net (ht_handle T rq))"

definition handle_request ::
    "'w transport \<Rightarrow> ('w, 'b) provider \<Rightarrow> (device_auth \<Rightarrow> ('w, unit) prog) \<Rightarrow> request \<Rightarrow> ('w auth_world, response) looping" where
  "handle_request T V on_user_code rq =
     follow (plain_handle T rq) (\<lambda>response.
       if rp_status response \<noteq> 401 then returns (ret response)
       else follow (returns (on_net (ht_read T response))) (\<lambda>_.
            follow (run_device_code_flow V on_user_code) (\<lambda>_.
            follow (returns (get_access_token V)) (\<lambda>new_token.
            plain_handle T (set_bearer new_token rq)))))"

definition preflight_credentials ::
    "('w, 'b) provider \<Rightarrow> (device_auth \<Rightarrow> ('w, unit) prog) \<Rightarrow> ('w auth_world, unit) looping" where
  "preflight_credentials V on_user_code = (\<lambda>s. case get_access_token V s of
     (Inr _, t) \<Rightarrow> Some (Inr (), t)
   | (Inl e, t) \<Rightarrow>
       if is_reauth e then follow (run_device_code_flow V on_user_code) (\<lambda>_. returns (ret ())) t
       else Some (Inl e, t))"

text \<open>The provider of a profile: the wiring \<open>V\<close> with the profile's name and its \<open>auth\<close> block.\<close>

definition provider_for :: "('w, 'b) provider \<Rightarrow> string \<Rightarrow> auth_config \<Rightarrow> ('w, 'b) provider" where
  "provider_for V profile_name a = V\<lparr>pv_profile_name := profile_name, pv_auth := a\<rparr>"

definition build_http_client_with_auto_auth ::
    "('w, 'b) provider \<Rightarrow> 'w transport \<Rightarrow> (device_auth \<Rightarrow> ('w, unit) prog) \<Rightarrow> profile \<Rightarrow> string \<Rightarrow>
     ('w auth_world, 'w client) looping" where
  "build_http_client_with_auto_auth V T on_user_code p profile_name =
     (if pr_auth p = None
      then returns (reading (\<lambda>_. build_http_client p (None :: ('w, 'b) provider option) (Some profile_name) (plain_handle T)))
      else (case new_token_provider p profile_name (provider_for V profile_name) of
          Inl e \<Rightarrow> returns (throw e)
        | Inr W \<Rightarrow> follow (preflight_credentials W on_user_code) (\<lambda>_.
            returns (reading (\<lambda>_. build_http_client p (Some W) (Some profile_name) (handle_request T W on_user_code))))))"

section \<open>Commands\<close>

text \<open>The two output streams of the terminal.\<close>

record 'w terminal =
  tm_out :: "string \<Rightarrow> 'w \<Rightarrow> 'w"
  tm_err :: "string \<Rightarrow> 'w \<Rightarrow> 'w"

definition emit_user_code :: "'w terminal \<Rightarrow> device_auth \<Rightarrow> ('w, unit) prog" where
  "emit_user_code TM d = writing (tm_err TM (device_code_message d))"

definition active_profile ::
    "config_source \<Rightarrow> (string \<Rightarrow> string option) \<Rightarrow> string option \<Rightarrow> exn + string \<times> profile" where
  "active_profile F env override =
     (case load_config F of Inl e \<Rightarrow> Inl e | Inr config \<Rightarrow> resolve_profile config override env)"

definition nothing_to_log_in :: "string \<Rightarrow> string" where
  "nothing_to_log_in profile_name = ''Profile '' @ repr_str profile_name @ '' has no auth configured; nothing to log in to. Add an '' @
     quoted ''auth:'' @ '' block to the profile in ~/.akgentic/config.yaml.'' @ [CHR 0x0A]"

definition login ::
    "'w terminal \<Rightarrow> ('w, 'b) provider \<Rightarrow> config_source \<Rightarrow> (string \<Rightarrow> string option) \<Rightarrow> string option \<Rightarrow>
     ('w auth_world, unit) looping" where
  "login TM V F env override =
     (case active_profile F env override of
        Inl e \<Rightarrow> returns (throw e)
      | Inr (profile_name, p) \<Rightarrow>
          (case pr_auth p of
             None \<Rightarrow> returns (andthen (on_net (writing (tm_err TM (nothing_to_log_in profile_name)))) (throw (TyperExit 1)))
           | Some a \<Rightarrow>
               follow (run_device_code_flow (provider_for V profile_name a) (emit_user_code TM)) (\<lambda>_.
                 returns (on_net (writing (tm_out TM (''Logged in to profile '' @ repr_str profile_name @ ''.'' @ [CHR 0x0A])))))))"

definition logout ::
    "'w terminal \<Rightarrow> cache_codec \<Rightarrow> config_source \<Rightarrow> (string \<Rightarrow> string option) \<Rightarrow> string option \<Rightarrow>
     ('w auth_world, unit) prog" where
  "logout TM K F env override = (\<lambda>s.
     (case active_profile F env override of
        Inl e \<Rightarrow> (Inl e, s)
      | Inr (profile_name, p) \<Rightarrow>
          if pr_auth p = None
          then on_net (writing (tm_out TM (''Profile '' @ repr_str profile_name @
             '' has no auth configured; nothing to log out from.'' @ [CHR 0x0A]))) s
          else (case load_token_cache K profile_name (aw_fs s) of
              Inl e \<Rightarrow> (Inl e, s)
            | Inr existing \<Rightarrow>
                andthen (on_fs (delete_token_cache profile_name))
                  (on_net (writing (tm_out TM (
                    (if existing = None then ''Already logged out of profile '' else ''Logged out from profile '') @
                    repr_str profile_name @ ''.'' @ [CHR 0x0A])))) s)))"

section \<open>What is sent\<close>

text \<open>
  \<open>sent\<close> lists the requests the transport below was given; signing in, the clock and the terminal are
  other conversations.
\<close>

definition records :: "'w transport \<Rightarrow> ('w \<Rightarrow> request list) \<Rightarrow> bool" where
  "records T sent \<longleftrightarrow> (\<forall>rq w. sent (snd (ht_handle T rq w)) = sent w @ [rq])"

definition apart ::
    "'w transport \<Rightarrow> ('w, 'b) provider \<Rightarrow> (device_auth \<Rightarrow> ('w, unit) prog) \<Rightarrow> ('w \<Rightarrow> request list) \<Rightarrow> bool" where
  "apart T V on_user_code sent \<longleftrightarrow>
     (\<forall>url. keeps sent (hc_get (pv_client V) url)) \<and> (\<forall>url data. keeps sent (hc_post (pv_client V) url data)) \<and>
     (\<forall>n. keeps sent (ti_sleep (pv_timer V) n)) \<and> (\<forall>d. keeps sent (on_user_code d)) \<and> (\<forall>rp. keeps sent (ht_read T rp))"

lemma keeps_case_sum [frame_intros]:
  "(\<And>e. keeps f (m e)) \<Longrightarrow> (\<And>x. keeps f (n x)) \<Longrightarrow> keeps f (case z of Inl e \<Rightarrow> m e | Inr x \<Rightarrow> n x)"
  by (cases z) auto

lemma keeps_on_http_error [frame_intros]: "keeps f m \<Longrightarrow> keeps f (on_http_error m wrap)"
  unfolding on_http_error_def by (intro frame_intros) (auto intro: frame_intros split: exn.split)

lemma keeps_on_net [frame_intros]: "keeps f m \<Longrightarrow> keeps (\<lambda>s. f (aw_net s)) (on_net m)"
  by (rule keepsI) (auto simp: on_net_def on_part_def keeps_def split: prod.split, metis snd_conv)

lemma keeps_on_fs [frame_intros]: "keeps (\<lambda>s. f (aw_net s)) (on_fs m)"
  by (rule keepsI) (auto simp: on_fs_def on_part_def split: prod.split)

lemma apart_request_token:
  assumes "apart T V hook sent"
  shows "keeps sent (request_token (pv_client V) (pv_parsers V) eps data)"
  using assms unfolding request_token_def apart_def by (auto intro!: frame_intros)

lemma apart_ensure_endpoints:
  assumes "apart T V hook sent"
  shows "keeps (\<lambda>s. sent (aw_net s)) (ensure_endpoints V)"
proof (rule keepsI)
  fix s :: "'a auth_world"
  have d: "keeps sent (discover_endpoints (pv_client V) (pv_parsers V) (au_issuer (pv_auth V)))"
    using assms unfolding discover_endpoints_def Let_def apart_def by (auto intro!: frame_intros)
  have "keeps (\<lambda>s. sent (aw_net s)) (bnd (on_net (discover_endpoints (pv_client V) (pv_parsers V) (au_issuer (pv_auth V))))
       (\<lambda>eps. andthen (writing (\<lambda>s. s\<lparr>aw_endpoints := Some eps\<rparr>)) (ret eps)))"
    using d by (intro frame_intros) (auto simp: keeps_def)
  then show "sent (aw_net (snd (ensure_endpoints V s))) = sent (aw_net s)"
    by (auto simp: ensure_endpoints_def keeps_def split: option.split)
qed

lemma keeps_purge: "keeps (\<lambda>s. f (aw_net s)) (purge_cache V)"
  unfolding purge_cache_def by (rule frame_intros)

lemma keeps_to_entry: "keeps (\<lambda>s. f (aw_net s)) (token_response_to_cache_entry V response fallback)"
  by (rule keepsI) (metis to_entry_outcome(1) prod.collapse)

lemma apart_refresh:
  assumes "apart T V hook sent"
  shows "keeps (\<lambda>s. sent (aw_net s)) (refresh_and_return V entry now)"
  unfolding refresh_and_return_def save_cache_def
  by (intro frame_intros apart_ensure_endpoints [OF assms] apart_request_token [OF assms] keeps_to_entry keeps_purge)

lemma apart_get_access_token:
  assumes "apart T V hook sent"
  shows "keeps (\<lambda>s. sent (aw_net s)) (get_access_token V)"
  using apart_refresh [OF assms]
  by (auto simp: keeps_def get_access_token_def Let_def split: sum.split option.split)

lemma poll_loop_keeps:
  assumes "poll_loop C P TI eps data deadline interval w = Some y"
  shows "(\<forall>n. keeps f (ti_sleep TI n)) \<and> keeps f (request_token C P eps data) \<longrightarrow> f (snd y) = f w"
proof (rule poll_loop.raw_induct [where Pa = "\<lambda>(((((((C, P), TI), eps), data), deadline), interval), w) y.
      (\<forall>n. keeps f (ti_sleep TI n)) \<and> keeps f (request_token C P eps data) \<longrightarrow> f (snd y) = f w",
      unfolded split_conv, OF _ assms], rule impI)
  fix loop C P TI eps data deadline interval w y
  assume IH: "\<And>C P TI eps data deadline interval w y. loop C P TI eps data deadline interval w = Some y \<Longrightarrow>
      (\<forall>n. keeps f (ti_sleep TI n)) \<and> keeps f (request_token C P eps data) \<longrightarrow> f (snd y) = f w"
    and run: "(if deadline \<le> ti_clock TI w then Some (Inl flow_timed_out, w)
      else case ti_sleep TI interval w of (Inl e, w1) \<Rightarrow> Some (Inl e, w1)
        | (Inr x, w1) \<Rightarrow> (case request_token C P eps data w1 of
            (Inl e, w2) \<Rightarrow> if is_pending e then loop C P TI eps data deadline interval w2
              else if is_slow_down e then loop C P TI eps data deadline (interval + 5) w2 else Some (Inl e, w2)
          | (Inr t, w2) \<Rightarrow> Some (Inr t, w2))) = Some y"
    and laws: "(\<forall>n. keeps f (ti_sleep TI n)) \<and> keeps f (request_token C P eps data)"
  obtain sr w1 where sl: "ti_sleep TI interval w = (sr, w1)" by force
  obtain tr w2 where rq: "request_token C P eps data w1 = (tr, w2)" by force
  have "f (snd (ti_sleep TI interval w)) = f w" "f (snd (request_token C P eps data w1)) = f w1"
    using laws unfolding keeps_def by blast+
  then have "f w1 = f w" "f w2 = f w1" using sl rq by simp_all
  moreover have "f (snd y) = f w2" if "loop C P TI eps data deadline j w2 = Some y" for j
    using IH [OF that] laws by simp
  ultimately show "f (snd y) = f w"
    using run by (auto simp: sl rq split: if_splits sum.splits)
qed

lemma apart_start_flow:
  assumes "apart T V hook sent"
  shows "keeps (\<lambda>s. sent (aw_net s)) (start_flow V hook)"
proof -
  have "keeps sent (initiate_device_flow (pv_client V) (pv_parsers V) eps (au_client_id (pv_auth V)))" for eps
    using assms unfolding initiate_device_flow_def apart_def by (auto intro!: frame_intros)
  moreover have "keeps sent (hook d)" for d using assms by (simp add: apart_def)
  ultimately show ?thesis
    unfolding start_flow_def by (intro frame_intros apart_ensure_endpoints [OF assms])
qed

lemma keeps_finish_flow: "keeps (\<lambda>s. f (aw_net s)) (finish_flow V response)"
  unfolding finish_flow_def save_cache_def by (intro frame_intros keeps_to_entry)

lemma apart_device_flow:
  assumes "apart T V hook sent" "run_device_code_flow V hook s = Some (r, t)"
  shows "sent (aw_net t) = sent (aw_net s)"
proof -
  obtain sr u where st: "start_flow V hook s = (sr, u)" by force
  have u: "sent (aw_net u) = sent (aw_net s)" by (rule keepsD [OF apart_start_flow [OF assms(1)] st])
  show ?thesis
  proof (cases sr)
    case (Inl e)
    then show ?thesis using assms(2) st u by (simp add: run_device_code_flow_def)
  next
    case (Inr ed)
    obtain eps d where ed: "ed = (eps, d)" by force
    obtain pr w where po: "poll_for_token (pv_client V) (pv_parsers V) (pv_timer V) eps (au_client_id (pv_auth V))
        (da_device_code d) (poll_interval d) (da_expires_in d) (aw_net u) = Some (pr, w)"
      using assms(2) st Inr ed by (auto simp: run_device_code_flow_def split: option.splits prod.splits)
    have w: "sent w = sent (aw_net u)"
      using poll_loop_keeps [OF po [unfolded poll_for_token_def], of sent] apart_request_token [OF assms(1)] assms(1)
      by (auto simp: apart_def)
    show ?thesis
    proof (cases pr)
      case (Inl e)
      then show ?thesis using assms(2) st Inr ed po u w by (auto simp: run_device_code_flow_def)
    next
      case (Inr response)
      then have "finish_flow V response (u\<lparr>aw_net := w\<rparr>) = (r, t)"
        using assms(2) st \<open>sr = Inr ed\<close> ed po by (simp add: run_device_code_flow_def)
      then show ?thesis using keepsD [OF keeps_finish_flow [of sent]] u w by fastforce
    qed
  qed
qed

text \<open>One exchange through the transport that signs in again.\<close>

lemma plain_handle_Some_iff:
  "plain_handle T rq s = Some (r, t) \<longleftrightarrow> (\<exists>w. ht_handle T rq (aw_net s) = (r, w) \<and> t = s\<lparr>aw_net := w\<rparr>)"
  by (auto simp: plain_handle_def on_net_def on_part_def split: prod.splits)

lemma handle_request_cases:
  assumes "handle_request T V hook rq s = Some (r, t)"
  obtains
    (once) "plain_handle T rq s = Some (r, t)" "\<forall>rp. r = Inr rp \<longrightarrow> rp_status rp \<noteq> 401"
  | (stopped) rp u e where "plain_handle T rq s = Some (Inr rp, u)" "rp_status rp = 401" "r = Inl e"
      "on_net (ht_read T rp) u = (Inl e, t) \<or>
       (\<exists>z v. on_net (ht_read T rp) u = (Inr z, v) \<and>
          (run_device_code_flow V hook v = Some (Inl e, t) \<or>
           (\<exists>x w. run_device_code_flow V hook v = Some (Inr x, w) \<and> get_access_token V w = (Inl e, t))))"
  | (twice) rp u z v x w token y where "plain_handle T rq s = Some (Inr rp, u)" "rp_status rp = 401"
      "on_net (ht_read T rp) u = (Inr z, v)" "run_device_code_flow V hook v = Some (Inr x, w)"
      "get_access_token V w = (Inr token, y)" "plain_handle T (set_bearer token rq) y = Some (r, t)"
proof -
  obtain pr u where p: "plain_handle T rq s = Some (pr, u)" by (metis plain_handle_def returns_apply prod.collapse)
  show thesis
  proof (cases "\<exists>rp. pr = Inr rp \<and> rp_status rp = 401")
    case False
    then show thesis using assms p once by (auto simp: handle_request_def follow_def split: sum.splits)
  next
    case True
    then obtain rp where rp: "pr = Inr rp" "rp_status rp = 401" by blast
    then have "follow (returns (on_net (ht_read T rp))) (\<lambda>_. follow (run_device_code_flow V hook) (\<lambda>_.
        follow (returns (get_access_token V)) (\<lambda>new_token. plain_handle T (set_bearer new_token rq)))) u = Some (r, t)"
      using assms p by (simp add: handle_request_def follow_def)
    then show thesis
      using p rp stopped [of rp u] twice [of rp u] unfolding follow_Some_iff returns_apply option.inject by blast
  qed
qed

lemma records_plain_handle:
  "records T sent \<Longrightarrow> plain_handle T rq s = Some (r, t) \<Longrightarrow> sent (aw_net t) = sent (aw_net s) @ [rq] \<and> aw_fs t = aw_fs s"
  unfolding plain_handle_Some_iff records_def by (metis auth_world.select_convs(1) auth_world.surjective auth_world.update_convs(3) auth_world.select_convs(3) snd_conv)

text \<open>A second request follows only a 401 to the first, and carries the token now in the cache.\<close>

lemma handle_request_sends:
  assumes "records T sent" "apart T V hook sent" "faithful (pv_codec V)" "plain_failures V"
    and "handle_request T V hook rq s = Some (r, t)"
  shows "sent (aw_net t) = sent (aw_net s) @ [rq] \<and> (\<forall>rp. r = Inr rp \<longrightarrow> rp_status rp \<noteq> 401)
    \<or> (\<exists>token e rp. sent (aw_net t) = sent (aw_net s) @ [rq, set_bearer token rq] \<and>
         load_cache V t = Inr (Some e) \<and> te_access_token e = token \<and>
         fst (ht_handle T rq (aw_net s)) = Inr rp \<and> rp_status rp = 401)"
  using assms(5)
proof (cases rule: handle_request_cases)
  case once
  then show ?thesis using records_plain_handle [OF assms(1)] by blast
next
  case (stopped rp u e)
  have r: "keeps (\<lambda>s. sent (aw_net s)) (on_net (ht_read T rp))"
    using assms(2) by (intro frame_intros) (simp add: apart_def)
  have "sent (aw_net t) = sent (aw_net u)"
    using stopped(4) keepsD [OF r] apart_device_flow [OF assms(2)] keepsD [OF apart_get_access_token [OF assms(2)]]
    by metis
  then show ?thesis using records_plain_handle [OF assms(1) stopped(1)] stopped(3) by simp
next
  case (twice rp u z v x w token y)
  have r: "keeps (\<lambda>s. sent (aw_net s)) (on_net (ht_read T rp))"
    using assms(2) by (intro frame_intros) (simp add: apart_def)
  have "sent (aw_net y) = sent (aw_net w)" "sent (aw_net w) = sent (aw_net v)" "sent (aw_net v) = sent (aw_net u)"
    using keepsD [OF r twice(3)] apart_device_flow [OF assms(2) twice(4)]
      keepsD [OF apart_get_access_token [OF assms(2)] twice(5)] by simp_all
  moreover note records_plain_handle [OF assms(1) twice(1)] records_plain_handle [OF assms(1) twice(6)]
  moreover obtain e where "load_cache V y = Inr (Some e)" "te_access_token e = token"
    using get_access_token_outcome [OF assms(3,4) twice(5)] by (auto simp: token_outcome_def)
  moreover have "fst (ht_handle T rq (aw_net s)) = Inr rp"
    using twice(1) by (auto simp: plain_handle_Some_iff)
  ultimately show ?thesis using twice(2) by (auto simp: load_cache_def)
qed

section \<open>The client of a profile\<close>

lemma provider_for_simps [simp]:
  "apart T (provider_for V n a) hook sent = apart T V hook sent" "pv_codec (provider_for V n a) = pv_codec V"
  "plain_failures (provider_for V n a) = plain_failures V" "pv_profile_name (provider_for V n a) = n"
  "pv_auth (provider_for V n a) = a"
  by (simp_all add: provider_for_def apart_def plain_failures_def)

lemma build_without_auth:
  assumes "pr_auth p = None"
  shows "build_http_client_with_auto_auth V T hook p name s =
    Some (Inr \<lparr>cl_base_url = pr_endpoint p, cl_auth = ret, cl_handle = plain_handle T, cl_hook = raise_on_401 p name\<rparr>, s)"
  using assms by (simp add: build_http_client_with_auto_auth_def build_http_client_def enforce_misuse_guards_def)

lemma build_with_auth:
  assumes "pr_auth p = Some a"
  shows "build_http_client_with_auto_auth V T hook p name =
    (let W = provider_for V name a in
     follow (preflight_credentials W hook) (\<lambda>_. returns (ret
       \<lparr>cl_base_url = pr_endpoint p, cl_auth = bearer_auth W, cl_handle = handle_request T W hook, cl_hook = raise_on_401 p name\<rparr>)))"
  using assms
  by (simp add: build_http_client_with_auto_auth_def new_token_provider_def build_http_client_def enforce_misuse_guards_def
      Let_def reading_def ret_def)

lemma raise_on_401_apply:
  "raise_on_401 p name rq rp s = (if rp_status rp \<noteq> 401 then (Inr (), s)
     else if pr_auth p = None then (Inl (ServerConfigurationError name (rq_url rq)), s)
     else (Inl (AuthenticationError name (rq_url rq)), s))"
  by (simp add: raise_on_401_def)

lemma hops_never_401:
  "cl_hook C = raise_on_401 p name \<Longrightarrow> send_hops next_request n C rq s = Some (Inr rp, t) \<Longrightarrow> rp_status rp \<noteq> 401"
proof (induction n arbitrary: rq s)
  case (Suc n)
  then show ?case by (auto simp: follow_Some_iff raise_on_401_apply split: if_splits option.splits)
qed simp

lemma preflight_leaves_an_entry:
  assumes "faithful (pv_codec V)" "plain_failures V" "preflight_credentials V hook s = Some (Inr (), t)"
  shows "\<exists>e. load_cache V t = Inr (Some e)"
proof -
  obtain r u where g: "get_access_token V s = (r, u)" by force
  note o = get_access_token_outcome [OF assms(1,2) g]
  show ?thesis
  proof (cases r)
    case (Inr token)
    then show ?thesis using assms(3) g o by (auto simp: preflight_credentials_def token_outcome_def)
  next
    case (Inl e)
    then obtain x where "run_device_code_flow V hook u = Some (Inr x, t)"
      using assms(3) g by (auto simp: preflight_credentials_def follow_Some_iff split: if_splits)
    then show ?thesis using device_flow_entry [OF assms(1)] by blast
  qed
qed

lemma preflight_sends_nothing:
  assumes "apart T V hook sent" "preflight_credentials V hook s = Some (r, t)"
  shows "sent (aw_net t) = sent (aw_net s)"
proof -
  obtain g u where g: "get_access_token V s = (g, u)" by force
  have "sent (aw_net u) = sent (aw_net s)" by (rule keepsD [OF apart_get_access_token [OF assms(1)] g])
  then show ?thesis
    using assms(2) g apart_device_flow [OF assms(1)]
    by (cases g) (fastforce simp: preflight_credentials_def follow_Some_iff split: if_splits)+
qed

lemma plain_hops:
  assumes "records T sent" "cl_handle C = plain_handle T" "cl_hook C = raise_on_401 p name"
    and "\<forall>q rp q'. next_request q rp = Some q' \<and> P q \<longrightarrow> P q'"
  shows "P rq \<Longrightarrow> \<exists>r t log. send_hops next_request n C rq s = Some (r, t)
    \<and> sent (aw_net t) = sent (aw_net s) @ log \<and> (\<forall>q \<in> set log. P q) \<and> aw_fs t = aw_fs s \<and> aw_endpoints t = aw_endpoints s"
proof (induction n arbitrary: rq s)
  case (Suc n)
  obtain hr w where h: "ht_handle T rq (aw_net s) = (hr, w)" by force
  let ?t = "s\<lparr>aw_net := w\<rparr>"
  have run: "plain_handle T rq s = Some (hr, ?t)" using h by (auto simp: plain_handle_Some_iff)
  note st = records_plain_handle [OF assms(1) run]
  have one: ?case if "send_hops next_request (Suc n) C rq s = Some (r, ?t)" for r
    using that st Suc.prems by (intro exI [of _ r] exI [of _ ?t] exI [of _ "[rq]"]) simp
  show ?case
  proof (cases hr)
    case (Inl e)
    then show ?thesis using one run assms(2) by (simp add: follow_def)
  next
    case (Inr rp)
    show ?thesis
    proof (cases "\<exists>q'. rp_status rp \<noteq> 401 \<and> next_request rq rp = Some q'")
      case False
      then show ?thesis
        using one run Inr assms(2,3)
        by (cases "next_request rq rp") (auto simp: follow_def raise_on_401_apply)
    next
      case True
      then obtain q' where q': "rp_status rp \<noteq> 401" "next_request rq rp = Some q'" by blast
      have eq: "send_hops next_request (Suc n) C rq s = send_hops next_request n C q' ?t"
        using run Inr assms(2,3) q' by (simp add: follow_def raise_on_401_apply)
      have "P q'" using assms(4) q'(2) Suc.prems by blast
      from Suc.IH [OF this, of ?t] obtain r t log where "send_hops next_request n C q' ?t = Some (r, t)"
          "sent (aw_net t) = sent (aw_net ?t) @ log" "\<forall>q \<in> set log. P q" "aw_fs t = aw_fs ?t" "aw_endpoints t = aw_endpoints ?t"
        by blast
      then show ?thesis
        using eq st Suc.prems by (intro exI [of _ r] exI [of _ t] exI [of _ "rq # log"]) simp
    qed
  qed
qed (auto intro!: exI [of _ "[]"])

text \<open>
  C25. A profile without an \<open>auth\<close> block never authenticates: building its client asks for nothing, every
  request comes back, none carries an \<open>Authorization\<close> header the caller did not set, and the credentials and the
  sign-in endpoints are left alone. A 401 is a \<open>ServerConfigurationError\<close> with the name of the profile and
  the URL, never a response and never a prompt to sign in.
\<close>

theorem oss_profile_never_authenticates:
  assumes "pr_auth p = None" "records T sent" "header_values authorization rq = []"
    and "\<forall>q rp q'. next_request q rp = Some q' \<and> header_values authorization q = [] \<longrightarrow> header_values authorization q' = []"
  shows "\<exists>C. build_http_client_with_auto_auth V T hook p name s = Some (Inr C, s)
    \<and> (\<exists>r t log. client_send next_request n C rq s = Some (r, t)
        \<and> sent (aw_net t) = sent (aw_net s) @ log \<and> (\<forall>q \<in> set log. header_values authorization q = [])
        \<and> aw_fs t = aw_fs s \<and> aw_endpoints t = aw_endpoints s
        \<and> (\<forall>rp. r = Inr rp \<longrightarrow> rp_status rp \<noteq> 401)
        \<and> (\<forall>rp w. n \<noteq> 0 \<and> ht_handle T rq (aw_net s) = (Inr rp, w) \<and> rp_status rp = 401
            \<longrightarrow> r = Inl (ServerConfigurationError name (rq_url rq)) \<and> log = [rq]))"
proof -
  let ?C = "\<lparr>cl_base_url = pr_endpoint p, cl_auth = ret, cl_handle = plain_handle T, cl_hook = raise_on_401 p name\<rparr> :: 'a client"
  have send: "client_send next_request n ?C rq = send_hops next_request n ?C rq"
    by (simp add: client_send_def follow_def fun_eq_iff)
  obtain r t log where run: "send_hops next_request n ?C rq s = Some (r, t)"
      "sent (aw_net t) = sent (aw_net s) @ log" "\<forall>q \<in> set log. header_values authorization q = []"
      "aw_fs t = aw_fs s" "aw_endpoints t = aw_endpoints s"
  proof -
    have "cl_handle ?C = plain_handle T" "cl_hook ?C = raise_on_401 p name" by simp_all
    from plain_hops [OF assms(2) this, where P = "\<lambda>q. header_values authorization q = []", OF assms(4) assms(3)]
    show ?thesis using that by blast
  qed
  have refused: "r = Inl (ServerConfigurationError name (rq_url rq)) \<and> log = [rq]"
    if n: "n \<noteq> 0" and w: "ht_handle T rq (aw_net s) = (Inr rp, w)" "rp_status rp = 401" for rp w
  proof -
    obtain m where m: "n = Suc m" using n by (cases n) auto
    have h: "plain_handle T rq s = Some (Inr rp, s\<lparr>aw_net := w\<rparr>)" using w(1) by (auto simp: plain_handle_Some_iff)
    then have "r = Inl (ServerConfigurationError name (rq_url rq)) \<and> t = s\<lparr>aw_net := w\<rparr>"
      using run(1) m w(2) assms(1) by (auto simp: follow_def raise_on_401_apply)
    then show ?thesis using records_plain_handle [OF assms(2) h] run(2) by simp
  qed
  have never: "\<forall>rp. r = Inr rp \<longrightarrow> rp_status rp \<noteq> 401"
    using hops_never_401 [of ?C p name next_request n rq s] run(1) by auto
  show ?thesis
  proof (intro exI conjI)
    show "build_http_client_with_auto_auth V T hook p name s = Some (Inr ?C, s)" by (rule build_without_auth [OF assms(1)])
    show "client_send next_request n ?C rq s = Some (r, t)" using send run(1) by simp
  qed (use run never refused in auto)
qed


section \<open>Signing out\<close>

lemma on_fs_delete: "on_fs (delete_token_cache p) s = (Inr (), s\<lparr>aw_fs := (aw_fs s)\<lparr>fs_files := (fs_files (aw_fs s))(cache_name p := None)\<rparr>\<rparr>)"
  by (simp add: on_fs_def on_part_def delete_token_cache_def)

lemma on_net_writing: "on_net (writing f) s = (Inr (), s\<lparr>aw_net := f (aw_net s)\<rparr>)"
  by (simp add: on_net_def on_part_def)

text \<open>
  Signing out of a profile with an \<open>auth\<close> block leaves no credentials of it, signed in before or not, and
  those of every other profile as they were; a profile without one has nothing to leave. A cache file that
  cannot be read is the exception: the command fails with the reader's error and the file stays.
\<close>

theorem logout_forgets:
  "case active_profile F env override of
     Inl e \<Rightarrow> logout TM K F env override s = (Inl e, s)
   | Inr (n, p) \<Rightarrow>
       if pr_auth p = None then \<exists>t. logout TM K F env override s = (Inr (), t) \<and> aw_fs t = aw_fs s
       else (case load_token_cache K n (aw_fs s) of
           Inl e \<Rightarrow> logout TM K F env override s = (Inl e, s) \<and> (\<exists>m. e = TokenCacheCorruptError m)
         | Inr _ \<Rightarrow> \<exists>t. logout TM K F env override s = (Inr (), t) \<and>
             (\<forall>q. load_token_cache K q (aw_fs t) = (if q = n then Inr None else load_token_cache K q (aw_fs s))))"
proof -
  have err: "\<exists>m. e = TokenCacheCorruptError m" if "load_token_cache K n fs = Inl e" for n fs e
    using that by (auto simp: load_token_cache_def split: option.splits sum.splits if_splits)
  have other: "load_token_cache K q (fs\<lparr>fs_files := (fs_files fs)(cache_name n := None)\<rparr>) =
      (if q = n then Inr None else load_token_cache K q fs)" for q n fs
    by (simp add: load_token_cache_def)
  show ?thesis
    using err by (auto simp: logout_def on_fs_delete on_net_writing other andthen_def bnd_def split: sum.split)
qed

text \<open>Signing in to a profile without an \<open>auth\<close> block writes a line to the error stream, exits with 1 and asks nobody.\<close>

lemma login_without_auth:
  assumes "active_profile F env override = Inr (n, p)" "pr_auth p = None"
  shows "login TM V F env override s = Some (Inl (TyperExit 1), s\<lparr>aw_net := tm_err TM (nothing_to_log_in n) (aw_net s)\<rparr>)"
  using assms by (simp add: login_def on_net_writing andthen_def bnd_def)

lemma login_with_auth:
  assumes "active_profile F env override = Inr (n, p)" "pr_auth p = Some a" "faithful (pv_codec V)"
    and "login TM V F env override s = Some (Inr (), t)"
  shows "\<exists>e. load_cache (provider_for V n a) t = Inr (Some e)"
proof -
  let ?W = "provider_for V n a"
  obtain e u where u: "run_device_code_flow ?W (emit_user_code TM) s = Some (Inr e, u)" "aw_fs t = aw_fs u"
    using assms(1,2,4) by (auto simp: login_def follow_Some_iff on_net_writing)
  have "load_cache ?W u = Inr (Some e)" using device_flow_entry [OF _ u(1)] assms(3) by simp
  then show ?thesis using u(2) by (auto simp: load_cache_def)
qed

section \<open>A server that logs\<close>

text \<open>The scripted sign-in server and an application server that accepts one token and logs what it is sent.\<close>

record logged_world = script_world +
  lw_sent :: "request list"
  lw_accepts :: string

definition with_script :: "(script_world, 'a) prog \<Rightarrow> (logged_world, 'a) prog" where
  "with_script m = on_part script_world.truncate
     (\<lambda>s w. w\<lparr>sw_time := sw_time s, sw_sent := sw_sent s, sw_script := sw_script s\<rparr>) m"

definition logged_transport :: "logged_world transport" where
  "logged_transport = \<lparr>
     ht_handle = (\<lambda>rq w. (Inr \<lparr>rp_status = (if header_values authorization rq = [''Bearer '' @ lw_accepts w] then 200 else 401),
        rp_body = []\<rparr>, w\<lparr>lw_sent := lw_sent w @ [rq]\<rparr>)),
     ht_read = (\<lambda>_. ret ())\<rparr>"

definition logged_provider :: "(logged_world, wire) provider" where
  "logged_provider = \<lparr>pv_profile_name = ''home'', pv_auth = sample_auth,
     pv_client = \<lparr>hc_get = (\<lambda>url. with_script (hc_get script_client url)), hc_post = (\<lambda>url data. with_script (hc_post script_client url data))\<rparr>,
     pv_parsers = wire_parsers,
     pv_timer = \<lparr>ti_clock = sw_time, ti_sleep = (\<lambda>n. with_script (ti_sleep script_timer n))\<rparr>,
     pv_codec = plain_codec, pv_fault = None\<rparr>"

lemma logged_laws:
  "records logged_transport lw_sent" "apart logged_transport logged_provider (\<lambda>_. ret ()) lw_sent"
  "faithful (pv_codec logged_provider)" "plain_failures logged_provider"
proof -
  have k: "keeps lw_sent (with_script m)" for m :: "(script_world, 'x) prog"
    by (rule keepsI) (simp add: with_script_def on_part_def split: prod.split)
  show "records logged_transport lw_sent" by (simp add: records_def logged_transport_def)
  show "apart logged_transport logged_provider (\<lambda>_. ret ()) lw_sent"
    by (simp add: apart_def logged_provider_def logged_transport_def k keeps_ret)
  show "faithful (pv_codec logged_provider)" by (simp add: logged_provider_def plain_codec_faithful)
  show "plain_failures logged_provider"
    by (simp add: plain_failures_def logged_provider_def with_script_def on_part_def script_client_def script_answer_def
        split: prod.split list.split)
qed

definition sample_request :: request where
  "sample_request = \<lparr>rq_method = ''GET'', rq_url = ''https://app/teams'', rq_headers = [(''Accept'', ''*/*'')], rq_body = []\<rparr>"

definition oss_profile :: profile where
  "oss_profile = \<lparr>pr_endpoint = ''https://app/'', pr_auth = None\<rparr>"

definition auth_profile :: profile where
  "auth_profile = \<lparr>pr_endpoint = ''https://app/'', pr_auth = Some sample_auth\<rparr>"

text \<open>Signed in with a token the server has revoked; signing in again gives the one it accepts.\<close>

definition revoked :: "logged_world auth_world" where
  "revoked = \<lparr>
     aw_fs = \<lparr>fs_dir = Some owner_dir, fs_files = [cache_name ''home'' \<mapsto>
       \<lparr>fi_content = co_dump plain_codec \<lparr>te_access_token = ''old'', te_refresh_token = ''r'', te_expires_at = 9000\<rparr>,
        fi_mode = owner_only\<rparr>], fs_umask = 0x12\<rparr>,
     aw_endpoints = Some sample_endpoints,
     aw_net = \<lparr>sw_time = 1000, sw_sent = 0, sw_script =
       [\<lparr>hr_status = 200, hr_content = WireDevice sample_device\<rparr>, \<lparr>hr_status = 200, hr_content = WireToken sample_token\<rparr>],
       lw_sent = [], lw_accepts = ''new''\<rparr>\<rparr>"

theorem oss_profile_never_authenticates_witness:
  "\<exists>C r t. build_http_client_with_auto_auth logged_provider logged_transport (\<lambda>_. ret ()) oss_profile ''work'' revoked = Some (Inr C, revoked)
     \<and> client_send (\<lambda>_ _. None) 21 C sample_request revoked = Some (r, t)
     \<and> r = Inl (ServerConfigurationError ''work'' ''https://app/teams'')"
proof -
  have "header_values authorization sample_request = []" "pr_auth oss_profile = None"
    by (code_simp, simp add: oss_profile_def)
  moreover have "\<exists>rp w. ht_handle logged_transport sample_request (aw_net revoked) = (Inr rp, w) \<and> rp_status rp = 401"
    using \<open>header_values authorization sample_request = []\<close> by (simp add: logged_transport_def)
  moreover have "(21::nat) \<noteq> 0" "rq_url sample_request = ''https://app/teams''" by (simp_all add: sample_request_def)
  ultimately show ?thesis
    using oss_profile_never_authenticates [OF _ logged_laws(1), of oss_profile sample_request "\<lambda>_ _. None"
        logged_provider "\<lambda>_. ret ()" "''work''" revoked 21]
    by (smt (verit) option.distinct(1))
qed

lemmas script_run = with_script_def on_part_def logged_provider_def logged_transport_def provider_for_def script_client_def
  script_timer_def script_answer_def wire_parsers_def auth_profile_def sample_auth_def sample_device_def sample_token_def

lemma revoked_token: "get_access_token (provider_for logged_provider ''home'' sample_auth) revoked = (Inr ''old'', revoked)"
proof -
  let ?e = "\<lparr>te_access_token = ''old'', te_refresh_token = ''r'', te_expires_at = 9000\<rparr>"
  have "load_cache (provider_for logged_provider ''home'' sample_auth) revoked = Inr (Some ?e)"
    using plain_codec_faithful owner_can_read(2) [of "fs\<lparr>fs_umask := 0\<rparr>" for fs]
    by (simp add: load_cache_def provider_for_def logged_provider_def revoked_def load_token_cache_def faithful_def)
  then show ?thesis
    by (simp add: get_access_token_def refresh_leeway_def provider_for_def logged_provider_def revoked_def)
qed

lemma revoked_sign_in:
  "\<exists>u. run_device_code_flow (provider_for logged_provider ''home'' sample_auth) (\<lambda>_. ret ())
       (revoked\<lparr>aw_net := (aw_net revoked)\<lparr>lw_sent := l\<rparr>\<rparr>) =
     Some (Inr \<lparr>te_access_token = ''new'', te_refresh_token = ''r'', te_expires_at = 4605\<rparr>, u) \<and>
     sw_time (aw_net u) = 1005 \<and> lw_accepts (aw_net u) = ''new''"
  by (simp add: run_device_code_flow_def start_flow_def ensure_endpoints_def initiate_device_flow_def
      poll_for_token_def poll_loop.simps poll_interval_def finish_flow_def token_response_to_cache_entry_def save_cache_def
      on_fs_def on_net_def save_ends revoked_def request_token_def on_http_error_def
      bnd_def try_except_def andthen_def fold_bearer Let_def script_run script_world.defs)


end
