(* ===== verification/ApiClient.thy ===== *)
theory ApiClient
  imports PyText Data
begin

text \<open>
  \<open>cli/client.py\<close>: the client of the REST interface. The HTTP library below, the JSON decoder, the
  deserialiser of messages and the catalog's \<open>Entry\<close> model are parameters; a text of a validation error is
  not modelled. Bytes are text over code points below 256.
\<close>

section \<open>JSON values as the client reads them\<close>

text \<open>The truth value of a decoded value, \<open>or\<close>, and \<open>dict.get\<close>.\<close>

fun json_true :: "json \<Rightarrow> bool" where
  "json_true JNull = False"
| "json_true (JBool b) = b"
| "json_true (JInt i) = (i \<noteq> 0)"
| "json_true (JFloat t) = (\<exists>c \<in> set (takeWhile (\<lambda>c. c \<noteq> CHR ''e'' \<and> c \<noteq> CHR ''E'') t). c \<in> set ''123456789na'')"
| "json_true (JStr s) = (s \<noteq> [])"
| "json_true (JList xs) = (xs \<noteq> [])"
| "json_true (JObj d) = (d \<noteq> [])"

definition json_or :: "json \<Rightarrow> json \<Rightarrow> json" where
  "json_or a b = (if json_true a then a else b)"

definition json_get :: "(string \<times> json) list \<Rightarrow> string \<Rightarrow> json" where
  "json_get d k = (case map_of d k of None \<Rightarrow> JNull | Some j \<Rightarrow> j)"

text \<open>A failed validation is a \<open>ValueError\<close> of the model library.\<close>

definition invalid :: "string \<Rightarrow> exn" where
  "invalid model = ValueError (''validation error for '' @ model)"

definition no_attribute :: "string \<Rightarrow> exn" where
  "no_attribute a = AttributeError (''object has no attribute '' @ quoted a)"

definition text_of :: "string \<Rightarrow> (string \<times> json) list \<Rightarrow> string \<Rightarrow> exn + string" where
  "text_of model d k = (case map_of d k of Some (JStr s) \<Rightarrow> Inr s | _ \<Rightarrow> Inl (invalid model))"

section \<open>Response models\<close>

record team_info =
  ci_team_id :: string
  ci_name :: string
  ci_status :: string
  ci_user_id :: string
  ci_created_at :: string
  ci_updated_at :: string

record 'm event_info =
  ei_team_id :: string
  ei_sequence :: int
  ei_event :: "(string \<times> json) list + 'm"
  ei_timestamp :: string

record workspace_entry =
  we_name :: string
  we_is_dir :: bool
  we_size :: int

record tree_info =
  wt_team_id :: string
  wt_path :: string
  wt_entries :: "workspace_entry list"

record upload_info =
  wu_path :: string
  wu_size :: int

record catalog_team =
  ct_id :: string
  ct_name :: string
  ct_description :: string

section \<open>The world outside\<close>

text \<open>A call as the HTTP library gets it, and what comes back.\<close>

record api_call =
  ca_method :: string
  ca_path :: string
  ca_json :: "(string \<times> string) list option"
  ca_params :: "(string \<times> string) list option"
  ca_data :: "(string \<times> string) list option"
  ca_file :: "(string \<times> string) option"
  ca_content :: "(string \<times> string) option"

record api_reply =
  ar_status :: nat
  ar_content :: string

datatype send_failure = RequestTimedOut | ConnectFailed string | OtherFailure exn

text \<open>\<open>al_int\<close> and \<open>al_bool\<close> are the coercions of the model library for \<open>int\<close> and \<open>bool\<close> fields.\<close>

record ('w, 'm, 'e) api =
  al_send :: "api_call \<Rightarrow> 'w \<Rightarrow> (send_failure + api_reply) \<times> 'w"
  al_json :: "string \<Rightarrow> exn + json"
  al_deserialize :: "json \<Rightarrow> exn + 'm option"
  al_entry :: "json \<Rightarrow> exn + 'e"
  al_int :: "json \<Rightarrow> int option"
  al_bool :: "json \<Rightarrow> bool option"

section \<open>Validation of the models\<close>

definition sum_bnd :: "exn + 'a \<Rightarrow> ('a \<Rightarrow> exn + 'b) \<Rightarrow> exn + 'b" where
  "sum_bnd r f = (case r of Inl e \<Rightarrow> Inl e | Inr x \<Rightarrow> f x)"

definition of_option :: "string \<Rightarrow> 'a option \<Rightarrow> exn + 'a" where
  "of_option model x = (case x of None \<Rightarrow> Inl (invalid model) | Some y \<Rightarrow> Inr y)"

definition object_of :: "string \<Rightarrow> json \<Rightarrow> exn + (string \<times> json) list" where
  "object_of model j = of_option model (json_obj j)"

definition list_of :: "string \<Rightarrow> json \<Rightarrow> exn + json list" where
  "list_of model j = (case j of JList xs \<Rightarrow> Inr xs | _ \<Rightarrow> Inl (invalid model))"

definition team_info_of :: "json \<Rightarrow> exn + team_info" where
  "team_info_of j =
     sum_bnd (object_of ''TeamInfo'' j) (\<lambda>d.
     sum_bnd (text_of ''TeamInfo'' d ''team_id'') (\<lambda>i.
     sum_bnd (text_of ''TeamInfo'' d ''name'') (\<lambda>n.
     sum_bnd (text_of ''TeamInfo'' d ''status'') (\<lambda>st.
     sum_bnd (text_of ''TeamInfo'' d ''user_id'') (\<lambda>u.
     sum_bnd (text_of ''TeamInfo'' d ''created_at'') (\<lambda>c.
     sum_bnd (text_of ''TeamInfo'' d ''updated_at'') (\<lambda>up.
       Inr \<lparr>ci_team_id = i, ci_name = n, ci_status = st, ci_user_id = u, ci_created_at = c, ci_updated_at = up\<rparr>)))))))"

definition team_list_of :: "json \<Rightarrow> exn + team_info list" where
  "team_list_of j =
     sum_bnd (object_of ''TeamListInfo'' j) (\<lambda>d.
     sum_bnd (list_of ''TeamListInfo'' (json_get d ''teams'')) (traverse team_info_of))"

text \<open>The event becomes a message when it names its class and deserialises to one, and stays a mapping otherwise.\<close>

definition deserialize_event :: "('w, 'm, 'e) api \<Rightarrow> (string \<times> json) list \<Rightarrow> exn + ((string \<times> json) list + 'm)" where
  "deserialize_event A d =
     (if ''__model__'' \<notin> fst ` set d then Inr (Inl d)
      else (case al_deserialize A (JObj d) of
          Inr (Some m) \<Rightarrow> Inr (Inr m)
        | Inr None \<Rightarrow> Inr (Inl d)
        | Inl e \<Rightarrow> if is_value_error e then Inr (Inl d) else Inl e))"

definition event_info_of :: "('w, 'm, 'e) api \<Rightarrow> json \<Rightarrow> exn + 'm event_info" where
  "event_info_of A j =
     sum_bnd (object_of ''EventInfo'' j) (\<lambda>d.
     sum_bnd (text_of ''EventInfo'' d ''team_id'') (\<lambda>i.
     sum_bnd (of_option ''EventInfo'' (al_int A (json_get d ''sequence''))) (\<lambda>n.
     sum_bnd (object_of ''EventInfo'' (json_get d ''event'')) (\<lambda>raw.
     sum_bnd (text_of ''EventInfo'' d ''timestamp'') (\<lambda>ts.
     sum_bnd (deserialize_event A raw) (\<lambda>ev.
       Inr \<lparr>ei_team_id = i, ei_sequence = n, ei_event = ev, ei_timestamp = ts\<rparr>))))))"

definition event_list_of :: "('w, 'm, 'e) api \<Rightarrow> json \<Rightarrow> exn + 'm event_info list" where
  "event_list_of A j =
     sum_bnd (object_of ''EventListInfo'' j) (\<lambda>d.
     sum_bnd (list_of ''EventListInfo'' (json_get d ''events'')) (traverse (event_info_of A)))"

definition workspace_entry_of :: "('w, 'm, 'e) api \<Rightarrow> json \<Rightarrow> exn + workspace_entry" where
  "workspace_entry_of A j =
     sum_bnd (object_of ''WorkspaceEntry'' j) (\<lambda>d.
     sum_bnd (text_of ''WorkspaceEntry'' d ''name'') (\<lambda>n.
     sum_bnd (of_option ''WorkspaceEntry'' (al_bool A (json_get d ''is_dir''))) (\<lambda>b.
     sum_bnd (of_option ''WorkspaceEntry'' (al_int A (json_get d ''size''))) (\<lambda>k.
       Inr \<lparr>we_name = n, we_is_dir = b, we_size = k\<rparr>))))"

definition tree_info_of :: "('w, 'm, 'e) api \<Rightarrow> json \<Rightarrow> exn + tree_info" where
  "tree_info_of A j =
     sum_bnd (object_of ''WorkspaceTreeInfo'' j) (\<lambda>d.
     sum_bnd (text_of ''WorkspaceTreeInfo'' d ''team_id'') (\<lambda>i.
     sum_bnd (text_of ''WorkspaceTreeInfo'' d ''path'') (\<lambda>p.
     sum_bnd (list_of ''WorkspaceTreeInfo'' (json_get d ''entries'')) (\<lambda>xs.
     sum_bnd (traverse (workspace_entry_of A) xs) (\<lambda>es.
       Inr \<lparr>wt_team_id = i, wt_path = p, wt_entries = es\<rparr>)))))"

definition upload_info_of :: "('w, 'm, 'e) api \<Rightarrow> json \<Rightarrow> exn + upload_info" where
  "upload_info_of A j =
     sum_bnd (object_of ''WorkspaceUploadInfo'' j) (\<lambda>d.
     sum_bnd (text_of ''WorkspaceUploadInfo'' d ''path'') (\<lambda>p.
     sum_bnd (of_option ''WorkspaceUploadInfo'' (al_int A (json_get d ''size''))) (\<lambda>k.
       Inr \<lparr>wu_path = p, wu_size = k\<rparr>)))"

section \<open>Credentials\<close>

definition api_key_prefix :: string where
  "api_key_prefix = ''ak_''"

definition auth_headers :: "string option \<Rightarrow> (string \<times> string) list" where
  "auth_headers credential = (case credential of
     None \<Rightarrow> []
   | Some c \<Rightarrow>
       if c = [] then []
       else if startswith c api_key_prefix then [(''X-API-Key'', c)]
       else [(''Authorization'', ''Bearer '' @ c)])"

text \<open>The two ways to construct the client: over a client of the caller's, or over its own.\<close>

datatype 'c api_client =
    External 'c
  | Owned string "(string \<times> string) list"

definition new_api_client :: "string option \<Rightarrow> string option \<Rightarrow> 'c option \<Rightarrow> exn + 'c api_client" where
  "new_api_client base_url api_key http_client =
     (case (http_client, base_url) of
        (Some _, Some _) \<Rightarrow> Inl (ValueError ''ApiClient accepts either http_client or base_url, not both.'')
      | (None, None) \<Rightarrow> Inl (ValueError ''ApiClient requires either http_client or base_url.'')
      | (Some c, None) \<Rightarrow> Inr (External c)
      | (None, Some u) \<Rightarrow> Inr (Owned u (auth_headers api_key)))"

text \<open>\<open>close()\<close> reaches the HTTP client only if it is the client's own.\<close>

definition closes_http_client :: "'c api_client \<Rightarrow> bool" where
  "closes_http_client c = (case c of External _ \<Rightarrow> False | Owned _ _ \<Rightarrow> True)"

section \<open>Requests\<close>

definition api_error_text :: "nat \<Rightarrow> string \<Rightarrow> string" where
  "api_error_text status_code detail =
     (if detail = [] then ''HTTP '' @ int_str (int status_code)
      else ''HTTP '' @ int_str (int status_code) @ '': '' @ detail)"

fun retryable :: "exn \<Rightarrow> bool" where
  "retryable (ApiError status_code _) = (500 \<le> status_code \<or> status_code = 429 \<or> status_code = 0)"
| "retryable _ = False"

definition require_json_object :: "json \<Rightarrow> exn + (string \<times> json) list" where
  "require_json_object body = (case json_obj body of
     None \<Rightarrow> Inl (ApiError 0 ''unexpected response shape: expected JSON object'') | Some d \<Rightarrow> Inr d)"

definition require_json_array :: "json \<Rightarrow> exn + json list" where
  "require_json_array body = (case body of
     JList xs \<Rightarrow> Inr xs | _ \<Rightarrow> Inl (ApiError 0 ''unexpected response shape: expected JSON array''))"

definition extract_detail :: "('w, 'm, 'e) api \<Rightarrow> api_reply \<Rightarrow> string" where
  "extract_detail A resp = (case al_json A (ar_content resp) of
     Inr (JObj d) \<Rightarrow> (case json_get d ''detail'' of JStr s \<Rightarrow> s | _ \<Rightarrow> [])
   | _ \<Rightarrow> [])"

definition is_success :: "api_reply \<Rightarrow> bool" where
  "is_success resp \<longleftrightarrow> 200 \<le> ar_status resp \<and> ar_status resp < 300"

text \<open>\<open>_request\<close> and \<open>_raw_request\<close> differ only in the call they make.\<close>

definition send_call :: "('w, 'm, 'e) api \<Rightarrow> api_call \<Rightarrow> ('w, api_reply) prog" where
  "send_call A call = (\<lambda>w. case al_send A call w of
     (Inl RequestTimedOut, w') \<Rightarrow> (Inl (ApiError 0 (''Request timed out: '' @ ca_method call @ '' '' @ ca_path call)), w')
   | (Inl (ConnectFailed t), w') \<Rightarrow> (Inl (ApiError 0 (''Connection failed: '' @ t)), w')
   | (Inl (OtherFailure e), w') \<Rightarrow> (Inl e, w')
   | (Inr resp, w') \<Rightarrow>
       if is_success resp then (Inr resp, w')
       else (Inl (ApiError (ar_status resp) (extract_detail A resp)), w'))"

definition plain_call :: "string \<Rightarrow> string \<Rightarrow> api_call" where
  "plain_call method path = \<lparr>ca_method = method, ca_path = path, ca_json = None, ca_params = None, ca_data = None,
     ca_file = None, ca_content = None\<rparr>"

definition api_request ::
    "('w, 'm, 'e) api \<Rightarrow> string \<Rightarrow> string \<Rightarrow> (string \<times> string) list option \<Rightarrow> (string \<times> string) list option \<Rightarrow>
     (string \<times> string) option \<Rightarrow> (string \<times> string) list option \<Rightarrow> ('w, api_reply) prog" where
  "api_request A method path js params file data =
     send_call A ((plain_call method path)\<lparr>ca_json := js, ca_params := params, ca_file := file, ca_data := data\<rparr>)"

definition raw_request ::
    "('w, 'm, 'e) api \<Rightarrow> string \<Rightarrow> string \<Rightarrow> string \<Rightarrow> string \<Rightarrow> (string \<times> string) list option \<Rightarrow> ('w, api_reply) prog" where
  "raw_request A method path content content_type params =
     send_call A ((plain_call method path)\<lparr>ca_content := Some (content_type, content), ca_params := params\<rparr>)"

text \<open>The request, the decoding of its body and what is made of it.\<close>

definition decoded :: "('w, 'm, 'e) api \<Rightarrow> (json \<Rightarrow> exn + 'a) \<Rightarrow> ('w, api_reply) prog \<Rightarrow> ('w, 'a) prog" where
  "decoded A f m = bnd m (\<lambda>resp. reading (\<lambda>_. sum_bnd (al_json A (ar_content resp)) f))"

abbreviation get_json :: "('w, 'm, 'e) api \<Rightarrow> (json \<Rightarrow> exn + 'a) \<Rightarrow> string \<Rightarrow> ('w, 'a) prog" where
  "get_json A f path \<equiv> decoded A f (api_request A ''GET'' path None None None None)"

definition no_answer :: "('w, api_reply) prog \<Rightarrow> ('w, unit) prog" where
  "no_answer m = bnd m (\<lambda>_. ret ())"

section \<open>Operations\<close>

definition catalog_team_of :: "json \<Rightarrow> exn + catalog_team" where
  "catalog_team_of entry = (case entry of
     JObj d \<Rightarrow>
       (case json_or (json_get d ''payload'') (JObj []) of
          JObj payload \<Rightarrow>
            (let namespace = json_or (json_or (json_get d ''namespace'') (json_get d ''id'')) (JStr []);
                 name = json_or (json_get payload ''name'') namespace;
                 description = json_or (json_or (json_get d ''description'') (json_get payload ''description'')) (JStr [])
             in case (namespace, name, description) of
                  (JStr a, JStr b, JStr c) \<Rightarrow> Inr \<lparr>ct_id = a, ct_name = b, ct_description = c\<rparr>
                | _ \<Rightarrow> Inl (invalid ''CatalogTeamInfo''))
        | _ \<Rightarrow> Inl (no_attribute ''get''))
   | _ \<Rightarrow> Inl (no_attribute ''get''))"

text \<open>Iterating over a decoded value: a mapping gives its keys and a text its characters, both without \<open>get\<close>.\<close>

definition catalog_teams_of :: "json \<Rightarrow> exn + catalog_team list" where
  "catalog_teams_of body = (case body of
     JList xs \<Rightarrow> traverse catalog_team_of xs
   | JObj d \<Rightarrow> if d = [] then Inr [] else Inl (no_attribute ''get'')
   | JStr t \<Rightarrow> if t = [] then Inr [] else Inl (no_attribute ''get'')
   | _ \<Rightarrow> Inl (TypeError ''object is not iterable''))"

definition list_catalog_teams :: "('w, 'm, 'e) api \<Rightarrow> ('w, catalog_team list) prog" where
  "list_catalog_teams A = get_json A catalog_teams_of ''/admin/catalog/team''"

definition api_list_teams :: "('w, 'm, 'e) api \<Rightarrow> ('w, team_info list) prog" where
  "api_list_teams A = get_json A team_list_of ''/teams''"

definition api_get_team :: "('w, 'm, 'e) api \<Rightarrow> string \<Rightarrow> ('w, team_info) prog" where
  "api_get_team A i = get_json A team_info_of (''/teams/'' @ i)"

definition api_create_team :: "('w, 'm, 'e) api \<Rightarrow> string \<Rightarrow> ('w, team_info) prog" where
  "api_create_team A entry =
     decoded A team_info_of (api_request A ''POST'' ''/teams'' (Some [(''catalog_namespace'', entry)]) None None None)"

definition api_stop_team :: "('w, 'm, 'e) api \<Rightarrow> string \<Rightarrow> ('w, unit) prog" where
  "api_stop_team A i = no_answer (api_request A ''POST'' (''/teams/'' @ i @ ''/stop'') None None None None)"

definition api_delete_team :: "('w, 'm, 'e) api \<Rightarrow> string \<Rightarrow> ('w, unit) prog" where
  "api_delete_team A i = no_answer (api_request A ''DELETE'' (''/teams/'' @ i) None None None None)"

definition api_restore_team :: "('w, 'm, 'e) api \<Rightarrow> string \<Rightarrow> ('w, team_info) prog" where
  "api_restore_team A i =
     decoded A team_info_of (api_request A ''POST'' (''/teams/'' @ i @ ''/restore'') None None None None)"

definition api_get_events :: "('w, 'm, 'e) api \<Rightarrow> string \<Rightarrow> ('w, 'm event_info list) prog" where
  "api_get_events A i = get_json A (event_list_of A) (''/teams/'' @ i @ ''/events'')"

definition api_send_message :: "('w, 'm, 'e) api \<Rightarrow> string \<Rightarrow> string \<Rightarrow> ('w, unit) prog" where
  "api_send_message A i content =
     no_answer (api_request A ''POST'' (''/teams/'' @ i @ ''/message'') (Some [(''content'', content)]) None None None)"

definition api_send_message_to :: "('w, 'm, 'e) api \<Rightarrow> string \<Rightarrow> string \<Rightarrow> string \<Rightarrow> ('w, unit) prog" where
  "api_send_message_to A i agent_name content =
     no_answer (api_request A ''POST'' (''/teams/'' @ i @ ''/message/'' @ agent_name) (Some [(''content'', content)]) None None None)"

definition api_human_input :: "('w, 'm, 'e) api \<Rightarrow> string \<Rightarrow> string \<Rightarrow> string \<Rightarrow> ('w, unit) prog" where
  "api_human_input A i content message_id =
     no_answer (api_request A ''POST'' (''/teams/'' @ i @ ''/human-input'')
       (Some [(''content'', content), (''message_id'', message_id)]) None None None)"

definition api_workspace_tree :: "('w, 'm, 'e) api \<Rightarrow> string \<Rightarrow> ('w, tree_info) prog" where
  "api_workspace_tree A i = get_json A (tree_info_of A) (''/workspace/'' @ i @ ''/tree'')"

definition api_workspace_read :: "('w, 'm, 'e) api \<Rightarrow> string \<Rightarrow> string \<Rightarrow> ('w, string) prog" where
  "api_workspace_read A i path =
     bnd (api_request A ''GET'' (''/workspace/'' @ i @ ''/file'') None (Some [(''path'', path)]) None None)
       (\<lambda>resp. ret (ar_content resp))"

definition api_workspace_upload :: "('w, 'm, 'e) api \<Rightarrow> string \<Rightarrow> string \<Rightarrow> string \<Rightarrow> ('w, upload_info) prog" where
  "api_workspace_upload A i path file_data =
     decoded A (upload_info_of A) (api_request A ''POST'' (''/workspace/'' @ i @ ''/file'') None None
       (Some (''upload'', file_data)) (Some [(''path'', path)]))"

section \<open>Administration\<close>

definition entry_of :: "('w, 'm, 'e) api \<Rightarrow> json \<Rightarrow> exn + 'e" where
  "entry_of A body = sum_bnd (require_json_object body) (\<lambda>d. al_entry A (JObj d))"

definition entries_of :: "('w, 'm, 'e) api \<Rightarrow> json \<Rightarrow> exn + 'e list" where
  "entries_of A body = sum_bnd (require_json_array body) (traverse (al_entry A))"

definition in_namespace :: "string \<Rightarrow> (string \<times> string) list" where
  "in_namespace namespace = [(''namespace'', namespace)]"

definition catalog_list :: "('w, 'm, 'e) api \<Rightarrow> string \<Rightarrow> string option \<Rightarrow> ('w, 'e list) prog" where
  "catalog_list A kind namespace =
     decoded A (entries_of A) (api_request A ''GET'' (''/admin/catalog/'' @ kind) None
       (case namespace of None \<Rightarrow> None | Some n \<Rightarrow> Some (in_namespace n)) None None)"

definition catalog_get :: "('w, 'm, 'e) api \<Rightarrow> string \<Rightarrow> string \<Rightarrow> string \<Rightarrow> ('w, 'e) prog" where
  "catalog_get A kind entry_id namespace =
     decoded A (entry_of A) (api_request A ''GET'' (''/admin/catalog/'' @ kind @ ''/'' @ entry_id) None
       (Some (in_namespace namespace)) None None)"

definition catalog_create :: "('w, 'm, 'e) api \<Rightarrow> string \<Rightarrow> string \<Rightarrow> string \<Rightarrow> ('w, 'e) prog" where
  "catalog_create A kind body content_type =
     decoded A (entry_of A) (raw_request A ''POST'' (''/admin/catalog/'' @ kind) body content_type None)"

definition catalog_import_namespace :: "('w, 'm, 'e) api \<Rightarrow> string \<Rightarrow> ('w, 'e list) prog" where
  "catalog_import_namespace A body =
     decoded A (entries_of A) (raw_request A ''POST'' ''/admin/catalog/namespace/import'' body ''application/yaml'' None)"

definition catalog_update :: "('w, 'm, 'e) api \<Rightarrow> string \<Rightarrow> string \<Rightarrow> string \<Rightarrow> string \<Rightarrow> string \<Rightarrow> ('w, 'e) prog" where
  "catalog_update A kind entry_id body content_type namespace =
     decoded A (entry_of A) (raw_request A ''PUT'' (''/admin/catalog/'' @ kind @ ''/'' @ entry_id) body content_type
       (Some (in_namespace namespace)))"

definition catalog_delete :: "('w, 'm, 'e) api \<Rightarrow> string \<Rightarrow> string \<Rightarrow> string \<Rightarrow> ('w, unit) prog" where
  "catalog_delete A kind entry_id namespace =
     no_answer (api_request A ''DELETE'' (''/admin/catalog/'' @ kind @ ''/'' @ entry_id) None (Some (in_namespace namespace)) None None)"

definition reload_channels :: "('w, 'm, 'e) api \<Rightarrow> ('w, (string \<times> json) list) prog" where
  "reload_channels A =
     bnd (api_request A ''POST'' ''/admin/channels/reload'' None None None None) (\<lambda>resp.
       ret (if ar_content resp = [] then []
            else (case al_json A (ar_content resp) of Inr (JObj d) \<Rightarrow> d | _ \<Rightarrow> [])))"

section \<open>Errors\<close>

text \<open>
  What goes wrong between the client and the server is an \<open>ApiError\<close>, and it says what: status 0 for a
  timeout or a refused connection, the server's own status otherwise with the detail of its JSON body. A
  caller gets a reply only when its status is a success, and \<open>retryable\<close> holds exactly for lost
  connections, 429 and the 5xx. An error of the HTTP library of any other kind passes as it is.
\<close>

theorem api_failures_are_api_errors:
  "case send_call A call w of
     (Inr resp, w') \<Rightarrow> al_send A call w = (Inr resp, w') \<and> ar_status resp \<in> {200..<300}
   | (Inl e, w') \<Rightarrow>
       al_send A call w = (Inl (OtherFailure e), w')
     \<or> (\<exists>f. al_send A call w = (Inl f, w') \<and> f \<in> insert RequestTimedOut (range ConnectFailed) \<and> retryable e \<and> (\<exists>m. e = ApiError 0 m))
     \<or> (\<exists>resp. al_send A call w = (Inr resp, w') \<and> ar_status resp \<notin> {200..<300}
          \<and> e = ApiError (ar_status resp) (extract_detail A resp)
          \<and> (retryable e \<longleftrightarrow> ar_status resp \<in> {0, 429} \<union> {500..}))"
  by (auto simp: send_call_def is_success_def split: prod.split sum.split send_failure.split)

end
