(* ===== verification/ClientRoutes.thy ===== *)
theory ClientRoutes
  imports ApiClient CoreApp
begin

text \<open>
  The client against the server: every call of \<open>cli/client.py\<close> about teams and workspaces, and the routes of
  \<open>server/routes/teams.py\<close> and \<open>workspace.py\<close>. The catalog's routes are third-party code.
\<close>

section \<open>Path templates\<close>

text \<open>A template's segment in braces stands for any text without a slash that is not empty.\<close>

fun segments :: "string \<Rightarrow> string list" where
  "segments [] = [[]]"
| "segments (c # s) =
     (if c = CHR ''/'' then [] # segments s
      else (case segments s of [] \<Rightarrow> [[c]] | x # xs \<Rightarrow> (c # x) # xs))"

definition is_parameter :: "string \<Rightarrow> bool" where
  "is_parameter seg \<longleftrightarrow> (case seg of [] \<Rightarrow> False | c # _ \<Rightarrow> c = CHR ''{'')"

definition matches_template :: "string \<Rightarrow> string \<Rightarrow> bool" where
  "matches_template template path \<longleftrightarrow>
     list_all2 (\<lambda>t p. if is_parameter t then p \<noteq> [] else t = p) (segments template) (segments path)"

lemma segments_nonempty [simp]: "segments s \<noteq> []"
  by (cases s) (auto split: list.split)

lemma segments_append: "segments (a @ CHR ''/'' # b) = segments a @ segments b"
  by (induction a) (auto split: list.split)

lemma segments_word: "CHR ''/'' \<notin> set a \<Longrightarrow> segments a = [a]"
  by (induction a) auto

text \<open>The route that serves a call: the first whose method and template fit.\<close>

definition route_serves :: "router_route \<Rightarrow> api_call \<Rightarrow> bool" where
  "route_serves r call \<longleftrightarrow>
     (case (ro_methods r, ro_path r) of
        (Some ms, Some p) \<Rightarrow> ca_method call \<in> set ms \<and> matches_template p (ca_path call)
      | _ \<Rightarrow> False)"

section \<open>Calls\<close>

datatype team_call =
    CListTeams
  | CGetTeam string
  | CCreateTeam string
  | CStopTeam string
  | CDeleteTeam string
  | CRestoreTeam string
  | CGetEvents string
  | CSendMessage string string
  | CSendMessageTo string string string
  | CHumanInput string string string
  | CWorkspaceTree string
  | CWorkspaceRead string string
  | CWorkspaceUpload string string string

definition forget :: "('w, 'a) prog \<Rightarrow> ('w, unit) prog" where
  "forget m = bnd m (\<lambda>_. ret ())"

fun run_call :: "('w, 'm, 'e) api \<Rightarrow> team_call \<Rightarrow> ('w, unit) prog" where
  "run_call A CListTeams = forget (api_list_teams A)"
| "run_call A (CGetTeam i) = forget (api_get_team A i)"
| "run_call A (CCreateTeam n) = forget (api_create_team A n)"
| "run_call A (CStopTeam i) = api_stop_team A i"
| "run_call A (CDeleteTeam i) = api_delete_team A i"
| "run_call A (CRestoreTeam i) = forget (api_restore_team A i)"
| "run_call A (CGetEvents i) = forget (api_get_events A i)"
| "run_call A (CSendMessage i c) = api_send_message A i c"
| "run_call A (CSendMessageTo i a c) = api_send_message_to A i a c"
| "run_call A (CHumanInput i c m) = api_human_input A i c m"
| "run_call A (CWorkspaceTree i) = forget (api_workspace_tree A i)"
| "run_call A (CWorkspaceRead i p) = forget (api_workspace_read A i p)"
| "run_call A (CWorkspaceUpload i p d) = forget (api_workspace_upload A i p d)"

text \<open>The route each call is meant for, and what it puts into the path.\<close>

fun intended_route :: "team_call \<Rightarrow> router_route" where
  "intended_route CListTeams = api_route ''GET'' ''/teams''"
| "intended_route (CGetTeam i) = api_route ''GET'' ''/teams/{team_id}''"
| "intended_route (CCreateTeam n) = api_route ''POST'' ''/teams''"
| "intended_route (CStopTeam i) = api_route ''POST'' ''/teams/{team_id}/stop''"
| "intended_route (CDeleteTeam i) = api_route ''DELETE'' ''/teams/{team_id}''"
| "intended_route (CRestoreTeam i) = api_route ''POST'' ''/teams/{team_id}/restore''"
| "intended_route (CGetEvents i) = api_route ''GET'' ''/teams/{team_id}/events''"
| "intended_route (CSendMessage i c) = api_route ''POST'' ''/teams/{team_id}/message''"
| "intended_route (CSendMessageTo i a c) = api_route ''POST'' ''/teams/{team_id}/message/{agent_name}''"
| "intended_route (CHumanInput i c m) = api_route ''POST'' ''/teams/{team_id}/human-input''"
| "intended_route (CWorkspaceTree i) = api_route ''GET'' ''/workspace/{team_id}/tree''"
| "intended_route (CWorkspaceRead i p) = api_route ''GET'' ''/workspace/{team_id}/file''"
| "intended_route (CWorkspaceUpload i p d) = api_route ''POST'' ''/workspace/{team_id}/file''"

fun path_arguments :: "team_call \<Rightarrow> string list" where
  "path_arguments (CGetTeam i) = [i]"
| "path_arguments (CStopTeam i) = [i]"
| "path_arguments (CDeleteTeam i) = [i]"
| "path_arguments (CRestoreTeam i) = [i]"
| "path_arguments (CGetEvents i) = [i]"
| "path_arguments (CSendMessage i c) = [i]"
| "path_arguments (CSendMessageTo i a c) = [i, a]"
| "path_arguments (CHumanInput i c m) = [i]"
| "path_arguments (CWorkspaceTree i) = [i]"
| "path_arguments (CWorkspaceRead i p) = [i]"
| "path_arguments (CWorkspaceUpload i p d) = [i]"
| "path_arguments _ = []"

text \<open>Text that is one segment of a path: not empty, no slash, no query, no fragment, nothing escaped.\<close>

definition path_word :: "string \<Rightarrow> bool" where
  "path_word a \<longleftrightarrow> a \<noteq> [] \<and> set a \<inter> set ''/?#%'' = {}"

section \<open>Every call is served\<close>

definition records_calls :: "('w, 'm, 'e) api \<Rightarrow> ('w \<Rightarrow> api_call list) \<Rightarrow> bool" where
  "records_calls A calls \<longleftrightarrow> (\<forall>call w. calls (snd (al_send A call w)) = calls w @ [call])"

lemma send_call_world: "snd (send_call A call w) = snd (al_send A call w)"
  by (auto simp: send_call_def split: prod.split sum.split send_failure.split)

lemma bnd_world:
  "(\<And>x. keeps f (n x)) \<Longrightarrow> f (snd (bnd m n w)) = f (snd (m w))"
  by (auto simp: bnd_def keeps_def split: prod.split sum.split)

lemma one_call:
  assumes "records_calls A calls"
  shows "calls (snd (api_request A method path js params up data w)) = calls w @
      [(plain_call method path)\<lparr>ca_json := js, ca_params := params, ca_file := up, ca_data := data\<rparr>]"
    and "calls (snd (decoded A g m w)) = calls (snd (m w))"
    and "calls (snd (no_answer n w)) = calls (snd (n w))"
    and "calls (snd (forget k w)) = calls (snd (k w))"
  using assms
  by (simp_all add: api_request_def send_call_world records_calls_def decoded_def no_answer_def forget_def bnd_world frame_intros)

text \<open>The one request of each call.\<close>

fun call_of :: "team_call \<Rightarrow> api_call" where
  "call_of CListTeams = plain_call ''GET'' ''/teams''"
| "call_of (CGetTeam i) = plain_call ''GET'' (''/teams/'' @ i)"
| "call_of (CCreateTeam n) = (plain_call ''POST'' ''/teams'')\<lparr>ca_json := Some [(''catalog_namespace'', n)]\<rparr>"
| "call_of (CStopTeam i) = plain_call ''POST'' (''/teams/'' @ i @ ''/stop'')"
| "call_of (CDeleteTeam i) = plain_call ''DELETE'' (''/teams/'' @ i)"
| "call_of (CRestoreTeam i) = plain_call ''POST'' (''/teams/'' @ i @ ''/restore'')"
| "call_of (CGetEvents i) = plain_call ''GET'' (''/teams/'' @ i @ ''/events'')"
| "call_of (CSendMessage i c) = (plain_call ''POST'' (''/teams/'' @ i @ ''/message''))\<lparr>ca_json := Some [(''content'', c)]\<rparr>"
| "call_of (CSendMessageTo i a c) =
     (plain_call ''POST'' (''/teams/'' @ i @ ''/message/'' @ a))\<lparr>ca_json := Some [(''content'', c)]\<rparr>"
| "call_of (CHumanInput i c m) =
     (plain_call ''POST'' (''/teams/'' @ i @ ''/human-input''))\<lparr>ca_json := Some [(''content'', c), (''message_id'', m)]\<rparr>"
| "call_of (CWorkspaceTree i) = plain_call ''GET'' (''/workspace/'' @ i @ ''/tree'')"
| "call_of (CWorkspaceRead i p) = (plain_call ''GET'' (''/workspace/'' @ i @ ''/file''))\<lparr>ca_params := Some [(''path'', p)]\<rparr>"
| "call_of (CWorkspaceUpload i p d) =
     (plain_call ''POST'' (''/workspace/'' @ i @ ''/file''))\<lparr>ca_data := Some [(''path'', p)], ca_file := Some (''upload'', d)\<rparr>"

lemma run_call_sends:
  assumes "records_calls A calls"
  shows "calls (snd (run_call A op w)) = calls w @ [call_of op]"
proof -
  note defs = api_list_teams_def api_get_team_def api_create_team_def api_stop_team_def
    api_delete_team_def api_restore_team_def api_get_events_def api_send_message_def api_send_message_to_def
    api_human_input_def api_workspace_tree_def api_workspace_read_def api_workspace_upload_def
  have read: "calls (snd (bnd (api_request A m p js params up data) (\<lambda>resp. ret (ar_content resp)) w)) =
      calls (snd (api_request A m p js params up data w))" for m p js params up data
    by (rule bnd_world) (rule keeps_ret)
  show ?thesis
    by (cases op) (simp_all add: one_call [OF assms] read defs plain_call_def)
qed

text \<open>The segments of a template, and of a path with one or two identifiers in it.\<close>

lemma template_segments:
  "segments ''/teams'' = [[], ''teams'']" "segments ''/teams/{team_id}'' = [[], ''teams'', ''{team_id}'']"
  "segments ''/teams/{team_id}/metadata'' = [[], ''teams'', ''{team_id}'', ''metadata'']"
  "segments ''/teams/{team_id}/description'' = [[], ''teams'', ''{team_id}'', ''description'']"
  "segments ''/teams/{team_id}/message'' = [[], ''teams'', ''{team_id}'', ''message'']"
  "segments ''/teams/{team_id}/message/{agent_name}'' = [[], ''teams'', ''{team_id}'', ''message'', ''{agent_name}'']"
  "segments ''/teams/{team_id}/message/from/{sender_name}/to/{recipient_name}'' =
     [[], ''teams'', ''{team_id}'', ''message'', ''from'', ''{sender_name}'', ''to'', ''{recipient_name}'']"
  "segments ''/teams/{team_id}/notification'' = [[], ''teams'', ''{team_id}'', ''notification'']"
  "segments ''/teams/{team_id}/human-input'' = [[], ''teams'', ''{team_id}'', ''human-input'']"
  "segments ''/teams/{team_id}/stop'' = [[], ''teams'', ''{team_id}'', ''stop'']"
  "segments ''/teams/{team_id}/restore'' = [[], ''teams'', ''{team_id}'', ''restore'']"
  "segments ''/teams/{team_id}/events'' = [[], ''teams'', ''{team_id}'', ''events'']"
  "segments ''/teams/{team_id}/agent-states'' = [[], ''teams'', ''{team_id}'', ''agent-states'']"
  "segments ''/workspace/{team_id}/tree'' = [[], ''workspace'', ''{team_id}'', ''tree'']"
  "segments ''/workspace/{team_id}/file'' = [[], ''workspace'', ''{team_id}'', ''file'']"
  by code_simp+

lemma path_segments:
  assumes "path_word i"
  shows "i \<noteq> []" "segments i = [i]" "segments (i @ CHR ''/'' # b) = i # segments b"
  using assms segments_word [of i] by (auto simp: path_word_def segments_append)

lemma fits_simps:
  "list_all2 (\<lambda>t p. if is_parameter t then p \<noteq> [] else t = p) (t # ts) (p # ps) \<longleftrightarrow>
     (if is_parameter t then p \<noteq> [] else t = p) \<and> list_all2 (\<lambda>t p. if is_parameter t then p \<noteq> [] else t = p) ts ps"
  by simp

lemma route_serves_api_route:
  "route_serves (api_route m t) call \<longleftrightarrow> ca_method call = m \<and> matches_template t (ca_path call)"
  by (simp add: route_serves_def api_route_def)

lemma parameter_simps: "is_parameter [] = False" "is_parameter (c # s) = (c = CHR ''{'')"
  by (simp_all add: is_parameter_def)

lemma call_of_served:
  assumes "\<forall>a \<in> set (path_arguments op). path_word a"
  shows "find (\<lambda>r. route_serves r (call_of op)) (teams_router @ workspace_router) = Some (intended_route op)"
proof -
  note eval = teams_router_def workspace_router_def route_serves_api_route matches_template_def template_segments
    parameter_simps plain_call_def
  show ?thesis
  proof (cases op)
    case (CSendMessageTo i a c)
    then have "path_word i" "path_word a" using assms by simp_all
    then show ?thesis using CSendMessageTo by (simp add: eval path_segments)
  qed (use assms in \<open>simp_all add: eval path_segments\<close>)
qed


text \<open>A server that never answers, with the calls it was sent.\<close>

definition silent_api :: "(api_call list, unit, unit) api" where
  "silent_api = \<lparr>al_send = (\<lambda>call w. (Inl RequestTimedOut, w @ [call])), al_json = (\<lambda>_. Inl (ValueError [])),
     al_deserialize = (\<lambda>_. Inr None), al_entry = (\<lambda>_. Inr ()), al_int = (\<lambda>_. None), al_bool = (\<lambda>_. None)\<rparr>"


end
