(* ===== verification/TeamSelect.thy ===== *)
theory TeamSelect
  imports ApiClient "HOL-Library.Multiset" "HOL-Library.List_Lexorder" "HOL-Library.Char_ord"
begin

text \<open>
  \<open>cli/tui/screens/team_select.py\<close>: the menu of running and stopped teams, in pages. A screen is what it keeps
  and what it shows; its handlers run one after the other on the application's thread, its workers in threads
  that hand their outcome back. A key that starts a worker returns it. Styles are left out; the two signs of
  the header outside Latin-1 are stood for by control characters. \<open>int\<close> on more than 4300 digits is not modelled.
\<close>

section \<open>The screen\<close>

definition screen_page_size :: nat where
  "screen_page_size = 5"

text \<open>\<open>ss_dismissed\<close>: open, or closed with the value of \<open>dismiss\<close>.\<close>

record select_screen =
  ss_page :: nat
  ss_running :: "team_info list"
  ss_stopped :: "team_info list"
  ss_catalog :: "catalog_team list"
  ss_header :: string
  ss_list :: "string list"
  ss_error :: "string option"
  ss_hints :: string
  ss_dismissed :: "string option option"

definition menu_title :: string where
  "menu_title = ''Akgentic -- Team Selection''"

definition new_screen :: select_screen where
  "new_screen = \<lparr>ss_page = 0, ss_running = [], ss_stopped = [], ss_catalog = [],
     ss_header = menu_title @ ''   '' @ [CHR 0x81] @ '' connecting'', ss_list = [], ss_error = None, ss_hints = [],
     ss_dismissed = None\<rparr>"

definition update_header :: "bool \<Rightarrow> select_screen \<Rightarrow> select_screen" where
  "update_header server_reachable s = s\<lparr>ss_header := menu_title @ ''   '' @
     (if server_reachable then [CHR 0x81] @ '' connected'' else [CHR 0x82] @ '' disconnected'')\<rparr>"

definition max_pages :: "select_screen \<Rightarrow> nat" where
  "max_pages s = (let max_items = max (length (ss_running s)) (length (ss_stopped s)) in
     if max_items = 0 then 1 else (max_items + (screen_page_size - 1)) div screen_page_size)"

section \<open>Rendering\<close>

definition nat_str :: "nat \<Rightarrow> string" where
  "nat_str n = int_str (int n)"

text \<open>The teams a page shows, each with its index in the whole list.\<close>

definition shown :: "nat \<Rightarrow> 'a list \<Rightarrow> (nat \<times> 'a) list" where
  "shown p xs = (if length xs \<le> screen_page_size then enumerate 0 xs
     else enumerate (p * screen_page_size) (take screen_page_size (drop (p * screen_page_size) xs)))"

definition section_header :: "string \<Rightarrow> nat \<Rightarrow> 'a list \<Rightarrow> string" where
  "section_header title p xs =
     (let n = length xs; start = p * screen_page_size in
      if n \<le> screen_page_size then title @ '' ('' @ nat_str n @ ''):''
      else title @ '' ('' @ nat_str (start + 1) @ ''-'' @ nat_str (min (start + length (shown p xs)) n) @
        '' of '' @ nat_str n @ ''):'')"

definition team_row :: "string \<Rightarrow> string \<Rightarrow> nat \<times> team_info \<Rightarrow> string" where
  "team_row mark state = (\<lambda>(i, t). ''  ['' @ mark @ nat_str (i + 1) @ '']  '' @ ci_name t @ ''  '' @ ci_team_id t @
     ''  '' @ take 16 (ci_created_at t) @ ''  '' @ state)"

definition render_section :: "string \<Rightarrow> string \<Rightarrow> string \<Rightarrow> nat \<Rightarrow> team_info list \<Rightarrow> string list" where
  "render_section title mark state p xs =
     (if xs = [] then [title @ '': (none)'']
      else section_header title p xs # map (team_row mark state) (shown p xs))"

definition render_running_section :: "nat \<Rightarrow> team_info list \<Rightarrow> string list" where
  "render_running_section = render_section ''Running teams'' [] ''> running''"

definition render_stopped_section :: "nat \<Rightarrow> team_info list \<Rightarrow> string list" where
  "render_stopped_section = render_section ''Stopped teams'' ''s'' ''|| stopped''"

definition render_catalog_section :: "catalog_team list \<Rightarrow> string list" where
  "render_catalog_section cs =
     (if cs = [] then [''Create new: (none)'']
      else ''Create new:'' # map (\<lambda>c. ''  [c '' @ ct_id c @ '']  '' @ ct_description c) cs)"

definition range_hint :: "string \<Rightarrow> string \<Rightarrow> nat \<Rightarrow> 'a list \<Rightarrow> string list" where
  "range_hint mark verb p xs =
     (let n = length xs; start = p * screen_page_size + 1 in
      if xs = [] then []
      else if n \<le> screen_page_size then [''['' @ mark @ ''1-'' @ mark @ nat_str n @ ''] '' @ verb]
      else [''['' @ mark @ nat_str start @ ''-'' @ mark @ nat_str (min (start + screen_page_size - 1) n) @ ''] '' @ verb])"

definition update_hints :: "select_screen \<Rightarrow> select_screen" where
  "update_hints s = s\<lparr>ss_hints := joined ''  ''
     (range_hint [] ''connect'' (ss_page s) (ss_running s) @ range_hint ''s'' ''restore'' (ss_page s) (ss_stopped s) @
      (if ss_catalog s = [] then [] else [''[c <name>] create'']) @
      (if 1 < max_pages s then [''<-> page''] else []) @ [''Esc back  [q] quit''])\<rparr>"

definition page_lines :: "select_screen \<Rightarrow> string list" where
  "page_lines s = render_running_section (ss_page s) (ss_running s) @ [[]] @
     render_stopped_section (ss_page s) (ss_stopped s) @ [[]] @ render_catalog_section (ss_catalog s)"

definition render_page :: "select_screen \<Rightarrow> select_screen" where
  "render_page s = update_hints (s\<lparr>ss_list := page_lines s, ss_error := None\<rparr>)"

definition show_error :: "string \<Rightarrow> select_screen \<Rightarrow> select_screen" where
  "show_error message s = s\<lparr>ss_error := Some message\<rparr>"

definition dismiss :: "string option \<Rightarrow> select_screen \<Rightarrow> select_screen" where
  "dismiss r s = s\<lparr>ss_dismissed := Some r\<rparr>"

section \<open>Loading\<close>

definition is_api_error :: "exn \<Rightarrow> bool" where
  "is_api_error e = (case e of ApiError _ _ \<Rightarrow> True | _ \<Rightarrow> False)"

definition or_if_api_error :: "'a \<Rightarrow> ('w, 'a) prog \<Rightarrow> ('w, 'a) prog" where
  "or_if_api_error d p = try_except p (\<lambda>e. if is_api_error e then ret d else throw e)"

definition fetch_data ::
    "('w, 'm, 'e) api option \<Rightarrow> ('w, team_info list \<times> team_info list \<times> catalog_team list) prog" where
  "fetch_data client = (case client of
     None \<Rightarrow> ret ([], [], [])
   | Some A \<Rightarrow>
       bnd (or_if_api_error ([], []) (bnd (api_list_teams A) (\<lambda>teams.
         ret (filter (\<lambda>t. ci_status t = ''running'') teams, filter (\<lambda>t. ci_status t = ''stopped'') teams))))
       (\<lambda>(running, stopped). bnd (or_if_api_error [] (list_catalog_teams A)) (\<lambda>catalog.
         ret (running, stopped, catalog))))"

text \<open>\<open>sorted(..., reverse=True)\<close> keeps the order of equal keys.\<close>

definition newest_first :: "team_info list \<Rightarrow> team_info list" where
  "newest_first ts = rev (sort_key ci_created_at (rev ts))"

definition on_data_loaded ::
    "team_info list \<Rightarrow> team_info list \<Rightarrow> catalog_team list \<Rightarrow> select_screen \<Rightarrow> select_screen" where
  "on_data_loaded running stopped catalog s =
     render_page (update_header (running \<noteq> [] \<or> stopped \<noteq> [] \<or> catalog \<noteq> [])
       (s\<lparr>ss_running := newest_first running, ss_stopped := newest_first stopped, ss_catalog := catalog\<rparr>))"

section \<open>Input\<close>

text \<open>What a handler starts in a thread.\<close>

datatype work = Idle | RestoreWork string | CreateWork string

definition next_page :: "select_screen \<Rightarrow> select_screen" where
  "next_page s = (if int (ss_page s) < int (max_pages s) - 1 then render_page (s\<lparr>ss_page := ss_page s + 1\<rparr>) else s)"

definition prev_page :: "select_screen \<Rightarrow> select_screen" where
  "prev_page s = (if 0 < ss_page s then render_page (s\<lparr>ss_page := ss_page s - 1\<rparr>) else s)"

definition select_running :: "int \<Rightarrow> select_screen \<Rightarrow> select_screen" where
  "select_running number s =
     (let idx = number - 1 in
      if 0 \<le> idx \<and> idx < int (length (ss_running s)) then dismiss (Some (ci_team_id (ss_running s ! nat idx))) s
      else show_error (''Invalid selection: '' @ int_str number) s)"

definition select_stopped :: "int \<Rightarrow> select_screen \<Rightarrow> work \<times> select_screen" where
  "select_stopped number s =
     (let idx = number - 1 in
      if 0 \<le> idx \<and> idx < int (length (ss_stopped s)) then (RestoreWork (ci_team_id (ss_stopped s ! nat idx)), s)
      else (Idle, show_error (''Invalid selection: s'' @ int_str number) s))"

definition not_a_number :: "string \<Rightarrow> exn" where
  "not_a_number t = ValueError (''invalid literal for int() with base 10: '' @ repr_str t)"

definition on_input_submitted :: "string \<Rightarrow> (select_screen, work) prog" where
  "on_input_submitted line s =
     (let t = strip line in
      if t = [] then (Inr Idle, s)
      else if t = ''q'' then (Inr Idle, dismiss (Some ''__quit__'') s)
      else if t = ''n'' then (Inr Idle, next_page s)
      else if t = ''p'' then (Inr Idle, prev_page s)
      else if isdigit t then
        (case int_of_text t of None \<Rightarrow> (Inl (not_a_number t), s) | Some n \<Rightarrow> (Inr Idle, select_running n s))
      else if startswith t ''s'' \<and> isdigit (drop 1 t) then
        (case int_of_text (drop 1 t) of
           None \<Rightarrow> (Inl (not_a_number (drop 1 t)), s)
         | Some n \<Rightarrow> (let (k, s') = select_stopped n s in (Inr k, s')))
      else if startswith t ''c '' \<and> strip (drop 2 t) \<noteq> [] then (Inr (CreateWork (strip (drop 2 t))), s)
      else (Inr Idle, show_error (''Unknown command: '' @ t) s))"

definition on_key :: "string \<Rightarrow> select_screen \<Rightarrow> select_screen" where
  "on_key key s =
     (if key = ''escape'' then dismiss None s
      else if key = ''right'' then next_page s
      else if key = ''left'' then prev_page s
      else s)"

section \<open>Workers\<close>

datatype outcome = NoOutcome | Chosen string | Failed string

text \<open>Any other exception ends the worker and, with it, the application.\<close>

definition reporting :: "string \<Rightarrow> ('w, string) prog \<Rightarrow> ('w, outcome) prog" where
  "reporting what p = try_except (bnd p (\<lambda>i. ret (Chosen i))) (\<lambda>e. case e of
     ApiError code detail \<Rightarrow> ret (Failed (what @ api_error_text code detail)) | _ \<Rightarrow> throw e)"

definition run_work :: "('w, 'm, 'e) api option \<Rightarrow> work \<Rightarrow> ('w, outcome) prog" where
  "run_work client k = (case (client, k) of
     (Some A, RestoreWork i) \<Rightarrow> reporting ''Failed to restore team: '' (bnd (api_restore_team A i) (\<lambda>_. ret i))
   | (Some A, CreateWork c) \<Rightarrow> reporting ''Failed to create team: '' (bnd (api_create_team A c) (\<lambda>t. ret (ci_team_id t)))
   | _ \<Rightarrow> ret NoOutcome)"

fun hand_back :: "outcome \<Rightarrow> select_screen \<Rightarrow> select_screen" where
  "hand_back NoOutcome s = s"
| "hand_back (Chosen i) s = dismiss (Some i) s"
| "hand_back (Failed m) s = show_error m s"

text \<open>What happens to the screen besides the loading of its data.\<close>

datatype screen_event = Submitted string | KeyDown string | HandedBack outcome

fun screen_step :: "select_screen \<Rightarrow> screen_event \<Rightarrow> select_screen" where
  "screen_step s (Submitted t) = snd (on_input_submitted t s)"
| "screen_step s (KeyDown k) = on_key k s"
| "screen_step s (HandedBack r) = hand_back r s"

definition menu_session ::
    "team_info list \<Rightarrow> team_info list \<Rightarrow> catalog_team list \<Rightarrow> screen_event list \<Rightarrow> screen_event list \<Rightarrow> select_screen" where
  "menu_session running stopped catalog before after =
     foldl screen_step (on_data_loaded running stopped catalog (foldl screen_step new_screen before)) after"

section \<open>The page shown is always a page\<close>

lemma page_fields [simp]:
  "ss_page (render_page s) = ss_page s" "ss_running (render_page s) = ss_running s"
  "ss_stopped (render_page s) = ss_stopped s" "ss_list (render_page s) = page_lines s"
  "max_pages (render_page s) = max_pages s"
  by (simp_all add: render_page_def update_hints_def max_pages_def)

lemma max_pages_pos [simp]: "0 < max_pages s"
  by (auto simp: max_pages_def Let_def screen_page_size_def div_greater_zero_iff neq_Nil_conv)

lemma render_page_lines [simp]: "page_lines (render_page s) = page_lines s"
  by (simp add: page_lines_def render_page_def update_hints_def)

text \<open>What every event keeps: the page is a page, and the lists shown are those of the page.\<close>

definition in_step :: "select_screen \<Rightarrow> bool" where
  "in_step s \<longleftrightarrow> ss_page s < max_pages s \<and> ss_list s = page_lines s"

definition untouched :: "select_screen \<Rightarrow> select_screen \<Rightarrow> bool" where
  "untouched s t \<longleftrightarrow> ss_running t = ss_running s \<and> ss_stopped t = ss_stopped s \<and> ss_catalog t = ss_catalog s"

definition same_page :: "select_screen \<Rightarrow> select_screen \<Rightarrow> bool" where
  "same_page s t \<longleftrightarrow> untouched s t \<and> ss_page t = ss_page s \<and> ss_list t = ss_list s"

lemma max_pages_cong: "untouched s t \<Longrightarrow> max_pages t = max_pages s"
  by (simp add: untouched_def max_pages_def)

lemma same_page_in_step: "same_page s t \<Longrightarrow> in_step s \<Longrightarrow> in_step t"
  by (auto simp: same_page_def in_step_def page_lines_def untouched_def max_pages_def)

lemma same_page_simps [simp]: "same_page s s" "same_page s (dismiss r s)" "same_page s (show_error m s)"
  by (simp_all add: same_page_def untouched_def dismiss_def show_error_def)

text \<open>An event leaves the page or renders a page of the same teams.\<close>

lemma paging: "t = s \<or> (untouched s t \<and> in_step t)" if "t \<in> {next_page s, prev_page s}" "ss_page s < max_pages s"
proof -
  have "in_step (render_page (s\<lparr>ss_page := p\<rparr>))" "untouched s (render_page (s\<lparr>ss_page := p\<rparr>))"
    if "p < max_pages s" for p
  proof -
    have "max_pages (s\<lparr>ss_page := p\<rparr>) = max_pages s" by (simp add: max_pages_def)
    then show "in_step (render_page (s\<lparr>ss_page := p\<rparr>))" using that by (simp add: in_step_def)
    show "untouched s (render_page (s\<lparr>ss_page := p\<rparr>))" by (simp add: untouched_def render_page_def update_hints_def)
  qed
  then show ?thesis using that by (auto simp: next_page_def prev_page_def)
qed

lemma select_same_page [simp]: "same_page s (select_running n s)" "same_page s (snd (select_stopped n s))"
  by (simp_all add: select_running_def select_stopped_def Let_def)

lemma select_stopped_same_page: "select_stopped n s = (k, s') \<Longrightarrow> same_page s s'"
  by (metis select_same_page(2) snd_conv)

lemma step_page:
  "same_page s (screen_step s e) \<or> screen_step s e \<in> {next_page s, prev_page s}"
proof (cases e)
  case (Submitted t)
  then show ?thesis
    by (auto simp: on_input_submitted_def Let_def split: option.split prod.split dest: select_stopped_same_page)
next
  case (KeyDown k)
  then show ?thesis by (auto simp: on_key_def)
next
  case (HandedBack r)
  then show ?thesis by (cases r) auto
qed

lemma step_in_step: "in_step s \<Longrightarrow> in_step (screen_step s e) \<and> untouched s (screen_step s e)"
  using step_page [of s e] same_page_in_step [of s "screen_step s e"] paging [of "screen_step s e" s]
  by (auto simp: in_step_def same_page_def untouched_def)

lemma steps_in_step: "in_step s \<Longrightarrow> in_step (foldl screen_step s es) \<and> untouched s (foldl screen_step s es)"
proof (induction es arbitrary: s)
  case (Cons e es)
  then show ?case using step_in_step [of s e] Cons.IH [of "screen_step s e"] by (auto simp: untouched_def)
qed (simp add: untouched_def)

text \<open>Before its data is there, the screen has one page.\<close>

lemma before_data: "untouched new_screen t \<Longrightarrow> ss_page t = 0 \<Longrightarrow>
    untouched new_screen (screen_step t e) \<and> ss_page (screen_step t e) = 0"
  using step_page [of t e] paging [of "screen_step t e" t] max_pages_cong [of new_screen t]
  by (auto simp: same_page_def untouched_def in_step_def max_pages_def new_screen_def next_page_def prev_page_def)

lemma before_data_steps: "untouched new_screen t \<Longrightarrow> ss_page t = 0 \<Longrightarrow> ss_page (foldl screen_step t es) = 0"
proof (induction es arbitrary: t)
  case (Cons e es)
  then show ?case using before_data [of t e] by simp
qed simp

lemma loaded_in_step:
  "in_step (on_data_loaded running stopped catalog s)" "ss_page (on_data_loaded running stopped catalog s) = 0"
  "ss_running (on_data_loaded running stopped catalog s) = newest_first running"
  "ss_stopped (on_data_loaded running stopped catalog s) = newest_first stopped"
  if "ss_page s = 0"
  using that by (simp_all add: on_data_loaded_def in_step_def update_header_def)

lemma session_in_step:
  "in_step (menu_session running stopped catalog before after)"
  "ss_running (menu_session running stopped catalog before after) = newest_first running"
  "ss_stopped (menu_session running stopped catalog before after) = newest_first stopped"
proof -
  have z: "ss_page (foldl screen_step new_screen before) = 0"
    by (rule before_data_steps) (simp_all add: untouched_def new_screen_def)
  show "in_step (menu_session running stopped catalog before after)"
    "ss_running (menu_session running stopped catalog before after) = newest_first running"
    "ss_stopped (menu_session running stopped catalog before after) = newest_first stopped"
    using steps_in_step [OF loaded_in_step(1) [OF z], of running stopped catalog after] loaded_in_step(3,4) [OF z]
    by (simp_all add: menu_session_def untouched_def)
qed

section \<open>Labels\<close>

lemma shown_nth: "(i, t) \<in> set (shown p xs) \<Longrightarrow> i < length xs \<and> xs ! i = t"
  by (auto simp: shown_def in_set_enumerate_eq split: if_splits)

lemma text_of_label:
  "strip (int_str (int n)) = int_str (int n)" "strip (CHR ''s'' # int_str (int n)) = CHR ''s'' # int_str (int n)"
  "isdigit t \<Longrightarrow> t \<noteq> ''q'' \<and> t \<noteq> ''n'' \<and> t \<noteq> ''p'' \<and> t \<noteq> []" "\<not> isdigit (CHR ''s'' # t)"
proof -
  have d: "list_all ascii_digit (dec_digits (Suc n) n)" "dec_digits (Suc n) n \<noteq> []"
    using dec_digits_ascii [OF less_power_10, of n] by auto
  have s: "\<not> is_space c" if "ascii_digit c" for c using that by (auto simp: is_space_def ascii_digit_def)
  show "strip (int_str (int n)) = int_str (int n)"
    using d s unfolding int_str_nat by (intro trim_id) (auto simp: trimmed_def list_all_iff)
  show "strip (CHR ''s'' # int_str (int n)) = CHR ''s'' # int_str (int n)"
    using d s unfolding int_str_nat by (intro trim_id) (auto simp: trimmed_def list_all_iff is_space_def)
qed (auto simp: isdigit_def ascii_digit_def)

lemma label_submitted:
  "i < length (ss_running s) \<Longrightarrow> on_input_submitted (nat_str (i + 1)) s = (Inr Idle, dismiss (Some (ci_team_id (ss_running s ! i))) s)"
  "i < length (ss_stopped s) \<Longrightarrow> on_input_submitted (CHR ''s'' # nat_str (i + 1)) s = (Inr (RestoreWork (ci_team_id (ss_stopped s ! i))), s)"
proof -
  let ?t = "int_str (int (i + 1))"
  have t: "isdigit ?t" "int_of_text ?t = Some (int (i + 1))" by (rule isdigit_int_str, rule int_of_text_int_str)
  note n = text_of_label(3) [OF t(1)]
  show "on_input_submitted (nat_str (i + 1)) s = (Inr Idle, dismiss (Some (ci_team_id (ss_running s ! i))) s)"
    if "i < length (ss_running s)"
    using that t n unfolding on_input_submitted_def nat_str_def text_of_label(1) Let_def
    by (simp add: select_running_def Let_def)
  show "on_input_submitted (CHR ''s'' # nat_str (i + 1)) s = (Inr (RestoreWork (ci_team_id (ss_stopped s ! i))), s)"
    if "i < length (ss_stopped s)"
    using that t n unfolding on_input_submitted_def nat_str_def text_of_label(2) Let_def
    by (simp add: select_stopped_def startswith_def text_of_label(4) Let_def)
qed

text \<open>
  C34. The menu means what it shows. After any keys, inputs and worker outcomes the page is one of the pages,
  its lines are those of the current lists, and typing the label of a line chooses the very team of that line:
  a running team closes the menu with its id, a stopped team is restored by its id.
\<close>

theorem labels_choose_what_they_show:
  "let s = menu_session running stopped catalog before after;
       run = shown (ss_page s) (newest_first running); stop = shown (ss_page s) (newest_first stopped)
   in ss_page s < max_pages s
    \<and> ss_list s = (if running = [] then [''Running teams: (none)'']
          else section_header ''Running teams'' (ss_page s) (newest_first running) # map (team_row [] ''> running'') run) @ [[]] @
        (if stopped = [] then [''Stopped teams: (none)'']
          else section_header ''Stopped teams'' (ss_page s) (newest_first stopped) # map (team_row ''s'' ''|| stopped'') stop) @ [[]] @
        render_catalog_section (ss_catalog s)
    \<and> map (\<lambda>(i, _). on_input_submitted (nat_str (i + 1)) s) run = map (\<lambda>(_, t). (Inr Idle, dismiss (Some (ci_team_id t)) s)) run
    \<and> map (\<lambda>(i, _). on_input_submitted (CHR ''s'' # nat_str (i + 1)) s) stop = map (\<lambda>(_, t). (Inr (RestoreWork (ci_team_id t)), s)) stop"
proof -
  let ?s = "menu_session running stopped catalog before after"
  note i = session_in_step [of running stopped catalog before after]
  have e: "newest_first xs = [] \<longleftrightarrow> xs = []" for xs
    unfolding newest_first_def by (metis length_0_conv length_rev length_sort)
  have r: "map (\<lambda>(i, _). on_input_submitted (nat_str (i + 1)) ?s) (shown p (newest_first running)) =
      map (\<lambda>(_, t). (Inr Idle, dismiss (Some (ci_team_id t)) ?s)) (shown p (newest_first running))" for p
    using label_submitted(1) [of _ ?s] i(2) by (auto dest!: shown_nth)
  have t: "map (\<lambda>(i, _). on_input_submitted (CHR ''s'' # nat_str (i + 1)) ?s) (shown p (newest_first stopped)) =
      map (\<lambda>(_, t). (Inr (RestoreWork (ci_team_id t)), ?s)) (shown p (newest_first stopped))" for p
    using label_submitted(2) [of _ ?s] i(3) by (auto dest!: shown_nth)
  show ?thesis
    using i unfolding Let_def r t
    by (simp add: in_step_def page_lines_def e render_running_section_def render_stopped_section_def render_section_def)
qed

section \<open>Pages\<close>

lemma take_enumerate_pages:
  "concat (map (\<lambda>k. enumerate (k * n) (take n (drop (k * n) xs))) [0..<m]) = enumerate 0 (take (m * n) xs)"
proof (induction m)
  case (Suc m)
  have "Suc m * n = m * n + n" by simp
  then have "take (Suc m * n) xs = take (m * n) xs @ take n (drop (m * n) xs)" by (simp only: take_add)
  moreover have "enumerate (length (take (m * n) xs)) (take n (drop (m * n) xs)) = enumerate (m * n) (take n (drop (m * n) xs))"
    by (cases "m * n \<le> length xs") (simp_all add: min_def)
  ultimately show ?case using Suc by (simp add: enumerate_append_eq)
qed simp

lemma shown_on_all_pages:
  "concat (map (\<lambda>k. shown k xs) [0..<m]) =
     (if length xs \<le> screen_page_size then concat (replicate m (enumerate 0 xs)) else enumerate 0 xs)"
  if "length xs \<le> m * screen_page_size"
proof (cases "length xs \<le> screen_page_size")
  case True
  then have "map (\<lambda>k. shown k xs) [0..<m] = replicate m (enumerate 0 xs)"
    by (simp add: shown_def map_replicate_const)
  then show ?thesis using True by simp
next
  case False
  then show ?thesis using take_enumerate_pages [of screen_page_size xs m] that by (simp add: shown_def)
qed

lemma length_within_pages:
  "length (ss_running s) \<le> max_pages s * screen_page_size" "length (ss_stopped s) \<le> max_pages s * screen_page_size"
proof -
  have b: "n \<le> (m + 4) div 5 * 5" if "n \<le> m" for n m :: nat using that by presburger
  show "length (ss_running s) \<le> max_pages s * screen_page_size" "length (ss_stopped s) \<le> max_pages s * screen_page_size"
    by (auto simp: max_pages_def Let_def screen_page_size_def intro!: b)
qed

lemma next_page_forward: "Suc (ss_page t) < max_pages t \<Longrightarrow> ss_page (next_page t) = Suc (ss_page t) \<and> untouched t (next_page t)"
  by (simp add: next_page_def untouched_def render_page_def update_hints_def)

lemma next_page_again:
  "ss_page s = 0 \<Longrightarrow> k < max_pages s \<Longrightarrow> ss_page ((next_page ^^ k) s) = k \<and> untouched s ((next_page ^^ k) s)"
proof (induction k)
  case (Suc k)
  then have t: "ss_page ((next_page ^^ k) s) = k" "untouched s ((next_page ^^ k) s)" by simp_all
  then have "max_pages ((next_page ^^ k) s) = max_pages s" by (simp add: max_pages_cong)
  then show ?case using next_page_forward [of "(next_page ^^ k) s"] t Suc.prems by (simp add: untouched_def)
qed (simp add: untouched_def)

lemma newest_first_facts:
  "mset (newest_first ts) = mset ts" "sorted_wrt (\<lambda>a b. ci_created_at b \<le> ci_created_at a) (newest_first ts)"
  "filter (\<lambda>t. ci_created_at t = c) (newest_first ts) = filter (\<lambda>t. ci_created_at t = c) ts"
proof -
  show "mset (newest_first ts) = mset ts" by (simp add: newest_first_def)
  have "sorted (map ci_created_at (sort_key ci_created_at (rev ts)))" by (rule sorted_sort_key)
  then show "sorted_wrt (\<lambda>a b. ci_created_at b \<le> ci_created_at a) (newest_first ts)"
    unfolding newest_first_def sorted_wrt_rev sorted_map .
  have "filter (\<lambda>t. ci_created_at t = c) (sort_key ci_created_at (rev ts)) = filter (\<lambda>t. ci_created_at t = c) (rev ts)"
    using sort_key_stable [of ci_created_at c "rev ts"] by simp
  then show "filter (\<lambda>t. ci_created_at t = c) (newest_first ts) = filter (\<lambda>t. ci_created_at t = c) ts"
    by (simp add: newest_first_def rev_filter flip: rev_filter)
qed

text \<open>
  Every team has a page. The lists are the loaded ones, newest first, equal times in the server's order;
  going through the pages shows each of a long list's teams exactly once, in order and with its own label, and
  all of a short list on every page.
\<close>

theorem every_team_has_a_page:
  "let s = menu_session running stopped catalog before []; page = (\<lambda>k. (next_page ^^ k) s);
       all_pages = (\<lambda>xs. if length xs \<le> screen_page_size then concat (replicate (max_pages s) (enumerate 0 xs)) else enumerate 0 xs)
   in concat (map (\<lambda>k. shown (ss_page (page k)) (ss_running (page k))) [0..<max_pages s]) = all_pages (newest_first running)
    \<and> concat (map (\<lambda>k. shown (ss_page (page k)) (ss_stopped (page k))) [0..<max_pages s]) = all_pages (newest_first stopped)
    \<and> mset (newest_first running) = mset running
    \<and> sorted_wrt (\<lambda>a b. ci_created_at b \<le> ci_created_at a) (newest_first running)
    \<and> filter (\<lambda>t. ci_created_at t = c) (newest_first running) = filter (\<lambda>t. ci_created_at t = c) running"
proof -
  let ?s = "menu_session running stopped catalog before []"
  have z: "ss_page ?s = 0"
    using before_data_steps [of new_screen before] loaded_in_step(2) [of "foldl screen_step new_screen before"]
    by (simp add: menu_session_def untouched_def new_screen_def)
  have m: "map (\<lambda>k. shown (ss_page ((next_page ^^ k) ?s)) (ss_running ((next_page ^^ k) ?s))) [0..<max_pages ?s] =
      map (\<lambda>k. shown k (newest_first running)) [0..<max_pages ?s]"
    "map (\<lambda>k. shown (ss_page ((next_page ^^ k) ?s)) (ss_stopped ((next_page ^^ k) ?s))) [0..<max_pages ?s] =
      map (\<lambda>k. shown k (newest_first stopped)) [0..<max_pages ?s]"
    using next_page_again [OF z] session_in_step(2,3) [of running stopped catalog before "[]"]
    by (simp_all add: untouched_def)
  show ?thesis
    unfolding Let_def m
    using newest_first_facts(1,2) [of running] newest_first_facts(3) [of c running] length_within_pages [of ?s] session_in_step(2,3) [of running stopped catalog before "[]"]
    by (simp add: shown_on_all_pages)
qed

section \<open>Two oddities\<close>

text \<open>A superscript digit is a digit to \<open>isdigit\<close> and not to \<open>int\<close>: the handler raises.\<close>

lemma superscript_raises: "on_input_submitted [CHR 0xB2] s = (Inl (not_a_number [CHR 0xB2]), s)"
  by (simp add: on_input_submitted_def trim_def is_space_def isdigit_def int_of_text_def ascii_digit_def Let_def)

text \<open>The header of the shorter list, on a page it does not have, counts backwards.\<close>

lemma header_past_the_end: "length xs = 7 \<Longrightarrow> section_header ''Running teams'' 3 xs = ''Running teams (16-7 of 7):''"
proof -
  have "nat_str 16 = ''16''" "nat_str 7 = ''7''" by code_simp+
  then show "length xs = 7 \<Longrightarrow> section_header ''Running teams'' 3 xs = ''Running teams (16-7 of 7):''"
    by (simp add: section_header_def shown_def screen_page_size_def Let_def)
qed

end
