(* ===== verification/CliConnection.thy ===== *)
theory CliConnection
  imports ApiClient
begin

text \<open>
  \<open>cli/ws_client.py\<close> and \<open>cli/connection.py\<close>: the WebSocket of a team's events, and the manager that
  reconnects it and switches teams. Opening, reading, pinging and closing a socket, the clock, the decoder
  and the deserialiser are parameters. A socket is a number; the manager's calls run one after the other.
\<close>

section \<open>The WebSocket client\<close>

fun replace_all :: "string \<Rightarrow> string \<Rightarrow> string \<Rightarrow> string" where
  "replace_all old new [] = []"
| "replace_all old new (c # s) =
     (if old \<noteq> [] \<and> prefix old (c # s) then new @ replace_all old new (drop (length old - 1) s)
      else c # replace_all old new s)"

text \<open>How opening a socket can fail, as the \<open>except\<close> clauses tell it apart.\<close>

datatype open_failure =
    OpenOSError string
  | OpenInvalidStatus nat
  | OpenInvalidHandshake string
  | OpenOther exn

record ('w, 'f, 'm) sockets =
  so_open :: "string \<Rightarrow> (string \<times> string) list \<Rightarrow> 'w \<Rightarrow> (open_failure + nat) \<times> 'w"
  so_recv :: "nat \<Rightarrow> ('w, 'f) prog"
  so_ping :: "nat \<Rightarrow> ('w, unit) prog"
  so_close :: "nat \<Rightarrow> ('w, unit) prog"
  so_sleep :: "nat \<Rightarrow> ('w, unit) prog"
  so_clock :: "'w \<Rightarrow> int"
  so_loads :: "'f \<Rightarrow> exn + json"
  so_deserialize :: "json \<Rightarrow> exn + 'm option"

record ws_client =
  wc_url :: string
  wc_headers :: "(string \<times> string) list"
  wc_ws :: "nat option"
  wc_v1_warned :: bool

definition new_ws_client :: "string \<Rightarrow> string \<Rightarrow> string option \<Rightarrow> ws_client" where
  "new_ws_client base_url tid api_key = \<lparr>
     wc_url = replace_all ''http://'' ''ws://'' (replace_all ''https://'' ''wss://'' base_url) @ ''/ws/'' @ tid,
     wc_headers = auth_headers api_key, wc_ws = None, wc_v1_warned = False\<rparr>"

definition open_error :: "open_failure \<Rightarrow> exn" where
  "open_error f = (case f of
     OpenOSError t \<Rightarrow> WsConnectionError (''Connection error: '' @ t) True
   | OpenInvalidStatus code \<Rightarrow>
       if code = 404 \<or> code = 403 then WsConnectionError ''Team not found'' False
       else WsConnectionError (''WebSocket rejected: HTTP '' @ int_str (int code)) True
   | OpenInvalidHandshake t \<Rightarrow> WsConnectionError (''WebSocket handshake failed: '' @ t) True
   | OpenOther e \<Rightarrow> e)"

definition ws_connect :: "('w, 'f, 'm) sockets \<Rightarrow> ws_client \<Rightarrow> ('w, ws_client) prog" where
  "ws_connect L c = (\<lambda>w. case so_open L (wc_url c) (wc_headers c) w of
     (Inl f, w') \<Rightarrow> (Inl (open_error f), w')
   | (Inr k, w') \<Rightarrow> (Inr (c\<lparr>wc_ws := Some k\<rparr>), w'))"

text \<open>The deprecated envelope: a mapping with \<open>payload\<close> carries the event under \<open>event\<close>, or is the event itself.\<close>

definition unwrap_v1 :: "ws_client \<Rightarrow> json \<Rightarrow> ws_client \<times> json" where
  "unwrap_v1 c parsed = (case parsed of
     JObj d \<Rightarrow>
       if ''payload'' \<in> fst ` set d
       then (c\<lparr>wc_v1_warned := True\<rparr>, case map_of d ''event'' of None \<Rightarrow> parsed | Some ev \<Rightarrow> ev)
       else (c, parsed)
   | _ \<Rightarrow> (c, parsed))"

text \<open>
  The loop skips what does not deserialise to a message. It gives the client back, whose warning is given
  once; \<open>None\<close> when malformed frames never end.
\<close>

definition not_connected :: exn where
  "not_connected = RuntimeError ''Not connected''"

partial_function (option) ws_receive ::
    "('w, 'f, 'm) sockets \<Rightarrow> ws_client \<Rightarrow> 'w \<Rightarrow> ((exn + 'm) \<times> ws_client \<times> 'w) option" where
  "ws_receive L c w =
     (case wc_ws c of
        None \<Rightarrow> Some (Inl not_connected, c, w)
      | Some k \<Rightarrow>
          (case so_recv L k w of
             (Inl e, w') \<Rightarrow> Some (Inl e, c, w')
           | (Inr frame, w') \<Rightarrow>
               (case so_loads L frame of
                  Inl e \<Rightarrow> Some (Inl e, c, w')
                | Inr parsed \<Rightarrow>
                    (case so_deserialize L (snd (unwrap_v1 c parsed)) of
                       Inl e \<Rightarrow>
                         if is_value_error e then ws_receive L (fst (unwrap_v1 c parsed)) w'
                         else Some (Inl e, fst (unwrap_v1 c parsed), w')
                     | Inr None \<Rightarrow> ws_receive L (fst (unwrap_v1 c parsed)) w'
                     | Inr (Some m) \<Rightarrow> Some (Inr m, fst (unwrap_v1 c parsed), w')))))"

definition ws_ping :: "('w, 'f, 'm) sockets \<Rightarrow> ws_client \<Rightarrow> ('w, unit) prog" where
  "ws_ping L c = (case wc_ws c of None \<Rightarrow> throw not_connected | Some k \<Rightarrow> so_ping L k)"

definition ws_close :: "('w, 'f, 'm) sockets \<Rightarrow> ws_client \<Rightarrow> ('w, ws_client) prog" where
  "ws_close L c = (case wc_ws c of None \<Rightarrow> ret c | Some k \<Rightarrow> andthen (so_close L k) (ret (c\<lparr>wc_ws := None\<rparr>)))"

section \<open>The connection manager\<close>

datatype connection_state = CONNECTING | CONNECTED | RECONNECTING | DISCONNECTED

text \<open>\<open>cn_notified\<close> is what the \<open>on_state_change\<close> callback was told.\<close>

record 'w conn =
  cn_server_url :: string
  cn_team_id :: string
  cn_api_key :: "string option"
  cn_max_retries :: nat
  cn_ws_client :: "ws_client option"
  cn_state :: connection_state
  cn_last_event_time :: int
  cn_notified :: "connection_state list"
  cn_net :: 'w

definition new_conn :: "string \<Rightarrow> string \<Rightarrow> string option \<Rightarrow> nat \<Rightarrow> 'w \<Rightarrow> 'w conn" where
  "new_conn server_url tid api_key max_retries w = \<lparr>cn_server_url = server_url, cn_team_id = tid,
     cn_api_key = api_key, cn_max_retries = max_retries, cn_ws_client = None, cn_state = DISCONNECTED,
     cn_last_event_time = 0, cn_notified = [], cn_net = w\<rparr>"

definition on_cn_net :: "('w, 'a) prog \<Rightarrow> ('w conn, 'a) prog" where
  "on_cn_net m = on_part cn_net (\<lambda>w s. s\<lparr>cn_net := w\<rparr>) m"

definition set_state :: "connection_state \<Rightarrow> ('w conn, unit) prog" where
  "set_state st = writing (\<lambda>s. s\<lparr>cn_state := st, cn_notified := cn_notified s @ [st]\<rparr>)"

definition touch :: "('w, 'f, 'm) sockets \<Rightarrow> ('w conn, unit) prog" where
  "touch L = writing (\<lambda>s. s\<lparr>cn_last_event_time := so_clock L (cn_net s)\<rparr>)"

fun is_ws_error :: "exn \<Rightarrow> bool" where
  "is_ws_error (WsConnectionError _ _) = True"
| "is_ws_error _ = False"

definition ws_client_for :: "'w conn \<Rightarrow> string \<Rightarrow> ws_client" where
  "ws_client_for s tid = new_ws_client (cn_server_url s) tid (cn_api_key s)"

definition cn_connect :: "('w, 'f, 'm) sockets \<Rightarrow> ('w conn, unit) prog" where
  "cn_connect L =
     andthen (set_state CONNECTING)
       (\<lambda>s. bnd (try_except (on_cn_net (ws_connect L (ws_client_for s (cn_team_id s))))
              (\<lambda>e. if is_ws_error e then andthen (set_state DISCONNECTED) (throw e) else throw e))
            (\<lambda>ws. andthen (writing (\<lambda>s. s\<lparr>cn_ws_client := Some ws\<rparr>)) (andthen (set_state CONNECTED) (touch L))) s)"

text \<open>The attempts of \<open>_reconnect\<close> from number \<open>k\<close> on, of which \<open>n\<close> are left.\<close>

definition backoff :: "nat \<Rightarrow> nat" where
  "backoff attempt = min (2 ^ attempt) 30"

definition reconnection_failed :: "nat \<Rightarrow> exn" where
  "reconnection_failed max_retries =
     WsConnectionError (''Reconnection failed after '' @ int_str (int max_retries) @ '' attempts'') False"

fun attempts :: "('w, 'f, 'm) sockets \<Rightarrow> nat \<Rightarrow> nat \<Rightarrow> ('w conn, unit) prog" where
  "attempts L k 0 = andthen (set_state DISCONNECTED) (\<lambda>s. throw (reconnection_failed (cn_max_retries s)) s)"
| "attempts L k (Suc n) =
     try_except (cn_connect L)
       (\<lambda>e. if is_ws_error e then andthen (on_cn_net (so_sleep L (backoff k))) (attempts L (Suc k) n) else throw e)"

definition cn_reconnect :: "('w, 'f, 'm) sockets \<Rightarrow> ('w conn, unit) prog" where
  "cn_reconnect L = andthen (set_state RECONNECTING) (\<lambda>s. attempts L 0 (cn_max_retries s) s)"

text \<open>\<open>receive_event\<close>; \<open>None\<close> when it never returns.\<close>

partial_function (option) cn_receive ::
    "('w, 'f, 'm) sockets \<Rightarrow> 'w conn \<Rightarrow> ((exn + 'm) \<times> 'w conn) option" where
  "cn_receive L s =
     (case cn_ws_client s of
        None \<Rightarrow> Some (Inl (WsConnectionError ''Not connected'' False), s)
      | Some c \<Rightarrow>
          (case ws_receive L c (cn_net s) of
             None \<Rightarrow> None
           | Some (r, c', w) \<Rightarrow>
               (let t = s\<lparr>cn_ws_client := Some c', cn_net := w\<rparr> in
                case r of
                  Inr m \<Rightarrow> Some (Inr m, snd (touch L t))
                | Inl e \<Rightarrow>
                    if e = ConnectionClosed
                    then (case cn_reconnect L t of (Inl e', u) \<Rightarrow> Some (Inl e', u) | (Inr _, u) \<Rightarrow> cn_receive L u)
                    else Some (Inl e, t))))"

definition cn_close :: "('w, 'f, 'm) sockets \<Rightarrow> ('w conn, unit) prog" where
  "cn_close L =
     andthen (\<lambda>s. case cn_ws_client s of
         None \<Rightarrow> ret () s
       | Some c \<Rightarrow> andthen (on_cn_net (ws_close L c)) (writing (\<lambda>s. s\<lparr>cn_ws_client := None\<rparr>)) s)
       (set_state DISCONNECTED)"

definition switch_team :: "('w, 'f, 'm) sockets \<Rightarrow> string \<Rightarrow> ('w conn, unit) prog" where
  "switch_team L new_team_id = (\<lambda>s.
     bnd (on_cn_net (ws_connect L (ws_client_for s new_team_id)))
       (\<lambda>new_ws s. let old_ws = cn_ws_client s in
          andthen (writing (\<lambda>s. s\<lparr>cn_ws_client := Some new_ws, cn_team_id := new_team_id\<rparr>))
         (andthen (touch L)
            (case old_ws of None \<Rightarrow> ret () | Some c \<Rightarrow> andthen (on_cn_net (ws_close L c)) (ret ()))) s) s)"

definition check_health :: "('w, 'f, 'm) sockets \<Rightarrow> ('w conn, unit) prog" where
  "check_health L = (\<lambda>s.
     if cn_state s = CONNECTED \<and> 60 < so_clock L (cn_net s) - cn_last_event_time s
     then (case cn_ws_client s of
         None \<Rightarrow> ret () s
       | Some c \<Rightarrow> try_except (on_cn_net (ws_ping L c)) (\<lambda>_. cn_reconnect L) s)
     else ret () s)"

section \<open>Backing off\<close>

text \<open>\<open>naps\<close> lists the sleeps and \<open>dials\<close> counts the sockets asked for; sleeping does not raise.\<close>

definition keeps_time :: "('w, 'f, 'm) sockets \<Rightarrow> ('w \<Rightarrow> nat list) \<Rightarrow> ('w \<Rightarrow> nat) \<Rightarrow> bool" where
  "keeps_time L naps dials \<longleftrightarrow>
     (\<forall>n w. \<exists>w'. so_sleep L n w = (Inr (), w') \<and> naps w' = naps w @ [n] \<and> dials w' = dials w) \<and>
     (\<forall>url hs w. naps (snd (so_open L url hs w)) = naps w \<and> dials (snd (so_open L url hs w)) = Suc (dials w))"

lemma cn_connect_run:
  "cn_connect L s =
     (let s1 = s\<lparr>cn_state := CONNECTING, cn_notified := cn_notified s @ [CONNECTING]\<rparr>; c = ws_client_for s (cn_team_id s) in
      case so_open L (wc_url c) (wc_headers c) (cn_net s) of
        (Inl f, w) \<Rightarrow> (Inl (open_error f),
          if is_ws_error (open_error f)
          then s1\<lparr>cn_net := w, cn_state := DISCONNECTED, cn_notified := cn_notified s @ [CONNECTING, DISCONNECTED]\<rparr>
          else s1\<lparr>cn_net := w\<rparr>)
      | (Inr k, w) \<Rightarrow> (Inr (), s1\<lparr>cn_net := w, cn_ws_client := Some (c\<lparr>wc_ws := Some k\<rparr>), cn_state := CONNECTED,
          cn_notified := cn_notified s @ [CONNECTING, CONNECTED], cn_last_event_time := so_clock L w\<rparr>))"
  by (simp add: cn_connect_def set_state_def touch_def ws_connect_def on_cn_net_def on_part_def bnd_def andthen_def
      try_except_def ws_client_for_def Let_def split: prod.split sum.split)

text \<open>What a connection attempt leaves: the result, and the fields it does not touch.\<close>

lemma cn_connect_outcome:
  assumes "cn_connect L s = (r, t)"
  shows "cn_team_id t = cn_team_id s \<and> cn_max_retries t = cn_max_retries s \<and> cn_server_url t = cn_server_url s \<and> cn_api_key t = cn_api_key s"
    and "r = Inr () \<Longrightarrow> cn_state t = CONNECTED \<and> (\<exists>k. cn_ws_client t = Some ((ws_client_for s (cn_team_id s))\<lparr>wc_ws := Some k\<rparr>) \<and>
           so_open L (wc_url (ws_client_for s (cn_team_id s))) (wc_headers (ws_client_for s (cn_team_id s))) (cn_net s) = (Inr k, cn_net t))"
    and "r = Inl e \<Longrightarrow> cn_ws_client t = cn_ws_client s \<and> (\<exists>f. e = open_error f \<and>
           so_open L (wc_url (ws_client_for s (cn_team_id s))) (wc_headers (ws_client_for s (cn_team_id s))) (cn_net s) = (Inl f, cn_net t))"
    and "r = Inl e \<Longrightarrow> is_ws_error e \<Longrightarrow> cn_state t = DISCONNECTED"
  using assms by (auto simp: cn_connect_run Let_def split: prod.splits sum.splits if_splits)

lemma attempts_back_off:
  assumes "keeps_time L naps dials"
  shows "attempts L k n s = (r, t) \<Longrightarrow> \<exists>m \<le> n. naps (cn_net t) = naps (cn_net s) @ map backoff [k..<k + m]
    \<and> cn_team_id t = cn_team_id s \<and> cn_max_retries t = cn_max_retries s
    \<and> (case r of
         Inr _ \<Rightarrow> m < n \<and> dials (cn_net t) = dials (cn_net s) + m + 1 \<and> cn_state t = CONNECTED \<and>
           (\<exists>c. cn_ws_client t = Some c \<and> wc_ws c \<noteq> None)
       | Inl e \<Rightarrow> cn_ws_client t = cn_ws_client s \<and>
           (is_ws_error e \<and> m = n \<and> dials (cn_net t) = dials (cn_net s) + n \<and> e = reconnection_failed (cn_max_retries s) \<and> cn_state t = DISCONNECTED
          \<or> \<not> is_ws_error e \<and> m < n \<and> dials (cn_net t) = dials (cn_net s) + m + 1))"
proof (induction n arbitrary: k s)
  case 0
  then show ?case by (auto simp: andthen_def bnd_def set_state_def reconnection_failed_def)
next
  case (Suc n)
  obtain cr u where c: "cn_connect L s = (cr, u)" by force
  note out = cn_connect_outcome [OF c]
  have open_law: "naps (snd (so_open L url hs w)) = naps w \<and> dials (snd (so_open L url hs w)) = Suc (dials w)" for url hs w
    using assms unfolding keeps_time_def by blast
  have u: "naps (cn_net u) = naps (cn_net s)" "dials (cn_net u) = Suc (dials (cn_net s))"
    using out(2,3) open_law by (cases cr; metis snd_conv old.unit.exhaust)+
  show ?case
  proof (cases "\<exists>e. cr = Inl e \<and> is_ws_error e")
    case False
    then have "r = cr" "t = u"
      using Suc.prems c by (auto simp: try_except_def split: sum.splits)
    then show ?thesis using False out u by (intro exI [of _ 0]) (auto split: sum.split)
  next
    case True
    then obtain e where e: "cr = Inl e" "is_ws_error e" by blast
    obtain w where w: "so_sleep L (backoff k) (cn_net u) = (Inr (), w)" "naps w = naps (cn_net u) @ [backoff k]" "dials w = dials (cn_net u)"
      using assms unfolding keeps_time_def by blast
    have run: "attempts L (Suc k) n (u\<lparr>cn_net := w\<rparr>) = (r, t)"
      using Suc.prems c e w by (simp add: try_except_def andthen_def bnd_def on_cn_net_def on_part_def)
    have eqs: "cn_net (u\<lparr>cn_net := w\<rparr>) = w" "cn_team_id (u\<lparr>cn_net := w\<rparr>) = cn_team_id u"
      "cn_max_retries (u\<lparr>cn_net := w\<rparr>) = cn_max_retries u" "cn_ws_client (u\<lparr>cn_net := w\<rparr>) = cn_ws_client u" by simp_all
    from Suc.IH [OF run, unfolded eqs] obtain m where m: "m \<le> n" "naps (cn_net t) = naps w @ map backoff [Suc k..<Suc k + m]"
        "cn_team_id t = cn_team_id u" "cn_max_retries t = cn_max_retries u"
        "case r of
           Inr _ \<Rightarrow> m < n \<and> dials (cn_net t) = dials w + m + 1 \<and> cn_state t = CONNECTED \<and>
             (\<exists>c. cn_ws_client t = Some c \<and> wc_ws c \<noteq> None)
         | Inl e \<Rightarrow> cn_ws_client t = cn_ws_client u \<and>
             (is_ws_error e \<and> m = n \<and> dials (cn_net t) = dials w + n \<and> e = reconnection_failed (cn_max_retries u) \<and> cn_state t = DISCONNECTED
            \<or> \<not> is_ws_error e \<and> m < n \<and> dials (cn_net t) = dials w + m + 1)"
      by blast
    have "naps (cn_net t) = naps (cn_net s) @ map backoff [k..<k + Suc m]"
      using m(2) w(2) u(1) by (simp add: upt_conv_Cons [of k "Suc (k + m)"] del: upt_Suc)
    then show ?thesis
      using m out(1,3) e w(3) u(2) by (intro exI [of _ "Suc m"]) (auto split: sum.splits)
  qed
qed

text \<open>
  C36. Reconnecting is bounded: at most \<open>max_retries\<close> sockets are asked for, and after each failure but a last
  success the manager sleeps 1, 2, 4, ... seconds, never more than 30. It ends \<open>CONNECTED\<close> with a socket, or,
  when every attempt failed, \<open>DISCONNECTED\<close> with an error that is not retryable and the old client in place; an
  exception of another kind ends it at once.
\<close>

theorem reconnect_backs_off:
  assumes "keeps_time L naps dials" "cn_reconnect L s = (r, t)"
  shows "\<exists>m \<le> cn_max_retries s. naps (cn_net t) = naps (cn_net s) @ map (\<lambda>i. min (2 ^ i) 30) [0..<m]
    \<and> dials (cn_net t) \<le> dials (cn_net s) + cn_max_retries s
    \<and> cn_team_id t = cn_team_id s
    \<and> (case r of
         Inr _ \<Rightarrow> cn_state t = CONNECTED \<and> (\<exists>c. cn_ws_client t = Some c \<and> wc_ws c \<noteq> None)
       | Inl e \<Rightarrow> cn_ws_client t = cn_ws_client s \<and>
           (is_ws_error e \<longrightarrow> m = cn_max_retries s \<and> cn_state t = DISCONNECTED \<and> (\<exists>text. e = WsConnectionError text False)))"
proof -
  let ?s = "s\<lparr>cn_state := RECONNECTING, cn_notified := cn_notified s @ [RECONNECTING]\<rparr>"
  have run: "attempts L 0 (cn_max_retries s) ?s = (r, t)"
    using assms(2) by (simp add: cn_reconnect_def set_state_def andthen_def bnd_def)
  have eqs: "cn_net ?s = cn_net s" "cn_team_id ?s = cn_team_id s" "cn_max_retries ?s = cn_max_retries s"
    "cn_ws_client ?s = cn_ws_client s" "(0::nat) + m = m" for m by simp_all
  from attempts_back_off [OF assms(1) run, unfolded eqs] obtain m where m: "m \<le> cn_max_retries s"
      "naps (cn_net t) = naps (cn_net s) @ map backoff [0..<m]" "cn_team_id t = cn_team_id s"
      "case r of
         Inr _ \<Rightarrow> m < cn_max_retries s \<and> dials (cn_net t) = dials (cn_net s) + m + 1 \<and> cn_state t = CONNECTED \<and>
           (\<exists>c. cn_ws_client t = Some c \<and> wc_ws c \<noteq> None)
       | Inl e \<Rightarrow> cn_ws_client t = cn_ws_client s \<and>
           (is_ws_error e \<and> m = cn_max_retries s \<and> dials (cn_net t) = dials (cn_net s) + cn_max_retries s \<and>
              e = reconnection_failed (cn_max_retries s) \<and> cn_state t = DISCONNECTED
          \<or> \<not> is_ws_error e \<and> m < cn_max_retries s \<and> dials (cn_net t) = dials (cn_net s) + m + 1)"
    by blast
  have "map backoff [0..<m] = map (\<lambda>i. min (2 ^ i) 30) [0..<m]" by (simp add: backoff_def)
  then show ?thesis using m by (intro exI [of _ m]) (auto simp: reconnection_failed_def split: sum.splits)
qed

section \<open>Switching\<close>

text \<open>The outcome of a switch, by the outcome of opening the new socket.\<close>

lemma switch_team_run:
  "let c = ws_client_for s i in
   case so_open L (wc_url c) (wc_headers c) (cn_net s) of
     (Inl f, w) \<Rightarrow> switch_team L i s = (Inl (open_error f), s\<lparr>cn_net := w\<rparr>)
   | (Inr k, w) \<Rightarrow>
       (let t = s\<lparr>cn_net := w, cn_ws_client := Some (c\<lparr>wc_ws := Some k\<rparr>), cn_team_id := i, cn_last_event_time := so_clock L w\<rparr> in
        case Option.bind (cn_ws_client s) wc_ws of
          None \<Rightarrow> switch_team L i s = (Inr (), t)
        | Some old \<Rightarrow> switch_team L i s = (fst (so_close L old w), t\<lparr>cn_net := snd (so_close L old w)\<rparr>))"
  by (auto simp: switch_team_def ws_connect_def ws_close_def touch_def on_cn_net_def on_part_def bnd_def andthen_def Let_def
      ws_client_for_def ret_def split: prod.split sum.split option.split)

text \<open>
  A switch is all or nothing: when the new socket cannot be opened, the manager keeps its client, its
  team and its state; otherwise the new socket is the current one before the old one is closed, and a
  failing close does not undo the switch. The connection state is not touched either way.
\<close>

theorem switch_is_atomic:
  "let c = ws_client_for s i in
   case so_open L (wc_url c) (wc_headers c) (cn_net s) of
     (Inl f, w) \<Rightarrow> switch_team L i s = (Inl (open_error f), s\<lparr>cn_net := w\<rparr>)
   | (Inr k, w) \<Rightarrow>
       (let t = s\<lparr>cn_net := w, cn_ws_client := Some (c\<lparr>wc_ws := Some k\<rparr>), cn_team_id := i, cn_last_event_time := so_clock L w\<rparr> in
        case Option.bind (cn_ws_client s) wc_ws of
          None \<Rightarrow> switch_team L i s = (Inr (), t)
        | Some old \<Rightarrow> switch_team L i s = (fst (so_close L old w), t\<lparr>cn_net := snd (so_close L old w)\<rparr>))"
  by (rule switch_team_run)

section \<open>Sockets\<close>

text \<open>
  \<open>live\<close> is the set of open sockets: a new one is fresh, a read that raises \<open>ConnectionClosed\<close> and a ping that
  raises have found theirs closed, and only the socket library raises \<open>ConnectionClosed\<close>.
\<close>

definition tracks :: "('w, 'f, 'm) sockets \<Rightarrow> ('w \<Rightarrow> nat set) \<Rightarrow> bool" where
  "tracks L live \<longleftrightarrow>
     (\<forall>url hs w. case so_open L url hs w of
         (Inr k, w') \<Rightarrow> k \<notin> live w \<and> live w' = insert k (live w) | (Inl _, w') \<Rightarrow> live w' = live w) \<and>
     (\<forall>k w. case so_recv L k w of
         (Inl e, w') \<Rightarrow> live w' = (if e = ConnectionClosed then live w - {k} else live w) | (Inr _, w') \<Rightarrow> live w' = live w) \<and>
     (\<forall>k w. case so_ping L k w of (Inl _, w') \<Rightarrow> live w' = live w - {k} | (Inr _, w') \<Rightarrow> live w' = live w) \<and>
     (\<forall>k w. live (snd (so_close L k w)) = live w - {k}) \<and>
     (\<forall>n w. live (snd (so_sleep L n w)) = live w) \<and>
     (\<forall>f. so_loads L f \<noteq> Inl ConnectionClosed) \<and> (\<forall>j. so_deserialize L j \<noteq> Inl ConnectionClosed)"

text \<open>No socket is open but the current one.\<close>

definition current_socket :: "'w conn \<Rightarrow> nat set" where
  "current_socket s = (case Option.bind (cn_ws_client s) wc_ws of None \<Rightarrow> {} | Some k \<Rightarrow> {k})"

definition tight :: "('w \<Rightarrow> nat set) \<Rightarrow> 'w conn \<Rightarrow> bool" where
  "tight live s \<longleftrightarrow> live (cn_net s) \<subseteq> current_socket s"

lemma tracks_laws:
  assumes "tracks L live"
  shows "so_open L url hs w = (Inr k, w') \<Longrightarrow> k \<notin> live w \<and> live w' = insert k (live w)"
    and "so_open L url hs w = (Inl f, w') \<Longrightarrow> live w' = live w"
    and "so_recv L k w = (Inl e, w') \<Longrightarrow> live w' = (if e = ConnectionClosed then live w - {k} else live w)"
    and "so_recv L k w = (Inr x, w') \<Longrightarrow> live w' = live w"
    and "so_ping L k w = (Inl e, w') \<Longrightarrow> live w' = live w - {k}"
    and "so_ping L k w = (Inr u, w') \<Longrightarrow> live w' = live w"
    and "live (snd (so_close L k w)) = live w - {k}"
    and "live (snd (so_sleep L n w)) = live w"
    and "so_loads L frame \<noteq> Inl ConnectionClosed"
    and "so_deserialize L j \<noteq> Inl ConnectionClosed"
  using assms unfolding tracks_def by (metis (mono_tags, lifting) case_prod_conv sum.case)+

lemma connect_tight:
  assumes "tracks L live" "live (cn_net s) = {}" "cn_connect L s = (r, t)"
  shows "tight live t" "\<forall>e. r = Inl e \<longrightarrow> live (cn_net t) = {}"
proof -
  note out = cn_connect_outcome [OF assms(3)]
  show "\<forall>e. r = Inl e \<longrightarrow> live (cn_net t) = {}"
    using out(3) tracks_laws(2) [OF assms(1)] assms(2) by metis
  show "tight live t"
  proof (cases r)
    case (Inl e)
    then show ?thesis using out(3) tracks_laws(2) [OF assms(1)] assms(2) by (auto simp: tight_def)
  next
    case (Inr u)
    then show ?thesis
      using out(2) tracks_laws(1) [OF assms(1)] assms(2) by (fastforce simp: tight_def current_socket_def)
  qed
qed

lemma attempts_tight:
  assumes "tracks L live"
  shows "live (cn_net s) = {} \<Longrightarrow> attempts L k n s = (r, t) \<Longrightarrow> tight live t"
proof (induction n arbitrary: k s)
  case 0
  then show ?case by (auto simp: andthen_def bnd_def set_state_def tight_def)
next
  case (Suc n)
  obtain cr u where c: "cn_connect L s = (cr, u)" by force
  note ct = connect_tight [OF assms Suc.prems(1) c]
  show ?case
  proof (cases "\<exists>e. cr = Inl e \<and> is_ws_error e")
    case False
    then show ?thesis using Suc.prems(2) c ct by (auto simp: try_except_def split: sum.splits)
  next
    case True
    then obtain e where e: "cr = Inl e" "is_ws_error e" by blast
    obtain sr w where w: "so_sleep L (backoff k) (cn_net u) = (sr, w)" by force
    have lw: "live w = {}" using tracks_laws(8) [OF assms, of "backoff k" "cn_net u"] w e(1) ct(2) by simp
    show ?thesis
    proof (cases sr)
      case (Inl x)
      then show ?thesis
        using Suc.prems(2) c e w lw by (auto simp: try_except_def andthen_def bnd_def on_cn_net_def on_part_def tight_def)
    next
      case (Inr x)
      then have "attempts L (Suc k) n (u\<lparr>cn_net := w\<rparr>) = (r, t)"
        using Suc.prems(2) c e w by (simp add: try_except_def andthen_def bnd_def on_cn_net_def on_part_def)
      then show ?thesis using Suc.IH [of "u\<lparr>cn_net := w\<rparr>"] lw by simp
    qed
  qed
qed

lemma reconnect_tight:
  assumes "tracks L live" "live (cn_net s) = {}" "cn_reconnect L s = (r, t)"
  shows "tight live t"
  using assms(3) attempts_tight [OF assms(1), of "s\<lparr>cn_state := RECONNECTING, cn_notified := cn_notified s @ [RECONNECTING]\<rparr>"] assms(2)
  by (auto simp: cn_reconnect_def set_state_def andthen_def bnd_def)

text \<open>Reading keeps the socket of the client; only \<open>ConnectionClosed\<close> closes it.\<close>

lemma unwrap_v1_ws [simp]: "wc_ws (fst (unwrap_v1 c parsed)) = wc_ws c"
  by (simp add: unwrap_v1_def split: json.split)

lemma ws_receive_tracks:
  fixes L :: "('w, 'f, 'm) sockets"
  assumes "ws_receive L c w = Some y"
  shows "tracks L live \<longrightarrow> wc_ws (fst (snd y)) = wc_ws c \<and>
    live (snd (snd y)) = (if fst y = Inl ConnectionClosed then live w - set_option (wc_ws c) else live w)"
proof (rule ws_receive.raw_induct [where P = "\<lambda>L c w y. tracks L live \<longrightarrow> wc_ws (fst (snd y)) = wc_ws c \<and>
      live (snd (snd y)) = (if fst y = Inl ConnectionClosed then live w - set_option (wc_ws c) else live w)",
      OF _ assms], rule impI)
  fix loop :: "('w, 'f, 'm) sockets \<Rightarrow> ws_client \<Rightarrow> 'w \<Rightarrow> ((exn + 'm) \<times> ws_client \<times> 'w) option" and L c w y
  assume IH: "\<And>L c w y. loop L c w = Some y \<Longrightarrow> tracks L live \<longrightarrow> wc_ws (fst (snd y)) = wc_ws c \<and>
      live (snd (snd y)) = (if fst y = Inl ConnectionClosed then live w - set_option (wc_ws c) else live w)"
    and laws: "tracks L live"
    and run: "(case wc_ws c of None \<Rightarrow> Some (Inl not_connected, c, w)
      | Some k \<Rightarrow> (case so_recv L k w of (Inl e, w') \<Rightarrow> Some (Inl e, c, w')
        | (Inr frame, w') \<Rightarrow> (case so_loads L frame of Inl e \<Rightarrow> Some (Inl e, c, w')
          | Inr parsed \<Rightarrow> (case so_deserialize L (snd (unwrap_v1 c parsed)) of
               Inl e \<Rightarrow> if is_value_error e then loop L (fst (unwrap_v1 c parsed)) w'
                 else Some (Inl e, fst (unwrap_v1 c parsed), w')
             | Inr None \<Rightarrow> loop L (fst (unwrap_v1 c parsed)) w'
             | Inr (Some m) \<Rightarrow> Some (Inr m, fst (unwrap_v1 c parsed), w'))))) = Some y"
  note t = tracks_laws [OF laws]
  show "wc_ws (fst (snd y)) = wc_ws c \<and>
      live (snd (snd y)) = (if fst y = Inl ConnectionClosed then live w - set_option (wc_ws c) else live w)"
  proof (cases "wc_ws c")
    case None
    then show ?thesis using run by (auto simp: not_connected_def)
  next
    case (Some k)
    obtain rr w' where rv: "so_recv L k w = (rr, w')" by force
    show ?thesis
    proof (cases rr)
      case (Inl e)
      then show ?thesis using run Some rv t(3) by auto
    next
      case (Inr frame)
      then have lw: "live w' = live w" using rv t(4) by simp
      have again: ?thesis if "loop L (fst (unwrap_v1 c parsed)) w' = Some y" for parsed
        using IH [OF that] laws lw by simp
      show ?thesis
      proof (cases "so_loads L frame")
        case (Inl e)
        then have "y = (Inl e, c, w')" "e \<noteq> ConnectionClosed" using run Some rv Inr t(9) [of frame] by simp_all
        then show ?thesis using lw by simp
      next
        case parsed: (Inr parsed)
        let ?c = "fst (unwrap_v1 c parsed)"
        have step: "(case so_deserialize L (snd (unwrap_v1 c parsed)) of
               Inl e \<Rightarrow> if is_value_error e then loop L ?c w' else Some (Inl e, ?c, w')
             | Inr None \<Rightarrow> loop L ?c w' | Inr (Some m) \<Rightarrow> Some (Inr m, ?c, w')) = Some y"
          using run Some rv Inr parsed by simp
        show ?thesis
        proof (cases "loop L ?c w' = Some y")
          case other: False
          show ?thesis
          proof (cases "so_deserialize L (snd (unwrap_v1 c parsed))")
            case (Inl e)
            then have "e \<noteq> ConnectionClosed" using t(10) [of "snd (unwrap_v1 c parsed)"] by simp
            moreover have "y = (Inl e, ?c, w')" using step Inl other by (simp split: if_splits)
            ultimately show ?thesis using lw by simp
          next
            case (Inr m)
            then obtain x where m: "m = Some x" using step other by (cases m) simp_all
            have "y = (Inr x, ?c, w')" using step Inr m by simp
            then show ?thesis using lw by simp
          qed
        qed (rule again)
      qed
    qed
  qed
qed

lemma tight_touch [simp]: "tight live (snd (touch L s)) = tight live s"
  by (simp add: touch_def tight_def current_socket_def)

lemma receive_tight:
  fixes L :: "('w, 'f, 'm) sockets"
  assumes "cn_receive L s = Some y"
  shows "tracks L live \<and> tight live s \<longrightarrow> tight live (snd y)"
proof (rule cn_receive.raw_induct [where P = "\<lambda>L s y. tracks L live \<and> tight live s \<longrightarrow> tight live (snd y)",
      OF _ assms], rule impI)
  fix loop :: "('w, 'f, 'm) sockets \<Rightarrow> 'w conn \<Rightarrow> ((exn + 'm) \<times> 'w conn) option" and L s y
  assume IH: "\<And>L s y. loop L s = Some y \<Longrightarrow> tracks L live \<and> tight live s \<longrightarrow> tight live (snd y)"
    and pre: "tracks L live \<and> tight live s"
    and run: "(case cn_ws_client s of None \<Rightarrow> Some (Inl (WsConnectionError ''Not connected'' False), s)
      | Some c \<Rightarrow> (case ws_receive L c (cn_net s) of None \<Rightarrow> None
        | Some (r, c', w) \<Rightarrow> (let t = s\<lparr>cn_ws_client := Some c', cn_net := w\<rparr> in
            case r of Inl e \<Rightarrow> if e = ConnectionClosed
                then (case cn_reconnect L t of (Inl e', u) \<Rightarrow> Some (Inl e', u) | (Inr _, u) \<Rightarrow> loop L u)
                else Some (Inl e, t)
            | Inr m \<Rightarrow> Some (Inr m, snd (touch L t))))) = Some y"
  show "tight live (snd y)"
  proof (cases "cn_ws_client s")
    case None
    then show ?thesis using run pre by auto
  next
    case (Some c)
    obtain r c' w where rv: "ws_receive L c (cn_net s) = Some (r, c', w)"
      using run Some by (auto split: option.splits)
    let ?t = "s\<lparr>cn_ws_client := Some c', cn_net := w\<rparr>"
    have tr: "wc_ws c' = wc_ws c" "live w = (if r = Inl ConnectionClosed then live (cn_net s) - set_option (wc_ws c) else live (cn_net s))"
      using ws_receive_tracks [OF rv, of live] pre by auto
    have cur: "live (cn_net s) \<subseteq> set_option (wc_ws c)"
      using pre Some by (auto simp: tight_def current_socket_def split: option.splits)
    then have t: "tight live ?t" using tr by (auto simp: tight_def current_socket_def split: option.splits)
    show ?thesis
    proof (cases "r = Inl ConnectionClosed")
      case False
      then show ?thesis using run Some rv t by (auto simp: Let_def split: sum.splits)
    next
      case True
      then have "live (cn_net ?t) = {}" using tr(2) cur by auto
      then have rt: "tight live u" if "cn_reconnect L ?t = (x, u)" for x u
        using reconnect_tight pre that by blast
      obtain x u where rc: "cn_reconnect L ?t = (x, u)" by force
      show ?thesis
        using run Some rv True rc rt [OF rc] IH [of L u y] pre by (auto simp: Let_def split: sum.splits)
    qed
  qed
qed

text \<open>The calls of a session, in any order; connecting by hand only while there is no client.\<close>

inductive cn_step :: "('w, 'f, 'm) sockets \<Rightarrow> 'w conn \<Rightarrow> 'w conn \<Rightarrow> bool" for L where
  cs_connect: "cn_ws_client s = None \<Longrightarrow> cn_connect L s = (r, t) \<Longrightarrow> cn_step L s t"
| cs_receive: "cn_receive L s = Some (m, t) \<Longrightarrow> cn_step L s t"
| cs_switch: "switch_team L i s = (r, t) \<Longrightarrow> cn_step L s t"
| cs_health: "check_health L s = (r, t) \<Longrightarrow> cn_step L s t"
| cs_close: "cn_close L s = (r, t) \<Longrightarrow> cn_step L s t"

lemma current_socket_cases:
  "current_socket s = (case cn_ws_client s of None \<Rightarrow> {} | Some c \<Rightarrow> set_option (wc_ws c))"
  by (auto simp: current_socket_def split: option.split)

lemma switch_tight:
  assumes "tracks L live" "tight live s" "switch_team L i s = (r, t)"
  shows "tight live t"
proof -
  let ?c = "ws_client_for s i"
  obtain x w where o: "so_open L (wc_url ?c) (wc_headers ?c) (cn_net s) = (x, w)" by force
  show ?thesis
  proof (cases x)
    case (Inl f)
    then have "t = s\<lparr>cn_net := w\<rparr>" using assms(3) switch_team_run [of s i L] o by (simp add: Let_def)
    then show ?thesis using tracks_laws(2) [OF assms(1)] o Inl assms(2) by (auto simp: tight_def current_socket_def)
  next
    case (Inr k)
    then have lw: "live w = insert k (live (cn_net s))" using tracks_laws(1) [OF assms(1)] o by blast
    show ?thesis
    proof (cases "Option.bind (cn_ws_client s) wc_ws")
      case None
      then have "live (cn_net s) = {}" using assms(2) by (simp add: tight_def current_socket_def)
      then show ?thesis
        using assms(3) switch_team_run [of s i L] o Inr None lw by (auto simp: Let_def tight_def current_socket_def)
    next
      case (Some old)
      then have "live (cn_net s) \<subseteq> {old}" using assms(2) by (simp add: tight_def current_socket_def)
      then show ?thesis
        using assms(3) switch_team_run [of s i L] o Inr Some lw tracks_laws(7) [OF assms(1), of old w]
        by (auto simp: Let_def tight_def current_socket_def)
    qed
  qed
qed

lemma close_tight:
  assumes "tracks L live" "tight live s" "cn_close L s = (r, t)"
  shows "tight live t"
proof (cases "cn_ws_client s")
  case None
  then show ?thesis using assms(2,3) by (auto simp: cn_close_def andthen_def bnd_def set_state_def tight_def current_socket_def)
next
  case (Some c)
  show ?thesis
  proof (cases "wc_ws c")
    case None
    then show ?thesis using Some assms(2,3)
      by (auto simp: cn_close_def ws_close_def on_cn_net_def on_part_def andthen_def bnd_def set_state_def tight_def current_socket_def)
  next
    case k: (Some k)
    obtain x w where cl: "so_close L k (cn_net s) = (x, w)" by force
    then have "live w = {}"
      using tracks_laws(7) [OF assms(1), of k "cn_net s"] assms(2) Some k by (auto simp: tight_def current_socket_def)
    then show ?thesis using Some k cl assms(3)
      by (auto simp: cn_close_def ws_close_def on_cn_net_def on_part_def andthen_def bnd_def set_state_def tight_def split: sum.splits)
  qed
qed

lemma health_tight:
  assumes "tracks L live" "tight live s" "check_health L s = (r, t)"
  shows "tight live t"
proof (cases "cn_state s = CONNECTED \<and> 60 < so_clock L (cn_net s) - cn_last_event_time s \<and> cn_ws_client s \<noteq> None")
  case False
  then show ?thesis using assms(2,3) by (auto simp: check_health_def split: option.splits if_splits)
next
  case True
  then obtain c where c: "cn_ws_client s = Some c" by blast
  obtain x w where p: "ws_ping L c (cn_net s) = (x, w)" by force
  have run: "(r, t) = (case x of Inr u \<Rightarrow> (Inr u, s\<lparr>cn_net := w\<rparr>) | Inl e \<Rightarrow> cn_reconnect L (s\<lparr>cn_net := w\<rparr>))"
    using assms(3) True c p by (auto simp: check_health_def try_except_def on_cn_net_def on_part_def split: sum.splits)
  have cur: "live (cn_net s) \<subseteq> set_option (wc_ws c)"
    using assms(2) c by (simp add: tight_def current_socket_cases)
  show ?thesis
  proof (cases x)
    case (Inr u)
    then have "live w = live (cn_net s)"
      using p tracks_laws(6) [OF assms(1)] by (auto simp: ws_ping_def split: option.splits)
    then show ?thesis using run Inr cur c by (auto simp: tight_def current_socket_cases)
  next
    case (Inl e)
    have "live w = {}"
    proof (cases "wc_ws c")
      case None
      then show ?thesis using p cur by (auto simp: ws_ping_def)
    next
      case (Some k)
      then have "live w = live (cn_net s) - {k}" using p Inl tracks_laws(5) [OF assms(1)] by (auto simp: ws_ping_def)
      then show ?thesis using cur Some by auto
    qed
    then show ?thesis using run Inl reconnect_tight [OF assms(1), of "s\<lparr>cn_net := w\<rparr>" r t] by simp
  qed
qed

lemma cn_step_tight:
  assumes "tracks L live" "cn_step L s t" "tight live s"
  shows "tight live t"
  using assms(2,3)
proof cases
  case (cs_connect r)
  then have "live (cn_net s) = {}" using assms(3) by (simp add: tight_def current_socket_def)
  then show ?thesis using connect_tight(1) [OF assms(1)] cs_connect(2) by blast
next
  case (cs_receive m)
  then show ?thesis using receive_tight [OF cs_receive, of live] assms(1,3) by simp
next
  case (cs_switch i r)
  then show ?thesis using switch_tight [OF assms(1,3)] by blast
next
  case (cs_health r)
  then show ?thesis using health_tight [OF assms(1,3)] by blast
next
  case (cs_close r)
  then show ?thesis using close_tight [OF assms(1,3)] by blast
qed


text \<open>Connecting by hand while a socket is open leaves that socket open, and nothing refers to it any more.\<close>

lemma connect_leaks:
  assumes "tracks L live" "cn_ws_client s = Some c" "wc_ws c = Some k" "k \<in> live (cn_net s)" "cn_connect L s = (Inr (), t)"
  shows "k \<in> live (cn_net t) \<and> k \<notin> current_socket t"
proof -
  obtain k' where k': "cn_ws_client t = Some ((ws_client_for s (cn_team_id s))\<lparr>wc_ws := Some k'\<rparr>)"
      "so_open L (wc_url (ws_client_for s (cn_team_id s))) (wc_headers (ws_client_for s (cn_team_id s))) (cn_net s) = (Inr k', cn_net t)"
    using cn_connect_outcome(2) [OF assms(5)] by blast
  then show ?thesis using tracks_laws(1) [OF assms(1) k'(2)] assms(4) by (auto simp: current_socket_def)
qed

text \<open>A switch never changes what the connection is said to be: after a lost connection it stays \<open>DISCONNECTED\<close>.\<close>

lemma switch_keeps_state:
  "switch_team L i s = (r, t) \<Longrightarrow> cn_state t = cn_state s \<and> cn_notified t = cn_notified s"
  using switch_team_run [of s i L] by (auto simp: Let_def split: prod.splits sum.splits option.splits)

text \<open>A network whose sockets open or fail from a script and then always open, and on which nothing ever arrives.\<close>

record phone =
  ph_live :: "nat list"
  ph_naps :: "nat list"
  ph_dials :: nat
  ph_script :: "open_failure list"

definition phone_lib :: "(phone, unit, unit) sockets" where
  "phone_lib = \<lparr>
     so_open = (\<lambda>_ _ w. case ph_script w of
         f # fs \<Rightarrow> (Inl f, w\<lparr>ph_dials := Suc (ph_dials w), ph_script := fs\<rparr>)
       | [] \<Rightarrow> (let k = Suc (sum_list (ph_live w)) in (Inr k, w\<lparr>ph_dials := Suc (ph_dials w), ph_live := k # ph_live w\<rparr>))),
     so_recv = (\<lambda>k w. (Inl ConnectionClosed, w\<lparr>ph_live := filter ((\<noteq>) k) (ph_live w)\<rparr>)),
     so_ping = (\<lambda>k w. (Inr (), w)),
     so_close = (\<lambda>k w. (Inr (), w\<lparr>ph_live := filter ((\<noteq>) k) (ph_live w)\<rparr>)),
     so_sleep = (\<lambda>n w. (Inr (), w\<lparr>ph_naps := ph_naps w @ [n]\<rparr>)),
     so_clock = (\<lambda>w. 0), so_loads = (\<lambda>_. Inr JNull), so_deserialize = (\<lambda>_. Inr None)\<rparr>"

lemma phone_laws: "tracks phone_lib (\<lambda>w. set (ph_live w))" "keeps_time phone_lib ph_naps ph_dials"
proof -
  have fresh: "Suc (sum_list xs) \<notin> set xs" for xs :: "nat list"
    using member_le_sum_list [of "Suc (sum_list xs)" xs] by auto
  show "tracks phone_lib (\<lambda>w. set (ph_live w))"
    by (auto simp: tracks_def phone_lib_def fresh Let_def split: list.split)
  show "keeps_time phone_lib ph_naps ph_dials"
    by (auto simp: keeps_time_def phone_lib_def Let_def split: list.split)
qed

definition idle_phone :: "open_failure list \<Rightarrow> phone" where
  "idle_phone script = \<lparr>ph_live = [], ph_naps = [], ph_dials = 0, ph_script = script\<rparr>"

text \<open>Three refused attempts of three: sleeps of 1, 2 and 4 seconds.\<close>

theorem reconnect_backs_off_witness:
  "\<exists>t text. cn_reconnect phone_lib (new_conn ''http://h'' ''t-1'' None 3 (idle_phone (replicate 3 (OpenOSError ''refused'')))) =
       (Inl (WsConnectionError text False), t)
     \<and> ph_naps (cn_net t) = [1, 2, 4] \<and> ph_dials (cn_net t) \<le> 3 \<and> cn_state t = DISCONNECTED"
proof -
  let ?s = "new_conn ''http://h'' ''t-1'' None 3 (idle_phone (replicate 3 (OpenOSError ''refused'')))"
  obtain r t where run: "cn_reconnect phone_lib ?s = (r, t)" by force
  have "\<exists>e. r = Inl e \<and> is_ws_error e"
    using run by (auto simp: cn_reconnect_def set_state_def andthen_def bnd_def new_conn_def numeral_3_eq_3 try_except_def
        cn_connect_run phone_lib_def idle_phone_def open_error_def on_cn_net_def on_part_def reconnection_failed_def Let_def)
  then obtain e where e: "r = Inl e" "is_ws_error e" by blast
  note claim = reconnect_backs_off [OF phone_laws(2) run]
  have "cn_max_retries ?s = 3" "ph_naps (cn_net ?s) = []" "ph_dials (cn_net ?s) = 0"
    by (simp_all add: new_conn_def idle_phone_def)
  with claim e have "\<exists>text. e = WsConnectionError text False" "cn_state t = DISCONNECTED" "ph_dials (cn_net t) \<le> 3"
      "ph_naps (cn_net t) = map (\<lambda>i. min (2 ^ i) 30) [0..<3]"
    by auto
  then show ?thesis using run e(1) by (auto simp: upt_rec numeral_eq_Suc)
qed


end
