(* ===== verification/CliMain.thy ===== *)
theory CliMain
  imports AutoAuth CliConnection
begin

text \<open>
  \<open>cli/main.py\<close>, \<open>cli/formatters.py\<close>, \<open>cli/commands/catalog.py\<close> and \<open>channel.py\<close>: which client and which
  credential an invocation uses, and the commands over the REST client. JSON and YAML text, the terminal,
  local files and the interactive application are parameters. Signs outside Latin-1 are stood for by
  control characters.
\<close>

section \<open>Formatting\<close>

datatype output_format = TableFormat | JsonFormat | YamlFormat

text \<open>Indented and compact JSON, YAML, and \<open>str\<close> of a value.\<close>

record formatters =
  fm_json :: "json \<Rightarrow> string"
  fm_compact :: "json \<Rightarrow> string"
  fm_yaml :: "json \<Rightarrow> string"
  fm_str :: "json \<Rightarrow> string"

definition cell_str :: "formatters \<Rightarrow> json \<Rightarrow> string" where
  "cell_str F val = (case val of JObj _ \<Rightarrow> fm_compact F val | _ \<Rightarrow> fm_str F val)"

type_synonym row = "(string \<times> json) list"

definition cell :: "formatters \<Rightarrow> row \<Rightarrow> string \<Rightarrow> string" where
  "cell F r col = cell_str F (case map_of r col of None \<Rightarrow> JStr [] | Some v \<Rightarrow> v)"

definition ljust :: "nat \<Rightarrow> string \<Rightarrow> string" where
  "ljust w t = t @ replicate (w - length t) (CHR '' '')"

text \<open>Column names are ASCII.\<close>

definition upper_ascii :: "string \<Rightarrow> string" where
  "upper_ascii t = map (\<lambda>c. let n = of_char c :: nat in if 97 \<le> n \<and> n \<le> 122 then char_of (n - 32) else c) t"

definition column_width :: "formatters \<Rightarrow> row list \<Rightarrow> string \<Rightarrow> nat" where
  "column_width F rows col = foldl (\<lambda>w r. max w (length (cell F r col))) (length col) rows"

definition table_lines :: "formatters \<Rightarrow> row list \<Rightarrow> string list \<Rightarrow> string list" where
  "table_lines F rows columns =
     joined ''  '' (map (\<lambda>col. ljust (column_width F rows col) (upper_ascii col)) columns)
     # joined ''  '' (map (\<lambda>col. replicate (column_width F rows col) (CHR ''-'')) columns)
     # map (\<lambda>r. joined ''  '' (map (\<lambda>col. ljust (column_width F rows col) (cell F r col)) columns)) rows"

definition format_table :: "formatters \<Rightarrow> row list \<Rightarrow> string list \<Rightarrow> string" where
  "format_table F rows columns =
     (if rows = [] then ''(no results)'' else joined [CHR 0x0A] (table_lines F rows columns))"

text \<open>Rows must be mappings: \<open>row.get\<close> is called on each.\<close>

definition row_of :: "json \<Rightarrow> exn + row" where
  "row_of j = (case json_obj j of Some d \<Rightarrow> Inr d | None \<Rightarrow> Inl (no_attribute ''get''))"

definition format_output :: "formatters \<Rightarrow> json \<Rightarrow> output_format \<Rightarrow> string list \<Rightarrow> exn + string" where
  "format_output F data fmt columns =
     (case fmt of
        JsonFormat \<Rightarrow> Inr (fm_json F data)
      | YamlFormat \<Rightarrow> Inr (fm_yaml F data)
      | TableFormat \<Rightarrow>
          (case data of
             JList xs \<Rightarrow> if columns = [] then Inr (fm_json F data)
               else sum_bnd (traverse row_of xs) (\<lambda>rows. Inr (format_table F rows columns))
           | JObj d \<Rightarrow> if columns = [] then Inr (fm_json F data) else Inr (format_table F [d] columns)
           | _ \<Rightarrow> Inr (fm_json F data)))"

section \<open>The global options\<close>

record 'w cli_state =
  gs_client :: "'w client api_client"
  gs_fmt :: output_format
  gs_server :: string
  gs_api_key :: "string option"
  gs_profile_name :: "string option"

definition default_server :: string where
  "default_server = ''http://localhost:8000''"

definition configure_legacy :: "string \<Rightarrow> string option \<Rightarrow> output_format \<Rightarrow> 'w cli_state" where
  "configure_legacy server api_key fmt = \<lparr>gs_client = Owned server (auth_headers api_key), gs_fmt = fmt,
     gs_server = server, gs_api_key = api_key, gs_profile_name = None\<rparr>"

definition configure_profile ::
    "('w, 'b) provider \<Rightarrow> 'w transport \<Rightarrow> 'w terminal \<Rightarrow> profile \<Rightarrow> string \<Rightarrow> string \<Rightarrow> string option \<Rightarrow> output_format \<Rightarrow>
     bool \<Rightarrow> ('w auth_world, 'w cli_state) looping" where
  "configure_profile V T TM p profile_name server api_key fmt server_is_explicit =
     (let effective_server = (if server_is_explicit then server else pr_endpoint p) in
      case api_key of
        Some _ \<Rightarrow> returns (ret \<lparr>gs_client = Owned effective_server (auth_headers api_key), gs_fmt = fmt,
          gs_server = effective_server, gs_api_key = api_key, gs_profile_name = Some profile_name\<rparr>)
      | None \<Rightarrow>
          follow (build_http_client_with_auto_auth V T (emit_user_code TM) p profile_name) (\<lambda>http_client.
            returns (ret \<lparr>gs_client = External (if server_is_explicit then http_client\<lparr>cl_base_url := server\<rparr> else http_client),
              gs_fmt = fmt, gs_server = effective_server, gs_api_key = None, gs_profile_name = Some profile_name\<rparr>)))"

definition echo_err :: "'w terminal \<Rightarrow> string \<Rightarrow> ('w, unit) prog" where
  "echo_err TM t = writing (tm_err TM (t @ [CHR 0x0A]))"

definition echo :: "'w terminal \<Rightarrow> string \<Rightarrow> ('w, unit) prog" where
  "echo TM t = writing (tm_out TM (t @ [CHR 0x0A]))"

definition fail_with :: "'w terminal \<Rightarrow> string \<Rightarrow> ('w, 'a) prog" where
  "fail_with TM t = andthen (echo_err TM t) (throw (TyperExit 1))"

definition profile_needs_config :: string where
  "profile_needs_config = ''No config file at ~/.akgentic/config.yaml '' @ [long_dash] @ '' --profile requires a '' @
     ''config file. Create one with a '' @ quoted ''profiles:'' @ '' block or omit --profile '' @
     ''to use the --server / --api-key flags.''"

definition handle_no_config ::
    "'w terminal \<Rightarrow> string option \<Rightarrow> string \<Rightarrow> string option \<Rightarrow> output_format \<Rightarrow> ('w, 'w cli_state) prog" where
  "handle_no_config TM profile_flag server api_key fmt =
     (if profile_flag \<noteq> None then fail_with TM profile_needs_config else ret (configure_legacy server api_key fmt))"

fun is_config_not_found :: "exn \<Rightarrow> bool" where
  "is_config_not_found (ConfigFileNotFoundError _) = True"
| "is_config_not_found _ = False"

fun is_profile_config_error :: "exn \<Rightarrow> bool" where
  "is_profile_config_error (ConfigFileNotFoundError _) = True"
| "is_profile_config_error (MalformedConfigError _) = True"
| "is_profile_config_error (UnknownProfileError _) = True"
| "is_profile_config_error (AmbiguousProfileError _) = True"
| "is_profile_config_error (UnsupportedAuthTypeError _) = True"
| "is_profile_config_error _ = False"

definition main_callback ::
    "('w, 'b) provider \<Rightarrow> 'w transport \<Rightarrow> 'w terminal \<Rightarrow> config_source \<Rightarrow> (string \<Rightarrow> string option) \<Rightarrow>
     string \<Rightarrow> string option \<Rightarrow> output_format \<Rightarrow> string option \<Rightarrow> ('w auth_world, 'w cli_state) looping" where
  "main_callback V T TM F env server api_key fmt profile_flag =
     (let server_is_explicit = (server \<noteq> default_server) in
      case load_config F of
        Inl e \<Rightarrow>
          if is_config_not_found e then returns (on_net (handle_no_config TM profile_flag server api_key fmt))
          else if is_profile_config_error e then returns (on_net (fail_with TM (''Cannot load profile config: '' @ exn_str e)))
          else returns (throw e)
      | Inr config \<Rightarrow>
          (case resolve_profile config profile_flag env of
             Inl e \<Rightarrow>
               if is_profile_config_error e then returns (on_net (fail_with TM (''Cannot resolve profile: '' @ exn_str e)))
               else returns (throw e)
           | Inr (profile_name, p) \<Rightarrow> configure_profile V T TM p profile_name server api_key fmt server_is_explicit))"

section \<open>Commands about teams and files\<close>

text \<open>
  What a command works with: the REST client, the terminal, the formatters, local files, the decoding of
  bytes as UTF-8, and the dumps of the models that are not text fields only.
\<close>

record ('w, 'm, 'e) shell =
  sh_api :: "('w, 'm, 'e) api"
  sh_terminal :: "'w terminal"
  sh_formatters :: formatters
  sh_fmt :: output_format
  sh_is_file :: "string \<Rightarrow> 'w \<Rightarrow> bool"
  sh_read_bytes :: "string \<Rightarrow> 'w \<Rightarrow> exn + string"
  sh_stdin :: "'w \<Rightarrow> string"
  sh_decode :: "string \<Rightarrow> string option"
  sh_dump_event :: "'m event_info \<Rightarrow> json"
  sh_dump_entry :: "'e \<Rightarrow> json"

definition dump_team :: "team_info \<Rightarrow> json" where
  "dump_team t = JObj [(''team_id'', JStr (ci_team_id t)), (''name'', JStr (ci_name t)), (''status'', JStr (ci_status t)),
     (''user_id'', JStr (ci_user_id t)), (''created_at'', JStr (ci_created_at t)), (''updated_at'', JStr (ci_updated_at t))]"

definition dump_tree :: "tree_info \<Rightarrow> json" where
  "dump_tree t = JObj [(''team_id'', JStr (wt_team_id t)), (''path'', JStr (wt_path t)),
     (''entries'', JList (map (\<lambda>e. JObj [(''name'', JStr (we_name e)), (''is_dir'', JBool (we_is_dir e)),
        (''size'', JInt (we_size e))]) (wt_entries t)))]"

definition cli_print :: "('w, 'm, 'e) shell \<Rightarrow> json \<Rightarrow> string list \<Rightarrow> ('w, unit) prog" where
  "cli_print H data columns =
     bnd (reading (\<lambda>_. format_output (sh_formatters H) data (sh_fmt H) columns)) (echo (sh_terminal H))"

definition team_columns :: "string list" where
  "team_columns = [''team_id'', ''name'', ''status'', ''created_at'']"

definition team_detail_columns :: "string list" where
  "team_detail_columns = [''team_id'', ''name'', ''status'', ''user_id'', ''created_at'', ''updated_at'']"

definition team_list :: "('w, 'm, 'e) shell \<Rightarrow> ('w, unit) prog" where
  "team_list H = bnd (api_list_teams (sh_api H)) (\<lambda>teams. cli_print H (JList (map dump_team teams)) team_columns)"

definition team_get :: "('w, 'm, 'e) shell \<Rightarrow> string \<Rightarrow> ('w, unit) prog" where
  "team_get H i = bnd (api_get_team (sh_api H) i) (\<lambda>t. cli_print H (dump_team t) team_detail_columns)"

definition team_create :: "('w, 'm, 'e) shell \<Rightarrow> string \<Rightarrow> ('w, unit) prog" where
  "team_create H entry = bnd (api_create_team (sh_api H) entry) (\<lambda>t. cli_print H (dump_team t) team_detail_columns)"

text \<open>A confirmation: a line in a table, a mapping otherwise.\<close>

definition confirm :: "('w, 'm, 'e) shell \<Rightarrow> string \<Rightarrow> (string \<times> json) list \<Rightarrow> ('w, unit) prog" where
  "confirm H line d = (if sh_fmt H = TableFormat then echo (sh_terminal H) line else cli_print H (JObj d) [])"

definition team_delete :: "('w, 'm, 'e) shell \<Rightarrow> string \<Rightarrow> ('w, unit) prog" where
  "team_delete H i = andthen (api_delete_team (sh_api H) i)
     (confirm H (''Team '' @ i @ '' deleted.'') [(''team_id'', JStr i), (''status'', JStr ''deleted'')])"

definition team_restore :: "('w, 'm, 'e) shell \<Rightarrow> string \<Rightarrow> ('w, unit) prog" where
  "team_restore H i = bnd (api_restore_team (sh_api H) i) (\<lambda>t. cli_print H (dump_team t) team_detail_columns)"

definition team_events :: "('w, 'm, 'e) shell \<Rightarrow> string \<Rightarrow> ('w, unit) prog" where
  "team_events H i = bnd (api_get_events (sh_api H) i) (\<lambda>evs.
     cli_print H (JList (map (sh_dump_event H) evs)) [''sequence'', ''timestamp'', ''event''])"

definition message_command :: "('w, 'm, 'e) shell \<Rightarrow> string \<Rightarrow> string \<Rightarrow> ('w, unit) prog" where
  "message_command H i content = andthen (api_send_message (sh_api H) i content)
     (confirm H ''Message sent.'' [(''team_id'', JStr i), (''status'', JStr ''sent'')])"

definition reply_command :: "('w, 'm, 'e) shell \<Rightarrow> string \<Rightarrow> string \<Rightarrow> string \<Rightarrow> ('w, unit) prog" where
  "reply_command H i content message_id = andthen (api_human_input (sh_api H) i content message_id)
     (confirm H ''Reply sent.'' [(''team_id'', JStr i), (''message_id'', JStr message_id), (''status'', JStr ''sent'')])"

text \<open>A folder is marked by a sign outside Latin-1, the control character 0x80 here.\<close>

definition tree_line :: "workspace_entry \<Rightarrow> string" where
  "tree_line e = (if we_is_dir e then [CHR 0x80, CHR '' ''] else ''   '') @ we_name e @
     (if we_is_dir e then [] else ''  ('' @ int_str (we_size e) @ '' bytes)'')"

definition workspace_tree_command :: "('w, 'm, 'e) shell \<Rightarrow> string \<Rightarrow> ('w, unit) prog" where
  "workspace_tree_command H i = bnd (api_workspace_tree (sh_api H) i) (\<lambda>tree.
     if sh_fmt H \<noteq> TableFormat then cli_print H (dump_tree tree) []
     else if wt_entries tree = [] then echo (sh_terminal H) ''(empty workspace)''
     else for_each (\<lambda>e. echo (sh_terminal H) (tree_line e)) (wt_entries tree))"

definition binary_file :: "string \<Rightarrow> string" where
  "binary_file data = ''(binary file, '' @ int_str (int (length data)) @ '' bytes)''"

definition workspace_read_command :: "('w, 'm, 'e) shell \<Rightarrow> string \<Rightarrow> string \<Rightarrow> ('w, unit) prog" where
  "workspace_read_command H i path = bnd (api_workspace_read (sh_api H) i path) (\<lambda>data.
     case sh_decode H data of
       Some t \<Rightarrow> writing (tm_out (sh_terminal H) t)
     | None \<Rightarrow> echo (sh_terminal H) (binary_file data))"

text \<open>The last component of a local path, \<open>Path.name\<close>.\<close>

fun path_parts :: "string \<Rightarrow> string list" where
  "path_parts [] = [[]]"
| "path_parts (c # s) =
     (if c = CHR ''/'' then [] # path_parts s
      else (case path_parts s of [] \<Rightarrow> [[c]] | x # xs \<Rightarrow> (c # x) # xs))"

definition file_name :: "string \<Rightarrow> string" where
  "file_name p = (case filter (\<lambda>x. x \<noteq> [] \<and> x \<noteq> ''.'') (path_parts p) of [] \<Rightarrow> [] | xs \<Rightarrow> last xs)"

definition workspace_upload_command :: "('w, 'm, 'e) shell \<Rightarrow> string \<Rightarrow> string \<Rightarrow> ('w, unit) prog" where
  "workspace_upload_command H i local_path = (\<lambda>w.
     if \<not> sh_is_file H local_path w then fail_with (sh_terminal H) (''Error: '' @ local_path @ '' is not a file'') w
     else bnd (reading (sh_read_bytes H local_path)) (\<lambda>file_data.
          bnd (api_workspace_upload (sh_api H) i (file_name local_path) file_data) (\<lambda>result.
          echo (sh_terminal H) (''Uploaded '' @ wu_path result @ '' ('' @ int_str (wu_size result) @ '' bytes)''))) w)"

section \<open>Catalog and channels\<close>

text \<open>\<open>Path.suffix\<close>: from the last dot of the name, unless it starts or ends the name.\<close>

definition path_suffix :: "string \<Rightarrow> string" where
  "path_suffix p =
     (let name = file_name p; ext = takeWhile (\<lambda>c. c \<noteq> CHR ''.'') (rev name); k = length name - length ext - 1
      in if CHR ''.'' \<in> set name \<and> 0 < k \<and> ext \<noteq> [] then CHR ''.'' # rev ext else [])"

definition extension :: "string \<Rightarrow> string" where
  "extension p = dropWhile (\<lambda>c. c = CHR ''.'') (lower (path_suffix p))"

definition content_type_for_extension :: "('w, 'm, 'e) shell \<Rightarrow> string \<Rightarrow> ('w, string) prog" where
  "content_type_for_extension H p =
     (let ext = extension p in
      if ext \<in> {''yaml'', ''yml''} then ret ''application/yaml''
      else if ext = ''json'' then ret ''application/json''
      else fail_with (sh_terminal H) (''Unsupported file extension '' @ repr_str ext @ ''; use .yaml, .yml, or .json.''))"

definition read_body :: "('w, 'm, 'e) shell \<Rightarrow> string option \<Rightarrow> ('w, string \<times> string) prog" where
  "read_body H file_path = (case file_path of
     Some p \<Rightarrow> bnd (reading (sh_read_bytes H p)) (\<lambda>body.
       bnd (content_type_for_extension H p) (\<lambda>ct. ret (body, ct)))
   | None \<Rightarrow> reading (\<lambda>w. Inr (sh_stdin H w, if sh_fmt H = YamlFormat then ''application/yaml'' else ''application/json'')))"

definition entry_columns :: "string list" where
  "entry_columns = [''id'', ''namespace'', ''description'']"

definition call_api :: "('w, 'm, 'e) shell \<Rightarrow> ('w, 'a) prog \<Rightarrow> ('w, 'a) prog" where
  "call_api H thunk = try_except thunk (\<lambda>e. case e of
     ApiError code detail \<Rightarrow> fail_with (sh_terminal H) (''HTTP '' @ int_str (int code) @ '': '' @ detail)
   | _ \<Rightarrow> throw e)"

definition render_entry :: "('w, 'm, 'e) shell \<Rightarrow> json \<Rightarrow> ('w, unit) prog" where
  "render_entry H data = cli_print H data entry_columns"

definition list_cmd :: "('w, 'm, 'e) shell \<Rightarrow> string \<Rightarrow> string option \<Rightarrow> ('w, unit) prog" where
  "list_cmd H kind namespace = bnd (call_api H (catalog_list (sh_api H) kind namespace)) (\<lambda>es.
     render_entry H (JList (map (sh_dump_entry H) es)))"

definition get_cmd :: "('w, 'm, 'e) shell \<Rightarrow> string \<Rightarrow> string \<Rightarrow> string \<Rightarrow> ('w, unit) prog" where
  "get_cmd H kind entry_id namespace = bnd (call_api H (catalog_get (sh_api H) kind entry_id namespace)) (\<lambda>e.
     render_entry H (sh_dump_entry H e))"

definition create_cmd :: "('w, 'm, 'e) shell \<Rightarrow> string \<Rightarrow> string option \<Rightarrow> ('w, unit) prog" where
  "create_cmd H kind file_path = bnd (read_body H file_path) (\<lambda>(body, content_type).
     bnd (call_api H (catalog_create (sh_api H) kind body content_type)) (\<lambda>e. render_entry H (sh_dump_entry H e)))"

definition update_cmd :: "('w, 'm, 'e) shell \<Rightarrow> string \<Rightarrow> string \<Rightarrow> string \<Rightarrow> string option \<Rightarrow> ('w, unit) prog" where
  "update_cmd H kind entry_id namespace file_path = bnd (read_body H file_path) (\<lambda>(body, content_type).
     bnd (call_api H (catalog_update (sh_api H) kind entry_id body content_type namespace)) (\<lambda>e.
       render_entry H (sh_dump_entry H e)))"

definition render_delete :: "('w, 'm, 'e) shell \<Rightarrow> string \<Rightarrow> string \<Rightarrow> ('w, unit) prog" where
  "render_delete H kind entry_id = confirm H (''Deleted '' @ kind @ '' '' @ quoted entry_id @ ''.'')
     [(''kind'', JStr kind), (''id'', JStr entry_id), (''status'', JStr ''deleted'')]"

definition delete_cmd :: "('w, 'm, 'e) shell \<Rightarrow> string \<Rightarrow> string \<Rightarrow> string \<Rightarrow> ('w, unit) prog" where
  "delete_cmd H kind entry_id namespace =
     andthen (call_api H (catalog_delete (sh_api H) kind entry_id namespace)) (render_delete H kind entry_id)"

definition import_cmd :: "('w, 'm, 'e) shell \<Rightarrow> string option \<Rightarrow> ('w, unit) prog" where
  "import_cmd H file_path =
     (let bad = (case file_path of None \<Rightarrow> False | Some p \<Rightarrow> lower (path_suffix p) \<notin> {''.yaml'', ''.yml''}) in
      if bad then fail_with (sh_terminal H) (''Unsupported file extension '' @
          repr_str (dropWhile (\<lambda>c. c = CHR ''.'') (path_suffix (the file_path))) @ ''; namespace import requires .yaml or .yml.'')
      else bnd (case file_path of Some p \<Rightarrow> reading (sh_read_bytes H p) | None \<Rightarrow> reading (\<lambda>w. Inr (sh_stdin H w))) (\<lambda>body.
           bnd (call_api H (catalog_import_namespace (sh_api H) body)) (\<lambda>es.
           cli_print H (JList (map (sh_dump_entry H) es)) entry_columns)))"

definition community_message :: string where
  "community_message = ''`ak channel reload` requires an enterprise deployment; '' @
     ''the current profile points at a community server.''"

definition format_reload_summary :: "(string \<times> json) list \<Rightarrow> string" where
  "format_reload_summary body = (case json_get body ''channels'' of
     JList xs \<Rightarrow>
       (let names = concat (map (\<lambda>x. case x of JStr n \<Rightarrow> [n] | _ \<Rightarrow> []) xs) in
        if xs = [] \<or> length names \<noteq> length xs then ''Reloaded channels.''
        else ''Reloaded '' @ int_str (int (length xs)) @ '' channel(s): '' @ joined '', '' names)
   | _ \<Rightarrow> ''Reloaded channels.'')"

definition reload_cmd :: "('w, 'm, 'e) shell \<Rightarrow> ('w, unit) prog" where
  "reload_cmd H = bnd (try_except (reload_channels (sh_api H)) (\<lambda>e. case e of
       ApiError code detail \<Rightarrow> fail_with (sh_terminal H)
         (if code = 404 then community_message else ''HTTP '' @ int_str (int code) @ '': '' @ detail)
     | _ \<Rightarrow> throw e))
     (\<lambda>body. echo (sh_terminal H) (format_reload_summary body))"

section \<open>Chat\<close>

text \<open>
  The connection of the chat, from the global options; the application itself and the renderer of errors
  are parameters. \<open>close\<close> closes the HTTP client if it is the REST client's own.
\<close>

definition chat_connection :: "'w cli_state \<Rightarrow> string \<Rightarrow> 'n \<Rightarrow> 'n conn" where
  "chat_connection g i w = new_conn (gs_server g) i (gs_api_key g) 10 w"

record chat_target =
  tg_team_name :: string
  tg_team_id :: string
  tg_status :: string

definition chat_command ::
    "('w, 'm, 'e) shell \<Rightarrow> (string \<Rightarrow> 'w \<Rightarrow> 'w) \<Rightarrow> (chat_target \<Rightarrow> ('w, unit) prog) \<Rightarrow> ('w, unit) prog \<Rightarrow>
     string option \<Rightarrow> string option \<Rightarrow> ('w, unit) prog" where
  "chat_command H render_error run close team create =
     bnd (case create of None \<Rightarrow> ret team | Some c \<Rightarrow> bnd (api_create_team (sh_api H) c) (\<lambda>t. ret (Some (ci_team_id t))))
       (\<lambda>team. try_finally
          (try_except
             (case team of
                Some i \<Rightarrow> bnd (api_get_team (sh_api H) i) (\<lambda>t.
                  run \<lparr>tg_team_name = ci_name t, tg_team_id = i, tg_status = ci_status t\<rparr>)
              | None \<Rightarrow> run \<lparr>tg_team_name = ''(no team)'', tg_team_id = [], tg_status = ''running''\<rparr>)
             (\<lambda>e. andthen (writing (render_error (case e of
                  ApiError code detail \<Rightarrow> ''Server error: '' @ api_error_text code detail
                | _ \<Rightarrow> ''Unexpected error: '' @ exn_str e))) (throw (TyperExit 1))))
          close)"

section \<open>Tables are aligned\<close>

lemma column_width_bounds:
  "length col \<le> column_width F rows col" "r \<in> set rows \<Longrightarrow> length (cell F r col) \<le> column_width F rows col"
proof -
  have f: "w \<le> foldl (\<lambda>w r. max w (length (cell F r col))) w rs"
    "r \<in> set rs \<Longrightarrow> length (cell F r col) \<le> foldl (\<lambda>w r. max w (length (cell F r col))) w rs" for w rs r
  proof (induction rs arbitrary: w)
    case (Cons x rs)
    { case 1 show ?case using Cons.IH(1) [of "max w (length (cell F x col))"] by simp }
    { case 2 then show ?case using Cons.IH [of "max w (length (cell F x col))"] by auto }
  qed simp_all
  show "length col \<le> column_width F rows col" unfolding column_width_def by (rule f(1))
  show "r \<in> set rows \<Longrightarrow> length (cell F r col) \<le> column_width F rows col" unfolding column_width_def by (rule f(2))
qed

lemma length_joined_cong: "map length xs = map length ys \<Longrightarrow> length (joined sep xs) = length (joined sep ys)"
proof (induction sep xs arbitrary: ys rule: joined.induct)
  case (3 sep x y xs)
  then obtain x' y' ys' where "ys = x' # y' # ys'" by (auto simp: map_eq_Cons_conv)
  then show ?case using 3 by auto
qed auto

text \<open>Every line of a table is as long as its rule.\<close>

lemma table_is_aligned:
  "line \<in> set (table_lines F rows columns) \<Longrightarrow>
     length line = length (joined ''  '' (map (\<lambda>col. replicate (column_width F rows col) (CHR ''-'')) columns))"
proof -
  assume line: "line \<in> set (table_lines F rows columns)"
  have l: "length (ljust w t) = w" if "length t \<le> w" for w t using that by (simp add: ljust_def)
  have h: "length (upper_ascii col) \<le> column_width F rows col" for col
    using column_width_bounds(1) by (simp add: upper_ascii_def)
  show ?thesis
    using line by (auto simp: table_lines_def l h column_width_bounds(2) intro!: length_joined_cong)
qed

section \<open>Which credential an invocation uses\<close>

lemma build_leaves_base_url:
  "build_http_client_with_auto_auth V T hook p name s = Some (Inr C, t) \<Longrightarrow> cl_base_url C = pr_endpoint p"
  by (cases "pr_auth p") (auto simp: build_without_auth build_with_auth Let_def follow_Some_iff)

text \<open>The header of a chat's WebSocket, and what the configuration of a profile leaves.\<close>

lemma chat_headers: "wc_headers (ws_client_for (chat_connection g i w) i) = auth_headers (gs_api_key g)"
  by (simp add: ws_client_for_def new_ws_client_def chat_connection_def new_conn_def)

lemma configured_profile:
  "case configure_profile V T TM p name server api_key fmt (server \<noteq> default_server) s of
     Some (Inr g, t) \<Rightarrow>
       (case gs_client g of
          Owned url headers \<Rightarrow> t = s \<and> url = gs_server g \<and> headers = auth_headers api_key \<and> gs_api_key g = api_key
        | External C \<Rightarrow> api_key = None \<and> gs_api_key g = None \<and> cl_base_url C = gs_server g \<and> gs_profile_name g = Some name \<and>
            gs_server g = (if server = default_server then pr_endpoint p else server) \<and>
            (\<exists>C'. build_http_client_with_auto_auth V T (emit_user_code TM) p name s = Some (Inr C', t) \<and>
               C = C'\<lparr>cl_base_url := gs_server g\<rparr>))
   | _ \<Rightarrow> True"
proof (cases api_key)
  case (Some k)
  then show ?thesis by (simp add: configure_profile_def Let_def)
next
  case None
  show ?thesis
  proof (cases "build_http_client_with_auto_auth V T (emit_user_code TM) p name s")
    case b: (Some rt)
    obtain r t where rt: "rt = (r, t)" by force
    show ?thesis
    proof (cases r)
      case (Inr C)
      then have u: "cl_base_url C = pr_endpoint p" using build_leaves_base_url b rt by blast
      then have "C\<lparr>cl_base_url := pr_endpoint p\<rparr> = C" by simp
      then show ?thesis
        using None b rt Inr u by (auto simp: configure_profile_def follow_def Let_def)
    qed (simp add: configure_profile_def None b rt follow_def Let_def)
  qed (simp add: configure_profile_def None follow_def Let_def)
qed


end
