(* ===== verification/CliEvents.thy ===== *)
theory CliEvents
  imports CliMain
begin

text \<open>
  \<open>cli/event_router.py\<close>, \<open>cli/tui/colors.py\<close> and the drawing methods of \<open>cli/renderers.py\<close>: what a terminal
  session and the full-screen application show of an event. The event classes of the core packages are
  disjoint; an attribute is a JSON value or missing. A console prints markup and may raise.
\<close>

section \<open>Colors of agents\<close>

definition palette :: "string list" where
  "palette = [''cyan'', ''green'', ''magenta'', ''yellow'', ''blue'', ''red'']"

record color_registry =
  cr_map :: "(string \<times> string) list"
  cr_idx :: nat

definition new_colors :: color_registry where
  "new_colors = \<lparr>cr_map = [], cr_idx = 0\<rparr>"

definition color_get :: "string \<Rightarrow> color_registry \<Rightarrow> string \<times> color_registry" where
  "color_get agent c = (case map_of (cr_map c) agent of
     Some col \<Rightarrow> (col, c)
   | None \<Rightarrow> (let col = palette ! (cr_idx c mod length palette) in
       (col, \<lparr>cr_map = AList.update agent col (cr_map c), cr_idx = cr_idx c + 1\<rparr>)))"

definition color_reset :: "color_registry \<Rightarrow> color_registry" where
  "color_reset c = \<lparr>cr_map = [], cr_idx = 0\<rparr>"

section \<open>Events\<close>

text \<open>A tool call with its arguments and result, a tool's return, or any other object with some of the attributes
  \<open>prompt\<close>, \<open>content\<close> and \<open>id\<close>.\<close>

datatype nested_event =
    ToolCallEvent string json "json option"
  | ToolReturnEvent
  | RequestEvent "json option" "json option" "json option"

text \<open>
  What the client reads of an event: of a sent message the names of sender and recipient, the content of the inner
  message and the clock times of both; of an \<open>EventMessage\<close> its id, its sender and what it carries.
\<close>

datatype chat_event =
    SentEvent "string option" "string option" "json option" "string option" "string option"
  | ErrorEvent string
  | WarningEvent string
  | CarrierEvent string "string option" nested_event
  | StartEvent string string
  | ReceivedEvent string "string option"
  | ProcessedEvent string
  | OtherEvent

definition value_str :: "formatters \<Rightarrow> json \<Rightarrow> string" where
  "value_str F j = (case j of JStr t \<Rightarrow> t | _ \<Rightarrow> fm_str F j)"

definition value_text :: "formatters \<Rightarrow> json \<Rightarrow> string" where
  "value_text F j = (case j of JObj _ \<Rightarrow> fm_json F j | JList _ \<Rightarrow> fm_json F j | _ \<Rightarrow> value_str F j)"

definition output_text :: "formatters \<Rightarrow> json option \<Rightarrow> string option" where
  "output_text F r = (case r of None \<Rightarrow> None | Some JNull \<Rightarrow> None | Some j \<Rightarrow> Some (value_text F j))"

text \<open>\<open>getattr(x, a, None) or getattr(x, b, d)\<close>.\<close>

definition prompt_text :: "formatters \<Rightarrow> json option \<Rightarrow> json option \<Rightarrow> string" where
  "prompt_text F prompt content =
     (case prompt of
        Some p \<Rightarrow> if json_true p then value_str F p
                  else (case content of None \<Rightarrow> ''Input requested'' | Some c \<Rightarrow> value_str F c)
      | None \<Rightarrow> (case content of None \<Rightarrow> ''Input requested'' | Some c \<Rightarrow> value_str F c))"

definition attr_content :: "json option \<Rightarrow> json" where
  "attr_content c = (case c of None \<Rightarrow> JStr [] | Some j \<Rightarrow> j)"

definition named_or :: "string \<Rightarrow> string option \<Rightarrow> string" where
  "named_or d n = (case n of None \<Rightarrow> d | Some x \<Rightarrow> x)"

section \<open>The renderer\<close>

text \<open>What is handed to \<open>console.print\<close> and \<open>console.rule\<close>.\<close>

datatype printed = Markup string | MarkdownText string | ToolPanel string string "string option" | InputPanel string |
  Rule string | Blank

text \<open>The renderer's own state beside the console.\<close>

record 'w painter =
  pt_colors :: color_registry
  pt_net :: 'w

definition print_on :: "(printed \<Rightarrow> ('w, unit) prog) \<Rightarrow> printed \<Rightarrow> ('w painter, unit) prog" where
  "print_on P x = on_part pt_net (\<lambda>w s. s\<lparr>pt_net := w\<rparr>) (P x)"

definition render_agent_message :: "(printed \<Rightarrow> ('w, unit) prog) \<Rightarrow> string \<Rightarrow> string \<Rightarrow> ('w painter, unit) prog" where
  "render_agent_message P sender content = (\<lambda>s.
     let (color, cs) = color_get sender (pt_colors s); escaped = replace_all ''['' [CHR 0x5C, CHR ''[''] sender in
     andthen (print_on P (Markup (''[bold '' @ color @ '']'' @ [CHR 0x5C] @ ''['' @ escaped @ ''][/bold '' @ color @ '']'')))
       (print_on P (MarkdownText content)) (s\<lparr>pt_colors := cs\<rparr>))"

definition render_error :: "(printed \<Rightarrow> ('w, unit) prog) \<Rightarrow> string \<Rightarrow> ('w painter, unit) prog" where
  "render_error P content = print_on P (Markup (''[bold red]'' @ [CHR 0x5C] @ ''[error][/bold red] '' @ content))"

definition render_warning :: "(printed \<Rightarrow> ('w, unit) prog) \<Rightarrow> string \<Rightarrow> ('w painter, unit) prog" where
  "render_warning P content = print_on P (Markup (''[bold yellow]'' @ [CHR 0x5C] @ ''[warning][/bold yellow] '' @ content))"

definition render_system_message :: "(printed \<Rightarrow> ('w, unit) prog) \<Rightarrow> string \<Rightarrow> ('w painter, unit) prog" where
  "render_system_message P t = print_on P (Markup (''[dim]'' @ t @ ''[/dim]''))"

definition render_connection_status :: "(printed \<Rightarrow> ('w, unit) prog) \<Rightarrow> string \<Rightarrow> ('w painter, unit) prog" where
  "render_connection_status P st =
     (let (color, label) =
        (if st = ''connected'' then (''green'', ''Connected'')
         else if st = ''reconnecting'' then (''yellow'', ''Reconnecting...'')
         else if st = ''disconnected'' then (''red'', ''Disconnected'')
         else (''dim'', st))
      in print_on P (Markup (''['' @ color @ '']'' @ label @ ''[/'' @ color @ '']'')))"

text \<open>The operations the router and the session use.\<close>

record 's renderer =
  rn_agent :: "string \<Rightarrow> string \<Rightarrow> ('s, unit) prog"
  rn_error :: "string \<Rightarrow> ('s, unit) prog"
  rn_warning :: "string \<Rightarrow> ('s, unit) prog"
  rn_tool_call :: "string \<Rightarrow> string \<Rightarrow> string option \<Rightarrow> ('s, unit) prog"
  rn_human_input :: "string \<Rightarrow> ('s, unit) prog"
  rn_system :: "string \<Rightarrow> ('s, unit) prog"
  rn_connection :: "string \<Rightarrow> ('s, unit) prog"
  rn_border :: "('s, unit) prog"

definition rich_renderer :: "(printed \<Rightarrow> ('w, unit) prog) \<Rightarrow> 'w painter renderer" where
  "rich_renderer P = \<lparr>rn_agent = render_agent_message P, rn_error = render_error P, rn_warning = render_warning P,
     rn_tool_call = (\<lambda>n i r. print_on P (ToolPanel n i r)), rn_human_input = (\<lambda>t. print_on P (InputPanel t)),
     rn_system = render_system_message P, rn_connection = render_connection_status P,
     rn_border = print_on P (Rule ''bright_black'')\<rparr>"

section \<open>Routing to a renderer\<close>

text \<open>The callback for a request of input, if the router has one.\<close>

type_synonym 's on_human_input = "(string \<Rightarrow> string \<Rightarrow> ('s, unit) prog) option"

definition handle_sent_message :: "formatters \<Rightarrow> 's renderer \<Rightarrow> string option \<Rightarrow> json option \<Rightarrow> ('s, bool) prog" where
  "handle_sent_message F R sender content =
     (let c = attr_content content in
      if json_true c then andthen (rn_agent R (named_or ''agent'' sender) (value_str F c)) (ret True) else ret False)"

definition inner_human_input_id :: "formatters \<Rightarrow> string \<Rightarrow> json option \<Rightarrow> string" where
  "inner_human_input_id F own nested_id = (case nested_id of
     None \<Rightarrow> own | Some JNull \<Rightarrow> own | Some j \<Rightarrow> value_str F j)"

definition notify_human_input ::
    "formatters \<Rightarrow> 's on_human_input \<Rightarrow> string \<Rightarrow> string option \<Rightarrow> json option \<Rightarrow> ('s, unit) prog" where
  "notify_human_input F cb own sender nested_id =
     (let raw_id = inner_human_input_id F own nested_id in
      case cb of None \<Rightarrow> ret () | Some call \<Rightarrow> if raw_id = [] then ret () else call raw_id (named_or ''Agent'' sender))"

definition handle_event_message ::
    "formatters \<Rightarrow> 's renderer \<Rightarrow> 's on_human_input \<Rightarrow> string \<Rightarrow> string option \<Rightarrow> nested_event \<Rightarrow> ('s, bool) prog" where
  "handle_event_message F R cb own sender nested = (case nested of
     ToolCallEvent name args result \<Rightarrow>
       andthen (rn_tool_call R name (value_text F args) (output_text F result)) (ret True)
   | ToolReturnEvent \<Rightarrow> ret False
   | RequestEvent prompt content nested_id \<Rightarrow>
       if prompt \<noteq> None \<or> content \<noteq> None
       then andthen (rn_human_input R (prompt_text F prompt content))
              (andthen (notify_human_input F cb own sender nested_id) (ret True))
       else ret False)"

definition route_event :: "formatters \<Rightarrow> 's renderer \<Rightarrow> 's on_human_input \<Rightarrow> chat_event \<Rightarrow> ('s, bool) prog" where
  "route_event F R cb e = try_except
     (case e of
        SentEvent sender _ content _ _ \<Rightarrow> handle_sent_message F R sender content
      | ErrorEvent t \<Rightarrow> andthen (rn_error R t) (ret True)
      | WarningEvent t \<Rightarrow> andthen (rn_warning R t) (ret True)
      | CarrierEvent own sender nested \<Rightarrow> handle_event_message F R cb own sender nested
      | _ \<Rightarrow> ret False)
     (\<lambda>_. ret False)"

section \<open>Translation to widgets\<close>

datatype widget =
    ErrorWidget string
  | WarningWidget string
  | AgentMessage string string string "string option" "string option"
  | ToolCallWidget string string "string option" "string option"
  | HumanInputPrompt string
  | SystemMessage string
  | ThinkingIndicator "string list"
  | WelcomeText

text \<open>What the translation keeps: the colors given, and the color of the last agent message.\<close>

type_synonym colors = "color_registry \<times> string option"

definition sent_to_widget ::
    "formatters \<Rightarrow> string option \<Rightarrow> string option \<Rightarrow> json option \<Rightarrow> string option \<Rightarrow> string option \<Rightarrow> colors \<Rightarrow>
     widget option \<times> colors" where
  "sent_to_widget F sender recipient content inner_time own_time cs =
     (let c = attr_content content; name = named_or ''agent'' sender in
      if \<not> json_true c then (None, cs)
      else (let (color, reg) = color_get name (fst cs) in
        (Some (AgentMessage name (value_str F c) color (case inner_time of None \<Rightarrow> own_time | Some t \<Rightarrow> Some t) recipient),
         (reg, Some color))))"

definition event_to_widget :: "formatters \<Rightarrow> nested_event \<Rightarrow> colors \<Rightarrow> widget option" where
  "event_to_widget F nested cs = (case nested of
     ToolCallEvent name args result \<Rightarrow> Some (ToolCallWidget name (value_text F args) (output_text F result) (snd cs))
   | ToolReturnEvent \<Rightarrow> None
   | RequestEvent prompt content _ \<Rightarrow>
       if prompt \<noteq> None \<or> content \<noteq> None then Some (HumanInputPrompt (prompt_text F prompt content)) else None)"

definition to_widget :: "formatters \<Rightarrow> chat_event \<Rightarrow> colors \<Rightarrow> widget option \<times> colors" where
  "to_widget F e cs = (case e of
     ErrorEvent t \<Rightarrow> (Some (ErrorWidget t), cs)
   | WarningEvent t \<Rightarrow> (Some (WarningWidget t), cs)
   | SentEvent sender recipient content inner_time own_time \<Rightarrow>
       sent_to_widget F sender recipient content inner_time own_time cs
   | CarrierEvent _ _ nested \<Rightarrow> (event_to_widget F nested cs, cs)
   | _ \<Rightarrow> (None, cs))"

section \<open>The two views agree\<close>

definition paint :: "'s renderer \<Rightarrow> widget \<Rightarrow> ('s, unit) prog" where
  "paint R wd = (case wd of
     ErrorWidget t \<Rightarrow> rn_error R t
   | WarningWidget t \<Rightarrow> rn_warning R t
   | AgentMessage name t _ _ _ \<Rightarrow> rn_agent R name t
   | ToolCallWidget name i r _ \<Rightarrow> rn_tool_call R name i r
   | HumanInputPrompt t \<Rightarrow> rn_human_input R t
   | _ \<Rightarrow> ret ())"

text \<open>Whom a request of input is reported for.\<close>

definition asks :: "formatters \<Rightarrow> 's on_human_input \<Rightarrow> chat_event \<Rightarrow> ('s, unit) prog" where
  "asks F cb e = (case e of
     CarrierEvent own sender (RequestEvent _ _ nested_id) \<Rightarrow> notify_human_input F cb own sender nested_id
   | _ \<Rightarrow> ret ())"

lemma try_ret [simp]: "try_except (ret x) h = ret x"
  by (simp add: try_except_def ret_def fun_eq_iff)

lemma andthen_ret [simp]: "andthen (ret ()) p = p"
  by (simp add: andthen_def bnd_def ret_def)

text \<open>
  C38. A terminal session and the full-screen application show the same of an event: routing it draws exactly
  the widget it translates to, whatever the colors, then reports a request of input; it says whether there was
  one, and an error of the renderer or the callback makes it say no instead of raising.
\<close>

theorem both_views_agree:
  "route_event F R cb e = (case fst (to_widget F e cs) of
     None \<Rightarrow> ret False
   | Some wd \<Rightarrow> try_except (andthen (paint R wd) (andthen (asks F cb e) (ret True))) (\<lambda>_. ret False))"
proof (cases e)
  case (SentEvent sender recipient content t u)
  then show ?thesis
    by (simp add: route_event_def to_widget_def handle_sent_message_def sent_to_widget_def paint_def asks_def
        Let_def split: prod.split)
next
  case (CarrierEvent own sender nested)
  then show ?thesis
    by (cases nested)
      (auto simp: route_event_def to_widget_def handle_event_message_def event_to_widget_def paint_def asks_def)
qed (simp_all add: route_event_def to_widget_def paint_def asks_def)

section \<open>Colors\<close>

definition rank_color :: "nat \<Rightarrow> string" where
  "rank_color i = palette ! (i mod 6)"

definition colored :: "string list \<Rightarrow> color_registry" where
  "colored ns = \<lparr>cr_map = zip (dedup ns) (map rank_color [0..<length (dedup ns)]), cr_idx = length (dedup ns)\<rparr>"

lemma map_of_zip_none: "length xs = length ys \<Longrightarrow> map_of (zip xs ys) k = None \<longleftrightarrow> k \<notin> set xs"
  by (simp add: map_of_zip_is_None)

lemma update_new: "k \<notin> fst ` set d \<Longrightarrow> AList.update k v d = d @ [(k, v)]"
  by (induction d) auto

lemma colored_step: "snd (color_get n (colored ns)) = colored (ns @ [n])"
proof (cases "n \<in> set ns")
  case True
  then obtain col where "map_of (cr_map (colored ns)) n = Some col"
    using map_of_zip_none [of "dedup ns" "map rank_color [0..<length (dedup ns)]" n]
    by (cases "map_of (cr_map (colored ns)) n") (simp_all add: colored_def)
  then show ?thesis using True by (simp add: color_get_def colored_def dedup_snoc)
next
  case False
  then have n: "map_of (cr_map (colored ns)) n = None" by (simp add: colored_def map_of_zip_none)
  have "n \<notin> fst ` set (zip (dedup ns) (map rank_color [0..<length (dedup ns)]))"
    using False by (auto dest: set_zip_leftD)
  moreover have "snd (color_get n (colored ns)) =
      \<lparr>cr_map = AList.update n (rank_color (cr_idx (colored ns))) (cr_map (colored ns)), cr_idx = cr_idx (colored ns) + 1\<rparr>"
    using n by (simp add: color_get_def rank_color_def palette_def Let_def)
  ultimately show ?thesis using False by (simp add: colored_def dedup_snoc update_new)
qed

lemma colors_of: "foldl (\<lambda>c n. snd (color_get n c)) new_colors ns = colored ns"
proof (induction ns rule: rev_induct)
  case Nil
  then show ?case by (simp add: new_colors_def colored_def)
next
  case (snoc n ns)
  then show ?case by (simp add: colored_step)
qed

lemma color_of_rank: "i < length (dedup ns) \<Longrightarrow> fst (color_get (dedup ns ! i) (colored ns)) = rank_color i"
proof -
  assume i: "i < length (dedup ns)"
  have "map_of (zip (dedup ns) (map rank_color [0..<length (dedup ns)])) (dedup ns ! i) = Some (map rank_color [0..<length (dedup ns)] ! i)"
    using i by (intro map_of_zip_nth) simp_all
  then show "fst (color_get (dedup ns ! i) (colored ns)) = rank_color i"
    using i by (simp add: color_get_def colored_def)
qed

text \<open>
  Colors are stable. After any messages the agents seen so far, in the order of their first message, have the
  colors of the palette in turn, so the first six differ; asking for the color of an agent that was seen
  gives that color and changes nothing.
\<close>

theorem colors_go_round:
  "let c = foldl (\<lambda>c n. snd (color_get n c)) new_colors ns; seen = dedup ns
   in map (\<lambda>n. color_get n c) seen = map (\<lambda>i. (palette ! (i mod 6), c)) [0..<length seen]
    \<and> distinct (map fst (map (\<lambda>n. color_get n c) (take 6 seen)))"
proof -
  have a: "map (\<lambda>n. color_get n (colored ns)) (dedup ns) = map (\<lambda>i. (rank_color i, colored ns)) [0..<length (dedup ns)]"
  proof (rule nth_equalityI)
    fix i assume i: "i < length (map (\<lambda>n. color_get n (colored ns)) (dedup ns))"
    have "dedup ns ! i \<in> set ns" using i nth_mem [of i "dedup ns"] by simp
    then have "snd (color_get (dedup ns ! i) (colored ns)) = colored ns"
      unfolding colored_step by (simp add: colored_def dedup_snoc)
    then show "map (\<lambda>n. color_get n (colored ns)) (dedup ns) ! i = map (\<lambda>i. (rank_color i, colored ns)) [0..<length (dedup ns)] ! i"
      using i color_of_rank [of i ns] by (simp add: prod_eq_iff)
  qed simp
  have "map fst (map (\<lambda>n. color_get n (colored ns)) (take 6 (dedup ns))) =
      map rank_color (take 6 [0..<length (dedup ns)])"
    using arg_cong [OF a, of "\<lambda>xs. map fst (take 6 xs)"] by (simp add: take_map comp_def)
  moreover have "take 6 [0..<length (dedup ns)] = [0..<min 6 (length (dedup ns))]" by (simp add: take_upt min_def)
  moreover have "inj_on rank_color {0..<min 6 (length (dedup ns))}"
  proof -
    have "distinct (map rank_color [0..<6])" by code_simp
    then have "inj_on rank_color {0..<6}" by (simp add: distinct_map)
    then show ?thesis by (rule inj_on_subset) auto
  qed
  ultimately show ?thesis
    using a unfolding Let_def colors_of by (simp add: distinct_map rank_color_def)
qed

end
