(* ===== verification/CliCommands.thy ===== *)
theory CliCommands
  imports CliEvents
begin

text \<open>
  \<open>cli/repl_commands.py\<close>: the registry of slash commands, how a line is taken apart, and the commands that only
  use the REST client, the terminal and local files. A command works on the team of the session. The commands
  that also move the connection are in \<open>ChatSession\<close>.
\<close>

section \<open>Registry and dispatch\<close>

record 'h slash_command =
  sc_name :: string
  sc_handler :: 'h
  sc_help :: string
  sc_usage :: string

type_synonym 'h registry = "(string \<times> 'h slash_command) list"

definition register_command :: "string \<Rightarrow> 'h \<Rightarrow> string \<Rightarrow> string \<Rightarrow> 'h registry \<Rightarrow> 'h registry" where
  "register_command name h help usage r =
     AList.update name \<lparr>sc_name = name, sc_handler = h, sc_help = help, sc_usage = usage\<rparr> r"

text \<open>\<open>text.split(maxsplit=1)\<close> of a text without blanks at its ends: the first word, and the rest if there is one.\<close>

definition split_once :: "string \<Rightarrow> string \<times> string option" where
  "split_once t =
     (let rest = dropWhile is_space (dropWhile (\<lambda>c. \<not> is_space c) t) in
      (takeWhile (\<lambda>c. \<not> is_space c) t, if rest = [] then None else Some rest))"

text \<open>The name and the arguments of a command line; \<open>None\<close> for a line that is no command.\<close>

definition parse_line :: "string \<Rightarrow> (string \<times> string) option" where
  "parse_line line =
     (let stripped = strip line in
      if startswith stripped ''/''
      then Some (drop 1 (fst (split_once stripped)), case snd (split_once stripped) of None \<Rightarrow> [] | Some r \<Rightarrow> r)
      else None)"

definition unknown_command :: "string \<Rightarrow> string" where
  "unknown_command name = ''Unknown command: /'' @ name @ ''. Type /help for available commands.''"

definition dispatch ::
    "(string \<Rightarrow> ('s, unit) prog) registry \<Rightarrow> (string \<Rightarrow> ('s, unit) prog) \<Rightarrow> string \<Rightarrow> ('s, bool) prog" where
  "dispatch reg print line = (case parse_line line of
     None \<Rightarrow> ret False
   | Some (name, args) \<Rightarrow> (case map_of reg name of
       Some cmd \<Rightarrow> andthen (sc_handler cmd args) (ret True)
     | None \<Rightarrow> andthen (print (unknown_command name)) (ret True)))"

section \<open>Helpers of the handlers\<close>

text \<open>\<open>try: x = call() except ApiError: show the detail; return\<close>, then the rest with \<open>x\<close>.\<close>

definition fetching :: "'w renderer \<Rightarrow> string \<Rightarrow> ('w, 'a) prog \<Rightarrow> ('a \<Rightarrow> ('w, unit) prog) \<Rightarrow> ('w, unit) prog" where
  "fetching R what call k =
     bnd (try_except (bnd call (\<lambda>x. ret (Some x)))
       (\<lambda>e. case e of ApiError _ detail \<Rightarrow> andthen (rn_error R (what @ detail)) (ret None) | _ \<Rightarrow> throw e))
     (\<lambda>r. case r of None \<Rightarrow> ret () | Some x \<Rightarrow> k x)"

definition print_line :: "('w, 'm, 'e) shell \<Rightarrow> string \<Rightarrow> ('w, unit) prog" where
  "print_line H t = echo (sh_terminal H) t"

definition or_current :: "string \<Rightarrow> string \<Rightarrow> string" where
  "or_current args current = (if strip args = [] then current else strip args)"

text \<open>The optional number of \<open>/events\<close> and \<open>/history\<close>.\<close>

definition parse_limit :: "string \<Rightarrow> int option" where
  "parse_limit args =
     (if strip args = [] then Some 20
      else (case int_of_text (strip args) of None \<Rightarrow> None | Some n \<Rightarrow> if n \<le> 0 then None else Some n))"

definition last_n :: "int \<Rightarrow> 'a list \<Rightarrow> 'a list" where
  "last_n n xs = py_drop (- n) xs"

definition usage_limit :: "string \<Rightarrow> string" where
  "usage_limit name = ''Usage: /'' @ name @ '' [N]  '' @ [long_dash] @ '' N must be a positive integer.''"

section \<open>Handlers\<close>

definition help_handler :: "('w, 'm, 'e) shell \<Rightarrow> (string \<times> string \<times> string) list \<Rightarrow> ('w, unit) prog" where
  "help_handler H cmds = andthen (print_line H ''Available commands:'')
     (for_each (\<lambda>(name, help, usage).
        andthen (print_line H (''  /'' @ ljust 12 name @ '' '' @ help))
          (if usage = [] then ret () else print_line H (''  '' @ ljust 12 [] @ ''   Usage: '' @ usage))) cmds)"

definition teams_handler :: "('w, 'm, 'e) shell \<Rightarrow> 'w renderer \<Rightarrow> string \<Rightarrow> ('w, unit) prog" where
  "teams_handler H R tid = fetching R ''Error fetching teams: '' (api_list_teams (sh_api H)) (\<lambda>teams.
     if teams = [] then print_line H ''No teams found.''
     else andthen (print_line H (ljust 38 ''Team ID'' @ '' '' @ ljust 20 ''Name'' @ '' '' @ ljust 10 ''Status''))
         (andthen (print_line H (replicate 68 (CHR ''-'')))
         (for_each (\<lambda>t. print_line H (ljust 38 (ci_team_id t) @ '' '' @ ljust 20 (ci_name t) @ '' '' @
            ljust 10 (ci_status t) @ (if ci_team_id t = tid then '' (current)'' else []))) teams)))"

text \<open>Reading a line behind a prompt: \<open>None\<close> at the end of input or on an interrupt.\<close>

definition asking :: "(string \<Rightarrow> 'w \<Rightarrow> string option \<times> 'w) \<Rightarrow> string \<Rightarrow> ('w, string option) prog" where
  "asking ask prompt = (\<lambda>w. case ask prompt w of (a, w') \<Rightarrow> (Inr a, w'))"

definition delete_handler ::
    "('w, 'm, 'e) shell \<Rightarrow> 'w renderer \<Rightarrow> (string \<Rightarrow> 'w \<Rightarrow> string option \<times> 'w) \<Rightarrow> string \<Rightarrow> string \<Rightarrow> ('w, unit) prog" where
  "delete_handler H R ask tid args =
     (let target_id = or_current args tid in
      fetching R ''Error fetching team info: '' (api_get_team (sh_api H) target_id) (\<lambda>team.
        bnd (asking ask (''Delete team '' @ ci_name team @ '' ('' @ target_id @
              '')? All event history will be lost. [y/N] '')) (\<lambda>answer.
        case answer of
          None \<Rightarrow> print_line H (CHR 0x0A # ''Aborted.'')
        | Some response \<Rightarrow>
            if lower (strip response) \<noteq> ''y'' then print_line H ''Aborted.''
            else fetching R ''Error deleting team: '' (api_delete_team (sh_api H) target_id) (\<lambda>_.
              andthen (print_line H (''Team '' @ ci_name team @ '' ('' @ target_id @ '') deleted.''))
                (if target_id = tid
                 then print_line H ''Current team deleted. Use /switch or /teams to select another team.''
                 else ret ())))))"

definition info_handler :: "('w, 'm, 'e) shell \<Rightarrow> 'w renderer \<Rightarrow> string \<Rightarrow> string \<Rightarrow> ('w, unit) prog" where
  "info_handler H R tid args =
     fetching R ''Error fetching team info: '' (api_get_team (sh_api H) (or_current args tid)) (\<lambda>team.
       for_each (print_line H)
         [''Name: '' @ ci_name team, ''Team ID: '' @ ci_team_id team, ''Status: '' @ ci_status team,
          ''User ID: '' @ ci_user_id team, ''Created: '' @ ci_created_at team, ''Updated: '' @ ci_updated_at team])"

definition events_handler :: "('w, 'm, 'e) shell \<Rightarrow> 'w renderer \<Rightarrow> string \<Rightarrow> string \<Rightarrow> ('w, unit) prog" where
  "events_handler H R tid args = (case parse_limit args of
     None \<Rightarrow> print_line H (usage_limit ''events'')
   | Some limit \<Rightarrow> fetching R ''Error fetching events: '' (api_get_events (sh_api H) tid) (\<lambda>events.
       for_each (\<lambda>e. print_line H (fm_json (sh_formatters H) (sh_dump_event H e))) (last_n limit events)))"

text \<open>The agents that started, each at its first start, with the role of its last.\<close>

definition seen_agents :: "chat_event event_info list \<Rightarrow> (string \<times> string) list" where
  "seen_agents events = foldl (\<lambda>seen e. case ei_event e of
     Inr (StartEvent name role) \<Rightarrow> if name \<noteq> [] \<and> name \<noteq> ''orchestrator'' then AList.update name role seen else seen
   | _ \<Rightarrow> seen) [] events"

definition agents_handler :: "('w, chat_event, 'e) shell \<Rightarrow> 'w renderer \<Rightarrow> string \<Rightarrow> ('w, unit) prog" where
  "agents_handler H R tid = fetching R ''Error fetching agents: '' (api_get_events (sh_api H) tid) (\<lambda>events.
     let seen = seen_agents events in
     if seen = [] then print_line H ''No agents found.''
     else andthen (print_line H ''Team agents:'')
         (for_each (\<lambda>(name, role). print_line H (''  '' @ ljust 16 name @ '' ('' @ role @ '')'')) seen))"

fun is_displayable :: "chat_event \<Rightarrow> bool" where
  "is_displayable (SentEvent _ _ _ _ _) = True"
| "is_displayable (ErrorEvent _) = True"
| "is_displayable (WarningEvent _) = True"
| "is_displayable (CarrierEvent _ _ _) = True"
| "is_displayable _ = False"

definition displayable :: "chat_event event_info list \<Rightarrow> chat_event list" where
  "displayable events = concat (map (\<lambda>e. case ei_event e of
     Inr m \<Rightarrow> if is_displayable m then [m] else [] | Inl _ \<Rightarrow> []) events)"

definition repl_tree_line :: "workspace_entry \<Rightarrow> string" where
  "repl_tree_line e = (if we_is_dir e then ''D '' else ''  '') @ we_name e @
     (if we_is_dir e then [] else ''  ('' @ int_str (we_size e) @ '' bytes)'')"

definition files_handler :: "('w, 'm, 'e) shell \<Rightarrow> 'w renderer \<Rightarrow> string \<Rightarrow> ('w, unit) prog" where
  "files_handler H R tid = fetching R ''Error fetching file tree: '' (api_workspace_tree (sh_api H) tid) (\<lambda>tree.
     if wt_entries tree = [] then print_line H ''(empty workspace)''
     else for_each (\<lambda>e. print_line H (repl_tree_line e)) (wt_entries tree))"

definition read_handler :: "('w, 'm, 'e) shell \<Rightarrow> 'w renderer \<Rightarrow> string \<Rightarrow> string \<Rightarrow> ('w, unit) prog" where
  "read_handler H R tid args =
     (let path = strip args in
      if path = [] then print_line H ''Usage: /read <path>''
      else fetching R (''Error reading file '' @ path @ '': '') (api_workspace_read (sh_api H) tid path) (\<lambda>data.
        case sh_decode H data of
          Some t \<Rightarrow> writing (tm_out (sh_terminal H) t)
        | None \<Rightarrow> print_line H (binary_file data)))"

definition upload_handler :: "('w, 'm, 'e) shell \<Rightarrow> 'w renderer \<Rightarrow> string \<Rightarrow> string \<Rightarrow> ('w, unit) prog" where
  "upload_handler H R tid args =
     (let local_path = strip args in
      if local_path = [] then print_line H ''Usage: /upload <local_path>''
      else looking (\<lambda>w.
        if \<not> sh_is_file H local_path w
        then print_line H (''Error: '' @ local_path @ '' is not a file or does not exist.'')
        else bnd (reading (sh_read_bytes H local_path)) (\<lambda>file_data.
          fetching R (''Error uploading file '' @ local_path @ '': '')
            (api_workspace_upload (sh_api H) tid (file_name local_path) file_data) (\<lambda>result.
            print_line H (''Uploaded '' @ wu_path result @ '' ('' @ int_str (wu_size result) @ '' bytes)'')))))"

definition stop_handler :: "('w, 'm, 'e) shell \<Rightarrow> 'w renderer \<Rightarrow> string \<Rightarrow> ('w, unit) prog" where
  "stop_handler H R tid = fetching R ''Error stopping team: '' (api_stop_team (sh_api H) tid) (\<lambda>_.
     print_line H (''Team '' @ tid @ '' stopped.''))"

definition catalog_handler :: "('w, 'm, 'e) shell \<Rightarrow> 'w renderer \<Rightarrow> ('w, unit) prog" where
  "catalog_handler H R = fetching R ''Error fetching catalog: '' (list_catalog_teams (sh_api H)) (\<lambda>entries.
     if entries = [] then print_line H ''No team templates found.''
     else andthen (print_line H ''Available team templates:'')
         (for_each (\<lambda>c. print_line H (''  '' @ ljust 20 (ct_id c) @ '' '' @ ljust 24 (ct_name c) @ '' '' @
            ct_description c)) entries))"

end
