(* ===== verification/ChatSession.thy ===== *)
theory ChatSession
  imports CliCommands
begin

text \<open>
  \<open>cli/repl.py\<close> and the commands of \<open>cli/repl_commands.py\<close> that move the connection: a chat in a terminal. What the
  user types and what the socket delivers are turns of the session, which alternate in any way; what happens
  between two awaits of one turn and the other is not modelled. The callback on a change of the connection's state
  runs when the manager's call is over.
\<close>

section \<open>The session\<close>

datatype input_mode = CHAT | REPLY

record reply_context =
  rc_reply_id :: string
  rc_agent_name :: string

text \<open>The receive loop: not started, running, ended after a lost connection, or failed with another exception.\<close>

datatype receive_task = NoTask | Receiving | Ended | Crashed exn

record 'w session =
  se_team_id :: string
  se_team_name :: string
  se_team_status :: string
  se_input_mode :: input_mode
  se_reply :: "reply_context option"
  se_connection :: connection_state
  se_buffer :: "string list"
  se_task :: receive_task
  se_conn :: "'w conn"

definition new_session :: "'w conn \<Rightarrow> string \<Rightarrow> 'w session" where
  "new_session c tid = \<lparr>se_team_id = tid, se_team_name = ''(unknown)'', se_team_status = ''?'', se_input_mode = CHAT,
     se_reply = None, se_connection = CONNECTING, se_buffer = [], se_task = NoTask, se_conn = c\<rparr>"

text \<open>What a session works with; \<open>rp_ask\<close> reads a line, \<open>None\<close> at the end of input or on an interrupt.\<close>

record ('w, 'f, 'e) repl =
  rp_shell :: "('w, chat_event, 'e) shell"
  rp_renderer :: "'w renderer"
  rp_sockets :: "('w, 'f, chat_event) sockets"
  rp_ask :: "string \<Rightarrow> 'w \<Rightarrow> string option \<times> 'w"

definition world :: "'w session \<Rightarrow> 'w" where
  "world s = cn_net (se_conn s)"

definition in_world_of :: "('w, 'a) prog \<Rightarrow> ('w session, 'a) prog" where
  "in_world_of p = on_part world (\<lambda>w s. s\<lparr>se_conn := (se_conn s)\<lparr>cn_net := w\<rparr>\<rparr>) p"

abbreviation rp_api :: "('w, 'f, 'e) repl \<Rightarrow> ('w, chat_event, 'e) api" where
  "rp_api E \<equiv> sh_api (rp_shell E)"

definition show_err :: "('w, 'f, 'e) repl \<Rightarrow> string \<Rightarrow> ('w session, unit) prog" where
  "show_err E t = in_world_of (rn_error (rp_renderer E) t)"

definition say :: "('w, 'f, 'e) repl \<Rightarrow> string \<Rightarrow> ('w session, unit) prog" where
  "say E t = in_world_of (print_line (rp_shell E) t)"

text \<open>\<open>try: m except ApiError: h\<close>.\<close>

definition or_api_error :: "('s, unit) prog \<Rightarrow> (string \<Rightarrow> ('s, unit) prog) \<Rightarrow> ('s, unit) prog" where
  "or_api_error m h = try_except m (\<lambda>e. case e of ApiError _ detail \<Rightarrow> h detail | _ \<Rightarrow> throw e)"

section \<open>The connection's callback\<close>

text \<open>Each message leaves the buffer before it is sent.\<close>

fun flush_loop :: "('w, 'f, 'e) repl \<Rightarrow> string list \<Rightarrow> ('w session, unit) prog" where
  "flush_loop E [] = ret ()"
| "flush_loop E (msg # rest) =
     andthen (writing (\<lambda>s. s\<lparr>se_buffer := rest\<rparr>))
    (andthen (looking (\<lambda>s. or_api_error (in_world_of (api_send_message (rp_api E) (se_team_id s) msg))
        (\<lambda>_. show_err E (''Failed to send buffered message: '' @ take 50 msg))))
       (flush_loop E rest))"

definition flush_message_buffer :: "('w, 'f, 'e) repl \<Rightarrow> ('w session, unit) prog" where
  "flush_message_buffer E = looking (\<lambda>s. flush_loop E (se_buffer s))"

definition on_conn_state_change :: "('w, 'f, 'e) repl \<Rightarrow> connection_state \<Rightarrow> ('w session, unit) prog" where
  "on_conn_state_change E st = andthen (writing (\<lambda>s. s\<lparr>se_connection := st\<rparr>))
     (looking (\<lambda>s. if st = CONNECTED \<and> se_buffer s \<noteq> [] then flush_message_buffer E else ret ()))"

text \<open>A call of the manager, and then the callback for each state it went through.\<close>

definition call_conn :: "('w, 'f, 'e) repl \<Rightarrow> ('w conn, 'a) prog \<Rightarrow> ('w session, 'a) prog" where
  "call_conn E p = (\<lambda>s. case p (se_conn s) of (r, c) \<Rightarrow>
     (case for_each (on_conn_state_change E) (drop (length (cn_notified (se_conn s))) (cn_notified c)) (s\<lparr>se_conn := c\<rparr>) of
        (Inl e, t) \<Rightarrow> (Inl e, t)
      | (Inr _, t) \<Rightarrow> (r, t)))"

section \<open>Events\<close>

definition set_pending :: "string \<Rightarrow> string \<Rightarrow> ('w session, unit) prog" where
  "set_pending message_id agent_name = writing (\<lambda>s. s\<lparr>se_input_mode := REPLY,
     se_reply := Some \<lparr>rc_reply_id = message_id, rc_agent_name = agent_name\<rparr>\<rparr>)"

definition session_renderer :: "'w renderer \<Rightarrow> 'w session renderer" where
  "session_renderer R = \<lparr>rn_agent = (\<lambda>a t. in_world_of (rn_agent R a t)), rn_error = (\<lambda>t. in_world_of (rn_error R t)),
     rn_warning = (\<lambda>t. in_world_of (rn_warning R t)), rn_tool_call = (\<lambda>n i r. in_world_of (rn_tool_call R n i r)),
     rn_human_input = (\<lambda>t. in_world_of (rn_human_input R t)), rn_system = (\<lambda>t. in_world_of (rn_system R t)),
     rn_connection = (\<lambda>t. in_world_of (rn_connection R t)), rn_border = in_world_of (rn_border R)\<rparr>"

definition render_event :: "('w, 'f, 'e) repl \<Rightarrow> chat_event \<Rightarrow> ('w session, bool) prog" where
  "render_event E e = route_event (sh_formatters (rp_shell E)) (session_renderer (rp_renderer E)) (Some set_pending) e"

text \<open>One round of the receive loop; \<open>None\<close> when no event ever comes.\<close>

definition receive_turn :: "('w, 'f, 'e) repl \<Rightarrow> 'w session \<Rightarrow> 'w session option" where
  "receive_turn E s =
     (if se_task s \<noteq> Receiving then Some s
      else (case cn_receive (rp_sockets E) (se_conn s) of
          None \<Rightarrow> None
        | Some out \<Rightarrow>
            (case bnd (call_conn E (\<lambda>_. out)) (\<lambda>e. render_event E e) s of
               (Inr _, t) \<Rightarrow> Some t
             | (Inl e, t) \<Rightarrow>
                 if is_ws_error e
                 then (case show_err E (''Connection lost: '' @ exn_str e) t of
                     (Inr _, u) \<Rightarrow> Some (u\<lparr>se_task := Ended\<rparr>)
                   | (Inl e', u) \<Rightarrow> Some (u\<lparr>se_task := Crashed e'\<rparr>))
                 else Some (t\<lparr>se_task := Crashed e\<rparr>))))"

section \<open>Commands that move the connection\<close>

definition fetch_team_info :: "('w, 'f, 'e) repl \<Rightarrow> ('w session, unit) prog" where
  "fetch_team_info E = looking (\<lambda>s. or_api_error
     (bnd (in_world_of (api_get_team (rp_api E) (se_team_id s)))
       (\<lambda>t. writing (\<lambda>s. s\<lparr>se_team_name := ci_name t, se_team_status := ci_status t\<rparr>)))
     (\<lambda>_. ret ()))"

text \<open>Cancelling a loop that has ended does nothing; awaiting one that failed raises its exception.\<close>

definition stop_receiving :: "('w session, unit) prog" where
  "stop_receiving = looking (\<lambda>s. case se_task s of Crashed e \<Rightarrow> throw e | _ \<Rightarrow> ret ())"

definition switch_handler :: "('w, 'f, 'e) repl \<Rightarrow> string \<Rightarrow> ('w session, unit) prog" where
  "switch_handler E args =
     (let new_team_id = strip args in
      if new_team_id = [] then say E ''Usage: /switch <team_id>''
      else bnd (try_except (andthen (call_conn E (switch_team (rp_sockets E) new_team_id)) (ret True))
             (\<lambda>e. if is_ws_error e then andthen (show_err E (''Switch failed: '' @ exn_str e)) (ret False) else throw e))
           (\<lambda>ok. if \<not> ok then ret ()
              else andthen (writing (\<lambda>s. s\<lparr>se_team_id := new_team_id\<rparr>))
                  (andthen stop_receiving
                  (andthen (fetch_team_info E)
                  (andthen (in_world_of (rn_border (rp_renderer E)))
                    (writing (\<lambda>s. s\<lparr>se_task := Receiving\<rparr>)))))))"

text \<open>\<open>fetching\<close> in a session, whose continuation may go on with the session.\<close>

definition session_fetching ::
    "('w, 'f, 'e) repl \<Rightarrow> string \<Rightarrow> ('w, 'a) prog \<Rightarrow> ('a \<Rightarrow> ('w session, unit) prog) \<Rightarrow> ('w session, unit) prog" where
  "session_fetching E what call k = fetching (session_renderer (rp_renderer E)) what (in_world_of call) k"

definition create_handler :: "('w, 'f, 'e) repl \<Rightarrow> string \<Rightarrow> ('w session, unit) prog" where
  "create_handler E args =
     (let entry = strip args in
      if entry = [] then say E ''Usage: /create <catalog_entry>''
      else session_fetching E ''Error creating team: '' (api_create_team (rp_api E) entry) (\<lambda>t.
        andthen (say E (''Created team: '' @ ci_name t @ '' ('' @ ci_team_id t @ '')''))
          (switch_handler E (ci_team_id t))))"

definition restore_handler :: "('w, 'f, 'e) repl \<Rightarrow> string \<Rightarrow> ('w session, unit) prog" where
  "restore_handler E args = looking (\<lambda>s.
     let target_id = or_current args (se_team_id s) in
     session_fetching E ''Error restoring team: '' (api_restore_team (rp_api E) target_id) (\<lambda>_.
       andthen (say E (''Team '' @ target_id @ '' restored. Live events resumed.'')) (switch_handler E target_id)))"

definition reconnect_handler :: "('w, 'f, 'e) repl \<Rightarrow> ('w session, unit) prog" where
  "reconnect_handler E =
     andthen (in_world_of (rn_connection (rp_renderer E) ''reconnecting''))
       (try_except (andthen (call_conn E (cn_connect (rp_sockets E))) (in_world_of (rn_connection (rp_renderer E) ''connected'')))
         (\<lambda>e. if is_ws_error e then show_err E (''Reconnection failed: '' @ exn_str e) else throw e))"

definition history_handler :: "('w, 'f, 'e) repl \<Rightarrow> string \<Rightarrow> ('w session, unit) prog" where
  "history_handler E args = looking (\<lambda>s. case parse_limit args of
     None \<Rightarrow> say E (usage_limit ''history'')
   | Some limit \<Rightarrow> session_fetching E ''Error fetching history: '' (api_get_events (rp_api E) (se_team_id s)) (\<lambda>events.
       for_each (\<lambda>e. bnd (render_event E e) (\<lambda>_. ret ())) (last_n limit (displayable events))))"

section \<open>The commands of a session\<close>

definition default_help :: "(string \<times> string \<times> string) list" where
  "default_help =
    [(''help'', ''Show available commands'', ''/help''),
     (''teams'', ''List all teams'', ''/teams''),
     (''create'', ''Create a team from catalog'', ''/create <catalog_entry>''),
     (''catalog'', ''List team templates'', ''/catalog''),
     (''delete'', ''Delete a team'', ''/delete [team_id]''),
     (''info'', ''Show team details'', ''/info [team_id]''),
     (''events'', ''Show raw team events'', ''/events [N]''),
     (''agents'', ''List team agents'', ''/agents''),
     (''history'', ''Show recent messages'', ''/history [N]''),
     (''files'', ''Show workspace files'', ''/files''),
     (''read'', ''Read a workspace file'', ''/read <path>''),
     (''upload'', ''Upload a file to workspace'', ''/upload <path>''),
     (''stop'', ''Stop the team'', ''/stop''),
     (''restore'', ''Restore a stopped team'', ''/restore [team_id]''),
     (''switch'', ''Switch to another team'', ''/switch <team_id>''),
     (''reconnect'', ''Reconnect to server'', ''/reconnect''),
     (''quit'', ''Exit the chat'', ''/quit'')]"

text \<open>A handler that only uses the world, on the team of the session.\<close>

definition on_team :: "(string \<Rightarrow> ('w, 'a) prog) \<Rightarrow> ('w session, 'a) prog" where
  "on_team p = looking (\<lambda>s. in_world_of (p (se_team_id s)))"

definition session_handlers :: "('w, 'f, 'e) repl \<Rightarrow> (string \<Rightarrow> ('w session, unit) prog) list" where
  "session_handlers E = (let H = rp_shell E; R = rp_renderer E in
    [\<lambda>_. in_world_of (help_handler H default_help),
     \<lambda>_. on_team (teams_handler H R),
     create_handler E,
     \<lambda>_. in_world_of (catalog_handler H R),
     \<lambda>args. on_team (\<lambda>i. delete_handler H R (rp_ask E) i args),
     \<lambda>args. on_team (\<lambda>i. info_handler H R i args),
     \<lambda>args. on_team (\<lambda>i. events_handler H R i args),
     \<lambda>_. on_team (agents_handler H R),
     history_handler E,
     \<lambda>_. on_team (files_handler H R),
     \<lambda>args. on_team (\<lambda>i. read_handler H R i args),
     \<lambda>args. on_team (\<lambda>i. upload_handler H R i args),
     \<lambda>_. on_team (stop_handler H R),
     restore_handler E,
     switch_handler E,
     \<lambda>_. reconnect_handler E,
     \<lambda>_. say E ''Goodbye.''])"

definition build_default_registry :: "('w, 'f, 'e) repl \<Rightarrow> (string \<Rightarrow> ('w session, unit) prog) registry" where
  "build_default_registry E =
     foldl (\<lambda>r ((name, help, usage), h). register_command name h help usage r) [] (zip default_help (session_handlers E))"

section \<open>Input\<close>

text \<open>The signs of a prompt are plain.\<close>

definition get_prompt :: "'w session \<Rightarrow> string" where
  "get_prompt s =
     (if se_connection s = DISCONNECTED then ''[disconnected] > ''
      else if se_connection s = RECONNECTING then ''[reconnecting...] > ''
      else (case (se_input_mode s, se_reply s) of
          (REPLY, Some ctx) \<Rightarrow> ''Reply to '' @ rc_agent_name ctx @ '': ''
        | _ \<Rightarrow> ''> ''))"

definition check_connection_gate :: "('w, 'f, 'e) repl \<Rightarrow> string \<Rightarrow> ('w session, bool) prog" where
  "check_connection_gate E line = looking (\<lambda>s.
     if se_connection s = DISCONNECTED
     then andthen (show_err E ''Not connected. Use /reconnect to restore connection.'') (ret True)
     else if se_connection s = RECONNECTING
     then andthen (in_world_of (rn_system (rp_renderer E) ''Reconnecting... message will be sent when connection is restored.''))
            (andthen (writing (\<lambda>s. s\<lparr>se_buffer := se_buffer s @ [line]\<rparr>)) (ret True))
     else ret False)"

definition handle_reply :: "('w, 'f, 'e) repl \<Rightarrow> string \<Rightarrow> ('w session, unit) prog" where
  "handle_reply E line = looking (\<lambda>s. case se_reply s of
     None \<Rightarrow> ret ()
   | Some ctx \<Rightarrow> or_api_error
       (andthen (in_world_of (api_human_input (rp_api E) (se_team_id s) line (rc_reply_id ctx)))
          (writing (\<lambda>s. s\<lparr>se_input_mode := CHAT, se_reply := None\<rparr>)))
       (\<lambda>_. show_err E ''Error sending reply. Try again.''))"

definition mention :: "string \<Rightarrow> (string \<times> string) option" where
  "mention line =
     (let s = strip line in
      if startswith s ''@'' \<and> CHR '' '' \<in> set s
      then (case split_once s of (a, Some r) \<Rightarrow> Some (a, r) | _ \<Rightarrow> None) else None)"

definition send_or_mention :: "('w, 'f, 'e) repl \<Rightarrow> string \<Rightarrow> ('w session, unit) prog" where
  "send_or_mention E line = looking (\<lambda>s. in_world_of (case mention line of
     Some (agent, content) \<Rightarrow> api_send_message_to (rp_api E) (se_team_id s) agent content
   | None \<Rightarrow> api_send_message (rp_api E) (se_team_id s) line))"

text \<open>One line of the input loop; the answer says whether the loop goes on.\<close>

definition typed_line :: "('w, 'f, 'e) repl \<Rightarrow> string \<Rightarrow> ('w session, bool) prog" where
  "typed_line E line =
     (if strip line = [] then ret True
      else if strip line = ''/quit'' then ret False
      else bnd (dispatch (build_default_registry E) (say E) line) (\<lambda>handled.
        if handled then ret True
        else looking (\<lambda>s. if se_input_mode s = REPLY \<and> se_reply s \<noteq> None
          then bnd (check_connection_gate E line) (\<lambda>blocked.
                 if blocked then ret True else andthen (handle_reply E line) (ret True))
          else bnd (check_connection_gate E line) (\<lambda>blocked.
                 if blocked then ret True
                 else andthen (or_api_error (send_or_mention E line) (\<lambda>_. show_err E ''Error sending message.'')) (ret True)))))"

section \<open>A whole session\<close>

datatype session_turn = Typing string | Receive

text \<open>
  The input loop over the turns that come: it ends with \<open>/quit\<close>, with the turns, or with an exception. \<open>None\<close> when a
  receive never returns.
\<close>

fun input_loop :: "('w, 'f, 'e) repl \<Rightarrow> session_turn list \<Rightarrow> 'w session \<Rightarrow> ((exn + unit) \<times> 'w session) option" where
  "input_loop E [] s = Some (Inr (), s)"
| "input_loop E (Receive # turns) s = (case receive_turn E s of None \<Rightarrow> None | Some t \<Rightarrow> input_loop E turns t)"
| "input_loop E (Typing line # turns) s = (case typed_line E line s of
     (Inl e, t) \<Rightarrow> Some (Inl e, t)
   | (Inr go_on, t) \<Rightarrow> if go_on then input_loop E turns t else Some (Inr (), t))"

text \<open>\<open>run\<close>: connect, show the team, loop, and close whatever happened.\<close>

definition run_session :: "('w, 'f, 'e) repl \<Rightarrow> session_turn list \<Rightarrow> 'w session \<Rightarrow> ((exn + unit) \<times> 'w session) option" where
  "run_session E turns s =
     (case call_conn E (cn_connect (rp_sockets E)) s of
        (Inl e, t) \<Rightarrow> Some (Inl e, t)
      | (Inr _, t) \<Rightarrow>
          (let closing = (\<lambda>r u. try_finally (\<lambda>v. (r, v)) (call_conn E (cn_close (rp_sockets E))) u) in
           case andthen (fetch_team_info E) (in_world_of (rn_border (rp_renderer E))) t of
             (Inl e, u) \<Rightarrow> Some (closing (Inl e) u)
           | (Inr _, u) \<Rightarrow>
               (case input_loop E turns (u\<lparr>se_task := Receiving\<rparr>) of
                  None \<Rightarrow> None
                | Some (r, v) \<Rightarrow>
                    (let (r', v') = try_finally (\<lambda>v. (r, v))
                       (andthen stop_receiving (andthen (in_world_of (rn_border (rp_renderer E)))
                          (in_world_of (rn_system (rp_renderer E) ''Session closed.'')))) v
                     in Some (closing r' v')))))"

end
