(* ===== verification/TeamSelector.thy ===== *)
theory TeamSelector
  imports ChatSession TeamSelect
begin

text \<open>
  \<open>cli/team_selector.py\<close>: the menu a terminal chat starts with. The loops go on as long as there is input; a program
  that may not return has the result \<open>None\<close>. What the renderer draws of a menu is a value.
\<close>

section \<open>What the menu works with\<close>

definition stopped_page_size :: nat where
  "stopped_page_size = 5"

definition selector_short_id :: "string \<Rightarrow> string" where
  "selector_short_id i = (if 13 < length i then take 13 i else i)"

text \<open>The numbered lines: number, name, short id, status.\<close>

type_synonym numbered = "(nat \<times> string \<times> string \<times> string) list"

datatype menu_page =
    StartPage numbered "(string \<times> string) list" nat
  | StoppedPage string numbered bool

text \<open>Reading a line raises at the end of the input.\<close>

record 'w menu =
  mn_show :: "menu_page \<Rightarrow> 'w \<Rightarrow> 'w"
  mn_error :: "string \<Rightarrow> 'w \<Rightarrow> 'w"
  mn_system :: "string \<Rightarrow> 'w \<Rightarrow> 'w"
  mn_input :: "'w \<Rightarrow> (exn + string) \<times> 'w"

definition numbered_teams :: "team_info list \<Rightarrow> numbered" where
  "numbered_teams ts = map (\<lambda>(i, t). (i + 1, ci_name t, selector_short_id (ci_team_id t), ci_status t)) (enumerate 0 ts)"

definition fetch_teams :: "('w, 'm, 'e) api \<Rightarrow> ('w, team_info list) prog" where
  "fetch_teams A = or_if_api_error [] (api_list_teams A)"

definition fetch_catalog :: "('w, 'm, 'e) api \<Rightarrow> ('w, (string \<times> string) list) prog" where
  "fetch_catalog A = try_except (bnd (list_catalog_teams A) (\<lambda>es. ret (map (\<lambda>c. (ct_id c, ct_description c)) es))) (\<lambda>_. ret [])"

definition render_menu :: "'w menu \<Rightarrow> ('w, 'm, 'e) api \<Rightarrow> team_info list \<Rightarrow> ('w, unit) prog" where
  "render_menu M A running = bnd (fetch_catalog A) (\<lambda>catalog.
     writing (mn_show M (StartPage (if running = [] then [] else numbered_teams running) catalog (length running))))"

section \<open>Browsing the stopped teams\<close>

text \<open>The team a number of a page stands for; the text is one that \<open>isdigit\<close> accepts.\<close>

definition numbered_choice :: "string \<Rightarrow> 'a list \<Rightarrow> exn + 'a option" where
  "numbered_choice choice ts = (case int_of_text choice of
     None \<Rightarrow> Inl (not_a_number choice)
   | Some n \<Rightarrow> Inr (if 0 \<le> n - 1 \<and> n - 1 < int (length ts) then Some (ts ! nat (n - 1)) else None))"

partial_function (option) browse_stopped ::
    "'w menu \<Rightarrow> ('w, 'm, 'e) api \<Rightarrow> team_info list \<Rightarrow> nat \<Rightarrow> 'w \<Rightarrow> ((exn + string option) \<times> 'w) option" where
  "browse_stopped M A stopped page w =
     (let start = page * stopped_page_size; page_teams = take stopped_page_size (drop start stopped) in
      if page_teams = [] then browse_stopped M A stopped 0 w
      else (let has_next = (start + stopped_page_size < length stopped);
                title = ''Stopped teams ('' @ nat_str (length stopped) @ '' total):'' in
        case mn_input M (mn_show M (StoppedPage title (numbered_teams page_teams) has_next) w) of
          (Inl e, w') \<Rightarrow> Some (Inl e, w')
        | (Inr line, w') \<Rightarrow>
            (let choice = strip line in
             if choice = [] \<or> choice = ''b'' then Some (Inr None, w')
             else if choice = ''n'' \<and> has_next then browse_stopped M A stopped (page + 1) w'
             else if isdigit choice then
               (case numbered_choice choice page_teams of
                  Inl e \<Rightarrow> Some (Inl e, w')
                | Inr None \<Rightarrow> browse_stopped M A stopped page (mn_error M (''Invalid selection: '' @ choice) w')
                | Inr (Some team) \<Rightarrow>
                    (case api_restore_team A (ci_team_id team) w' of
                       (Inr _, u) \<Rightarrow> Some (Inr (Some (ci_team_id team)), u)
                     | (Inl e, u) \<Rightarrow>
                         if is_api_error e
                         then browse_stopped M A stopped page (mn_error M (''Failed to restore team '' @ ci_name team) u)
                         else Some (Inl e, u)))
             else browse_stopped M A stopped page (mn_error M (''Unknown choice: '' @ choice) w'))))"

definition browse_stopped_teams ::
    "'w menu \<Rightarrow> ('w, 'm, 'e) api \<Rightarrow> team_info list \<Rightarrow> 'w \<Rightarrow> ((exn + string option) \<times> 'w) option" where
  "browse_stopped_teams M A stopped w =
     (if stopped = [] then Some (Inr None, mn_system M ''No stopped teams.'' w) else browse_stopped M A stopped 0 w)"

section \<open>The start menu\<close>

definition selector_create :: "'w menu \<Rightarrow> ('w, 'm, 'e) api \<Rightarrow> string \<Rightarrow> ('w, string option) prog" where
  "selector_create M A entry_id =
     (if entry_id = [] then andthen (writing (mn_error M ''Usage: c <catalog_entry>'')) (ret None)
      else try_except (bnd (api_create_team A entry_id) (\<lambda>t. ret (Some (ci_team_id t))))
        (\<lambda>e. if is_api_error e
           then andthen (writing (mn_error M (''Failed to create team from '' @ quoted entry_id))) (ret None) else throw e))"

text \<open>A team, the empty text to quit, or \<open>None\<close> to go on.\<close>

definition handle_choice ::
    "'w menu \<Rightarrow> ('w, 'm, 'e) api \<Rightarrow> string \<Rightarrow> team_info list \<Rightarrow> team_info list \<Rightarrow> 'w \<Rightarrow> ((exn + string option) \<times> 'w) option" where
  "handle_choice M A choice running stopped w =
     (if choice = [] \<or> choice = ''/quit'' \<or> choice = ''q'' then Some (Inr (Some []), w)
      else if isdigit choice then
        (case numbered_choice choice running of
           Inl e \<Rightarrow> Some (Inl e, w)
         | Inr (Some team) \<Rightarrow> Some (Inr (Some (ci_team_id team)), w)
         | Inr None \<Rightarrow> Some (Inr None, mn_error M (''Invalid selection: '' @ choice) w))
      else if startswith choice ''c '' then Some (selector_create M A (strip (drop 2 choice)) w)
      else if choice = ''s'' then browse_stopped_teams M A stopped w
      else Some (Inr None, mn_error M (''Unknown choice: '' @ choice) w))"

text \<open>What is shown and asked in one round of \<open>run\<close>.\<close>

definition menu_round :: "'w menu \<Rightarrow> ('w, 'm, 'e) api \<Rightarrow> ('w, string \<times> team_info list \<times> team_info list) prog" where
  "menu_round M A = bnd (fetch_teams A) (\<lambda>teams.
     let running = filter (\<lambda>t. ci_status t = ''running'') teams; stopped = filter (\<lambda>t. ci_status t = ''stopped'') teams in
     andthen (render_menu M A running) (bnd (mn_input M) (\<lambda>line. ret (strip line, running, stopped))))"

partial_function (option) selector_run :: "'w menu \<Rightarrow> ('w, 'm, 'e) api \<Rightarrow> 'w \<Rightarrow> ((exn + string option) \<times> 'w) option" where
  "selector_run M A w =
     (case menu_round M A w of
        (Inl e, w') \<Rightarrow> Some (Inl e, w')
      | (Inr (choice, running, stopped), w') \<Rightarrow>
          (case handle_choice M A choice running stopped w' of
             None \<Rightarrow> None
           | Some (Inl e, u) \<Rightarrow> Some (Inl e, u)
           | Some (Inr None, u) \<Rightarrow> selector_run M A u
           | Some (Inr (Some i), u) \<Rightarrow> Some (Inr (if i = [] then None else Some i), u)))"

section \<open>The menu ends with its input\<close>

text \<open>\<open>left\<close> counts the lines still to be read: reading one takes it away, and nothing adds one.\<close>

definition input_runs_out :: "'w menu \<Rightarrow> ('w, 'm, 'e) api \<Rightarrow> ('w \<Rightarrow> nat) \<Rightarrow> bool" where
  "input_runs_out M A left \<longleftrightarrow>
     (\<forall>w. case mn_input M w of (Inl _, _) \<Rightarrow> True | (Inr _, w') \<Rightarrow> left w' < left w) \<and>
     (\<forall>c w. left (snd (al_send A c w)) \<le> left w) \<and> (\<forall>p w. left (mn_show M p w) \<le> left w) \<and>
     (\<forall>t w. left (mn_error M t w) \<le> left w) \<and> (\<forall>t w. left (mn_system M t w) \<le> left w)"

text \<open>A program that leaves no more lines than there were.\<close>

definition no_longer :: "('w \<Rightarrow> nat) \<Rightarrow> ('w, 'a) prog \<Rightarrow> bool" where
  "no_longer left m \<longleftrightarrow> (\<forall>w. left (snd (m w)) \<le> left w)"

lemma no_longerD: "no_longer left m \<Longrightarrow> m w = (r, w') \<Longrightarrow> left w' \<le> left w"
  unfolding no_longer_def by (metis snd_conv)

lemma no_longer_basic: "no_longer left (ret x)" "no_longer left (throw e)" "no_longer left (reading g)"
  by (simp_all add: no_longer_def)

lemma no_longer_bnd: "no_longer left m \<Longrightarrow> (\<And>x. no_longer left (n x)) \<Longrightarrow> no_longer left (bnd m n)"
  unfolding no_longer_def bnd_def
  by (auto split: prod.split sum.split) (metis snd_conv order_trans)+

lemma no_longer_try: "no_longer left m \<Longrightarrow> (\<And>e. no_longer left (h e)) \<Longrightarrow> no_longer left (try_except m h)"
  unfolding no_longer_def try_except_def
  by (auto split: prod.split sum.split) (metis snd_conv order_trans)+

lemma no_longer_if: "no_longer left m \<Longrightarrow> no_longer left n \<Longrightarrow> no_longer left (if b then m else n)"
  by simp

lemmas no_longer_intros = no_longer_basic no_longer_bnd no_longer_try no_longer_if

lemma no_longer_api:
  assumes "input_runs_out M A left"
  shows "no_longer left (api_list_teams A)" "no_longer left (list_catalog_teams A)" "no_longer left (api_restore_team A i)"
    "no_longer left (api_create_team A c)"
proof -
  have "left (snd (al_send A call w)) \<le> left w" for call w using assms by (simp add: input_runs_out_def)
  then have s: "no_longer left (send_call A call)" for call
    by (auto simp: no_longer_def send_call_def split: prod.split sum.split send_failure.split) (metis snd_conv)+
  then have r: "no_longer left (api_request A m u js params up data)" for m u js params up data
    by (simp add: api_request_def)
  show "no_longer left (api_list_teams A)" "no_longer left (list_catalog_teams A)" "no_longer left (api_restore_team A i)"
    "no_longer left (api_create_team A c)"
    unfolding api_list_teams_def list_catalog_teams_def api_restore_team_def api_create_team_def decoded_def
    by (intro no_longer_intros r s)+
qed

lemma input_laws:
  assumes "input_runs_out M A left"
  shows "mn_input M w = (Inr line, w') \<Longrightarrow> left w' < left w" "left (mn_show M p w) \<le> left w"
    "left (mn_error M t w) \<le> left w" "left (mn_system M t w) \<le> left w"
  using assms unfolding input_runs_out_def by (auto, metis (mono_tags, lifting) case_prod_conv sum.case(2))

text \<open>The result of a loop that has returned, having consumed no more than there was if it goes on.\<close>

definition ends_within :: "('w \<Rightarrow> nat) \<Rightarrow> nat \<Rightarrow> ((exn + string option) \<times> 'w) option \<Rightarrow> bool" where
  "ends_within left n out \<longleftrightarrow> (case out of None \<Rightarrow> False | Some (Inr None, u) \<Rightarrow> left u \<le> n | Some _ \<Rightarrow> True)"

lemma ends_within_simps [simp]:
  "ends_within left n (Some (Inl e, u))" "ends_within left n (Some (Inr (Some i), u))"
  "ends_within left n (Some (Inr None, u)) \<longleftrightarrow> left u \<le> n" "\<not> ends_within left n None"
  by (simp_all add: ends_within_def)

lemma ends_within_mono: "ends_within left m out \<Longrightarrow> m \<le> n \<Longrightarrow> ends_within left n out"
  by (auto simp: ends_within_def split: option.splits prod.splits sum.splits)

lemma browsing_ends:
  assumes I: "input_runs_out M A left" and stopped: "stopped \<noteq> []"
  shows "ends_within left (left w) (browse_stopped M A stopped page w)"
proof (induction "left w" arbitrary: page w rule: less_induct)
  case less
  note laws = input_laws [OF I]
  have again: "ends_within left (left w) (browse_stopped M A stopped p v)" if "left v < left w" for p v
    using ends_within_mono [OF less [OF that]] that by simp
  have some: "ends_within left (left w) (browse_stopped M A stopped page w)"
    if ne: "take stopped_page_size (drop (page * stopped_page_size) stopped) \<noteq> []" for page
  proof -
    let ?ts = "take stopped_page_size (drop (page * stopped_page_size) stopped)"
    let ?next = "page * stopped_page_size + stopped_page_size < length stopped"
    let ?w = "mn_show M (StoppedPage (''Stopped teams ('' @ nat_str (length stopped) @ '' total):'') (numbered_teams ?ts) ?next) w"
    obtain x w' where inp: "mn_input M ?w = (x, w')" by force
    show ?thesis
    proof (cases x)
      case (Inl e)
      then show ?thesis using inp ne by (simp add: browse_stopped.simps [of M A stopped page w] Let_def)
    next
      case (Inr line)
      then have w': "left w' < left w" using laws(1) [of ?w line w'] laws(2) inp by (meson order.strict_trans2)
      have e: "left (mn_error M t v) < left w" if "left v < left w" for t v using laws(3) that by (meson order.strict_trans1)
      have r: "left u < left w" if "api_restore_team A i w' = (y, u)" for i y u
        using no_longerD [OF no_longer_api(3) [OF I] that] w' by simp
      show ?thesis
        using inp Inr ne w'
        by (auto simp: browse_stopped.simps [of M A stopped page w] Let_def split: sum.split option.split prod.split
            intro!: again e dest: r)
    qed
  qed
  show ?case
  proof (cases "take stopped_page_size (drop (page * stopped_page_size) stopped) = []")
    case True
    have "take stopped_page_size (drop (0 * stopped_page_size) stopped) \<noteq> []"
      using stopped by (simp add: stopped_page_size_def)
    then show ?thesis using True some [of 0] by (simp add: browse_stopped.simps [of M A stopped page w])
  qed (rule some)
qed

lemma choice_ends:
  assumes I: "input_runs_out M A left"
  shows "ends_within left (left w) (handle_choice M A choice running stopped w)"
proof -
  note laws = input_laws [OF I]
  have create: "ends_within left (left w) (Some (selector_create M A c w))" for c
  proof -
    have "no_longer left (selector_create M A c)"
      unfolding selector_create_def andthen_def using laws(3)
      by (intro no_longer_intros no_longer_api [OF I]) (simp_all add: no_longer_def)
    then show ?thesis
      by (cases "selector_create M A c w") (auto simp: ends_within_def dest: no_longerD split: sum.split option.split)
  qed
  show ?thesis
    unfolding handle_choice_def browse_stopped_teams_def
    using laws(3,4) create browsing_ends [OF I] by (auto split: sum.split option.split)
qed

text \<open>
  C20. The start menu ends. Whatever the server answers, when the lines of input are finitely many the menu returns: with
  a team, with the wish to quit, or with the exception that the end of the input raises.
\<close>

theorem start_menu_ends:
  assumes "input_runs_out M A left"
  shows "\<exists>r u. selector_run M A w = Some (r, u)"
proof (induction "left w" arbitrary: w rule: less_induct)
  case less
  note laws = input_laws [OF assms]
  obtain x w' where round: "menu_round M A w = (x, w')" by force
  show ?case
  proof (cases x)
    case (Inl e)
    then show ?thesis using round by (simp add: selector_run.simps [of M A w])
  next
    case (Inr y)
    obtain choice running stopped where y: "y = (choice, running, stopped)" by (metis prod.collapse)
    have before: "no_longer left (fetch_teams A)" "no_longer left (render_menu M A rs)" for rs
      unfolding fetch_teams_def or_if_api_error_def render_menu_def fetch_catalog_def using laws(2)
      by (intro no_longer_intros no_longer_api [OF assms]; simp add: no_longer_def)+
    have w': "left w' < left w"
      using round Inr y
      by (auto simp: menu_round_def bnd_Inr_iff andthen_def Let_def)
        (meson before laws(1) no_longerD order.strict_trans2 order_trans)
    obtain out where out: "handle_choice M A choice running stopped w' = out" by simp
    have ends: "ends_within left (left w') out" using choice_ends [OF assms] out by blast
    then obtain q u where q: "out = Some (q, u)" by (cases out) auto
    show ?thesis
    proof (cases q)
      case (Inl e)
      then show ?thesis using round \<open>x = Inr y\<close> y out q by (simp add: selector_run.simps [of M A w])
    next
      case (Inr z)
      then have "z = None \<Longrightarrow> left u < left w" using ends q w' by simp
      then show ?thesis
        using less round \<open>x = Inr y\<close> y out q Inr by (cases z) (auto simp: selector_run.simps [of M A w])
    qed
  qed
qed

text \<open>A user who asks for a team that is not there, and then has nothing more to say.\<close>

definition typing_menu :: "string list menu" where
  "typing_menu = \<lparr>mn_show = (\<lambda>_ w. w), mn_error = (\<lambda>_ w. w), mn_system = (\<lambda>_ w. w),
     mn_input = (\<lambda>w. case w of [] \<Rightarrow> (Inl (OtherError ''EOFError''), []) | l # ls \<Rightarrow> (Inr l, ls))\<rparr>"

definition deaf_api :: "(string list, unit, unit) api" where
  "deaf_api = \<lparr>al_send = (\<lambda>call w. (Inl RequestTimedOut, w)), al_json = (\<lambda>_. Inl (ValueError [])),
     al_deserialize = (\<lambda>_. Inr None), al_entry = (\<lambda>_. Inr ()), al_int = (\<lambda>_. None), al_bool = (\<lambda>_. None)\<rparr>"

theorem start_menu_ends_witness: "\<exists>r u. selector_run typing_menu deaf_api [''3'', ''s'', ''c team''] = Some (r, u)"
proof -
  have "input_runs_out typing_menu deaf_api length"
    by (auto simp: input_runs_out_def typing_menu_def deaf_api_def split: list.split)
  then show ?thesis by (rule start_menu_ends)
qed

end
