(* ===== verification/ChatSafety.thy ===== *)
theory ChatSafety
  imports ChatSession
begin

text \<open>
  What a chat session can do to the server and what it guarantees of the lines the user types: nothing is deleted
  without a yes, lines typed while the connection is down are sent in order, and an answer goes to the request.
\<close>

section \<open>Frames of the client, the renderer and the sockets\<close>

text \<open>\<open>f\<close> is something of the world that only a \<open>DELETE\<close> request and the user's answers could change.\<close>

definition spares_sends :: "('w, 'm, 'e) api \<Rightarrow> ('w \<Rightarrow> 'o) \<Rightarrow> bool" where
  "spares_sends A f \<longleftrightarrow> (\<forall>c w. ca_method c = ''DELETE'' \<or> f (snd (al_send A c w)) = f w)"

definition renderer_spares :: "'s renderer \<Rightarrow> ('s \<Rightarrow> 'o) \<Rightarrow> bool" where
  "renderer_spares R f \<longleftrightarrow>
     (\<forall>a t. keeps f (rn_agent R a t)) \<and> (\<forall>t. keeps f (rn_error R t)) \<and> (\<forall>t. keeps f (rn_warning R t)) \<and>
     (\<forall>n i r. keeps f (rn_tool_call R n i r)) \<and> (\<forall>t. keeps f (rn_human_input R t)) \<and>
     (\<forall>t. keeps f (rn_system R t)) \<and> (\<forall>t. keeps f (rn_connection R t)) \<and> keeps f (rn_border R)"

definition sockets_spare :: "('w, 'f, 'm) sockets \<Rightarrow> ('w \<Rightarrow> 'o) \<Rightarrow> bool" where
  "sockets_spare L f \<longleftrightarrow>
     (\<forall>u hs w. f (snd (so_open L u hs w)) = f w) \<and> (\<forall>k. keeps f (so_recv L k)) \<and> (\<forall>k. keeps f (so_close L k)) \<and>
     (\<forall>n. keeps f (so_sleep L n))"

definition spares :: "('w, 'f, 'e) repl \<Rightarrow> ('w \<Rightarrow> 'o) \<Rightarrow> bool" where
  "spares E f \<longleftrightarrow> spares_sends (rp_api E) f \<and> renderer_spares (rp_renderer E) f \<and> sockets_spare (rp_sockets E) f \<and>
     (\<forall>t w. f (tm_out (sh_terminal (rp_shell E)) t w) = f w) \<and> (\<forall>p w. f (snd (rp_ask E p w)) = f w)"

lemma keeps_case_exn [frame_intros]:
  "(\<And>c d. keeps f (h c d)) \<Longrightarrow> keeps f k \<Longrightarrow> keeps f (case e of ApiError c d \<Rightarrow> h c d | _ \<Rightarrow> k)"
  by (cases e) auto

lemma keeps_request: "spares_sends A f \<Longrightarrow> method \<noteq> ''DELETE'' \<Longrightarrow> keeps f (api_request A method path js params up data)"
  by (rule keepsI)
    (auto simp: api_request_def spares_sends_def send_call_def plain_call_def split: prod.split sum.split send_failure.split,
     (metis api_call.select_convs(1) api_call.update_convs snd_conv)+)

lemma keeps_api:
  assumes "spares_sends A f"
  shows "keeps f (api_list_teams A)" "keeps f (api_get_team A i)" "keeps f (api_create_team A c)" "keeps f (api_stop_team A i)"
    "keeps f (api_restore_team A i)" "keeps f (api_get_events A i)" "keeps f (api_send_message A i t)"
    "keeps f (api_send_message_to A i a t)" "keeps f (api_human_input A i t m)" "keeps f (api_workspace_tree A i)"
    "keeps f (api_workspace_read A i p)" "keeps f (api_workspace_upload A i p d)" "keeps f (list_catalog_teams A)"
  unfolding api_list_teams_def api_get_team_def api_create_team_def api_stop_team_def api_restore_team_def
    api_get_events_def api_send_message_def api_send_message_to_def api_human_input_def api_workspace_tree_def
    api_workspace_read_def api_workspace_upload_def list_catalog_teams_def decoded_def no_answer_def
  by (intro frame_intros keeps_request [OF assms]; simp)+

lemma keeps_renderer:
  assumes "renderer_spares R f"
  shows "keeps f (rn_agent R a t)" "keeps f (rn_error R t)" "keeps f (rn_warning R t)" "keeps f (rn_tool_call R n i r)"
    "keeps f (rn_human_input R t)" "keeps f (rn_system R t)" "keeps f (rn_connection R t)" "keeps f (rn_border R)"
  using assms by (simp_all add: renderer_spares_def)

lemma keeps_route:
  assumes "renderer_spares R f" "\<And>a b. keeps f (cb a b)"
  shows "keeps f (route_event F R (Some cb) e)"
proof -
  note r = keeps_renderer [OF assms(1)]
  have "keeps f (paint R wd)" for wd by (cases wd) (auto simp: paint_def intro: r frame_intros)
  moreover have "keeps f (asks F (Some cb) e)"
    by (auto simp: asks_def notify_human_input_def Let_def split: chat_event.split nested_event.split
        intro!: frame_intros assms(2))
  ultimately show ?thesis
    unfolding both_views_agree [where cs = "(new_colors, None)"]
    by (cases "fst (to_widget F e (new_colors, None))") (simp_all add: frame_intros)
qed

section \<open>Frames of the connection\<close>

lemma keeps_on_cn_net: "keeps f p \<Longrightarrow> keeps (\<lambda>c. f (cn_net c)) (on_cn_net p)"
  by (rule keepsI) (auto simp: keeps_def on_cn_net_def on_part_def split: prod.split, metis snd_conv)

lemma keeps_set_state: "keeps (\<lambda>c. f (cn_net c)) (set_state st)"
  by (simp add: set_state_def keeps_writing)

lemma keeps_touch: "keeps (\<lambda>c. f (cn_net c)) (touch L)"
  by (simp add: touch_def keeps_writing)

lemma keeps_ws_connect: "sockets_spare L f \<Longrightarrow> keeps f (ws_connect L c)"
  by (rule keepsI) (auto simp: sockets_spare_def ws_connect_def split: prod.split sum.split, (metis snd_conv)+)

lemma keeps_ws_close: "sockets_spare L f \<Longrightarrow> keeps f (ws_close L c)"
  by (auto simp: sockets_spare_def ws_close_def intro!: frame_intros split: option.split)

lemma keeps_cn_connect: "sockets_spare L f \<Longrightarrow> keeps (\<lambda>c. f (cn_net c)) (cn_connect L)"
  by (rule keepsI) (auto simp: cn_connect_run sockets_spare_def Let_def split: prod.split sum.split, (metis snd_conv)+)

lemma keeps_attempts: "sockets_spare L f \<Longrightarrow> keeps (\<lambda>c. f (cn_net c)) (attempts L k n)"
proof (induction n arbitrary: k)
  case 0
  then show ?case by (simp add: keeps_def andthen_def bnd_def set_state_def)
next
  case (Suc n)
  moreover have "keeps f (so_sleep L (backoff k))" using Suc.prems by (simp add: sockets_spare_def)
  ultimately show ?case by (simp, intro frame_intros keeps_cn_connect keeps_on_cn_net)
qed

lemma keeps_cn_reconnect: "sockets_spare L f \<Longrightarrow> keeps (\<lambda>c. f (cn_net c)) (cn_reconnect L)"
  using keeps_attempts [of L f] by (simp add: keeps_def cn_reconnect_def andthen_def bnd_def set_state_def)

lemma keeps_switch_team: "sockets_spare L f \<Longrightarrow> keeps (\<lambda>c. f (cn_net c)) (switch_team L i)"
proof (rule keepsI)
  fix s assume L: "sockets_spare L f"
  have "f (snd (so_close L k w)) = f w" for k w using L by (simp add: sockets_spare_def keeps_def)
  moreover have "f (snd (so_open L u hs w)) = f w" for u hs w using L by (simp add: sockets_spare_def)
  ultimately show "f (cn_net (snd (switch_team L i s))) = f (cn_net s)"
    using switch_team_run [of s i L]
    by (auto simp: Let_def split: prod.splits sum.splits option.splits) (metis snd_conv)+
qed

lemma ws_receive_keeps:
  fixes L :: "('w, 'f, 'm) sockets"
  assumes "ws_receive L c w = Some y" "sockets_spare L f"
  shows "f (snd (snd y)) = f w"
proof (rule ws_receive.raw_induct [where P = "\<lambda>L c w y. sockets_spare L f \<longrightarrow> f (snd (snd y)) = f w",
      OF _ assms(1), THEN mp, OF _ assms(2)], rule impI)
  fix loop :: "('w, 'f, 'm) sockets \<Rightarrow> ws_client \<Rightarrow> 'w \<Rightarrow> ((exn + 'm) \<times> ws_client \<times> 'w) option" and L c w y
  assume IH: "\<And>L c w y. loop L c w = Some y \<Longrightarrow> sockets_spare L f \<longrightarrow> f (snd (snd y)) = f w"
    and L: "sockets_spare L f"
    and run: "(case wc_ws c of None \<Rightarrow> Some (Inl not_connected, c, w)
      | Some k \<Rightarrow> (case so_recv L k w of (Inl e, w') \<Rightarrow> Some (Inl e, c, w')
        | (Inr frame, w') \<Rightarrow> (case so_loads L frame of Inl e \<Rightarrow> Some (Inl e, c, w')
          | Inr parsed \<Rightarrow> (case so_deserialize L (snd (unwrap_v1 c parsed)) of
               Inl e \<Rightarrow> if is_value_error e then loop L (fst (unwrap_v1 c parsed)) w'
                 else Some (Inl e, fst (unwrap_v1 c parsed), w')
             | Inr None \<Rightarrow> loop L (fst (unwrap_v1 c parsed)) w'
             | Inr (Some m) \<Rightarrow> Some (Inr m, fst (unwrap_v1 c parsed), w'))))) = Some y"
  have "f w' = f w" if "so_recv L k w = (x, w')" for k x w w'
    using L that keepsD [of f "so_recv L k"] by (simp add: sockets_spare_def)
  then show "f (snd (snd y)) = f w"
    using run IH L by (auto split: option.splits prod.splits sum.splits if_splits)
qed

lemma keeps_cn_receive:
  fixes L :: "('w, 'f, 'm) sockets"
  assumes "cn_receive L s = Some y" "sockets_spare L f"
  shows "f (cn_net (snd y)) = f (cn_net s)"
proof (rule cn_receive.raw_induct [where P = "\<lambda>L s y. sockets_spare L f \<longrightarrow> f (cn_net (snd y)) = f (cn_net s)",
      OF _ assms(1), THEN mp, OF _ assms(2)], rule impI)
  fix loop :: "('w, 'f, 'm) sockets \<Rightarrow> 'w conn \<Rightarrow> ((exn + 'm) \<times> 'w conn) option" and L s y
  assume IH: "\<And>L s y. loop L s = Some y \<Longrightarrow> sockets_spare L f \<longrightarrow> f (cn_net (snd y)) = f (cn_net s)"
    and L: "sockets_spare L f"
    and run: "(case cn_ws_client s of None \<Rightarrow> Some (Inl (WsConnectionError ''Not connected'' False), s)
      | Some c \<Rightarrow> (case ws_receive L c (cn_net s) of None \<Rightarrow> None
        | Some (r, c', w) \<Rightarrow> (let t = s\<lparr>cn_ws_client := Some c', cn_net := w\<rparr> in
            case r of Inl e \<Rightarrow> if e = ConnectionClosed
                then (case cn_reconnect L t of (Inl e', u) \<Rightarrow> Some (Inl e', u) | (Inr _, u) \<Rightarrow> loop L u)
                else Some (Inl e, t)
            | Inr m \<Rightarrow> Some (Inr m, snd (touch L t))))) = Some y"
  have a: "f w = f (cn_net s)" if "ws_receive L c (cn_net s) = Some (r, c', w)" for c r c' w
    using ws_receive_keeps [OF that L] by simp
  have b: "f (cn_net u) = f (cn_net t)" if "cn_reconnect L t = (x, u)" for x t u
    using keepsD [OF keeps_cn_reconnect [OF L] that] .
  have c: "cn_net (snd (touch L t)) = cn_net t" for t by (simp add: touch_def)
  show "f (cn_net (snd y)) = f (cn_net s)"
    using run IH L by (auto simp: Let_def c split: option.splits prod.splits sum.splits if_splits dest!: a b)
qed

section \<open>Frames of the session\<close>

abbreviation of_world :: "('w \<Rightarrow> 'o) \<Rightarrow> 'w session \<Rightarrow> 'o" where
  "of_world f s \<equiv> f (world s)"

lemma keeps_on_world: "keeps f p \<Longrightarrow> keeps (of_world f) (in_world_of p)"
  by (rule keepsI) (auto simp: keeps_def in_world_of_def on_part_def world_def split: prod.split, metis snd_conv)

lemma keeps_session_writing:
  "keeps (of_world f) (writing (\<lambda>s. s\<lparr>se_team_id := i\<rparr>))"
  "keeps (of_world f) (writing (\<lambda>s. s\<lparr>se_team_name := i, se_team_status := j\<rparr>))"
  "keeps (of_world f) (writing (\<lambda>s. s\<lparr>se_input_mode := m, se_reply := r\<rparr>))"
  "keeps (of_world f) (writing (\<lambda>s. s\<lparr>se_connection := c\<rparr>))"
  "keeps (of_world f) (writing (\<lambda>s. s\<lparr>se_buffer := b\<rparr>))"
  "keeps (of_world f) (writing (\<lambda>s. s\<lparr>se_buffer := se_buffer s @ [l]\<rparr>))"
  "keeps (of_world f) (writing (\<lambda>s. s\<lparr>se_task := t\<rparr>))"
  by (simp_all add: keeps_def world_def)

lemma keeps_or_api_error: "keeps f m \<Longrightarrow> (\<And>d. keeps f (h d)) \<Longrightarrow> keeps f (or_api_error m h)"
  unfolding or_api_error_def by (intro frame_intros)

lemma keeps_fetching:
  "renderer_spares R f \<Longrightarrow> keeps f p \<Longrightarrow> (\<And>x. keeps f (k x)) \<Longrightarrow> keeps f (fetching R what p k)"
  unfolding fetching_def by (intro frame_intros keeps_renderer) simp_all

lemma spares_parts:
  assumes "spares E f"
  shows "spares_sends (rp_api E) f" "renderer_spares (rp_renderer E) f" "sockets_spare (rp_sockets E) f"
    "keeps f (print_line (rp_shell E) t)" "keeps f (asking (rp_ask E) prompt)"
    "keeps f (writing (tm_out (sh_terminal (rp_shell E)) t))"
    "renderer_spares (session_renderer (rp_renderer E)) (of_world f)"
  using assms
  by (auto simp: spares_def print_line_def echo_def asking_def keeps_def session_renderer_def renderer_spares_def split: prod.split
      intro!: keeps_on_world [unfolded keeps_def, rule_format] intro: snd_conv) (metis snd_conv)

lemmas session_frames = keeps_on_world keeps_session_writing keeps_or_api_error keeps_fetching frame_intros

text \<open>The commands that only use the client and the terminal, whichever these are.\<close>

lemma keeps_shell_commands:
  assumes A: "spares_sends (sh_api H) f" and R: "renderer_spares R f" and T: "\<And>t. keeps f (writing (tm_out (sh_terminal H) t))"
  shows "keeps f (help_handler H cmds)" "keeps f (teams_handler H R i)" "keeps f (info_handler H R i args)"
    "keeps f (events_handler H R i args)" "keeps f (agents_handler H R i)" "keeps f (files_handler H R i)"
    "keeps f (read_handler H R i args)" "keeps f (upload_handler H R i args)" "keeps f (stop_handler H R i)"
    "keeps f (catalog_handler H R)"
proof -
  note a = keeps_api [OF A]
  have p: "keeps f (print_line H t)" for t using T by (simp add: print_line_def echo_def)
  show "keeps f (help_handler H cmds)" "keeps f (teams_handler H R i)" "keeps f (info_handler H R i args)"
    "keeps f (events_handler H R i args)" "keeps f (agents_handler H R i)" "keeps f (files_handler H R i)"
    "keeps f (read_handler H R i args)" "keeps f (upload_handler H R i args)" "keeps f (stop_handler H R i)"
    "keeps f (catalog_handler H R)"
    unfolding help_handler_def teams_handler_def info_handler_def events_handler_def agents_handler_def files_handler_def
      read_handler_def upload_handler_def stop_handler_def catalog_handler_def Let_def
    by (auto split: prod.split option.split intro!: keeps_fetching R T p a frame_intros simp del: for_each.simps)
qed

lemmas keeps_team_commands = keeps_shell_commands [OF spares_parts(1,2,6)]

text \<open>A user who never answers yes.\<close>

definition never_yes :: "('w, 'f, 'e) repl \<Rightarrow> bool" where
  "never_yes E \<longleftrightarrow> (\<forall>p w. case fst (rp_ask E p w) of None \<Rightarrow> True | Some a \<Rightarrow> lower (strip a) \<noteq> ''y'')"

lemma keeps_delete:
  assumes S: "spares E f" and N: "never_yes E"
  shows "keeps f (delete_handler (rp_shell E) (rp_renderer E) (rp_ask E) i args)"
proof -
  note p = spares_parts [OF S] and a = keeps_api [OF spares_parts(1) [OF S]]
  have b: "keeps f (bnd (asking (rp_ask E) prompt) (\<lambda>answer. case answer of None \<Rightarrow> m
      | Some response \<Rightarrow> if lower (strip response) \<noteq> ''y'' then n else q))" if "keeps f m" "keeps f n" for prompt m n q
  proof (rule keepsI)
    fix w
    obtain r w' where ask: "rp_ask E prompt w = (r, w')" by force
    have "f w' = f w" using S ask unfolding spares_def by (metis snd_conv)
    moreover have "case r of None \<Rightarrow> True | Some t \<Rightarrow> lower (strip t) \<noteq> ''y''"
      using N ask unfolding never_yes_def by (metis fst_conv)
    ultimately show "f (snd (bnd (asking (rp_ask E) prompt) (\<lambda>answer. case answer of None \<Rightarrow> m
      | Some response \<Rightarrow> if lower (strip response) \<noteq> ''y'' then n else q) w)) = f w"
      using that ask by (cases r) (simp_all add: bnd_def asking_def keeps_def)
  qed
  show ?thesis unfolding delete_handler_def Let_def by (intro keeps_fetching b p a)
qed

text \<open>The commands of the session.\<close>

lemma keeps_session_parts:
  assumes S: "spares E f"
  shows "keeps (of_world f) (show_err E t)" "keeps (of_world f) (say E t)" "keeps (of_world f) (flush_loop E ms)"
    "keeps (of_world f) (on_conn_state_change E st)" "keeps (of_world f) (render_event E e)"
    "keeps (of_world f) (fetch_team_info E)" "keeps (of_world f) stop_receiving"
proof -
  note p = spares_parts [OF S] and a = keeps_api [OF spares_parts(1) [OF S]]
  show e: "keeps (of_world f) (show_err E t)" for t
    unfolding show_err_def by (intro keeps_on_world keeps_renderer p)
  show "keeps (of_world f) (say E t)" unfolding say_def by (intro keeps_on_world p)
  show l: "keeps (of_world f) (flush_loop E ms)" for ms
    by (induction ms) (simp_all only: flush_loop.simps, (intro session_frames a e)+)
  show "keeps (of_world f) (on_conn_state_change E st)"
    unfolding on_conn_state_change_def flush_message_buffer_def by (intro session_frames l)
  show "keeps (of_world f) (render_event E e)"
    unfolding render_event_def set_pending_def by (intro keeps_route p session_frames)
  show "keeps (of_world f) (fetch_team_info E)" unfolding fetch_team_info_def by (intro session_frames a)
  show "keeps (of_world f) stop_receiving"
    unfolding stop_receiving_def by (auto split: receive_task.split intro!: session_frames)
qed

lemma keeps_call_conn:
  fixes E :: "('w, 'f, 'e) repl"
  assumes S: "spares E f" and p: "keeps (\<lambda>c. f (cn_net c)) p"
  shows "keeps (of_world f) (call_conn E p)"
proof (rule keepsI)
  fix s :: "'w session"
  obtain r c where run: "p (se_conn s) = (r, c)" by force
  let ?cbs = "for_each (on_conn_state_change E) (drop (length (cn_notified (se_conn s))) (cn_notified c))"
  have "keeps (of_world f) ?cbs" by (intro keeps_for_each keeps_session_parts(4) [OF S])
  then have "f (world (snd (?cbs (s\<lparr>se_conn := c\<rparr>)))) = f (cn_net c)" by (simp add: keeps_def world_def)
  moreover have "f (cn_net c) = f (world s)" using keepsD [OF p run] by (simp add: world_def)
  ultimately show "f (world (snd (call_conn E p s))) = f (world s)"
    using run by (auto simp: call_conn_def split: prod.split sum.split)
qed

lemma keeps_moving_commands:
  assumes S: "spares E f"
  shows "keeps (of_world f) (switch_handler E args)" "keeps (of_world f) (create_handler E args)"
    "keeps (of_world f) (restore_handler E args)" "keeps (of_world f) (reconnect_handler E)"
    "keeps (of_world f) (history_handler E args)"
proof -
  note p = spares_parts [OF S] and a = keeps_api [OF spares_parts(1) [OF S]] and q = keeps_session_parts [OF S]
  note c = keeps_call_conn [OF S]
  show s: "keeps (of_world f) (switch_handler E args)" for args
    unfolding switch_handler_def Let_def
    by (intro session_frames q c keeps_switch_team keeps_renderer p)
  show "keeps (of_world f) (create_handler E args)"
    unfolding create_handler_def session_fetching_def Let_def by (intro session_frames q s a p)
  show "keeps (of_world f) (restore_handler E args)"
    unfolding restore_handler_def session_fetching_def Let_def by (intro session_frames q s a p)
  show "keeps (of_world f) (reconnect_handler E)"
    unfolding reconnect_handler_def by (intro session_frames q c keeps_cn_connect keeps_renderer p)
  show "keeps (of_world f) (history_handler E args)"
    unfolding history_handler_def session_fetching_def by (intro session_frames q a p)
qed

lemma registered_handlers:
  "map_of (foldl (\<lambda>r ((name, help, usage), h). register_command name h help usage r) r zs) n = Some c \<Longrightarrow>
     sc_handler c \<in> snd ` set zs \<or> map_of r n = Some c"
proof (induction zs arbitrary: r)
  case (Cons z zs)
  obtain name hp usage h where z: "z = ((name, hp, usage), h)" by (metis prod.collapse)
  show ?case
    using Cons.IH [of "register_command name h hp usage r"] Cons.prems
    by (auto simp: z register_command_def split: if_splits)
qed simp

lemma keeps_registered:
  assumes S: "spares E f" and N: "never_yes E" and c: "map_of (build_default_registry E) n = Some c"
  shows "keeps (of_world f) (sc_handler c args)"
proof -
  have "sc_handler c \<in> set (session_handlers E)"
    using registered_handlers [OF c [unfolded build_default_registry_def]] by (auto dest: set_zip_rightD)
  then show ?thesis
    unfolding session_handlers_def Let_def
    by (auto simp: on_team_def
        intro!: session_frames keeps_team_commands [OF S S S] keeps_delete [OF S N] keeps_moving_commands [OF S] keeps_session_parts [OF S])
qed

lemma keeps_typed_line:
  assumes S: "spares E f" and N: "never_yes E"
  shows "keeps (of_world f) (typed_line E line)"
proof -
  note p = spares_parts [OF S] and a = keeps_api [OF spares_parts(1) [OF S]] and q = keeps_session_parts [OF S]
  have d: "keeps (of_world f) (dispatch (build_default_registry E) (say E) line)"
    unfolding dispatch_def using keeps_registered [OF S N]
    by (auto split: option.split prod.split intro!: session_frames q)
  have g: "keeps (of_world f) (check_connection_gate E line)"
    unfolding check_connection_gate_def by (intro session_frames q keeps_renderer p)
  have h: "keeps (of_world f) (handle_reply E line)"
    unfolding handle_reply_def by (intro session_frames q a)
  have m: "keeps (of_world f) (send_or_mention E line)"
    unfolding send_or_mention_def by (auto split: option.split prod.split intro!: session_frames a)
  show ?thesis unfolding typed_line_def by (intro session_frames d g h m q)
qed

lemma receive_turn_keeps:
  fixes E :: "('w, 'f, 'e) repl"
  assumes S: "spares E f" and t: "receive_turn E s = Some t"
  shows "f (world t) = f (world s)"
proof (cases "cn_receive (rp_sockets E) (se_conn s)")
  case None
  then show ?thesis using t by (auto simp: receive_turn_def split: if_splits)
next
  case (Some out)
  obtain r c where out: "out = (r, c)" by force
  have net: "f (cn_net c) = f (world s)"
    using keeps_cn_receive [OF Some spares_parts(3) [OF S]] by (simp add: out world_def)
  let ?run = "bnd (call_conn E (\<lambda>_. out)) (\<lambda>e. render_event E e)"
  have k: "f (world (snd (call_conn E (\<lambda>_. out) s))) = f (cn_net c)"
  proof -
    let ?cbs = "for_each (on_conn_state_change E) (drop (length (cn_notified (se_conn s))) (cn_notified c))"
    have "keeps (of_world f) ?cbs" by (intro keeps_for_each keeps_session_parts(4) [OF S])
    then have "f (world (snd (?cbs (s\<lparr>se_conn := c\<rparr>)))) = f (cn_net c)" by (simp add: keeps_def world_def)
    then show ?thesis by (auto simp: call_conn_def out split: prod.split sum.split)
  qed
  obtain x u where run: "?run s = (x, u)" by force
  have "f (world (snd (?run s))) = f (world s)"
    using k net keeps_session_parts(5) [OF S] by (auto simp: bnd_def keeps_def split: prod.split sum.split)
  then have u: "f (world u) = f (world s)" using run by simp
  obtain y v where err: "show_err E (''Connection lost: '' @ exn_str (projl x)) u = (y, v)" by force
  have v: "f (world v) = f (world u)" using keepsD [OF keeps_session_parts(1) [OF S] err] .
  have w: "world (z\<lparr>se_task := q\<rparr>) = world z" for z :: "'w session" and q by (simp add: world_def)
  show ?thesis
    using t Some run err u v
    by (cases x; cases y) (auto simp: receive_turn_def w split: if_splits)
qed

text \<open>
  C22. Nothing is deleted without a yes. When the user never answers a question with y, a chat session of any
  turns, with any commands, events, reconnections and errors, sends no \<open>DELETE\<close> request: what only such a
  request can change in the world is as it was.
\<close>

theorem nothing_deleted_without_a_yes:
  assumes "spares E f" "never_yes E" "input_loop E turns s = Some (r, t)"
  shows "f (world t) = f (world s)"
proof -
  note k = keeps_typed_line [OF assms(1,2)] and v = receive_turn_keeps [OF assms(1)]
  have "f (world t) = f (world s)" if "input_loop E turns s = Some (r, t)" for turns s
    using that
  proof (induction turns arbitrary: s)
    case (Cons turn turns)
    show ?case
    proof (cases turn)
      case (Typing line)
      obtain x u where run: "typed_line E line s = (x, u)" by force
      have "f (world u) = f (world s)" using keepsD [OF k run] .
      then show ?thesis using Cons Typing run by (auto split: sum.splits if_splits)
    next
      case Receive
      then show ?thesis using Cons v by (auto split: option.splits)
    qed
  qed simp
  then show ?thesis using assms(3) .
qed

section \<open>What is sent\<close>

text \<open>\<open>log\<close> lists the requests of the REST client, to which drawing adds nothing.\<close>

definition logs_sends :: "('w, 'f, 'e) repl \<Rightarrow> ('w \<Rightarrow> api_call list) \<Rightarrow> bool" where
  "logs_sends E log \<longleftrightarrow> (\<forall>c w. log (snd (al_send (rp_api E) c w)) = log w @ [c]) \<and> renderer_spares (rp_renderer E) log"

definition message_call :: "string \<Rightarrow> string \<Rightarrow> api_call" where
  "message_call i content = (plain_call ''POST'' (''/teams/'' @ i @ ''/message''))\<lparr>ca_json := Some [(''content'', content)]\<rparr>"

definition reply_call :: "string \<Rightarrow> string \<Rightarrow> string \<Rightarrow> api_call" where
  "reply_call i content message_id = (plain_call ''POST'' (''/teams/'' @ i @ ''/human-input''))
     \<lparr>ca_json := Some [(''content'', content), (''message_id'', message_id)]\<rparr>"

lemma send_call_log: "logs_sends E log \<Longrightarrow> log (snd (send_call (rp_api E) c w)) = log w @ [c]"
  unfolding logs_sends_def send_call_def by (auto split: prod.split sum.split send_failure.split) (metis snd_conv)+

lemma sends_one:
  assumes "logs_sends E log"
  shows "log (snd (api_send_message (rp_api E) i t w)) = log w @ [message_call i t]"
    "log (snd (api_human_input (rp_api E) i t m w)) = log w @ [reply_call i t m]"
  using send_call_log [OF assms, of "message_call i t" w] send_call_log [OF assms, of "reply_call i t m" w]
  by (auto simp: api_send_message_def api_human_input_def no_answer_def api_request_def message_call_def reply_call_def
      plain_call_def bnd_def split: prod.split sum.split)

lemma errors_log_nothing: "logs_sends E log \<Longrightarrow> log (snd (rn_error (rp_renderer E) t w)) = log w"
  by (simp add: logs_sends_def renderer_spares_def keeps_def)

text \<open>What drawing and sending leave of the session.\<close>

lemma on_world_session:
  "in_world_of p s = (fst (p (world s)), s\<lparr>se_conn := (se_conn s)\<lparr>cn_net := snd (p (world s))\<rparr>\<rparr>)"
  "world (s\<lparr>se_conn := (se_conn s)\<lparr>cn_net := w\<rparr>\<rparr>) = w"
  by (auto simp: in_world_of_def on_part_def world_def split: prod.split)

section \<open>Lines typed while the connection is down\<close>

text \<open>A line that is neither empty nor a command.\<close>

definition plain_line :: "string \<Rightarrow> bool" where
  "plain_line l \<longleftrightarrow> strip l \<noteq> [] \<and> \<not> startswith (strip l) ''/''"

lemma plain_typed:
  assumes "plain_line l"
  shows "typed_line E l s =
    (if se_input_mode s = REPLY \<and> se_reply s \<noteq> None
     then bnd (check_connection_gate E l) (\<lambda>blocked. if blocked then ret True else andthen (handle_reply E l) (ret True)) s
     else bnd (check_connection_gate E l) (\<lambda>blocked. if blocked then ret True
       else andthen (or_api_error (send_or_mention E l) (\<lambda>_. show_err E ''Error sending message.'')) (ret True)) s)"
proof -
  have "strip l \<noteq> ''/quit''" using assms by (auto simp: plain_line_def startswith_def)
  moreover have "parse_line l = None" using assms by (simp add: parse_line_def plain_line_def Let_def)
  ultimately show ?thesis
    using assms by (cases "se_reply s") (simp_all add: typed_line_def dispatch_def plain_line_def)
qed

definition type_all :: "('w, 'f, 'e) repl \<Rightarrow> string list \<Rightarrow> ('w session, unit) prog" where
  "type_all E lines = for_each (\<lambda>l. bnd (typed_line E l) (\<lambda>_. ret ())) lines"

lemma typed_while_reconnecting:
  assumes "logs_sends E log" "plain_line l" "se_connection s = RECONNECTING" "typed_line E l s = (Inr go_on, t)"
  shows "se_connection t = RECONNECTING" "se_buffer t = se_buffer s @ [l]" "se_team_id t = se_team_id s"
    "log (world t) = log (world s)"
proof -
  have sys: "log (snd (rn_system (rp_renderer E) x w)) = log w" for x w
    using assms(1) by (simp add: logs_sends_def renderer_spares_def keeps_def)
  have gate: "check_connection_gate E l s = (Inr b, t') \<Longrightarrow>
      b \<and> se_connection t' = RECONNECTING \<and> se_buffer t' = se_buffer s @ [l] \<and> se_team_id t' = se_team_id s \<and>
      log (world t') = log (world s)" for b t'
    using assms(3) by (auto simp: check_connection_gate_def andthen_def bnd_def on_world_session(1) world_def sys
        split: sum.splits prod.splits)
  have "\<exists>b. check_connection_gate E l s = (Inr b, t)"
    using assms(4) gate unfolding plain_typed [OF assms(2)]
    by (auto simp: bnd_Inr_iff split: if_splits)
  with gate show "se_connection t = RECONNECTING" "se_buffer t = se_buffer s @ [l]" "se_team_id t = se_team_id s"
    "log (world t) = log (world s)" by blast+
qed

lemma typed_all_while_reconnecting:
  assumes "logs_sends E log"
  shows "\<forall>l \<in> set ls. plain_line l \<Longrightarrow> se_connection s = RECONNECTING \<Longrightarrow> type_all E ls s = (Inr (), t) \<Longrightarrow>
    se_buffer t = se_buffer s @ ls \<and> se_team_id t = se_team_id s \<and> log (world t) = log (world s)"
proof (induction ls arbitrary: s)
  case (Cons l ls)
  obtain go_on u where u: "typed_line E l s = (Inr go_on, u)" "type_all E ls u = (Inr (), t)"
    using Cons.prems(3) by (auto simp: type_all_def andthen_def bnd_Inr_iff)
  note a = typed_while_reconnecting [OF assms _ Cons.prems(2) u(1)]
  then show ?case using Cons.IH [OF _ _ u(2)] Cons.prems(1) by auto
qed (simp add: type_all_def)

lemma flushing:
  assumes "logs_sends E log"
  shows "flush_loop E ms s = (r, u) \<Longrightarrow> se_buffer s = ms \<Longrightarrow>
    \<exists>k. log (world u) = log (world s) @ map (message_call (se_team_id s)) (take k ms) \<and> se_buffer u = drop k ms \<and>
      (r = Inr () \<longrightarrow> length ms \<le> k)"
proof (induction ms arbitrary: s)
  case Nil
  then show ?case by auto
next
  case (Cons m ms)
  let ?s = "s\<lparr>se_buffer := ms\<rparr>"
  let ?send = "or_api_error (in_world_of (api_send_message (rp_api E) (se_team_id s) m))
      (\<lambda>_. show_err E (''Failed to send buffered message: '' @ take 50 m))"
  obtain x v where send: "?send ?s = (x, v)" by force
  have v: "log (world v) = log (world s) @ [message_call (se_team_id s) m] \<and> se_buffer v = ms \<and> se_team_id v = se_team_id s"
    using send sends_one(1) [OF assms] errors_log_nothing [OF assms]
    by (auto simp: or_api_error_def try_except_def on_world_session(1) show_err_def world_def
        split: sum.splits exn.splits)
  have run: "flush_loop E (m # ms) s = (case x of Inl e \<Rightarrow> (Inl e, v) | Inr _ \<Rightarrow> flush_loop E ms v)"
    using send by (simp add: andthen_def bnd_def)
  show ?case
  proof (cases x)
    case (Inl e)
    then show ?thesis using run Cons.prems v by (intro exI [of _ 1]) auto
  next
    case (Inr y)
    then obtain k where "log (world u) = log (world v) @ map (message_call (se_team_id v)) (take k ms)"
      "se_buffer u = drop k ms" "r = Inr () \<longrightarrow> length ms \<le> k"
      using Cons.IH [of v] run Cons.prems v by auto
    then show ?thesis using v by (intro exI [of _ "Suc k"]) auto
  qed
qed

text \<open>
  Lines typed while the connection is being restored are kept and then sent: nothing goes out before, and when
  the connection is back each waiting line is sent once, in the order of typing, as an ordinary message to the
  session's team. An exception can only stop this in between, with the lines not yet tried still waiting.
\<close>

theorem lines_wait_for_the_connection:
  assumes "logs_sends E log" "\<forall>l \<in> set ls. plain_line l" "se_connection s = RECONNECTING"
    and "type_all E ls s = (Inr (), t)" "on_conn_state_change E CONNECTED t = (r, u)"
  shows "log (world t) = log (world s) \<and> se_buffer t = se_buffer s @ ls
    \<and> (\<exists>k. log (world u) = log (world s) @ map (message_call (se_team_id s)) (take k (se_buffer s @ ls))
        \<and> se_buffer u = drop k (se_buffer s @ ls) \<and> (r = Inr () \<longrightarrow> k = length (se_buffer s @ ls)))"
proof -
  note t = typed_all_while_reconnecting [OF assms(1-4)]
  let ?t = "t\<lparr>se_connection := CONNECTED\<rparr>"
  have run: "(if se_buffer t = [] then (Inr (), ?t) else flush_loop E (se_buffer t) ?t) = (r, u)"
    using assms(5) by (auto simp: on_conn_state_change_def flush_message_buffer_def andthen_def bnd_def)
  show ?thesis
  proof (cases "se_buffer t = []")
    case True
    then show ?thesis using t run by (auto simp: world_def)
  next
    case False
    then obtain k where k: "log (world u) = log (world t) @ map (message_call (se_team_id t)) (take k (se_buffer t))"
      "se_buffer u = drop k (se_buffer t)" "r = Inr () \<longrightarrow> length (se_buffer t) \<le> k"
      using flushing [OF assms(1), of "se_buffer t" ?t r u] run by (auto simp: world_def)
    have "min k n = n" if "n \<le> k" for n using that by simp
    with k t show ?thesis
      by (intro conjI exI [of _ "min k (length (se_buffer t))"]) (auto simp: min_def)
  qed
qed

section \<open>Answers\<close>

text \<open>
  C29. An answer goes to the request. After an event that asks for input was shown, the next plain line, if the
  connection is up, is sent as the answer to the very message that asked, and as nothing else; the session
  returns to chatting exactly if that succeeded, and otherwise waits for another answer to the same request.
\<close>

theorem an_answer_goes_to_the_request:
  assumes "logs_sends E log" "plain_line line" "se_connection s = CONNECTED"
    and "inner_human_input_id (sh_formatters (rp_shell E)) own nid = m" "m \<noteq> []"
    and "render_event E (CarrierEvent own sender (RequestEvent prompt content nid)) s = (Inr True, t)"
    and "typed_line E line t = (r, u)"
  shows "log (world u) = log (world s) @ [reply_call (se_team_id s) line m]
    \<and> (case fst (api_human_input (rp_api E) (se_team_id s) line m (world t)) of
         Inr _ \<Rightarrow> r = Inr True \<and> se_input_mode u = CHAT \<and> se_reply u = None
       | Inl _ \<Rightarrow> se_input_mode u = REPLY \<and> map_option rc_reply_id (se_reply u) = Some m)"
proof -
  have hi: "log (snd (rn_human_input (rp_renderer E) x w)) = log w" for x w
    using assms(1) by (simp add: logs_sends_def renderer_spares_def keeps_def)
  have t: "log (world t) = log (world s)" "se_team_id t = se_team_id s" "se_connection t = CONNECTED"
    "se_input_mode t = REPLY" "map_option rc_reply_id (se_reply t) = Some m"
    using assms(3-6)
    by (auto simp: render_event_def route_event_def handle_event_message_def session_renderer_def notify_human_input_def
        set_pending_def try_except_def andthen_def bnd_def on_world_session(1) world_def hi Let_def
        split: if_splits sum.splits)
  let ?call = "api_human_input (rp_api E) (se_team_id s) line m"
  have run: "typed_line E line t = andthen (handle_reply E line) (ret True) t"
    using t unfolding plain_typed [OF assms(2)] by (auto simp: check_connection_gate_def bnd_def)
  have reply: "handle_reply E line t = or_api_error
      (andthen (in_world_of ?call) (writing (\<lambda>s. s\<lparr>se_input_mode := CHAT, se_reply := None\<rparr>)))
      (\<lambda>_. show_err E ''Error sending reply. Try again.'') t"
    using t by (auto simp: handle_reply_def)
  show ?thesis
  proof (cases "fst (?call (world t))")
    case (Inl e)
    then show ?thesis
      using assms(7) t sends_one(2) [OF assms(1)] errors_log_nothing [OF assms(1)]
      unfolding run by (cases e)
        (auto simp: reply andthen_def bnd_def or_api_error_def try_except_def on_world_session(1) show_err_def world_def
        split: sum.splits prod.splits)
  next
    case (Inr x)
    then show ?thesis
      using assms(7) t sends_one(2) [OF assms(1)]
      unfolding run by (auto simp: reply andthen_def bnd_def or_api_error_def try_except_def on_world_session(1) world_def)
  qed
qed

section \<open>A world in which the claims can be seen\<close>

text \<open>A server that accepts everything with an empty body and a list of what it was sent; a terminal that shows nothing.\<close>

definition desk_renderer :: "api_call list renderer" where
  "desk_renderer = \<lparr>rn_agent = (\<lambda>_ _. ret ()), rn_error = (\<lambda>_. ret ()), rn_warning = (\<lambda>_. ret ()),
     rn_tool_call = (\<lambda>_ _ _. ret ()), rn_human_input = (\<lambda>_. ret ()), rn_system = (\<lambda>_. ret ()),
     rn_connection = (\<lambda>_. ret ()), rn_border = ret ()\<rparr>"

definition desk_api :: "(api_call list, chat_event, unit) api" where
  "desk_api = \<lparr>al_send = (\<lambda>call w. (Inr \<lparr>ar_status = 200, ar_content = []\<rparr>, w @ [call])),
     al_json = (\<lambda>_. Inl (ValueError [])), al_deserialize = (\<lambda>_. Inr None), al_entry = (\<lambda>_. Inr ()),
     al_int = (\<lambda>_. None), al_bool = (\<lambda>_. None)\<rparr>"

definition desk_shell :: "(api_call list, chat_event, unit) shell" where
  "desk_shell = \<lparr>sh_api = desk_api, sh_terminal = \<lparr>tm_out = (\<lambda>_ w. w), tm_err = (\<lambda>_ w. w)\<rparr>,
     sh_formatters = \<lparr>fm_json = (\<lambda>_. []), fm_compact = (\<lambda>_. []), fm_yaml = (\<lambda>_. []), fm_str = (\<lambda>_. [])\<rparr>,
     sh_fmt = TableFormat, sh_is_file = (\<lambda>_ _. False), sh_read_bytes = (\<lambda>_ _. Inl IndexError), sh_stdin = (\<lambda>_. []),
     sh_decode = (\<lambda>t. Some t), sh_dump_event = (\<lambda>_. JNull), sh_dump_entry = (\<lambda>_. JNull)\<rparr>"

definition desk_sockets :: "(api_call list, unit, chat_event) sockets" where
  "desk_sockets = \<lparr>so_open = (\<lambda>_ _ w. (Inr 1, w)), so_recv = (\<lambda>_ w. (Inl ConnectionClosed, w)),
     so_ping = (\<lambda>_. ret ()), so_close = (\<lambda>_. ret ()), so_sleep = (\<lambda>_. ret ()), so_clock = (\<lambda>_. 0),
     so_loads = (\<lambda>_. Inr JNull), so_deserialize = (\<lambda>_. Inr None)\<rparr>"

definition desk :: "(api_call list, unit, unit) repl" where
  "desk = \<lparr>rp_shell = desk_shell, rp_renderer = desk_renderer, rp_sockets = desk_sockets,
     rp_ask = (\<lambda>_ w. (Some ''no'', w))\<rparr>"

definition desk_session :: "api_call list session" where
  "desk_session = new_session (new_conn ''http://h'' ''t-1'' None 3 []) ''t-1''"

lemmas desk_defs = desk_renderer_def desk_api_def desk_shell_def desk_sockets_def desk_def

lemma desk_laws:
  "logs_sends desk (\<lambda>w. w)" "spares desk (filter (\<lambda>c. ca_method c = ''DELETE''))" "never_yes desk"
  by (auto simp: logs_sends_def spares_def spares_sends_def renderer_spares_def sockets_spare_def never_yes_def keeps_def
      desk_defs trim_def is_space_def lower_def lower_char_def)

lemma typing_ends: "\<exists>r t. input_loop E (map Typing ls) s = Some (r, t)"
  by (induction ls arbitrary: s) (auto split: prod.split sum.split)

text \<open>Asked to delete the team and answering no, then sending a line.\<close>

theorem nothing_deleted_without_a_yes_witness:
  "\<exists>r t. input_loop desk [Typing ''/delete t-1'', Typing ''hello'', Typing ''/quit''] desk_session = Some (r, t)
     \<and> filter (\<lambda>c. ca_method c = ''DELETE'') (world t) = []"
proof -
  obtain r t where run: "input_loop desk [Typing ''/delete t-1'', Typing ''hello'', Typing ''/quit''] desk_session = Some (r, t)"
    using typing_ends [of desk "[''/delete t-1'', ''hello'', ''/quit'']" desk_session] by auto
  have "world desk_session = []" by (simp add: desk_session_def new_session_def new_conn_def world_def)
  with nothing_deleted_without_a_yes [OF desk_laws(2,3) run] run show ?thesis by auto
qed

text \<open>A line that names an agent goes out to the whole team when it had to wait.\<close>

theorem lines_wait_for_the_connection_witness:
  "\<exists>t r u k. type_all desk [''@Bob hi''] (desk_session\<lparr>se_connection := RECONNECTING\<rparr>) = (Inr (), t)
     \<and> on_conn_state_change desk CONNECTED t = (r, u)
     \<and> world u = map (message_call ''t-1'') (take k [''@Bob hi'']) \<and> (r = Inr () \<longrightarrow> k = 1)"
proof -
  let ?s = "desk_session\<lparr>se_connection := RECONNECTING\<rparr>"
  have plain: "plain_line ''@Bob hi''" by (simp add: plain_line_def trim_def is_space_def startswith_def)
  have "\<exists>t. type_all desk [''@Bob hi''] ?s = (Inr (), t)"
    by (simp add: type_all_def plain_typed [OF plain] check_connection_gate_def andthen_def bnd_def desk_session_def
        new_session_def on_world_session(1) desk_defs)
  then obtain t where t: "type_all desk [''@Bob hi''] ?s = (Inr (), t)" by blast
  obtain r u where u: "on_conn_state_change desk CONNECTED t = (r, u)" by force
  have "se_connection ?s = RECONNECTING" "\<forall>l \<in> set [''@Bob hi'']. plain_line l" using plain by simp_all
  note claim = lines_wait_for_the_connection [OF desk_laws(1) this(2,1) t u]
  have "world ?s = []" "se_buffer ?s = []" "se_team_id ?s = ''t-1''"
    by (simp_all add: desk_session_def new_session_def new_conn_def world_def)
  with claim t u show ?thesis by auto
qed

theorem an_answer_goes_to_the_request_witness:
  "\<exists>t r u. render_event desk (CarrierEvent ''e-1'' (Some ''Bob'') (RequestEvent (Some (JStr ''Go on?'')) None (Some (JStr ''m-7''))))
        (desk_session\<lparr>se_connection := CONNECTED\<rparr>) = (Inr True, t)
     \<and> typed_line desk ''yes'' t = (r, u) \<and> world u = [reply_call ''t-1'' ''yes'' ''m-7''] \<and> se_input_mode u = CHAT"
proof -
  let ?s = "desk_session\<lparr>se_connection := CONNECTED\<rparr>"
  let ?e = "CarrierEvent ''e-1'' (Some ''Bob'') (RequestEvent (Some (JStr ''Go on?'')) None (Some (JStr ''m-7'')))"
  have plain: "plain_line ''yes''" by (simp add: plain_line_def trim_def is_space_def startswith_def)
  have m: "inner_human_input_id (sh_formatters (rp_shell desk)) ''e-1'' (Some (JStr ''m-7'')) = ''m-7''"
    by (simp add: inner_human_input_id_def value_str_def)
  have "\<exists>t. render_event desk ?e ?s = (Inr True, t)"
    by (simp add: render_event_def route_event_def handle_event_message_def session_renderer_def notify_human_input_def
        set_pending_def try_except_def andthen_def bnd_def on_world_session(1) Let_def desk_defs m [unfolded desk_defs, simplified])
  then obtain t where t: "render_event desk ?e ?s = (Inr True, t)" by blast
  obtain r u where u: "typed_line desk ''yes'' t = (r, u)" by force
  have ok: "fst (api_human_input (rp_api desk) i c n w) = Inr ()" for i c n w
    by (simp add: api_human_input_def no_answer_def api_request_def send_call_def bnd_def desk_defs is_success_def)
  have s: "se_connection ?s = CONNECTED" "world ?s = []" "se_team_id ?s = ''t-1''"
    by (simp_all add: desk_session_def new_session_def new_conn_def world_def)
  show ?thesis
    using an_answer_goes_to_the_request [OF desk_laws(1) plain s(1) m _ t u] t u s by (auto simp: ok)
qed

end
