(* ===== verification/ChatBuffer.thy ===== *)
theory ChatBuffer
  imports ChatSafety
begin

text \<open>
  What becomes of the lines that should wait for the connection: the manager enters \<open>RECONNECTING\<close> and leaves it
  again in the same call, with nothing in between, so a session never sees the state and keeps no line.
\<close>

section \<open>The states a call of the manager goes through\<close>

text \<open>\<open>passes p\<close>: whatever states \<open>p\<close> goes through, \<open>RECONNECTING\<close> is not the last of them.\<close>

definition passes_on :: "connection_state list \<Rightarrow> bool" where
  "passes_on ns \<longleftrightarrow> ns = [] \<or> last ns \<noteq> RECONNECTING"

definition passes :: "('w conn, 'a) prog \<Rightarrow> bool" where
  "passes p \<longleftrightarrow> (\<forall>c. \<exists>ns. cn_notified (snd (p c)) = cn_notified c @ ns \<and> passes_on ns)"

lemma passes_on_append: "passes_on xs \<Longrightarrow> passes_on ys \<Longrightarrow> passes_on (xs @ ys)"
  by (cases "ys = []") (auto simp: passes_on_def)

lemma cn_connect_states:
  "\<exists>ns. cn_notified (snd (cn_connect L c)) = cn_notified c @ CONNECTING # ns \<and> RECONNECTING \<notin> set ns"
  by (auto simp: cn_connect_run Let_def split: prod.split sum.split)

text \<open>An attempt follows at once; no attempt goes back to \<open>RECONNECTING\<close>.\<close>

lemma attempts_states:
  "\<exists>n ns. cn_notified (snd (attempts L k m c)) = cn_notified c @ n # ns \<and> RECONNECTING \<notin> set (n # ns)"
proof (induction m arbitrary: k c)
  case 0
  then show ?case by (simp add: andthen_def bnd_def set_state_def)
next
  case (Suc m)
  obtain r d where run: "cn_connect L c = (r, d)" by force
  obtain ns where d: "cn_notified d = cn_notified c @ CONNECTING # ns" "RECONNECTING \<notin> set ns"
    using cn_connect_states [of L c] run by auto
  show ?case
  proof (cases "\<exists>e. r = Inl e \<and> is_ws_error e")
    case False
    then have "attempts L k (Suc m) c = (r, d)" using run by (auto simp: try_except_def split: sum.split)
    then show ?thesis using d by auto
  next
    case True
    obtain x u where nap: "on_cn_net (so_sleep L (backoff k)) d = (x, u)" by force
    then have u: "cn_notified u = cn_notified d" by (auto simp: on_cn_net_def on_part_def split: prod.splits)
    have step: "attempts L k (Suc m) c = (case x of Inl e \<Rightarrow> (Inl e, u) | Inr _ \<Rightarrow> attempts L (Suc k) m u)"
      using True run nap by (auto simp: try_except_def andthen_def bnd_def)
    show ?thesis
    proof (cases x)
      case (Inl e)
      then show ?thesis using step u d by auto
    next
      case (Inr y)
      then show ?thesis using step u d Suc.IH [of "Suc k" u] by auto
    qed
  qed
qed

lemma cn_reconnect_states:
  "\<exists>n ns. cn_notified (snd (cn_reconnect L c)) = cn_notified c @ RECONNECTING # n # ns \<and> RECONNECTING \<notin> set (n # ns)"
proof -
  let ?c = "c\<lparr>cn_state := RECONNECTING, cn_notified := cn_notified c @ [RECONNECTING]\<rparr>"
  show ?thesis using attempts_states [of L 0 "cn_max_retries ?c" ?c]
    by (auto simp: cn_reconnect_def andthen_def bnd_def set_state_def)
qed

lemma passes_calls:
  "passes (cn_connect L)" "passes (cn_reconnect L)" "passes (cn_close L)" "passes (switch_team L i)"
proof -
  show "passes (cn_connect L)" unfolding passes_def passes_on_def
  proof
    fix c
    show "\<exists>ns. cn_notified (snd (cn_connect L c)) = cn_notified c @ ns \<and> (ns = [] \<or> last ns \<noteq> RECONNECTING)"
      using cn_connect_states [of L c] by (metis connection_state.distinct(3) last_ConsL last_ConsR last_in_set)
  qed
  show "passes (cn_reconnect L)" unfolding passes_def passes_on_def
  proof
    fix c
    show "\<exists>ns. cn_notified (snd (cn_reconnect L c)) = cn_notified c @ ns \<and> (ns = [] \<or> last ns \<noteq> RECONNECTING)"
      using cn_reconnect_states [of L c] by (metis last_ConsR last_in_set list.distinct(1))
  qed
  show "passes (cn_close L)"
    by (auto simp: passes_def passes_on_def cn_close_def set_state_def on_cn_net_def on_part_def andthen_def bnd_def
        split: option.split prod.split sum.split)
  show "passes (switch_team L i)"
    by (auto simp: passes_def passes_on_def switch_team_def touch_def on_cn_net_def on_part_def andthen_def bnd_def Let_def
        split: option.split prod.split sum.split)
qed

lemma cn_receive_passes:
  fixes L :: "('w, 'f, 'm) sockets"
  assumes "cn_receive L c = Some y"
  shows "\<exists>ns. cn_notified (snd y) = cn_notified c @ ns \<and> passes_on ns"
proof (rule cn_receive.raw_induct [where P = "\<lambda>L c y. \<exists>ns. cn_notified (snd y) = cn_notified c @ ns \<and> passes_on ns", OF _ assms])
  fix loop :: "('w, 'f, 'm) sockets \<Rightarrow> 'w conn \<Rightarrow> ((exn + 'm) \<times> 'w conn) option" and L s y
  assume IH: "\<And>L s y. loop L s = Some y \<Longrightarrow> \<exists>ns. cn_notified (snd y) = cn_notified s @ ns \<and> passes_on ns"
    and run: "(case cn_ws_client s of None \<Rightarrow> Some (Inl (WsConnectionError ''Not connected'' False), s)
      | Some c \<Rightarrow> (case ws_receive L c (cn_net s) of None \<Rightarrow> None
        | Some (r, c', w) \<Rightarrow> (let t = s\<lparr>cn_ws_client := Some c', cn_net := w\<rparr> in
            case r of Inl e \<Rightarrow> if e = ConnectionClosed
                then (case cn_reconnect L t of (Inl e', u) \<Rightarrow> Some (Inl e', u) | (Inr _, u) \<Rightarrow> loop L u)
                else Some (Inl e, t)
            | Inr m \<Rightarrow> Some (Inr m, snd (touch L t))))) = Some y"
  have a: "\<exists>ns. cn_notified u = cn_notified t @ ns \<and> passes_on ns" if "cn_reconnect L t = (x, u)" for x t u
    using passes_calls(2) [of L] that unfolding passes_def by (metis snd_conv)
  have c: "cn_notified (snd (touch L t)) = cn_notified t" for t by (simp add: touch_def)
  have e: "\<exists>ns. cn_notified z = cn_notified z @ ns \<and> passes_on ns" for z :: "'w conn" by (simp add: passes_on_def)
  show "\<exists>ns. cn_notified (snd y) = cn_notified s @ ns \<and> passes_on ns"
  proof (cases "cn_ws_client s")
    case None
    then show ?thesis using run e by auto
  next
    case (Some k)
    then obtain r c' w where rc: "ws_receive L k (cn_net s) = Some (r, c', w)" using run by (auto split: option.splits)
    let ?t = "s\<lparr>cn_ws_client := Some c', cn_net := w\<rparr>"
    show ?thesis
    proof (cases "r = Inl ConnectionClosed")
      case False
      then show ?thesis using run Some rc c e by (cases r) (auto simp: Let_def passes_on_def)
    next
      case True
      obtain x u where u: "cn_reconnect L ?t = (x, u)" by force
      obtain ns where ns: "cn_notified u = cn_notified s @ ns" "passes_on ns" using a [OF u] by auto
      show ?thesis
      proof (cases x)
        case (Inl e')
        then show ?thesis using run Some rc True u ns by (auto simp: Let_def)
      next
        case (Inr v)
        then obtain ms where "cn_notified (snd y) = cn_notified u @ ms" "passes_on ms"
          using run Some rc True u IH [of L u y] by (auto simp: Let_def)
        then show ?thesis using ns by (intro exI [of _ "ns @ ms"]) (simp add: passes_on_append)
      qed
    qed
  qed
qed

section \<open>A session keeps no line\<close>

definition calm :: "'w session \<Rightarrow> bool" where
  "calm s \<longleftrightarrow> se_buffer s = [] \<and> se_connection s \<noteq> RECONNECTING"

lemma same_calm: "keeps (\<lambda>s. (se_buffer s, se_connection s)) m \<Longrightarrow> preserves calm m"
proof (rule preservesI)
  fix s :: "'a session" assume "keeps (\<lambda>s. (se_buffer s, se_connection s)) m" "calm s"
  moreover from this(1) have "(se_buffer (snd (m s)), se_connection (snd (m s))) = (se_buffer s, se_connection s)"
    unfolding keeps_def by blast
  ultimately show "calm (snd (m s))" by (simp add: calm_def)
qed

lemma keeps_in_world_of: "keeps (\<lambda>s. (se_buffer s, se_connection s)) (in_world_of p)"
  by (rule keepsI) (auto simp: in_world_of_def on_part_def split: prod.split)

lemma in_world_calm [invariant_intros]: "preserves calm (in_world_of p)"
  by (rule same_calm) (rule keeps_in_world_of)

lemma writing_calm [invariant_intros]:
  "preserves calm (writing (\<lambda>s. s\<lparr>se_team_id := i\<rparr>))"
  "preserves calm (writing (\<lambda>s. s\<lparr>se_team_name := i, se_team_status := j\<rparr>))"
  "preserves calm (writing (\<lambda>s. s\<lparr>se_input_mode := m, se_reply := r\<rparr>))"
  "preserves calm (writing (\<lambda>s. s\<lparr>se_task := t\<rparr>))"
  by (rule same_calm, simp add: keeps_def)+

lemma callbacks_run:
  "se_buffer s = [] \<Longrightarrow> for_each (on_conn_state_change E) ns s = (Inr (), s\<lparr>se_connection := last (se_connection s # ns)\<rparr>)"
proof (induction ns arbitrary: s)
  case (Cons n ns)
  have "on_conn_state_change E n s = (Inr (), s\<lparr>se_connection := n\<rparr>)"
    using Cons.prems by (simp add: on_conn_state_change_def andthen_def bnd_def)
  then show ?case using Cons by (simp add: andthen_def bnd_def)
qed simp

lemma call_conn_calm:
  fixes s :: "'w session"
  assumes "p (se_conn s) = (r, c)" "cn_notified c = cn_notified (se_conn s) @ ns" "passes_on ns" "calm s"
  shows "call_conn E p s = (r, s\<lparr>se_conn := c, se_connection := last (se_connection s # ns)\<rparr>)"
    "calm (s\<lparr>se_conn := c, se_connection := last (se_connection s # ns)\<rparr>)"
  using assms callbacks_run [of "s\<lparr>se_conn := c\<rparr>" E ns] by (auto simp: call_conn_def calm_def passes_on_def split: if_splits)

lemma calls_calm [invariant_intros]: "passes p \<Longrightarrow> preserves calm (call_conn E p)"
proof (rule preservesI)
  fix s :: "'a session" assume p: "passes p" and s: "calm s"
  obtain r c where run: "p (se_conn s) = (r, c)" by force
  obtain ns where "cn_notified c = cn_notified (se_conn s) @ ns" "passes_on ns"
    using p run unfolding passes_def by (metis snd_conv)
  note n = this
  show "calm (snd (call_conn E p s))"
    using call_conn_calm(1) [where p = p, OF run n s, of E] call_conn_calm(2) [where p = p, OF run n s] by simp
qed

lemma drawing_calm [invariant_intros]: "preserves calm (show_err E t)" "preserves calm (say E t)" "preserves calm (render_event E e)"
proof -
  show "preserves calm (show_err E t)" "preserves calm (say E t)"
    by (simp_all add: show_err_def say_def in_world_calm)
  have "renderer_spares (session_renderer (rp_renderer E)) (\<lambda>s. (se_buffer s, se_connection s))"
    by (simp add: renderer_spares_def session_renderer_def keeps_in_world_of)
  moreover have "keeps (\<lambda>s. (se_buffer s, se_connection s)) (set_pending a b)" for a b by (simp add: set_pending_def keeps_def)
  ultimately show "preserves calm (render_event E e)" unfolding render_event_def by (intro same_calm keeps_route)
qed

lemma session_fetching_calm [invariant_intros]:
  "(\<And>x. preserves calm (k x)) \<Longrightarrow> preserves calm (session_fetching E what call k)"
  unfolding session_fetching_def fetching_def by (auto simp: session_renderer_def intro!: invariant_intros)

lemma or_api_error_calm [invariant_intros]:
  "preserves calm m \<Longrightarrow> (\<And>d. preserves calm (h d)) \<Longrightarrow> preserves calm (or_api_error m h)"
  unfolding or_api_error_def by (intro invariant_intros)

lemma moving_calm [invariant_intros]:
  "preserves calm (fetch_team_info E)" "preserves calm stop_receiving" "preserves calm (switch_handler E args)"
  "preserves calm (create_handler E args)" "preserves calm (restore_handler E args)" "preserves calm (reconnect_handler E)"
  "preserves calm (history_handler E args)"
proof -
  show f: "preserves calm (fetch_team_info E)" unfolding fetch_team_info_def by (intro invariant_intros)
  show p: "preserves calm stop_receiving"
    unfolding stop_receiving_def by (auto split: receive_task.split intro!: invariant_intros)
  show s: "preserves calm (switch_handler E args)" for args
    unfolding switch_handler_def Let_def by (intro invariant_intros f p passes_calls)
  show "preserves calm (create_handler E args)" "preserves calm (restore_handler E args)"
    unfolding create_handler_def restore_handler_def Let_def by (intro invariant_intros s)+
  show "preserves calm (reconnect_handler E)" unfolding reconnect_handler_def by (intro invariant_intros passes_calls)
  show "preserves calm (history_handler E args)" unfolding history_handler_def by (intro invariant_intros)
qed

lemma dispatch_calm [invariant_intros]: "preserves calm (dispatch (build_default_registry E) (say E) line)"
proof -
  have "preserves calm (sc_handler c args)" if c: "map_of (build_default_registry E) n = Some c" for n c args
  proof -
    have "sc_handler c \<in> set (session_handlers E)"
      using registered_handlers [OF c [unfolded build_default_registry_def]] by (auto dest: set_zip_rightD)
    then show ?thesis
      unfolding session_handlers_def Let_def by (auto simp: on_team_def intro!: invariant_intros)
  qed
  then show ?thesis unfolding dispatch_def by (auto split: option.split prod.split intro!: invariant_intros)
qed

lemma gate_calm [invariant_intros]: "preserves calm (check_connection_gate E line)"
proof (rule preservesI)
  fix s :: "'a session" assume s: "calm s"
  have "preserves calm (andthen (show_err E t) (ret True))" for t by (intro invariant_intros)
  from preservesD [OF this s] show "calm (snd (check_connection_gate E line s))"
    using s by (simp add: check_connection_gate_def calm_def [of s])
qed

lemma typed_line_calm [invariant_intros]: "preserves calm (typed_line E line)"
  unfolding typed_line_def handle_reply_def send_or_mention_def
  by (auto split: option.split prod.split intro!: invariant_intros)

lemma receive_turn_calm:
  assumes "receive_turn E s = Some t" "calm s"
  shows "calm t"
proof (cases "se_task s \<noteq> Receiving")
  case True
  then show ?thesis using assms by (simp add: receive_turn_def)
next
  case False
  then obtain r c where out: "cn_receive (rp_sockets E) (se_conn s) = Some (r, c)"
    using assms(1) by (auto simp: receive_turn_def split: option.splits)
  obtain ns where ns: "cn_notified c = cn_notified (se_conn s) @ ns" "passes_on ns" using cn_receive_passes [OF out] by auto
  let ?s = "s\<lparr>se_conn := c, se_connection := last (se_connection s # ns)\<rparr>"
  have call: "call_conn E (\<lambda>_. (r, c)) s = (r, ?s)" and s: "calm ?s"
    using call_conn_calm [of "\<lambda>_. (r, c)" s, OF refl ns assms(2)] by auto
  obtain x u where run: "bnd (call_conn E (\<lambda>_. (r, c))) (\<lambda>e. render_event E e) s = (x, u)" by force
  have "calm (snd (bnd (call_conn E (\<lambda>_. (r, c))) (\<lambda>e. render_event E e) s))"
    unfolding bnd_def call using s preservesD [OF drawing_calm(3) s] by (cases r) (simp_all del: last.simps)
  then have u: "calm u" using run by simp
  have "calm (snd (show_err E m u))" for m using preservesD [OF drawing_calm(1) u] .
  then have v: "calm v" if "show_err E m u = (y, v)" for m y v using that by (metis snd_conv)
  have w: "calm (z\<lparr>se_task := q\<rparr>) = calm z" for z :: "'a session" and q by (simp add: calm_def)
  show ?thesis
    using assms(1) False out run u v
    by (cases x) (auto simp: receive_turn_def w split: if_splits prod.splits sum.splits)
qed

lemma input_loop_calm: "input_loop E turns s = Some (r, t) \<Longrightarrow> calm s \<Longrightarrow> calm t"
proof (induction turns arbitrary: s)
  case (Cons turn turns)
  show ?case
  proof (cases turn)
    case (Typing line)
    obtain x u where run: "typed_line E line s = (x, u)" by force
    have "calm u" using preserves_run [OF typed_line_calm run Cons.prems(2)] .
    then show ?thesis using Cons Typing run by (auto split: sum.splits if_splits)
  next
    case Receive
    then show ?thesis using Cons receive_turn_calm by (auto split: option.splits)
  qed
qed simp

lemma finally_keeps: "preserves P m \<Longrightarrow> P s \<Longrightarrow> P (snd (try_finally (\<lambda>v. (r, v)) m s))"
  using preservesD [of P m s] by (auto simp: try_finally_def split: prod.split sum.split)

lemma run_session_calm:
  assumes ends: "run_session E turns s = Some (r, w)" and s: "calm s"
  shows "calm w"
proof -
  have closing: "calm (snd (try_finally (\<lambda>v. (r, v)) (call_conn E (cn_close (rp_sockets E))) u))" if "calm u" for r :: "exn + unit" and u
    using finally_keeps [OF calls_calm [OF passes_calls(3)] that] .
  let ?show = "andthen (fetch_team_info E) (in_world_of (rn_border (rp_renderer E)))"
  let ?leave = "andthen stop_receiving (andthen (in_world_of (rn_border (rp_renderer E)))
    (in_world_of (rn_system (rp_renderer E) ''Session closed.'')))"
  have draw: "preserves calm ?show" and ending: "preserves calm ?leave" by (intro invariant_intros)+
  obtain x t where connected: "call_conn E (cn_connect (rp_sockets E)) s = (x, t)" by force
  have t: "calm t" using preserves_run [OF calls_calm [OF passes_calls(1)] connected s] .
  obtain y u where shown: "?show t = (y, u)" by force
  from preserves_run [OF draw shown t] have u: "calm u" "calm (u\<lparr>se_task := Receiving\<rparr>)" by (simp_all add: calm_def)
  show ?thesis
  proof (cases "\<exists>v z. x = Inr v \<and> y = Inr z")
    case False
    then consider e where "x = Inl e" | v e where "x = Inr v" "y = Inl e" by (cases x; cases y) auto
    then show ?thesis
    proof cases
      case 1
      then show ?thesis using ends connected t by (simp add: run_session_def)
    next
      case (2 v e)
      then show ?thesis using ends connected shown closing [OF u(1), of "Inl e"] by (auto simp: run_session_def Let_def)
    qed
  next
    case True
    then obtain q v where loop: "input_loop E turns (u\<lparr>se_task := Receiving\<rparr>) = Some (q, v)"
      using ends connected shown by (cases "input_loop E turns (u\<lparr>se_task := Receiving\<rparr>)") (auto simp: run_session_def Let_def)
    obtain q' v' where fin: "try_finally (\<lambda>v. (q, v)) ?leave v = (q', v')" by force
    have "calm v'" using finally_keeps [OF ending input_loop_calm [OF loop u(2)], of q] fin by simp
    then show ?thesis using ends connected True shown loop fin closing [of v' q']
      by (auto simp: run_session_def Let_def)
  qed
qed


end
