(* ===== verification/TuiApp.thy ===== *)
theory TuiApp
  imports ChatSession
begin

text \<open>
  \<open>cli/tui/app.py\<close> and \<open>cli/tui/command_adapter.py\<close>: the full-screen chat, with all the parts that \<open>chat\<close> of
  \<open>cli/main.py\<close> gives it. A handler or one round of the streaming worker is one step; steps come in any
  order. The widgets of the conversation are a list; scrolling, focus and styles are left out, except whether the
  bottom is in view. Messages that the application posts to itself about the connection arrive when the call is over.
\<close>

section \<open>The application\<close>

record status_header =
  sh_team_name :: string
  sh_team_id :: string
  sh_team_status :: string
  sh_connection :: string

record 'w tui =
  ta_team_name :: string
  ta_team_id :: string
  ta_team_status :: string
  ta_header :: status_header
  ta_input_mode :: string
  ta_conversation :: "widget list"
  ta_pending :: "(string \<times> string) list"
  ta_colors :: colors
  ta_unread :: nat
  ta_at_bottom :: bool
  ta_streaming :: bool
  ta_exited :: bool
  ta_conn :: "'w conn"

definition new_tui :: "string \<Rightarrow> string \<Rightarrow> string \<Rightarrow> 'w conn \<Rightarrow> 'w tui" where
  "new_tui name i st c = \<lparr>ta_team_name = name, ta_team_id = i, ta_team_status = st,
     ta_header = \<lparr>sh_team_name = name, sh_team_id = i, sh_team_status = st, sh_connection = ''connected''\<rparr>,
     ta_input_mode = ''chat'', ta_conversation = [WelcomeText], ta_pending = [], ta_colors = (new_colors, None),
     ta_unread = 0, ta_at_bottom = True, ta_streaming = False, ta_exited = False, ta_conn = c\<rparr>"

text \<open>What the application works with: the REST client, formatters and files in the shell, and the sockets.\<close>

record ('w, 'f, 'e) desktop =
  dk_shell :: "('w, chat_event, 'e) shell"
  dk_sockets :: "('w, 'f, chat_event) sockets"

abbreviation dk_api :: "('w, 'f, 'e) desktop \<Rightarrow> ('w, chat_event, 'e) api" where
  "dk_api D \<equiv> sh_api (dk_shell D)"

definition tui_world :: "('w, 'a) prog \<Rightarrow> ('w tui, 'a) prog" where
  "tui_world p = on_part (\<lambda>s. cn_net (ta_conn s)) (\<lambda>w s. s\<lparr>ta_conn := (ta_conn s)\<lparr>cn_net := w\<rparr>\<rparr>) p"

section \<open>The conversation\<close>

definition mount :: "widget \<Rightarrow> ('w tui, unit) prog" where
  "mount wd = writing (\<lambda>s. s\<lparr>ta_conversation := ta_conversation s @ [wd]\<rparr>)"

definition mount_system :: "string \<Rightarrow> ('w tui, unit) prog" where
  "mount_system t = mount (SystemMessage t)"

definition mount_error :: "string \<Rightarrow> ('w tui, unit) prog" where
  "mount_error t = mount (ErrorWidget t)"

fun is_thinking :: "widget \<Rightarrow> bool" where
  "is_thinking (ThinkingIndicator _) = True"
| "is_thinking _ = False"

definition remove_thinking_indicator :: "('w tui, unit) prog" where
  "remove_thinking_indicator = writing (\<lambda>s. s\<lparr>ta_conversation := filter (\<lambda>x. \<not> is_thinking x) (ta_conversation s)\<rparr>)"

definition pending_names :: "'w tui \<Rightarrow> string list" where
  "pending_names s = map snd (ta_pending s)"

definition mount_thinking_indicator :: "('w tui, unit) prog" where
  "mount_thinking_indicator = looking (\<lambda>s. mount (ThinkingIndicator (pending_names s)))"

text \<open>The first indicator gets the new names.\<close>

fun rename_first :: "string list \<Rightarrow> widget list \<Rightarrow> widget list" where
  "rename_first names [] = []"
| "rename_first names (x # xs) = (if is_thinking x then ThinkingIndicator names # xs else x # rename_first names xs)"

definition update_thinking_indicator :: "('w tui, unit) prog" where
  "update_thinking_indicator = writing (\<lambda>s. s\<lparr>ta_conversation := rename_first (pending_names s) (ta_conversation s)\<rparr>)"

definition mount_event_widget :: "widget \<Rightarrow> ('w tui, unit) prog" where
  "mount_event_widget wd = looking (\<lambda>s.
     let thinking = ta_pending s \<noteq> [] in
     andthen (if thinking then remove_thinking_indicator else ret ())
    (andthen (mount wd)
    (andthen (if thinking then mount_thinking_indicator else ret ())
      (if ta_at_bottom s then ret () else writing (\<lambda>s. s\<lparr>ta_unread := ta_unread s + 1\<rparr>)))))"

definition clear_conversation :: "('w tui, unit) prog" where
  "clear_conversation = writing (\<lambda>s. s\<lparr>ta_pending := [], ta_conversation := [],
     ta_colors := (color_reset (fst (ta_colors s)), snd (ta_colors s)), ta_unread := 0\<rparr>)"

definition scroll_to_bottom :: "('w tui, unit) prog" where
  "scroll_to_bottom = writing (\<lambda>s. s\<lparr>ta_at_bottom := True, ta_unread := 0\<rparr>)"

section \<open>Header and connection state\<close>

definition update_team :: "string \<Rightarrow> string \<Rightarrow> string \<Rightarrow> ('w tui, unit) prog" where
  "update_team name i st = writing (\<lambda>s. s\<lparr>ta_header := (ta_header s)\<lparr>sh_team_name := name, sh_team_id := i, sh_team_status := st\<rparr>\<rparr>)"

definition update_connection :: "string \<Rightarrow> ('w tui, unit) prog" where
  "update_connection st = writing (\<lambda>s. s\<lparr>ta_header := (ta_header s)\<lparr>sh_connection := st\<rparr>\<rparr>)"

fun state_value :: "connection_state \<Rightarrow> string" where
  "state_value CONNECTING = ''connecting''"
| "state_value CONNECTED = ''connected''"
| "state_value RECONNECTING = ''reconnecting''"
| "state_value DISCONNECTED = ''disconnected''"

definition on_connection_state_changed :: "connection_state \<Rightarrow> ('w tui, unit) prog" where
  "on_connection_state_changed st = andthen (update_connection (state_value st))
     (writing (\<lambda>s. s\<lparr>ta_input_mode := (case st of DISCONNECTED \<Rightarrow> ''disconnected'' | RECONNECTING \<Rightarrow> ''reconnecting''
        | CONNECTED \<Rightarrow> ''chat'' | CONNECTING \<Rightarrow> ta_input_mode s)\<rparr>))"

definition with_conn :: "('w conn, 'a) prog \<Rightarrow> ('w tui, 'a) prog" where
  "with_conn p = (\<lambda>s. case p (ta_conn s) of (r, c) \<Rightarrow>
     (r, snd (for_each on_connection_state_changed (drop (length (cn_notified (ta_conn s))) (cn_notified c)) (s\<lparr>ta_conn := c\<rparr>))))"

section \<open>Streaming\<close>

text \<open>The start of the streaming worker; a worker that runs is cancelled.\<close>

definition stream_events :: "('w, 'f, 'e) desktop \<Rightarrow> ('w tui, unit) prog" where
  "stream_events D =
     andthen (looking (\<lambda>s. if cn_state (ta_conn s) = DISCONNECTED
         then try_except (with_conn (cn_connect (dk_sockets D))) (\<lambda>e. if is_ws_error e then ret () else throw e)
         else ret ()))
    (andthen (looking (\<lambda>s. if WelcomeText \<in> set (ta_conversation s) then ret () else mount WelcomeText))
      (writing (\<lambda>s. s\<lparr>ta_streaming := True\<rparr>)))"

definition on_received_message :: "string \<Rightarrow> string option \<Rightarrow> ('w tui, unit) prog" where
  "on_received_message mid sender = looking (\<lambda>s.
     andthen (writing (\<lambda>s. s\<lparr>ta_pending := AList.update mid (named_or ''Agent'' sender) (ta_pending s)\<rparr>))
       (if ta_pending s = [] then mount_thinking_indicator else update_thinking_indicator))"

definition on_processed_message :: "string \<Rightarrow> ('w tui, unit) prog" where
  "on_processed_message mid =
     andthen (writing (\<lambda>s. s\<lparr>ta_pending := AList.delete mid (ta_pending s)\<rparr>))
       (looking (\<lambda>s. if ta_pending s = [] then remove_thinking_indicator else update_thinking_indicator))"

definition connection_lost :: string where
  "connection_lost = ''Connection lost. Use /reconnect to try again.''"

definition show_event :: "('w, 'f, 'e) desktop \<Rightarrow> chat_event \<Rightarrow> ('w tui, unit) prog" where
  "show_event D e = (case e of
     ReceivedEvent mid sender \<Rightarrow> on_received_message mid sender
   | ProcessedEvent mid \<Rightarrow> on_processed_message mid
   | _ \<Rightarrow> looking (\<lambda>s. let (wd, cs) = to_widget (sh_formatters (dk_shell D)) e (ta_colors s) in
       andthen (writing (\<lambda>s. s\<lparr>ta_colors := cs\<rparr>))
         (case wd of None \<Rightarrow> ret () | Some x \<Rightarrow> mount_event_widget x)))"

definition stream_lost :: "('w tui, unit) prog" where
  "stream_lost =
     andthen remove_thinking_indicator
    (andthen (writing (\<lambda>s. s\<lparr>ta_pending := [], ta_streaming := False\<rparr>)) (mount_system connection_lost))"

text \<open>One round of the worker; \<open>None\<close> when no event ever comes. Any other exception ends the application.\<close>

definition stream_turn :: "('w, 'f, 'e) desktop \<Rightarrow> 'w tui \<Rightarrow> ((exn + unit) \<times> 'w tui) option" where
  "stream_turn D s =
     (if \<not> ta_streaming s then Some (Inr (), s)
      else map_option (\<lambda>out. try_except (bnd (with_conn (\<lambda>_. out)) (show_event D))
             (\<lambda>e. if is_ws_error e then stream_lost else throw e) s)
           (cn_receive (dk_sockets D) (ta_conn s)))"

section \<open>Choosing another team\<close>

text \<open>What the selection screen is dismissed with. The manager of the new team is a new one.\<close>

definition enter_team :: "('w, 'f, 'e) desktop \<Rightarrow> string \<Rightarrow> ('w tui, unit) prog" where
  "enter_team D i =
     bnd (tui_world (api_get_team (dk_api D) i)) (\<lambda>t.
     andthen (writing (\<lambda>s. s\<lparr>ta_team_id := i, ta_team_name := ci_name t, ta_team_status := ci_status t\<rparr>))
    (andthen (update_team (ci_name t) i (ci_status t))
    (andthen (writing (\<lambda>s. s\<lparr>ta_conn := new_conn (cn_server_url (ta_conn s)) i (cn_api_key (ta_conn s)) 10 (cn_net (ta_conn s))\<rparr>))
    (andthen clear_conversation (stream_events D)))))"

definition exit_app :: "('w tui, unit) prog" where
  "exit_app = writing (\<lambda>s. s\<lparr>ta_exited := True\<rparr>)"

definition tui_switch_team :: "('w, 'f, 'e) desktop \<Rightarrow> string option \<Rightarrow> ('w tui, unit) prog" where
  "tui_switch_team D choice = (case choice of
     None \<Rightarrow> ret ()
   | Some i \<Rightarrow> if i = ''__quit__'' then exit_app else enter_team D i)"

definition tui_select_team :: "('w, 'f, 'e) desktop \<Rightarrow> string option \<Rightarrow> ('w tui, unit) prog" where
  "tui_select_team D choice = (case choice of
     None \<Rightarrow> exit_app
   | Some i \<Rightarrow> if i = ''__quit__'' then exit_app else enter_team D i)"

section \<open>Commands with an effect of their own\<close>

definition handle_quit :: "('w tui, unit) prog" where
  "handle_quit = exit_app"

definition handle_switch :: "('w, 'f, 'e) desktop \<Rightarrow> string \<Rightarrow> ('w tui, unit) prog" where
  "handle_switch D args =
     (let new_team_id = strip args in
      if new_team_id = [] then mount_system ''Usage: /switch <team_id>''
      else bnd (try_except (andthen (with_conn (switch_team (dk_sockets D) new_team_id)) (ret True))
             (\<lambda>e. andthen (mount_error (''Switch failed: '' @ exn_str e)) (ret False))) (\<lambda>ok.
        if \<not> ok then ret ()
        else andthen (writing (\<lambda>s. s\<lparr>ta_team_id := new_team_id\<rparr>))
            (bnd (try_except
                (bnd (tui_world (api_get_team (dk_api D) new_team_id)) (\<lambda>t.
                  andthen (writing (\<lambda>s. s\<lparr>ta_team_name := ci_name t, ta_team_status := ci_status t\<rparr>))
                    (ret (ci_name t, ci_status t))))
                (\<lambda>e. case e of ApiError _ _ \<Rightarrow> ret (new_team_id, ''running'') | _ \<Rightarrow> throw e)) (\<lambda>(name, st).
             andthen (update_team name new_team_id st)
            (andthen (mount_system (''Switched to team '' @ name @ '' ('' @ new_team_id @ '')''))
              (stream_events D))))))"

definition handle_reconnect :: "('w, 'f, 'e) desktop \<Rightarrow> ('w tui, unit) prog" where
  "handle_reconnect D =
     bnd (try_except (andthen (with_conn (cn_connect (dk_sockets D))) (ret True))
       (\<lambda>e. andthen (update_connection ''disconnected'')
           (andthen (mount_error (''Reconnection failed: '' @ exn_str e)) (ret False)))) (\<lambda>ok.
     if \<not> ok then ret ()
     else andthen (update_connection ''connected'') (andthen (mount_system ''Reconnected to server.'') (stream_events D)))"

text \<open>\<open>try: call() except ApiError: an error widget; return\<close>, then the rest.\<close>

definition or_error_widget :: "string \<Rightarrow> ('w, 'a) prog \<Rightarrow> ('a \<Rightarrow> ('w tui, unit) prog) \<Rightarrow> ('w tui, unit) prog" where
  "or_error_widget what call k =
     bnd (try_except (bnd (tui_world call) (\<lambda>x. ret (Some x)))
       (\<lambda>e. case e of ApiError _ detail \<Rightarrow> andthen (mount_error (what @ detail)) (ret None) | _ \<Rightarrow> throw e))
     (\<lambda>r. case r of None \<Rightarrow> ret () | Some x \<Rightarrow> k x)"

definition execute_delete :: "('w, 'f, 'e) desktop \<Rightarrow> string \<Rightarrow> ('w tui, unit) prog" where
  "execute_delete D target_id =
     or_error_widget ''Error deleting team: '' (api_delete_team (dk_api D) target_id) (\<lambda>_.
       andthen (mount_system (''Team '' @ target_id @ '' deleted.''))
         (looking (\<lambda>s. if target_id = ta_team_id s
            then andthen (mount_system ''Current team deleted. Use /switch or /teams to select another team.'')
                   (update_team ''(deleted)'' target_id ''deleted'')
            else ret ())))"

definition handle_delete :: "('w, 'f, 'e) desktop \<Rightarrow> string \<Rightarrow> ('w tui, unit) prog" where
  "handle_delete D args = looking (\<lambda>s.
     let (first, rest) = split_once (strip args) in
     if first = [] then
       mount_system (''To delete team '' @ ta_team_id s @ '', type: /delete confirm '' @ ta_team_id s)
     else if first = ''confirm'' then
       execute_delete D (case rest of Some r \<Rightarrow> strip r | None \<Rightarrow> ta_team_id s)
     else bnd (try_except (bnd (tui_world (api_get_team (dk_api D) first)) (\<lambda>t.
              ret (ci_name t @ '' ('' @ first @ '')'')))
            (\<lambda>e. case e of ApiError _ _ \<Rightarrow> ret first | _ \<Rightarrow> throw e)) (\<lambda>label.
          mount_system (''Warning: Delete team '' @ label @ ''? All event history will be lost.'' @ [CHR 0x0A] @
            ''To confirm, type: /delete confirm '' @ first)))"

definition handle_create :: "('w, 'f, 'e) desktop \<Rightarrow> string \<Rightarrow> ('w tui, unit) prog" where
  "handle_create D args =
     (let entry = strip args in
      if entry = [] then mount_system ''Usage: /create <catalog_entry>''
      else or_error_widget ''Error creating team: '' (api_create_team (dk_api D) entry) (\<lambda>t.
        andthen (mount_system (''Created team: '' @ ci_name t @ '' ('' @ ci_team_id t @ '')''))
          (handle_switch D (ci_team_id t))))"

definition handle_stop :: "('w, 'f, 'e) desktop \<Rightarrow> ('w tui, unit) prog" where
  "handle_stop D = looking (\<lambda>s.
     or_error_widget ''Error stopping team: '' (api_stop_team (dk_api D) (ta_team_id s)) (\<lambda>_.
       andthen (writing (\<lambda>s. s\<lparr>ta_team_status := ''stopped''\<rparr>))
      (andthen (looking (\<lambda>s. update_team (ta_team_name s) (ta_team_id s) ''stopped''))
        (mount_system (''Team '' @ ta_team_id s @ '' stopped.'')))))"

definition handle_restore :: "('w, 'f, 'e) desktop \<Rightarrow> string \<Rightarrow> ('w tui, unit) prog" where
  "handle_restore D args = looking (\<lambda>s.
     let target_id = or_current args (ta_team_id s) in
     or_error_widget ''Error restoring team: '' (api_restore_team (dk_api D) target_id) (\<lambda>_.
       andthen (mount_system (''Team '' @ target_id @ '' restored. Live events resumed.'')) (handle_switch D target_id)))"

definition tui_usage_history :: string where
  "tui_usage_history = ''Usage: /history [N] '' @ [long_dash] @ '' N must be a positive integer.''"

text \<open>The widgets of some events, with the colors they leave.\<close>

fun history_widgets :: "formatters \<Rightarrow> chat_event event_info list \<Rightarrow> colors \<Rightarrow> widget list \<times> colors" where
  "history_widgets F [] cs = ([], cs)"
| "history_widgets F (e # es) cs =
     (case ei_event e of
        Inl _ \<Rightarrow> history_widgets F es cs
      | Inr m \<Rightarrow>
          (let (wd, cs') = to_widget F m cs; (ws, cs'') = history_widgets F es cs'
           in (case wd of None \<Rightarrow> ws | Some x \<Rightarrow> x # ws, cs'')))"

definition handle_history :: "('w, 'f, 'e) desktop \<Rightarrow> string \<Rightarrow> ('w tui, unit) prog" where
  "handle_history D args = looking (\<lambda>s. case parse_limit args of
     None \<Rightarrow> mount_system tui_usage_history
   | Some limit \<Rightarrow>
       or_error_widget ''Error fetching history: '' (api_get_events (dk_api D) (ta_team_id s)) (\<lambda>events.
         looking (\<lambda>s. let (ws, cs) = history_widgets (sh_formatters (dk_shell D)) (last_n limit events) (ta_colors s) in
           andthen (writing (\<lambda>s. s\<lparr>ta_colors := cs, ta_conversation := ta_conversation s @ ws\<rparr>))
             (if ws = [] then mount_system ''No displayable history events found.'' else ret ()))))"

section \<open>Commands whose output is captured\<close>

record 'w capture =
  cp_out :: string
  cp_errors :: "string list"
  cp_world :: 'w

definition on_cp_world :: "('w, 'a) prog \<Rightarrow> ('w capture, 'a) prog" where
  "on_cp_world p = on_part cp_world (\<lambda>w s. s\<lparr>cp_world := w\<rparr>) p"

definition captured_api :: "('w, 'm, 'e) api \<Rightarrow> ('w capture, 'm, 'e) api" where
  "captured_api A = \<lparr>al_send = (\<lambda>c s. case al_send A c (cp_world s) of (r, w) \<Rightarrow> (r, s\<lparr>cp_world := w\<rparr>)),
     al_json = al_json A, al_deserialize = al_deserialize A, al_entry = al_entry A, al_int = al_int A, al_bool = al_bool A\<rparr>"

definition captured_shell :: "('w, 'm, 'e) shell \<Rightarrow> ('w capture, 'm, 'e) shell" where
  "captured_shell H = \<lparr>sh_api = captured_api (sh_api H),
     sh_terminal = \<lparr>tm_out = (\<lambda>t s. s\<lparr>cp_out := cp_out s @ t\<rparr>), tm_err = (\<lambda>t s. s\<lparr>cp_world := tm_err (sh_terminal H) t (cp_world s)\<rparr>)\<rparr>,
     sh_formatters = sh_formatters H, sh_fmt = sh_fmt H, sh_is_file = (\<lambda>p s. sh_is_file H p (cp_world s)),
     sh_read_bytes = (\<lambda>p s. sh_read_bytes H p (cp_world s)), sh_stdin = (\<lambda>s. sh_stdin H (cp_world s)),
     sh_decode = sh_decode H, sh_dump_event = sh_dump_event H, sh_dump_entry = sh_dump_entry H\<rparr>"

text \<open>\<open>_NoOpRenderer\<close>: errors are collected, the rest is not drawn.\<close>

definition no_op_renderer :: "'w capture renderer" where
  "no_op_renderer = \<lparr>rn_agent = (\<lambda>_ _. ret ()), rn_error = (\<lambda>t. writing (\<lambda>s. s\<lparr>cp_errors := cp_errors s @ [t]\<rparr>)),
     rn_warning = (\<lambda>_. ret ()), rn_tool_call = (\<lambda>_ _ _. ret ()), rn_human_input = (\<lambda>_. ret ()), rn_system = (\<lambda>_. ret ()),
     rn_connection = (\<lambda>_. ret ()), rn_border = ret ()\<rparr>"

text \<open>The handlers of the registry that the adapter does not override.\<close>

definition generic_handlers ::
    "('w, chat_event, 'e) shell \<Rightarrow> 'w renderer \<Rightarrow> string \<Rightarrow> (string \<times> (string \<Rightarrow> ('w, unit) prog)) list" where
  "generic_handlers H R i =
    [(''help'', \<lambda>_. help_handler H default_help), (''teams'', \<lambda>_. teams_handler H R i), (''catalog'', \<lambda>_. catalog_handler H R),
     (''info'', info_handler H R i), (''events'', events_handler H R i), (''agents'', \<lambda>_. agents_handler H R i),
     (''files'', \<lambda>_. files_handler H R i), (''read'', read_handler H R i), (''upload'', upload_handler H R i)]"

definition tui_overrides :: "string list" where
  "tui_overrides = [''quit'', ''switch'', ''reconnect'', ''delete'', ''create'', ''stop'', ''restore'', ''history'']"

definition dispatch_generic :: "('w, 'f, 'e) desktop \<Rightarrow> string \<Rightarrow> string \<Rightarrow> ('w tui, unit) prog" where
  "dispatch_generic D name args = (\<lambda>s.
     case map_of (generic_handlers (captured_shell (dk_shell D)) no_op_renderer (ta_team_id s)) name of
       None \<Rightarrow> mount_system (''Unknown command: /'' @ name @ ''. Type /help for commands.'') s
     | Some h \<Rightarrow>
         (case h args \<lparr>cp_out = [], cp_errors = [], cp_world = cn_net (ta_conn s)\<rparr> of (r, c) \<Rightarrow>
            (let t = s\<lparr>ta_conn := (ta_conn s)\<lparr>cn_net := cp_world c\<rparr>\<rparr> in
             case r of
               Inl (ApiError _ detail) \<Rightarrow> mount_error (''Command error: '' @ detail) t
             | Inl e \<Rightarrow> mount_error (''Command failed: '' @ exn_str e) t
             | Inr _ \<Rightarrow> andthen (for_each mount_error (cp_errors c))
                 (if strip (cp_out c) = [] then ret () else mount_system (strip (cp_out c))) t)))"

definition dispatch_override :: "('w, 'f, 'e) desktop \<Rightarrow> string \<Rightarrow> string \<Rightarrow> ('w tui, unit) prog" where
  "dispatch_override D name args =
     (if name = ''quit'' then handle_quit
      else if name = ''switch'' then handle_switch D args
      else if name = ''reconnect'' then handle_reconnect D
      else if name = ''delete'' then handle_delete D args
      else if name = ''create'' then handle_create D args
      else if name = ''stop'' then handle_stop D
      else if name = ''history'' then handle_history D args
      else handle_restore D args)"

definition tui_dispatch :: "('w, 'f, 'e) desktop \<Rightarrow> string \<Rightarrow> ('w tui, bool) prog" where
  "tui_dispatch D line = (case parse_line line of
     None \<Rightarrow> ret False
   | Some (name, args) \<Rightarrow>
       andthen (if name \<in> set tui_overrides then dispatch_override D name args else dispatch_generic D name args) (ret True))"

section \<open>Input\<close>

text \<open>The worker that sends a message and shows a failure.\<close>

definition tui_send_message :: "('w, 'f, 'e) desktop \<Rightarrow> string \<Rightarrow> string option \<Rightarrow> ('w tui, unit) prog" where
  "tui_send_message D content agent_name = looking (\<lambda>s.
     or_error_widget ''Failed to send message: '' (case agent_name of
         Some a \<Rightarrow> api_send_message_to (dk_api D) (ta_team_id s) a content
       | None \<Rightarrow> api_send_message (dk_api D) (ta_team_id s) content) (\<lambda>_. ret ()))"

definition on_chat_input_submitted :: "('w, 'f, 'e) desktop \<Rightarrow> string \<Rightarrow> ('w tui, unit) prog" where
  "on_chat_input_submitted D t =
     (if startswith t ''/'' then bnd (tui_dispatch D t) (\<lambda>_. ret ())
      else andthen (writing (\<lambda>s. s\<lparr>ta_conversation := filter (\<lambda>x. x \<noteq> WelcomeText) (ta_conversation s)\<rparr>))
        (case mention t of
           Some (agent, content) \<Rightarrow> tui_send_message D content (Some agent)
         | None \<Rightarrow> tui_send_message D t None))"

section \<open>A run of the application\<close>

text \<open>A line entered, a round of the worker, a choice on the selection screen, scrolling.\<close>

datatype tui_event = Entered string | Streamed | Chose "string option" | InView bool | ToBottom

fun tui_step :: "('w, 'f, 'e) desktop \<Rightarrow> tui_event \<Rightarrow> 'w tui \<Rightarrow> ((exn + unit) \<times> 'w tui) option" where
  "tui_step D (Entered t) s = Some (on_chat_input_submitted D t s)"
| "tui_step D Streamed s = stream_turn D s"
| "tui_step D (Chose c) s = Some (tui_switch_team D c s)"
| "tui_step D (InView b) s = Some (Inr (), s\<lparr>ta_at_bottom := b\<rparr>)"
| "tui_step D ToBottom s = Some (scroll_to_bottom s)"

text \<open>The application ends with an exception of a handler or a worker, or by choice.\<close>

fun tui_run :: "('w, 'f, 'e) desktop \<Rightarrow> tui_event list \<Rightarrow> 'w tui \<Rightarrow> ((exn + unit) \<times> 'w tui) option" where
  "tui_run D [] s = Some (Inr (), s)"
| "tui_run D (e # es) s = (if ta_exited s then Some (Inr (), s)
     else (case tui_step D e s of
         None \<Rightarrow> None
       | Some (Inl x, t) \<Rightarrow> Some (Inl x, t)
       | Some (Inr _, t) \<Rightarrow> tui_run D es t))"

text \<open>\<open>on_mount\<close>: a chat that was given a team starts with its stream, the other with the choice of one.\<close>

definition tui_on_mount :: "('w, 'f, 'e) desktop \<Rightarrow> string option \<Rightarrow> ('w tui, unit) prog" where
  "tui_on_mount D choice = looking (\<lambda>s. if ta_team_id s = [] then tui_select_team D choice else stream_events D)"

end
