(* ===== verification/TuiSafety.thy ===== *)
theory TuiSafety
  imports TuiApp ChatSafety
begin

text \<open>
  What the full-screen chat guarantees: the indicator of working agents shows the pending ones, in any order of
  events, and a line deletes the team it confirms and no other.
\<close>

section \<open>Frames\<close>

lemma with_conn_cases:
  fixes f :: "'w tui \<Rightarrow> 'o"
  assumes "\<And>s c. f (s\<lparr>ta_conn := c\<rparr>) = f s" "\<And>s h. f (s\<lparr>ta_header := h\<rparr>) = f s" "\<And>s m. f (s\<lparr>ta_input_mode := m\<rparr>) = f s"
  shows "keeps f (with_conn p)"
proof (rule keepsI)
  fix s :: "'w tui"
  obtain r c where run: "p (ta_conn s) = (r, c)" by force
  have "keeps f (on_connection_state_changed st)" for st
    unfolding on_connection_state_changed_def update_connection_def
    by (intro frame_intros keeps_writing) (simp_all add: assms)
  then have "keeps f (for_each on_connection_state_changed sts)" for sts by (intro frame_intros)
  then show "f (snd (with_conn p s)) = f s"
    using run assms(1) by (simp add: with_conn_def keeps_def)
qed

lemma with_conn_world:
  assumes "keeps (\<lambda>c. f (cn_net c)) p"
  shows "keeps (\<lambda>s. f (cn_net (ta_conn s))) (with_conn p)"
proof (rule keepsI)
  fix s :: "'a tui"
  obtain r c where run: "p (ta_conn s) = (r, c)" by force
  have "keeps (\<lambda>s. f (cn_net (ta_conn s))) (on_connection_state_changed st)" for st
    unfolding on_connection_state_changed_def update_connection_def by (intro frame_intros keeps_writing) simp_all
  then have "keeps (\<lambda>s. f (cn_net (ta_conn s))) (for_each on_connection_state_changed sts)" for sts
    by (intro frame_intros)
  then show "f (cn_net (ta_conn (snd (with_conn p s)))) = f (cn_net (ta_conn s))"
    using run keepsD [OF assms run] by (simp add: with_conn_def keeps_def)
qed

section \<open>The indicator\<close>

text \<open>One indicator with the names of the pending agents, and none when nothing is pending.\<close>

definition thinking_ok :: "'w tui \<Rightarrow> bool" where
  "thinking_ok s \<longleftrightarrow> filter is_thinking (ta_conversation s) =
     (if ta_pending s = [] then [] else [ThinkingIndicator (pending_names s)])"

text \<open>Whatever leaves conversation and pending agents alone.\<close>

lemma untouched_ok: "keeps (\<lambda>s. (ta_conversation s, ta_pending s)) m \<Longrightarrow> preserves thinking_ok m"
proof (rule preservesI)
  fix s :: "'a tui" assume "keeps (\<lambda>s. (ta_conversation s, ta_pending s)) m" "thinking_ok s"
  moreover from this(1) have "(ta_conversation (snd (m s)), ta_pending (snd (m s))) = (ta_conversation s, ta_pending s)"
    unfolding keeps_def by blast
  ultimately show "thinking_ok (snd (m s))" by (simp add: thinking_ok_def pending_names_def)
qed

lemma writing_ok [invariant_intros]:
  "preserves thinking_ok (writing (\<lambda>s. s\<lparr>ta_unread := n s\<rparr>))" "preserves thinking_ok (writing (\<lambda>s. s\<lparr>ta_header := h s\<rparr>))"
  "preserves thinking_ok (writing (\<lambda>s. s\<lparr>ta_input_mode := m s\<rparr>))" "preserves thinking_ok (writing (\<lambda>s. s\<lparr>ta_streaming := b s\<rparr>))"
  "preserves thinking_ok (writing (\<lambda>s. s\<lparr>ta_colors := c s\<rparr>))" "preserves thinking_ok (writing (\<lambda>s. s\<lparr>ta_exited := b s\<rparr>))"
  "preserves thinking_ok (writing (\<lambda>s. s\<lparr>ta_team_id := i s\<rparr>))" "preserves thinking_ok (writing (\<lambda>s. s\<lparr>ta_team_status := i s\<rparr>))"
  "preserves thinking_ok (writing (\<lambda>s. s\<lparr>ta_conn := k s\<rparr>))"
  "preserves thinking_ok (writing (\<lambda>s. s\<lparr>ta_team_name := i s, ta_team_status := j s\<rparr>))"
  "preserves thinking_ok (writing (\<lambda>s. s\<lparr>ta_team_id := l s, ta_team_name := i s, ta_team_status := j s\<rparr>))"
  "preserves thinking_ok (writing (\<lambda>s. s\<lparr>ta_at_bottom := b s, ta_unread := n s\<rparr>))"
  by (rule untouched_ok, simp add: keeps_def)+

lemma tui_world_ok [invariant_intros]: "preserves thinking_ok (tui_world p)"
  by (rule untouched_ok) (auto simp: keeps_def tui_world_def on_part_def split: prod.split)

lemma with_conn_ok [invariant_intros]: "preserves thinking_ok (with_conn p)"
  by (rule untouched_ok, rule with_conn_cases) simp_all

lemma mount_ok [invariant_intros]: "\<not> is_thinking wd \<Longrightarrow> preserves thinking_ok (mount wd)"
  by (rule preservesI) (simp add: mount_def thinking_ok_def pending_names_def)

lemma simple_ok [invariant_intros]:
  "preserves thinking_ok (mount_system t)" "preserves thinking_ok (mount_error t)" "preserves thinking_ok exit_app"
  "preserves thinking_ok (update_team n i st)" "preserves thinking_ok (update_connection st)"
  "preserves thinking_ok scroll_to_bottom" "preserves thinking_ok clear_conversation"
  unfolding mount_system_def mount_error_def exit_app_def update_team_def update_connection_def scroll_to_bottom_def
  by (intro invariant_intros; simp)+ (rule preservesI, simp add: clear_conversation_def thinking_ok_def)

lemma filter_rename: "filter is_thinking xs = [y] \<Longrightarrow> filter is_thinking (rename_first ns xs) = [ThinkingIndicator ns]"
  by (induction xs) (auto split: if_splits simp: filter_empty_conv)

lemma not_thinking_filter [simp]: "filter is_thinking (filter (\<lambda>x. \<not> is_thinking x) xs) = []"
  by (induction xs) auto

lemma widget_not_thinking: "to_widget F e cs = (Some wd, cs') \<Longrightarrow> \<not> is_thinking wd"
  by (cases e) (auto simp: to_widget_def sent_to_widget_def event_to_widget_def Let_def split: if_splits prod.splits nested_event.splits)

lemma mount_event_ok: "\<not> is_thinking wd \<Longrightarrow> preserves thinking_ok (mount_event_widget wd)"
  by (rule preservesI)
    (auto simp: mount_event_widget_def remove_thinking_indicator_def mount_def mount_thinking_indicator_def andthen_def bnd_def
      thinking_ok_def pending_names_def Let_def)

lemma update_nonempty: "AList.update k v d \<noteq> []"
  by (cases d) auto

lemma received_ok: "preserves thinking_ok (on_received_message mid sender)"
  by (rule preservesI)
    (auto simp: on_received_message_def mount_thinking_indicator_def mount_def update_thinking_indicator_def andthen_def
      bnd_def thinking_ok_def pending_names_def update_nonempty dest: filter_rename)

lemma processed_ok: "preserves thinking_ok (on_processed_message mid)"
proof (rule preservesI)
  fix s :: "'a tui" assume "thinking_ok s"
  then show "thinking_ok (snd (on_processed_message mid s))"
    by (cases "ta_pending s = []"; cases "AList.delete mid (ta_pending s) = []")
      (auto simp: on_processed_message_def remove_thinking_indicator_def update_thinking_indicator_def andthen_def bnd_def
        thinking_ok_def pending_names_def dest: filter_rename)
qed

lemma show_event_ok: "preserves thinking_ok (show_event D e)"
proof -
  let ?show = "looking (\<lambda>s. let (wd, cs) = to_widget (sh_formatters (dk_shell D)) e (ta_colors s) in
       andthen (writing (\<lambda>s. s\<lparr>ta_colors := cs\<rparr>)) (case wd of None \<Rightarrow> ret () | Some x \<Rightarrow> mount_event_widget x))"
  have "preserves thinking_ok ?show"
    by (intro preserves_looking)
      (auto split: prod.split option.split intro!: invariant_intros mount_event_ok dest: widget_not_thinking)
  then show ?thesis by (cases e) (simp_all add: show_event_def received_ok processed_ok)
qed

lemma stream_lost_ok: "preserves thinking_ok stream_lost"
  by (rule preservesI)
    (simp add: stream_lost_def remove_thinking_indicator_def mount_system_def mount_def andthen_def bnd_def thinking_ok_def)

lemma stream_events_ok [invariant_intros]: "preserves thinking_ok (stream_events D)"
  unfolding stream_events_def by (intro invariant_intros) simp

lemma enter_team_ok [invariant_intros]: "preserves thinking_ok (enter_team D i)"
  unfolding enter_team_def by (intro invariant_intros)

lemma or_error_widget_ok [invariant_intros]:
  "(\<And>x. preserves thinking_ok (k x)) \<Longrightarrow> preserves thinking_ok (or_error_widget what call k)"
  unfolding or_error_widget_def by (intro invariant_intros)

lemma handle_switch_ok [invariant_intros]: "preserves thinking_ok (handle_switch D args)"
  unfolding handle_switch_def Let_def by (intro invariant_intros)

lemma history_not_thinking: "history_widgets F es cs = (ws, cs') \<Longrightarrow> filter is_thinking ws = []"
  by (induction F es cs arbitrary: ws cs' rule: history_widgets.induct)
    (auto split: sum.splits prod.splits option.splits simp: Let_def dest: widget_not_thinking)

lemma history_mount_ok:
  "filter is_thinking ws = [] \<Longrightarrow> preserves thinking_ok (writing (\<lambda>s. s\<lparr>ta_colors := cs, ta_conversation := ta_conversation s @ ws\<rparr>))"
  by (rule preservesI) (simp add: thinking_ok_def pending_names_def)

lemma handle_history_ok: "preserves thinking_ok (handle_history D args)"
  unfolding handle_history_def
  by (auto split: option.split prod.split simp: Let_def intro!: invariant_intros history_mount_ok dest: history_not_thinking)

lemma dispatch_override_ok: "preserves thinking_ok (dispatch_override D name args)"
  unfolding dispatch_override_def handle_quit_def handle_reconnect_def handle_delete_def execute_delete_def handle_create_def
    handle_stop_def handle_restore_def Let_def
  by (intro invariant_intros handle_history_ok)

lemma dispatch_generic_ok: "preserves thinking_ok (dispatch_generic D name args)"
proof (rule preservesI)
  fix s :: "'a tui" assume s: "thinking_ok s"
  have c: "thinking_ok (t\<lparr>ta_conn := c\<rparr>) = thinking_ok t" for t :: "'a tui" and c
    by (simp add: thinking_ok_def pending_names_def)
  have m: "thinking_ok (snd (mount_error x t))" "thinking_ok (snd (mount_system x t))"
    "thinking_ok (snd (andthen (for_each mount_error ys) (ret ()) t))"
    "thinking_ok (snd (andthen (for_each mount_error ys) (mount_system x) t))"
    if "thinking_ok t" for x ys and t :: "'a tui"
    using that by (auto intro!: preservesD [of thinking_ok] invariant_intros)
  show "thinking_ok (snd (dispatch_generic D name args s))"
    unfolding dispatch_generic_def using s by (auto simp: c Let_def m split: option.split prod.split sum.split exn.split)
qed

lemma submitted_ok: "preserves thinking_ok (on_chat_input_submitted (D :: ('a, 'f, 'e) desktop) t)"
proof -
  have "preserves thinking_ok (writing (\<lambda>s :: 'a tui. s\<lparr>ta_conversation := filter (\<lambda>x. x \<noteq> WelcomeText) (ta_conversation s)\<rparr>))"
  proof (rule preservesI)
    fix s :: "'a tui" assume "thinking_ok s"
    moreover have "filter is_thinking (filter (\<lambda>x. x \<noteq> WelcomeText) xs) = filter is_thinking xs" for xs
      by (induction xs) auto
    ultimately show "thinking_ok (snd (writing (\<lambda>s. s\<lparr>ta_conversation := filter (\<lambda>x. x \<noteq> WelcomeText) (ta_conversation s)\<rparr>) s))"
      by (simp add: thinking_ok_def pending_names_def)
  qed
  moreover have "preserves thinking_ok (tui_dispatch D t)"
    unfolding tui_dispatch_def
    by (auto split: option.split prod.split intro!: invariant_intros dispatch_override_ok dispatch_generic_ok)
  moreover have "preserves thinking_ok (tui_send_message D c a)" for c a
    unfolding tui_send_message_def by (intro invariant_intros)
  ultimately show ?thesis
    unfolding on_chat_input_submitted_def by (auto split: option.split prod.split intro!: invariant_intros)
qed

lemma step_ok: "tui_step D e s = Some (r, t) \<Longrightarrow> thinking_ok s \<Longrightarrow> thinking_ok t"
proof (cases e)
  case (Entered x)
  assume "tui_step D e s = Some (r, t)" "thinking_ok s"
  then show ?thesis using preservesD [OF submitted_ok, of s D x] by (simp add: Entered)
next
  case Streamed
  assume run: "tui_step D e s = Some (r, t)" and s: "thinking_ok s"
  have "preserves thinking_ok (try_except (bnd (with_conn (\<lambda>_. out)) (show_event D))
      (\<lambda>e. if is_ws_error e then stream_lost else throw e))" for out
    by (intro invariant_intros show_event_ok stream_lost_ok)
  then show ?thesis using run s by (auto simp: Streamed stream_turn_def split: if_splits dest: preserves_run)
next
  case (Chose c)
  assume "tui_step D e s = Some (r, t)" "thinking_ok s"
  moreover have "preserves thinking_ok (tui_switch_team D c)"
    unfolding tui_switch_team_def by (intro invariant_intros)
  ultimately show ?thesis by (auto simp: Chose dest!: preservesD)
next
  case (InView b)
  assume "tui_step D e s = Some (r, t)" "thinking_ok s"
  then show ?thesis by (auto simp: InView thinking_ok_def pending_names_def)
next
  case ToBottom
  assume "tui_step D e s = Some (r, t)" "thinking_ok s"
  then show ?thesis by (auto simp: ToBottom intro: preserves_run [OF simple_ok(6)])
qed

lemma run_ok: "tui_run D es s = Some (r, t) \<Longrightarrow> thinking_ok s \<Longrightarrow> thinking_ok t"
proof (induction es arbitrary: s)
  case (Cons e es)
  then show ?case by (auto split: if_splits option.splits prod.splits sum.splits dest: step_ok)
qed simp


text \<open>Changing the team by a command keeps the pending agents of the old one.\<close>

lemma switch_keeps_pending: "keeps ta_pending (handle_switch D args)"
proof -
  have c: "keeps ta_pending (with_conn p)" for p :: "('a conn, 'z) prog" by (rule with_conn_cases) simp_all
  have w: "keeps ta_pending (tui_world p)" for p :: "('a, 'z) prog"
    by (auto simp: keeps_def tui_world_def on_part_def split: prod.split)
  have d: "keeps ta_pending (with_conn p)" for p :: "('a conn, unit) prog" by (rule with_conn_cases) simp_all
  show ?thesis
    unfolding handle_switch_def stream_events_def mount_system_def mount_error_def mount_def update_team_def Let_def
    by (auto intro!: frame_intros keeps_writing d with_conn_cases split: prod.split)
      (auto simp: keeps_def tui_world_def on_part_def split: prod.split)
qed

section \<open>Deletion\<close>

text \<open>What the requests of the client leave behind, seen in the application.\<close>

abbreviation in_world :: "('w \<Rightarrow> 'o) \<Rightarrow> 'w tui \<Rightarrow> 'o" where
  "in_world f s \<equiv> f (cn_net (ta_conn s))"

definition desktop_spares :: "('w, 'f, 'e) desktop \<Rightarrow> ('w \<Rightarrow> 'o) \<Rightarrow> bool" where
  "desktop_spares D f \<longleftrightarrow> spares_sends (dk_api D) f \<and> sockets_spare (dk_sockets D) f"

lemma keeps_tui_world: "keeps f p \<Longrightarrow> keeps (in_world f) (tui_world p)"
  by (rule keepsI) (auto simp: keeps_def tui_world_def on_part_def split: prod.split, metis snd_conv)

lemma keeps_tui_writing:
  "keeps (in_world f) (writing (\<lambda>s. s\<lparr>ta_conversation := w s\<rparr>))" "keeps (in_world f) (writing (\<lambda>s. s\<lparr>ta_header := h s\<rparr>))"
  "keeps (in_world f) (writing (\<lambda>s. s\<lparr>ta_streaming := b s\<rparr>))" "keeps (in_world f) (writing (\<lambda>s. s\<lparr>ta_exited := b s\<rparr>))"
  "keeps (in_world f) (writing (\<lambda>s. s\<lparr>ta_team_id := i s\<rparr>))" "keeps (in_world f) (writing (\<lambda>s. s\<lparr>ta_team_status := i s\<rparr>))"
  "keeps (in_world f) (writing (\<lambda>s. s\<lparr>ta_team_name := i s, ta_team_status := j s\<rparr>))"
  "keeps (in_world f) (writing (\<lambda>s. s\<lparr>ta_colors := c s, ta_conversation := w s\<rparr>))"
  by (simp_all add: keeps_def)

lemma keeps_widgets:
  "keeps (in_world f) (mount_system t)" "keeps (in_world f) (mount_error t)" "keeps (in_world f) (mount wd)"
  "keeps (in_world f) (update_team n i st)" "keeps (in_world f) (update_connection st)" "keeps (in_world f) exit_app"
  unfolding mount_system_def mount_error_def mount_def update_team_def update_connection_def exit_app_def
  by (intro keeps_tui_writing)+

lemma keeps_or_error_widget:
  "keeps f p \<Longrightarrow> (\<And>x. keeps (in_world f) (k x)) \<Longrightarrow> keeps (in_world f) (or_error_widget what p k)"
  unfolding or_error_widget_def by (intro frame_intros keeps_tui_world keeps_widgets)

lemmas tui_frames = keeps_tui_world keeps_tui_writing keeps_widgets keeps_or_error_widget with_conn_world

lemma keeps_case_prod [frame_intros]: "(\<And>a b. keeps f (k a b)) \<Longrightarrow> keeps f (case y of (a, b) \<Rightarrow> k a b)"
  by (cases y) simp

lemma keeps_stream_events:
  assumes "desktop_spares D f"
  shows "keeps (in_world f) (stream_events D)"
proof -
  have L: "sockets_spare (dk_sockets D) f" using assms by (simp add: desktop_spares_def)
  show ?thesis unfolding stream_events_def by (intro frame_intros tui_frames keeps_cn_connect [OF L])
qed

lemma keeps_handle_switch:
  assumes "desktop_spares D f"
  shows "keeps (in_world f) (handle_switch D args)"
proof -
  have L: "sockets_spare (dk_sockets D) f" and A: "spares_sends (dk_api D) f" using assms by (simp_all add: desktop_spares_def)
  show ?thesis
    unfolding handle_switch_def Let_def
    by (intro frame_intros tui_frames keeps_switch_team [OF L] keeps_api [OF A] keeps_stream_events [OF assms])
qed

text \<open>Every command with an effect of its own but a confirmed deletion.\<close>

lemma keeps_override:
  assumes D: "desktop_spares D f" and n: "name \<noteq> ''delete'' \<or> fst (split_once (strip args)) \<noteq> ''confirm''"
  shows "keeps (in_world f) (dispatch_override D name args)"
proof -
  have L: "sockets_spare (dk_sockets D) f" and A: "spares_sends (dk_api D) f" using D by (simp_all add: desktop_spares_def)
  note a = keeps_api [OF A] and s = keeps_handle_switch [OF D] and e = keeps_stream_events [OF D]
  have "keeps (in_world f) (handle_delete D args)" if "fst (split_once (strip args)) \<noteq> ''confirm''"
  proof -
    obtain first rest where sp: "split_once (strip args) = (first, rest)" by force
    then have first: "(first = ''confirm'') = False" using that by simp
    show ?thesis unfolding handle_delete_def Let_def sp first prod.case if_False by (intro frame_intros tui_frames a)
  qed
  moreover have "keeps (in_world f) (handle_reconnect D)"
    unfolding handle_reconnect_def by (intro frame_intros tui_frames keeps_cn_connect [OF L] e)
  moreover have "keeps (in_world f) (handle_create D args)"
    unfolding handle_create_def Let_def by (intro frame_intros tui_frames a s)
  moreover have "keeps (in_world f) (handle_stop D)"
    unfolding handle_stop_def by (intro frame_intros tui_frames a)
  moreover have "keeps (in_world f) (handle_restore D args)"
    unfolding handle_restore_def Let_def by (intro frame_intros tui_frames a s)
  moreover have "keeps (in_world f) (handle_history D args)"
    unfolding handle_history_def Let_def by (auto split: option.split prod.split intro!: frame_intros tui_frames a)
  moreover note s [of args] keeps_widgets(6) [of f]
  ultimately show ?thesis
    using n unfolding dispatch_override_def handle_quit_def by (cases "name = ''delete''") simp_all
qed

lemma captured_sends: "spares_sends A f \<Longrightarrow> spares_sends (captured_api A) (\<lambda>c. f (cp_world c))"
  by (auto simp: spares_sends_def captured_api_def split: prod.split) (metis snd_conv)

lemma keeps_generic:
  fixes f :: "'a \<Rightarrow> 'b"
  assumes "desktop_spares D f"
  shows "keeps (in_world f) (dispatch_generic D name args)"
proof (rule keepsI)
  fix s :: "'a tui"
  let ?H = "captured_shell (dk_shell D)"
  have A: "spares_sends (sh_api ?H) (\<lambda>c. f (cp_world c))"
    using assms captured_sends by (auto simp: desktop_spares_def captured_shell_def)
  have R: "renderer_spares no_op_renderer (\<lambda>c. f (cp_world c))"
    by (simp add: renderer_spares_def no_op_renderer_def keeps_def)
  have T: "keeps (\<lambda>c. f (cp_world c)) (writing (tm_out (sh_terminal ?H) t))" for t
    by (simp add: keeps_def captured_shell_def)
  have h: "keeps (\<lambda>c. f (cp_world c)) (g args)"
    if "map_of (generic_handlers ?H no_op_renderer (ta_team_id s)) name = Some g" for g
  proof -
    have "(name, g) \<in> set (generic_handlers ?H no_op_renderer (ta_team_id s))" using map_of_SomeD [OF that] .
    then show ?thesis unfolding generic_handlers_def by (auto intro!: keeps_shell_commands [OF A R T])
  qed
  have run: "keeps F m \<Longrightarrow> F (snd (m t)) = F t" for F :: "'a tui \<Rightarrow> 'b" and m :: "('a tui, unit) prog" and t
    by (simp add: keeps_def)
  have m: "in_world f (snd (mount_error x t)) = in_world f t" "in_world f (snd (mount_system x t)) = in_world f t"
    "in_world f (snd (andthen (for_each mount_error ys) (ret ()) t)) = in_world f t"
    "in_world f (snd (andthen (for_each mount_error ys) (mount_system x) t)) = in_world f t" for x t ys
    by (rule run [where F = "in_world f"], intro frame_intros keeps_widgets)+
  show "in_world f (snd (dispatch_generic D name args s)) = in_world f s"
  proof (cases "map_of (generic_handlers ?H no_op_renderer (ta_team_id s)) name")
    case None
    then show ?thesis using m(2) by (simp add: dispatch_generic_def)
  next
    case (Some g)
    obtain r c where run: "g args \<lparr>cp_out = [], cp_errors = [], cp_world = cn_net (ta_conn s)\<rparr> = (r, c)" by force
    have "f (cp_world c) = f (cn_net (ta_conn s))" using keepsD [OF h [OF Some] run] by simp
    then show ?thesis
      using Some run m by (auto simp: dispatch_generic_def Let_def split: sum.split exn.split)
  qed
qed

text \<open>The request a line makes for a deletion.\<close>

definition confirmed_deletions :: "string \<Rightarrow> string \<Rightarrow> api_call list" where
  "confirmed_deletions line current = (case parse_line line of
     Some (name, args) \<Rightarrow>
       (case split_once (strip args) of (first, rest) \<Rightarrow>
          if name = ''delete'' \<and> first = ''confirm''
          then [plain_call ''DELETE'' (''/teams/'' @ (case rest of Some r \<Rightarrow> strip r | None \<Rightarrow> current))] else [])
   | None \<Rightarrow> [])"

definition deletions :: "('w \<Rightarrow> api_call list) \<Rightarrow> 'w \<Rightarrow> api_call list" where
  "deletions log w = filter (\<lambda>c. ca_method c = ''DELETE'') (log w)"

definition desktop_logs :: "('w, 'f, 'e) desktop \<Rightarrow> ('w \<Rightarrow> api_call list) \<Rightarrow> bool" where
  "desktop_logs D log \<longleftrightarrow> (\<forall>c w. log (snd (al_send (dk_api D) c w)) = log w @ [c]) \<and> sockets_spare (dk_sockets D) log"

lemma logs_spare: "desktop_logs D log \<Longrightarrow> desktop_spares D (deletions log)"
  by (auto simp: desktop_logs_def desktop_spares_def spares_sends_def sockets_spare_def keeps_def deletions_def)

lemma delete_sends_one:
  assumes "desktop_logs D log"
  shows "deletions log (snd (api_delete_team (dk_api D) i w)) = deletions log w @ [plain_call ''DELETE'' (''/teams/'' @ i)]"
proof -
  have "log (snd (al_send (dk_api D) c w)) = log w @ [c]" for c using assms by (simp add: desktop_logs_def)
  then have send: "log (snd (send_call (dk_api D) c w)) = log w @ [c]" for c
    by (auto simp: send_call_def split: prod.split sum.split send_failure.split) (metis snd_conv)+
  have "log (snd (api_delete_team (dk_api D) i w)) = log w @ [plain_call ''DELETE'' (''/teams/'' @ i)]"
    using send [of "plain_call ''DELETE'' (''/teams/'' @ i)"]
    by (auto simp: api_delete_team_def no_answer_def api_request_def plain_call_def bnd_def split: prod.split sum.split)
  then show ?thesis by (simp add: deletions_def plain_call_def)
qed

lemma execute_delete_sends:
  assumes "desktop_logs D log"
  shows "in_world (deletions log) (snd (execute_delete D i s)) = in_world (deletions log) s @ [plain_call ''DELETE'' (''/teams/'' @ i)]"
proof -
  obtain r w where d: "api_delete_team (dk_api D) i (cn_net (ta_conn s)) = (r, w)" by force
  have "deletions log w = deletions log (cn_net (ta_conn s)) @ [plain_call ''DELETE'' (''/teams/'' @ i)]"
    using delete_sends_one [OF assms, of i "cn_net (ta_conn s)"] d by simp
  then show ?thesis
    using d
    by (auto simp: execute_delete_def or_error_widget_def tui_world_def on_part_def try_except_def bnd_def andthen_def
        mount_system_def mount_error_def mount_def update_team_def split: sum.split exn.split)
qed

text \<open>What a command deletes, and that a message deletes nothing.\<close>

lemma command_deletes:
  assumes "desktop_logs D log"
  shows "in_world (deletions log) (snd ((if name \<in> set tui_overrides then dispatch_override D name args else dispatch_generic D name args) s)) =
    in_world (deletions log) s @ (case split_once (strip args) of (first, rest) \<Rightarrow>
      if name = ''delete'' \<and> first = ''confirm''
      then [plain_call ''DELETE'' (''/teams/'' @ (case rest of Some r \<Rightarrow> strip r | None \<Rightarrow> ta_team_id s))] else [])"
proof -
  note S = logs_spare [OF assms]
  obtain first rest where sp: "split_once (strip args) = (first, rest)" by force
  let ?run = "if name \<in> set tui_overrides then dispatch_override D name args else dispatch_generic D name args"
  show ?thesis
  proof (cases "name = ''delete'' \<and> first = ''confirm''")
    case False
    then have "keeps (in_world (deletions log)) ?run"
      using keeps_override [OF S, of name args] keeps_generic [OF S] sp by auto
    then show ?thesis using sp False by (simp add: keeps_def)
  next
    case True
    then have "?run s = execute_delete D (case rest of Some r \<Rightarrow> strip r | None \<Rightarrow> ta_team_id s) s"
      using sp by (simp add: dispatch_override_def handle_delete_def tui_overrides_def)
    then show ?thesis using True sp execute_delete_sends [OF assms] by simp
  qed
qed

lemma messages_delete_nothing:
  assumes "desktop_logs D log" "\<not> startswith t ''/''"
  shows "keeps (in_world (deletions log)) (on_chat_input_submitted D t)"
proof -
  have A: "spares_sends (dk_api D) (deletions log)" using logs_spare [OF assms(1)] by (simp add: desktop_spares_def)
  show ?thesis
    using assms(2) unfolding on_chat_input_submitted_def tui_send_message_def
    by (auto split: option.split prod.split intro!: frame_intros tui_frames keeps_api [OF A])
qed

text \<open>
  C23. A line deletes what it confirms. A line entered in the full-screen chat sends a \<open>DELETE\<close> request only if it is
  \<open>/delete confirm\<close>, exactly one, for the team named behind it or else the current team; no other command, and
  no message, deletes anything.
\<close>

theorem only_a_confirmed_team_is_deleted:
  assumes "desktop_logs D log"
  shows "deletions log (cn_net (ta_conn (snd (on_chat_input_submitted D t s)))) =
    deletions log (cn_net (ta_conn s)) @ (if startswith t ''/'' then confirmed_deletions t (ta_team_id s) else [])"
proof (cases "startswith t ''/''")
  case False
  then show ?thesis using messages_delete_nothing [OF assms False] by (simp add: keeps_def)
next
  case True
  show ?thesis
  proof (cases "parse_line t")
    case None
    then show ?thesis using True by (simp add: on_chat_input_submitted_def tui_dispatch_def confirmed_deletions_def bnd_def)
  next
    case (Some na)
    obtain name args where na: "na = (name, args)" by force
    have "snd (on_chat_input_submitted D t s) =
        snd ((if name \<in> set tui_overrides then dispatch_override D name args else dispatch_generic D name args) s)"
      using True Some na
      by (auto simp: on_chat_input_submitted_def tui_dispatch_def bnd_def andthen_def split: prod.split sum.split)
    then show ?thesis
      using command_deletes [OF assms, of name args s] True Some na by (auto simp: confirmed_deletions_def split: prod.split)
  qed
qed

definition desk_desktop :: "(api_call list, unit, unit) desktop" where
  "desk_desktop = \<lparr>dk_shell = desk_shell, dk_sockets = desk_sockets\<rparr>"

definition desk_tui :: "api_call list tui" where
  "desk_tui = new_tui ''Team'' ''t-1'' ''running'' (new_conn ''http://h'' ''t-1'' None 3 [])"

theorem only_a_confirmed_team_is_deleted_witness:
  "deletions (\<lambda>w. w) (cn_net (ta_conn (snd (on_chat_input_submitted desk_desktop ''/delete confirm t-9'' desk_tui)))) =
     [plain_call ''DELETE'' ''/teams/t-9'']"
proof -
  have law: "desktop_logs desk_desktop (\<lambda>w. w)"
    by (simp add: desktop_logs_def desk_desktop_def desk_shell_def desk_api_def desk_sockets_def sockets_spare_def keeps_def)
  have p: "parse_line ''/delete confirm t-9'' = Some (''delete'', ''confirm t-9'')"
    "split_once (strip ''confirm t-9'') = (''confirm'', Some ''t-9'')" "strip ''t-9'' = ''t-9''"
    by code_simp+
  have w: "deletions (\<lambda>w. w) (cn_net (ta_conn desk_tui)) = []"
    by (simp add: desk_tui_def new_tui_def new_conn_def deletions_def)
  show ?thesis
    using only_a_confirmed_team_is_deleted [OF law, of "''/delete confirm t-9''" desk_tui]
    by (simp add: w p confirmed_deletions_def startswith_def)
qed

end
