(* ===== verification/TuiInput.thy ===== *)
theory TuiInput
  imports ChatSession
begin

text \<open>
  \<open>cli/tui/widgets/chat_input.py\<close>, \<open>command_palette.py\<close> and the palette's handlers in \<open>cli/tui/app.py\<close>: the input line
  with its history, and the palette of commands. The two talk by messages, which are handled in the order they were
  posted. The widget library posts one \<open>Changed\<close> for each assignment or edit of the text. Drawing is left out.
\<close>

section \<open>The palette\<close>

type_synonym command_entry = "string \<times> string"

record palette_state =
  pa_commands :: "command_entry list"
  pa_filter :: string
  pa_filtered :: "command_entry list"
  pa_selected :: nat

definition new_palette :: "command_entry list \<Rightarrow> palette_state" where
  "new_palette cmds = \<lparr>pa_commands = cmds, pa_filter = [], pa_filtered = cmds, pa_selected = 0\<rparr>"

definition set_filter :: "string \<Rightarrow> palette_state \<Rightarrow> palette_state" where
  "set_filter v p =
     (let filtered = (if v \<noteq> [] then filter (\<lambda>c. startswith (fst c) v) (pa_commands p) else pa_commands p)
      in p\<lparr>pa_filter := v, pa_filtered := filtered,
           pa_selected := (if filtered \<noteq> [] then min (pa_selected p) (length filtered - 1) else 0)\<rparr>)"

definition selected_command :: "palette_state \<Rightarrow> string option" where
  "selected_command p = (if pa_filtered p = [] then None else Some (fst (pa_filtered p ! pa_selected p)))"

definition move_up :: "palette_state \<Rightarrow> palette_state" where
  "move_up p = (if pa_filtered p \<noteq> [] \<and> 0 < pa_selected p then p\<lparr>pa_selected := pa_selected p - 1\<rparr> else p)"

definition move_down :: "palette_state \<Rightarrow> palette_state" where
  "move_down p = (if pa_filtered p \<noteq> [] \<and> pa_selected p < length (pa_filtered p) - 1
     then p\<lparr>pa_selected := pa_selected p + 1\<rparr> else p)"

text \<open>The lines drawn, and which of them is highlighted.\<close>

definition render_palette :: "palette_state \<Rightarrow> (string \<times> bool) list" where
  "render_palette p =
     (if pa_filtered p = [] then [(''(no matching commands)'', False)]
      else map (\<lambda>(i, c). (CHR ''/'' # ljust 16 (fst c) @ '' '' @ snd c, i = pa_selected p)) (enumerate 0 (pa_filtered p)))"

section \<open>The input line\<close>

datatype input_message =
    TextChanged
  | PaletteRequested
  | PaletteDismissed
  | PaletteFilterChanged string
  | PaletteNavigate bool
  | PaletteSelect
  | PaletteSelectAndSubmit
  | LineSubmitted string

record chat_input =
  in_text :: string
  in_history :: "string list"
  in_history_idx :: int
  in_browsing :: bool
  in_palette_visible :: bool
  in_suppress :: bool

definition new_input :: chat_input where
  "new_input = \<lparr>in_text = [], in_history = [], in_history_idx = -1, in_browsing = False, in_palette_visible = False,
     in_suppress = False\<rparr>"

text \<open>The keys with a meaning here. Any other key edits the text or does not; the arrows move the cursor.\<close>

datatype key = EscapeKey | TabKey | UpKey | DownKey | EnterKey | ShiftEnterKey string | EditKey string | OtherKey

text \<open>A handler gives the input and the messages it posts.\<close>

type_synonym input_step = "chat_input \<times> input_message list"

definition set_command_text :: "string \<Rightarrow> chat_input \<Rightarrow> input_step" where
  "set_command_text cmd s = (s\<lparr>in_suppress := True, in_text := CHR ''/'' # cmd @ '' ''\<rparr>, [TextChanged])"

definition submit_text :: "chat_input \<Rightarrow> input_step" where
  "submit_text s =
     (let t = strip (in_text s) in
      if t = [] then (s, [])
      else (s\<lparr>in_history := in_history s @ [t], in_history_idx := -1, in_browsing := False, in_text := []\<rparr>,
            [LineSubmitted t, TextChanged]))"

definition handle_palette_key :: "key \<Rightarrow> chat_input \<Rightarrow> input_step option" where
  "handle_palette_key k s =
     (if \<not> in_palette_visible s then None
      else (case k of
          EscapeKey \<Rightarrow> Some (s\<lparr>in_palette_visible := False\<rparr>, [PaletteDismissed])
        | TabKey \<Rightarrow> Some (s, [PaletteSelect])
        | UpKey \<Rightarrow> Some (s, [PaletteNavigate True])
        | DownKey \<Rightarrow> Some (s, [PaletteNavigate False])
        | EnterKey \<Rightarrow> Some (s, [PaletteSelectAndSubmit])
        | _ \<Rightarrow> None))"

definition history_up :: "chat_input \<Rightarrow> input_step" where
  "history_up s =
     (if in_history s = [] then (s, [])
      else (let i = (if in_history_idx s < 0 then int (length (in_history s)) - 1
                     else if 0 < in_history_idx s then in_history_idx s - 1 else in_history_idx s)
            in (s\<lparr>in_history_idx := i, in_browsing := True, in_text := in_history s ! nat i\<rparr>, [TextChanged])))"

definition history_down :: "chat_input \<Rightarrow> input_step" where
  "history_down s =
     (if in_history_idx s < int (length (in_history s)) - 1
      then (let i = in_history_idx s + 1 in (s\<lparr>in_history_idx := i, in_text := in_history s ! nat i\<rparr>, [TextChanged]))
      else (s\<lparr>in_history_idx := -1, in_browsing := False, in_text := []\<rparr>, [TextChanged]))"

definition handle_history_key :: "key \<Rightarrow> chat_input \<Rightarrow> input_step option" where
  "handle_history_key k s =
     (if k = UpKey \<and> (in_text s = [] \<or> in_browsing s) then Some (history_up s)
      else if k = DownKey \<and> in_browsing s then Some (history_down s)
      else None)"

definition dismiss_if_visible :: "chat_input \<Rightarrow> input_step" where
  "dismiss_if_visible s = (if in_palette_visible s then (s\<lparr>in_palette_visible := False\<rparr>, [PaletteDismissed]) else (s, []))"

definition input_on_key :: "key \<Rightarrow> chat_input \<Rightarrow> input_step" where
  "input_on_key k s = (case handle_palette_key k s of
     Some r \<Rightarrow> r
   | None \<Rightarrow>
       if k = EnterKey then
         (let (s1, ms) = submit_text s; (s2, ns) = dismiss_if_visible s1 in (s2, ms @ ns))
       else (case handle_history_key k s of
           Some r \<Rightarrow> r
         | None \<Rightarrow> (case k of
               EditKey t \<Rightarrow> (s\<lparr>in_browsing := False, in_text := t\<rparr>, [TextChanged])
             | OtherKey \<Rightarrow> (s\<lparr>in_browsing := False\<rparr>, [])
             | ShiftEnterKey t \<Rightarrow> (s\<lparr>in_text := t\<rparr>, [TextChanged])
             | _ \<Rightarrow> (s, []))))"

definition on_text_area_changed :: "chat_input \<Rightarrow> input_step" where
  "on_text_area_changed s =
     (if in_suppress s then (s\<lparr>in_suppress := False\<rparr>, [])
      else if startswith (in_text s) ''/'' \<and> CHR '' '' \<notin> set (in_text s) then
        (s\<lparr>in_palette_visible := True\<rparr>,
         (if in_palette_visible s then [] else [PaletteRequested]) @ [PaletteFilterChanged (drop 1 (in_text s))])
      else dismiss_if_visible s)"

section \<open>Input and application together\<close>

text \<open>The messages posted and not yet handled, and the lines submitted.\<close>

record input_area =
  ia_commands :: "command_entry list"
  ia_input :: chat_input
  ia_palette :: "palette_state option"
  ia_queue :: "input_message list"
  ia_submitted :: "string list"

definition new_area :: "command_entry list \<Rightarrow> input_area" where
  "new_area cmds = \<lparr>ia_commands = cmds, ia_input = new_input, ia_palette = None, ia_queue = [], ia_submitted = []\<rparr>"

definition posting :: "input_step \<Rightarrow> input_area \<Rightarrow> input_area" where
  "posting r s = s\<lparr>ia_input := fst r, ia_queue := ia_queue s @ snd r\<rparr>"

definition palette_select :: "input_area \<Rightarrow> input_area" where
  "palette_select s = (case ia_palette s of
     None \<Rightarrow> s
   | Some p \<Rightarrow>
       (let t = s\<lparr>ia_palette := None\<rparr> in
        case selected_command p of None \<Rightarrow> t | Some cmd \<Rightarrow> posting (set_command_text cmd (ia_input t)) t))"

definition palette_select_and_submit :: "input_area \<Rightarrow> input_area" where
  "palette_select_and_submit s = (case ia_palette s of
     None \<Rightarrow> s
   | Some p \<Rightarrow>
       (let t = s\<lparr>ia_palette := None\<rparr> in
        case selected_command p of None \<Rightarrow> t
        | Some cmd \<Rightarrow> (let u = posting (set_command_text cmd (ia_input t)) t in posting (submit_text (ia_input u)) u)))"

fun handle_message :: "input_message \<Rightarrow> input_area \<Rightarrow> input_area" where
  "handle_message TextChanged s = posting (on_text_area_changed (ia_input s)) s"
| "handle_message PaletteRequested s =
     (if ia_palette s = None then s\<lparr>ia_palette := Some (new_palette (ia_commands s))\<rparr> else s)"
| "handle_message PaletteDismissed s = s\<lparr>ia_palette := None\<rparr>"
| "handle_message (PaletteFilterChanged v) s = s\<lparr>ia_palette := map_option (set_filter v) (ia_palette s)\<rparr>"
| "handle_message (PaletteNavigate up) s = s\<lparr>ia_palette := map_option (if up then move_up else move_down) (ia_palette s)\<rparr>"
| "handle_message PaletteSelect s = palette_select s"
| "handle_message PaletteSelectAndSubmit s = palette_select_and_submit s"
| "handle_message (LineSubmitted t) s = s\<lparr>ia_submitted := ia_submitted s @ [t]\<rparr>"

text \<open>
  What the application does with a key that reaches it: escape opens the selection of a team, unless a screen
  lies over the chat or the input line has the palette open.
\<close>

definition opens_selection :: "nat \<Rightarrow> key \<Rightarrow> input_area \<Rightarrow> bool" where
  "opens_selection screens k s \<longleftrightarrow> k = EscapeKey \<and> screens \<le> 1 \<and> \<not> in_palette_visible (ia_input s)"

text \<open>How much a message can still cause.\<close>

fun weight :: "input_message \<Rightarrow> nat" where
  "weight TextChanged = 3"
| "weight PaletteSelect = 4"
| "weight PaletteSelectAndSubmit = 8"
| "weight _ = 1"

definition backlog :: "input_area \<Rightarrow> nat" where
  "backlog s = sum_list (map weight (ia_queue s))"

lemma handling_shrinks:
  assumes "ia_queue s = m # ms"
  shows "backlog (handle_message m (s\<lparr>ia_queue := ms\<rparr>)) < backlog s"
  using assms
  by (cases m)
    (auto simp: backlog_def posting_def on_text_area_changed_def dismiss_if_visible_def palette_select_def
      palette_select_and_submit_def set_command_text_def submit_text_def Let_def split: option.split)

text \<open>All messages are handled before the next key comes.\<close>

function settle_area :: "input_area \<Rightarrow> input_area" where
  "settle_area s = (case ia_queue s of [] \<Rightarrow> s | m # ms \<Rightarrow> settle_area (handle_message m (s\<lparr>ia_queue := ms\<rparr>)))"
  by auto
termination by (relation "measure backlog") (simp_all add: handling_shrinks)

declare settle_area.simps [simp del]

definition press :: "key \<Rightarrow> input_area \<Rightarrow> input_area" where
  "press k s = settle_area (posting (input_on_key k (ia_input s)) s)"

definition press_all :: "key list \<Rightarrow> input_area \<Rightarrow> input_area" where
  "press_all ks s = foldl (\<lambda>s k. press k s) s ks"

section \<open>The palette shows what matches\<close>

definition palette_ok :: "palette_state \<Rightarrow> bool" where
  "palette_ok p \<longleftrightarrow> pa_filtered p = filter (\<lambda>c. prefix (pa_filter p) (fst c)) (pa_commands p)
     \<and> (if pa_filtered p = [] then pa_selected p = 0 else pa_selected p < length (pa_filtered p))"

lemma last_index: "i \<le> length xs - Suc 0 \<Longrightarrow> xs \<noteq> [] \<Longrightarrow> i < length xs"
  by (cases xs) auto

lemma palette_ok_steps:
  "palette_ok (new_palette cmds)" "palette_ok (set_filter v p)"
  "palette_ok p \<Longrightarrow> palette_ok (move_up p)" "palette_ok p \<Longrightarrow> palette_ok (move_down p)"
  by (auto simp: palette_ok_def new_palette_def set_filter_def move_up_def move_down_def startswith_def Let_def min_def
      last_index split: if_splits)

definition area_ok :: "command_entry list \<Rightarrow> input_area \<Rightarrow> bool" where
  "area_ok cmds s \<longleftrightarrow> ia_commands s = cmds \<and> pred_option (\<lambda>p. palette_ok p \<and> pa_commands p = cmds) (ia_palette s)"

lemma palette_commands [simp]:
  "pa_commands (set_filter v p) = pa_commands p" "pa_commands (move_up p) = pa_commands p"
  "pa_commands (move_down p) = pa_commands p" "pa_commands (new_palette cmds) = cmds"
  by (simp_all add: set_filter_def move_up_def move_down_def new_palette_def Let_def)

lemma handle_ok: "area_ok cmds s \<Longrightarrow> area_ok cmds (handle_message m s)"
  by (cases m; cases "ia_palette s")
    (auto simp: area_ok_def posting_def palette_select_def palette_select_and_submit_def Let_def palette_ok_steps
      split: option.split)

lemma settle_ok: "area_ok cmds s \<Longrightarrow> area_ok cmds (settle_area s) \<and> ia_queue (settle_area s) = []"
proof (induction s rule: settle_area.induct)
  case (1 s)
  show ?case
  proof (cases "ia_queue s")
    case Nil
    then show ?thesis using 1(2) by (simp add: settle_area.simps [of s])
  next
    case (Cons m ms)
    have "area_ok cmds (s\<lparr>ia_queue := ms\<rparr>)" using 1(2) by (simp add: area_ok_def)
    then show ?thesis using 1(1) [OF Cons handle_ok] Cons by (simp add: settle_area.simps [of s])
  qed
qed

lemma press_all_ok: "area_ok cmds s \<Longrightarrow> ia_queue s = [] \<Longrightarrow> area_ok cmds (press_all ks s) \<and> ia_queue (press_all ks s) = []"
proof (induction ks arbitrary: s)
  case (Cons k ks)
  have "area_ok cmds (posting (input_on_key k (ia_input s)) s)" using Cons.prems by (simp add: area_ok_def posting_def)
  then have "area_ok cmds (press k s)" "ia_queue (press k s) = []" using settle_ok by (simp_all add: press_def)
  then show ?case using Cons.IH by (simp add: press_all_def)
qed (simp add: press_all_def)

text \<open>
  C39. The palette is well formed. After any keys all messages have been handled, and a palette that is open lists
  exactly the commands that start with its filter, in the order of the registry, with one of them selected unless
  there is none.
\<close>

theorem palette_is_well_formed:
  "let s = press_all ks (new_area cmds) in
   ia_queue s = [] \<and>
   (case ia_palette s of
      None \<Rightarrow> True
    | Some p \<Rightarrow> pa_filtered p = filter (\<lambda>c. prefix (pa_filter p) (fst c)) cmds
        \<and> selected_command p = (if pa_filtered p = [] then None else Some (fst (pa_filtered p ! pa_selected p)))
        \<and> (if pa_filtered p = [] then pa_selected p = 0 else pa_selected p < length (pa_filtered p)))"
proof -
  have "area_ok cmds (new_area cmds)" "ia_queue (new_area cmds) = []" by (simp_all add: area_ok_def new_area_def)
  note press_all_ok [OF this, of ks]
  then show ?thesis
    by (cases "ia_palette (press_all ks (new_area cmds))") (auto simp: area_ok_def palette_ok_def selected_command_def split: if_splits)
qed

section \<open>History\<close>

definition walk :: "key \<Rightarrow> chat_input \<Rightarrow> chat_input" where
  "walk k s = (case handle_history_key k s of None \<Rightarrow> s | Some r \<Rightarrow> fst r)"

definition at_entry :: "string list \<Rightarrow> nat \<Rightarrow> chat_input \<Rightarrow> chat_input" where
  "at_entry hist i s = (if i < length hist
     then s\<lparr>in_text := hist ! i, in_history := hist, in_history_idx := int i, in_browsing := True\<rparr>
     else s\<lparr>in_text := [], in_history := hist, in_history_idx := -1, in_browsing := False\<rparr>)"

lemma walk_up: "i \<le> length hist \<Longrightarrow> hist \<noteq> [] \<Longrightarrow> walk UpKey (at_entry hist i s) = at_entry hist (if i = 0 then 0 else i - 1) s"
  by (auto simp: walk_def handle_history_key_def history_up_def at_entry_def Let_def of_nat_diff nat_diff_distrib)

lemma walk_down: "i \<le> length hist \<Longrightarrow> hist \<noteq> [] \<Longrightarrow> walk DownKey (at_entry hist i s) = at_entry hist (min (Suc i) (length hist)) s"
  by (auto simp: walk_def handle_history_key_def history_down_def at_entry_def Let_def nat_add_distrib min_def)

lemma walk_ups: "hist \<noteq> [] \<Longrightarrow> (walk UpKey ^^ k) (at_entry hist (length hist) s) = at_entry hist (length hist - min k (length hist)) s"
  by (induction k) (auto simp: walk_up min_def Suc_diff_Suc le_Suc_eq)

lemma walk_downs: "i \<le> length hist \<Longrightarrow> hist \<noteq> [] \<Longrightarrow> (walk DownKey ^^ j) (at_entry hist i s) = at_entry hist (min (i + j) (length hist)) s"
  by (induction j) (auto simp: walk_down min_def)

text \<open>A line that is no command: it never opens the palette, neither typed nor recalled.\<close>

definition no_command :: "string \<Rightarrow> bool" where
  "no_command l \<longleftrightarrow> strip l \<noteq> [] \<and> \<not> startswith l ''/'' \<and> \<not> startswith (strip l) ''/''"

definition at_rest :: "input_area \<Rightarrow> bool" where
  "at_rest s \<longleftrightarrow> \<not> in_palette_visible (ia_input s) \<and> \<not> in_suppress (ia_input s) \<and> ia_queue s = []"

lemma settled: "ia_queue s = [] \<Longrightarrow> settle_area s = s"
  by (simp add: settle_area.simps [of s])

lemma settle_plain_text:
  assumes "ia_queue s = [TextChanged]" "\<not> in_palette_visible (ia_input s)" "\<not> in_suppress (ia_input s)"
    and "\<not> startswith (in_text (ia_input s)) ''/''"
  shows "settle_area s = s\<lparr>ia_queue := []\<rparr>"
  using assms by (simp add: settle_area.simps [of s] settled posting_def on_text_area_changed_def dismiss_if_visible_def)

lemma press_arrow:
  assumes "at_rest s" "k = UpKey \<or> k = DownKey" "\<not> startswith (in_text (walk k (ia_input s))) ''/''"
  shows "press k s = s\<lparr>ia_input := walk k (ia_input s)\<rparr>"
proof (cases "handle_history_key k (ia_input s)")
  case None
  then show ?thesis using assms by (auto simp: at_rest_def press_def input_on_key_def handle_palette_key_def posting_def walk_def settled)
next
  case (Some r)
  have r: "snd r = [] \<or> snd r = [TextChanged]" "\<not> in_palette_visible (fst r)" "\<not> in_suppress (fst r)"
    using Some assms(1) by (auto simp: at_rest_def handle_history_key_def history_up_def history_down_def Let_def split: if_splits)
  have "press k s = settle_area (posting r s)" using assms Some
    by (auto simp: at_rest_def press_def input_on_key_def handle_palette_key_def)
  moreover have "settle_area (posting r s) = s\<lparr>ia_input := fst r\<rparr>"
    using r assms(1,3) Some by (auto simp: at_rest_def posting_def walk_def settled settle_plain_text)
  ultimately show ?thesis using Some by (simp add: walk_def)
qed

lemma settle_submitted:
  assumes "ia_queue s = [LineSubmitted t, TextChanged]" "\<not> in_palette_visible (ia_input s)" "\<not> in_suppress (ia_input s)"
    and "in_text (ia_input s) = []"
  shows "settle_area s = s\<lparr>ia_submitted := ia_submitted s @ [t], ia_queue := []\<rparr>"
proof -
  have "settle_area s = settle_area (s\<lparr>ia_queue := [TextChanged], ia_submitted := ia_submitted s @ [t]\<rparr>)"
    using assms(1) by (simp add: settle_area.simps [of s])
  then show ?thesis using assms(2-4) by (simp add: settle_plain_text startswith_def)
qed

text \<open>Typing a line and sending it.\<close>

definition sent :: "string \<Rightarrow> input_area \<Rightarrow> input_area" where
  "sent t s = s\<lparr>ia_submitted := ia_submitted s @ [t], ia_input := (ia_input s)\<lparr>in_history := in_history (ia_input s) @ [t],
     in_history_idx := -1, in_browsing := False\<rparr>\<rparr>"

lemma type_line:
  assumes "no_command l" "at_rest s" "in_text (ia_input s) = []"
  shows "press_all [EditKey l, EnterKey] s = sent (strip l) s"
proof -
  let ?i = "(ia_input s)\<lparr>in_browsing := False, in_text := l\<rparr>" and ?t = "strip l"
  let ?j = "?i\<lparr>in_history := in_history (ia_input s) @ [?t], in_history_idx := -1, in_browsing := False, in_text := []\<rparr>"
  have l: "?t \<noteq> []" "\<not> startswith l ''/''" and rest: "\<not> in_palette_visible (ia_input s)" "\<not> in_suppress (ia_input s)" "ia_queue s = []"
    using assms(1,2) by (simp_all add: no_command_def at_rest_def)
  have "press (EditKey l) s = s\<lparr>ia_input := ?i\<rparr>"
    using l rest by (simp add: press_def input_on_key_def handle_palette_key_def handle_history_key_def posting_def settle_plain_text)
  moreover have "input_on_key EnterKey ?i = (?j, [LineSubmitted ?t, TextChanged])"
    using l rest by (simp add: input_on_key_def handle_palette_key_def submit_text_def dismiss_if_visible_def Let_def)
  then have "press EnterKey (s\<lparr>ia_input := ?i\<rparr>) = s\<lparr>ia_submitted := ia_submitted s @ [?t], ia_input := ?j\<rparr>"
    using rest by (simp add: press_def posting_def settle_submitted)
  ultimately have "press_all [EditKey l, EnterKey] s = s\<lparr>ia_submitted := ia_submitted s @ [?t], ia_input := ?j\<rparr>"
    by (simp add: press_all_def)
  then show ?thesis using assms(3) by (cases s; cases "ia_input s") (simp add: sent_def)
qed

lemma type_lines:
  assumes "\<forall>l \<in> set ls. no_command l" "at_rest s" "in_text (ia_input s) = []"
  shows "press_all (concat (map (\<lambda>l. [EditKey l, EnterKey]) ls)) s = foldl (\<lambda>s l. sent (strip l) s) s ls"
  using assms
proof (induction ls arbitrary: s)
  case (Cons l ls)
  have "press_all [EditKey l, EnterKey] s = sent (strip l) s" using Cons.prems by (simp add: type_line)
  moreover have "at_rest (sent (strip l) s)" "in_text (ia_input (sent (strip l) s)) = []"
    using Cons.prems by (simp_all add: at_rest_def sent_def)
  ultimately show ?case using Cons by (simp add: press_all_def)
qed (simp add: press_all_def)

lemma all_sent:
  "foldl (\<lambda>s l. sent (strip l) s) s ls = (if ls = [] then s else s\<lparr>ia_submitted := ia_submitted s @ map strip ls,
     ia_input := (ia_input s)\<lparr>in_history := in_history (ia_input s) @ map strip ls, in_history_idx := -1, in_browsing := False\<rparr>\<rparr>)"
  by (induction ls arbitrary: s) (simp_all add: sent_def)

lemma press_arrows:
  assumes "at_rest s" "ia_input s = at_entry hist i inp" "hist \<noteq> []" "i \<le> length hist" "\<forall>t \<in> set hist. \<not> startswith t ''/''"
    and "k = UpKey \<or> k = DownKey"
  shows "\<exists>i' \<le> length hist. press_all (replicate n k) s = s\<lparr>ia_input := at_entry hist i' inp\<rparr>
    \<and> at_entry hist i' inp = (walk k ^^ n) (at_entry hist i inp)"
  using assms(1,2,4)
proof (induction n arbitrary: s i)
  case 0
  then show ?case by (intro exI [of _ i]) (simp add: press_all_def)
next
  case (Suc n)
  define m where "m = (if k = UpKey then i - 1 else min (Suc i) (length hist))"
  have w: "walk k (at_entry hist i inp) = at_entry hist m inp" "m \<le> length hist"
    using assms(3,6) Suc.prems(3) by (auto simp: walk_up walk_down m_def)
  have "\<not> startswith (in_text (at_entry hist m inp)) ''/''" using assms(5) by (simp add: at_entry_def startswith_def)
  then have p: "press k s = s\<lparr>ia_input := at_entry hist m inp\<rparr>" using Suc.prems w assms(6) by (simp add: press_arrow)
  have "at_rest (press k s)" using Suc.prems(1,2) p by (simp add: at_rest_def at_entry_def split: if_splits)
  from Suc.IH [OF this, of m] show ?case using p w Suc.prems(2)
    by (auto simp: press_all_def funpow_swap1)
qed

text \<open>
  The arrows recall what was sent. Typing lines that are no commands and entering each sends each of them,
  stripped, once and in order; then k times up and j times down shows the one that is k - j back from the end,
  stopping at the oldest above and at the empty line below, and nothing more is sent.
\<close>

theorem arrows_walk_the_history:
  assumes "\<forall>l \<in> set ls. no_command l"
  shows "let n = length ls; i = n - min k n + j;
       s = press_all (concat (map (\<lambda>l. [EditKey l, EnterKey]) ls) @ replicate k UpKey @ replicate j DownKey) (new_area cmds)
     in ia_submitted s = map strip ls \<and> in_history (ia_input s) = map strip ls \<and> ia_palette s = None
      \<and> in_text (ia_input s) = (if i < n then strip (ls ! i) else [])"
proof (cases "ls = []")
  case True
  have "press k (new_area cmds) = new_area cmds" if "k = UpKey \<or> k = DownKey" for k
    using that by (auto simp: new_area_def new_input_def press_def input_on_key_def handle_palette_key_def handle_history_key_def
        history_up_def posting_def settled)
  then have "press_all (replicate m k) (new_area cmds) = new_area cmds" if "k = UpKey \<or> k = DownKey" for m k
    using that by (induction m) (simp_all add: press_all_def)
  then show ?thesis using True by (simp add: press_all_def Let_def new_area_def new_input_def)
next
  case False
  define hist where "hist = map strip ls"
  have hist: "hist \<noteq> []" "\<forall>t \<in> set hist. \<not> startswith t ''/''" "length hist = length ls"
    using False assms by (auto simp: hist_def no_command_def)
  define a where "a = press_all (concat (map (\<lambda>l. [EditKey l, EnterKey]) ls)) (new_area cmds)"
  have a: "a = (new_area cmds)\<lparr>ia_submitted := hist, ia_input := at_entry hist (length hist) new_input\<rparr>"
    using type_lines [OF assms, of "new_area cmds"] False
    by (simp add: a_def all_sent hist_def at_entry_def new_area_def new_input_def at_rest_def)
  have rest: "at_rest a" by (simp add: a at_rest_def at_entry_def new_area_def new_input_def)
  obtain u where u: "u \<le> length hist" "press_all (replicate k UpKey) a = a\<lparr>ia_input := at_entry hist u new_input\<rparr>"
      "at_entry hist u new_input = at_entry hist (length hist - min k (length hist)) new_input"
    using press_arrows [OF rest _ hist(1) order.refl hist(2), of new_input UpKey k] hist(1) by (auto simp: a walk_ups)
  let ?b = "press_all (replicate k UpKey) a" and ?u = "length hist - min k (length hist)"
  have b: "at_rest ?b" "ia_input ?b = at_entry hist ?u new_input"
    using u rest by (simp_all add: at_rest_def at_entry_def new_input_def)
  obtain d where d: "press_all (replicate j DownKey) ?b = ?b\<lparr>ia_input := at_entry hist (min (?u + j) (length hist)) new_input\<rparr>"
    using press_arrows [OF b hist(1) _ hist(2), of DownKey j] hist(1) by (auto simp: walk_downs)
  have "press_all (concat (map (\<lambda>l. [EditKey l, EnterKey]) ls) @ replicate k UpKey @ replicate j DownKey) (new_area cmds)
      = a\<lparr>ia_input := at_entry hist (min (?u + j) (length hist)) new_input\<rparr>"
    using d u(2) by (simp add: press_all_def a_def)
  then show ?thesis using hist(3) by (auto simp: Let_def a at_entry_def hist_def new_area_def)
qed

lemma arrows_walk_the_history_witness:
  "let s = press_all (concat (map (\<lambda>l. [EditKey l, EnterKey]) [''one'', '' two'']) @ replicate 3 UpKey @ replicate 1 DownKey)
       (new_area [(''stop'', ''Stop the team'')])
   in ia_submitted s = [''one'', ''two''] \<and> in_text (ia_input s) = ''two''"
proof -
  have "\<forall>l \<in> set [''one'', '' two'']. no_command l" "strip '' two'' = ''two''" "strip ''one'' = ''one''" by code_simp+
  then show ?thesis
    using arrows_walk_the_history [of "[''one'', '' two'']" 3 1 "[(''stop'', ''Stop the team'')]"] by (simp add: Let_def)
qed

section \<open>Where the two disagree\<close>

text \<open>After a completion by Tab the input line still believes that the palette is open: Enter does nothing.\<close>

lemma tab_leaves_enter_dead:
  "let s = press_all [EditKey ''/'', EditKey ''/s'', TabKey, EnterKey, EnterKey] (new_area [(''stop'', ''Stop the team'')])
   in ia_submitted s = [] \<and> in_text (ia_input s) = ''/stop '' \<and> ia_palette s = None \<and> in_palette_visible (ia_input s)"
  by code_simp

text \<open>A command in the history opens the palette, which takes the arrows: the entries before it are out of reach.\<close>

lemma command_stops_the_walk:
  "let s = press_all [EditKey ''hi'', EnterKey, EditKey ''/stop'', EnterKey, UpKey, UpKey, UpKey] (new_area [(''stop'', ''Stop the team'')])
   in ia_submitted s = [''hi'', ''/stop''] \<and> in_history (ia_input s) = [''hi'', ''/stop''] \<and> in_text (ia_input s) = ''/stop''"
  by code_simp

end
