(* ===== verification/Spec2Isabelle.thy ===== *)
theory Spec2Isabelle
  imports EventStreamConc PlacementConc Wiring WorkerRoutes Subscribers AutoAuth ClientRoutes TeamSelect TeamSelector
    ChatBuffer TuiSafety TuiInput
begin

text \<open>
  A verification development of akgentic-infra, the server that hosts teams of agents: it starts and
  stops teams, delivers messages to them, streams their events to WebSockets and bridges them to chats.
  Source paths below are relative to \<open>src/src/akgentic/infra/\<close>.

  The program and its parts.
  A request passes the authentication middleware, a route, and the gate of the team it names; the route
  calls the team service; the service reads the event store, looks a live handle up in the runtime
  cache, revives a stopped team through the placement, and delivers through the handle. What a team
  emits goes through its orchestrator to subscribers: the event stream, which WebSocket connections read,
  the telemetry queue, and the channel dispatcher, which posts to chats. A chat's inbound messages come
  through the webhook route and the channel router, which binds conversations to teams in a registry. An
  ordered list of modules is composed into the application; a worker process serves a part of the
  same routes for the teams it holds. The command line client signs in, calls the routes, and chats with a
  team in a terminal session or a full-screen application that read the team's WebSocket.

  How the code is modelled.
  A method that reads and writes a state and may raise is a function \<open>('s, 'a) prog\<close> from a state to a
  result and a state (\<open>Prelude\<close>): \<open>Inl\<close> an exception of the datatype \<open>exn\<close>, \<open>Inr\<close> a value; the state survives
  an exception, as it does in Python. \<open>bnd\<close>, \<open>andthen\<close>, \<open>try_except\<close>, \<open>try_finally\<close>, \<open>best_effort\<close> and \<open>for_each\<close> are the
  statements. A dictionary is an association list in insertion order where order shows, a team id a
  128-bit word. Text is a list of Latin-1 code points, in which the dash the code's messages contain
  (U+2014) is represented by the code point 0x97, which Windows Latin-1 gives to it. Logging has no effect.
  The other akgentic packages and libraries (event store, team manager, actor runtime, catalog, pydantic,
  YAML, HTTP client, exporter, operating system) are parameters: records of functions, or locales where the code relies
  on a law. \<open>Reference\<close> and the samples in each theory instantiate them, so that every
  hypothesis is shown to be satisfiable. \<open>Prelude\<close>, \<open>PyText\<close>, \<open>Uuid\<close> and \<open>Data\<close> hold what is shared: Python's
  sequences and string methods, \<open>uuid.UUID\<close> on text, and the records that travel between components.

  Event streams. \<open>EventStream\<close> models \<open>adapters/community/local_event_stream.py\<close> with streams as objects in a store, since
  readers keep a stream after it was removed; the locale \<open>event_stream\<close> is \<open>protocols/event_stream.py\<close>. Its lemmas
  show that any sequence of calls answers as one list per team would. \<open>EventStreamConc\<close> interleaves the
  statements of writers and readers: nothing is lost or reordered, and a waiting reader is woken.
  \<open>Subscribers\<close> models \<open>adapters/shared/event_stream_subscriber.py\<close>, \<open>telemetry_subscriber.py\<close> and \<open>null_event_stream.py\<close>: what a
  stream holds after any hooks of all orchestrators, and that telemetry neither loses nor reorders.

  Teams. \<open>Placement\<close> and \<open>PlacementConc\<close> model \<open>adapters/community/local_placement.py\<close>: creation keys, the table of calls in
  flight, and threads that park on a claim; a key is created once and parked duplicates share its outcome.
  \<open>RuntimeCache\<close> models the cache, its protocol (locales \<open>handle_store\<close> and \<open>runtime_cache\<close>), \<open>warm()\<close> and the
  eviction subscriber. \<open>TeamTier\<close> is \<open>server/deps.py\<close>, the services a tier wires, with the community
  tier as its instance. \<open>TeamService\<close> models every operation of \<open>server/services/team_service.py\<close>: creation, lifecycle,
  deliveries with revival, metadata, deletion; its lemmas cover each error branch. \<open>Workspaces\<close>
  (\<open>_workspace_paths.py\<close>, the deletion policies) says which directories a deletion may remove. \<open>MetadataPayload\<close>
  is \<open>_metadata_payload.py\<close>, \<open>Description\<close> \<open>server/description.py\<close>, \<open>TeamListing\<close> the filters and pages of a listing.

  Access. \<open>TeamAccess\<close> models \<open>protocols/authz.py\<close>, the owner-or-admin policy, \<open>routes/_team_access.py\<close> and the workspace routes;
  \<open>WsRoute\<close> the connection manager and the life of WebSocket connections as steps of an inductive relation, in any
  interleaving; \<open>TeamRoutes\<close> every route of \<open>routes/teams.py\<close> behind its gate, with the statuses its errors become;
  \<open>ServerAuth\<close> the authentication middleware, the strategy loader and the router dependency; \<open>AdminCatalog\<close> the
  owner gates of the admin catalog, their attachment and the mutation log.

  Channels. \<open>Channels\<close> is \<open>protocols/channels.py\<close>; \<open>YamlRegistry\<close> the registry file and its index; \<open>ChannelText\<close>, \<open>ChannelRouter\<close>
  the text patterns and the default router of \<open>channel_router.py\<close>; \<open>ChannelRouting\<close> its behaviour on the registry, with any
  team service; \<open>Telegram\<close> adapter and parser; \<open>ChannelDelivery\<close> the dispatcher, the parser registry and
  the webhook route, from a message of the team to the post in the chat.

  Composition. \<open>Assembly\<close> is \<open>server/assembly.py\<close>; \<open>AppBuild\<close> and \<open>AppRoutes\<close> show what a build guarantees of middleware order,
  state, lifespans and routes, and what the manifest delta says. \<open>CoreApp\<close> holds the state keys, the
  core module with its drain lifespan, the readiness probe and the factory: the community app builds,
  starts ready and shuts down in order. \<open>Wiring\<close> is \<open>wiring.py\<close>, which puts the community tier together and boots it
  although a team may be broken, with the settings and the readiness of a worker. \<open>WorkerRoutes\<close> is \<open>worker/routes/teams.py\<close>, compared with the server's routes.

  Signing in. \<open>CliProfile\<close> is \<open>cli/config/profile.py\<close>: which profile is active. \<open>TokenCache\<close> is \<open>cli/auth/cache.py\<close> as a
  sequence of system calls that may be cut off anywhere, \<open>DeviceFlow\<close> \<open>cli/auth/oidc.py\<close> with its polling loop, \<open>TokenProvider\<close>
  \<open>cli/auth/token_provider.py\<close>: a save is atomic, polling ends with the grant, a token is the cached or the refreshed
  one. \<open>AutoAuth\<close> is \<open>cli/http\<close> and the login and logout commands: at most one retry, and no credential for a
  profile without one.

  The client. \<open>ApiClient\<close> is \<open>cli/client.py\<close>: what each call sends and what it makes of an answer; \<open>ClientRoutes\<close> matches its
  calls with the routes of the server. \<open>CliConnection\<close> is \<open>cli/ws_client.py\<close> and \<open>cli/connection.py\<close>: one socket per manager,
  growing delays, and what a failed switch leaves. \<open>CliMain\<close> holds the global options and the commands of
  \<open>cli/main.py\<close>, \<open>cli/commands/catalog.py\<close> and \<open>channel.py\<close>, and \<open>cli/formatters.py\<close>: which credential is used.

  Chatting. \<open>CliEvents\<close> is \<open>cli/event_router.py\<close> with \<open>cli/renderers.py\<close> and \<open>cli/tui/colors.py\<close>: both views show the same. \<open>CliCommands\<close>
  and \<open>ChatSession\<close> are \<open>cli/repl_commands.py\<close> and \<open>cli/repl.py\<close>: slash commands, the reply mode, lines that wait for the
  connection; a session is run over a list of turns, lines typed and events received. \<open>ChatSafety\<close> shows what a
  session never sends and what it sends once, \<open>ChatBuffer\<close> that lines never wait for the connection. \<open>TeamSelector\<close> is the menu before a session, \<open>TeamSelect\<close> the one
  of the full-screen application (\<open>cli/tui/screens/team_select.py\<close>). \<open>TuiApp\<close> is \<open>cli/tui/app.py\<close>, \<open>command_adapter.py\<close> and
  \<open>widgets/status_header.py\<close>, run over a list of events; \<open>TuiSafety\<close> shows its invariant and what it deletes. \<open>TuiInput\<close> is
  the input line with its history and the palette (\<open>widgets/chat_input.py\<close>, \<open>command_palette.py\<close>) and the messages between them.

  Bounds and fuel. No definition runs on fuel: nearly every loop of the modelled code goes over a list that is
  there when it starts. Waiting loops (a reader's \<open>read_next\<close>, parked threads, WebSocket handlers, the telemetry
  worker) are steps of a relation or of a schedule instead, and properties hold for every schedule. Loops
  that may go on for ever are \<open>partial_function (option)\<close>: the polling of the device flow and the start menu,
  both proved to end when time passes and input runs out, and the reading of a socket, which waits until an
  event comes. The messages of the input line are handled until none is left, which a measure bounds.
  Page sizes and numbers are unbounded integers as in Python; ids are 128-bit words.

  Assumptions that are not visible in a statement. FastAPI runs a route's dependencies before the route, a
  router's before the route's own, and matches the first mounted route; Starlette puts each added
  middleware outermost. The registry file is read and written whole by one process. Keys of the file and of the
  registry's sections are text. \<open>Catalog.list_by_namespace\<close> does not raise. In the client, the names of profiles
  have no slash and endpoints no user name; time moves in sleeps and requests only. The calls of a connection
  manager run one after the other: what two of them do to each other between awaits is not modelled, and
  the callback on a change of state runs when the call is over. The widget library posts one \<open>Changed\<close> for each
  assignment of a text and handles messages in the order of posting. Texts of validation errors, and \<open>int\<close> on
  more than 4300 digits, are left out; signs outside Latin-1 that a menu or a header draws are stood for by
  control characters.

  Not modelled. \<open>worker/routes/memory_diagnostics.py\<close> forwards to another package; the settings' reading of the
  environment is a library's. Of the client, the drawing of widgets, lists, borders and hints and the completer of the
  terminal prompt are left out: they call a library and keep no state of the program.
\<close>

end
